(* ===== verification/Prelude.thy ===== *)
theory Prelude
  imports Main "HOL-Library.List_Lexorder" "HOL-Library.Char_ord"
begin

text \<open>
  Shared vocabulary of the development: results, the parts of the Rust string library that the
  program calls, and sorted association lists as the model of its maps.

  A Rust \<open>String\<close> is a UTF-8 byte string, so it is a \<^typ>\<open>string\<close> of 8-bit characters here:
  \<open>length\<close> counts bytes as \<open>str::len\<close> does, and the order on strings is the bytewise
  lexicographic order that \<open>Ord for str\<close> uses. Only ASCII characters are white space for
  \<open>str::trim\<close> and \<open>split_whitespace\<close> in this model.
\<close>

named_theorems str_defs \<open>definitions of the string operations, for evaluation\<close>
named_theorems dict_simps \<open>how the map operations read back\<close>

subsection \<open>Results\<close>

text \<open>\<open>Result<T, E>\<close> is a sum with the error on the left, \<open>Option<T>\<close> is \<^typ>\<open>'a option\<close>.\<close>

type_synonym ('e, 'a) result = "'e + 'a"

fun ok :: "('e, 'a) result \<Rightarrow> 'a option" where
  "ok (Inl e) = None"
| "ok (Inr a) = Some a"

fun is_ok :: "('e, 'a) result \<Rightarrow> bool" where
  "is_ok (Inl e) = False"
| "is_ok (Inr a) = True"

fun map_err :: "('e \<Rightarrow> 'f) \<Rightarrow> ('e, 'a) result \<Rightarrow> ('f, 'a) result" where
  "map_err f (Inl e) = Inl (f e)"
| "map_err f (Inr a) = Inr a"

definition flatten :: "'a option option \<Rightarrow> 'a option" where
  "flatten x = (case x of None \<Rightarrow> None | Some y \<Rightarrow> y)"

definition unwrap_or :: "'a \<Rightarrow> 'a option \<Rightarrow> 'a" where
  "unwrap_or d x = (case x of None \<Rightarrow> d | Some a \<Rightarrow> a)"

lemma unwrap_or_simps [simp]: "unwrap_or d None = d" "unwrap_or d (Some a) = a"
  by (simp_all add: unwrap_or_def)

lemma flatten_simps [simp]: "flatten None = None" "flatten (Some y) = y"
  by (simp_all add: flatten_def)

text \<open>\<open>iter().filter_map(f)\<close>, and \<open>collect::<Option<Vec<_>>>\<close> / \<open>collect::<Result<Vec<_>, _>>\<close>.\<close>

fun filter_map :: "('a \<Rightarrow> 'b option) \<Rightarrow> 'a list \<Rightarrow> 'b list" where
  "filter_map f [] = []"
| "filter_map f (x # xs) = (case f x of None \<Rightarrow> filter_map f xs | Some y \<Rightarrow> y # filter_map f xs)"

fun collect_opt :: "'a option list \<Rightarrow> 'a list option" where
  "collect_opt [] = Some []"
| "collect_opt (None # xs) = None"
| "collect_opt (Some x # xs) = map_option (Cons x) (collect_opt xs)"

fun collect_res :: "('e, 'a) result list \<Rightarrow> ('e, 'a list) result" where
  "collect_res [] = Inr []"
| "collect_res (Inl e # xs) = Inl e"
| "collect_res (Inr x # xs) = (case collect_res xs of Inl e \<Rightarrow> Inl e | Inr ys \<Rightarrow> Inr (x # ys))"

lemma filter_map_cong [fundef_cong]:
  "xs = ys \<Longrightarrow> (\<And>x. x \<in> set ys \<Longrightarrow> f x = g x) \<Longrightarrow> filter_map f xs = filter_map g ys"
proof (induction xs arbitrary: ys)
  case (Cons x xs)
  then show ?case by (cases ys) (auto split: option.splits)
qed simp

lemma set_filter_map: "set (filter_map f xs) = {y. \<exists>x \<in> set xs. f x = Some y}"
  by (induction xs) (auto split: option.splits)

lemma filter_map_append [simp]: "filter_map f (xs @ ys) = filter_map f xs @ filter_map f ys"
  by (induction xs) (auto split: option.splits)

lemma collect_opt_Some: "collect_opt xs = Some ys \<longleftrightarrow> xs = map Some ys"
  by (induction xs arbitrary: ys rule: collect_opt.induct) (auto simp: Cons_eq_map_conv)

lemma collect_res_map: "collect_res (map f xs) = Inr ys \<Longrightarrow> list_all2 (\<lambda>x y. f x = Inr y) xs ys"
proof (induction xs arbitrary: ys)
  case (Cons a xs)
  then show ?case by (cases "f a") (auto split: sum.splits)
qed simp

lemma list_all2_member: "list_all2 P xs ys \<Longrightarrow> y \<in> set ys \<Longrightarrow> \<exists>x \<in> set xs. P x y"
  by (induction rule: list_all2_induct) auto

lemma collect_res_err: "collect_res (map f xs) = Inl e \<Longrightarrow> \<exists>x \<in> set xs. f x = Inl e"
proof (induction xs)
  case (Cons a xs)
  then show ?case by (cases "f a") (auto split: sum.splits)
qed simp

text \<open>\<open>std::cmp::Ordering\<close>.\<close>

datatype ordering = Less | Equal | Greater

definition cmp_of :: "'a::linorder \<Rightarrow> 'a \<Rightarrow> ordering" where
  "cmp_of a b = (if a < b then Less else if a = b then Equal else Greater)"

fun reverse_ord :: "ordering \<Rightarrow> ordering" where
  "reverse_ord Less = Greater"
| "reverse_ord Equal = Equal"
| "reverse_ord Greater = Less"

lemma reverse_ord_invol [simp]: "reverse_ord (reverse_ord r) = r"
  by (cases r) auto

lemma reverse_ord_eq_Equal [simp]: "reverse_ord r = Equal \<longleftrightarrow> r = Equal"
  by (cases r) auto

lemma cmp_of_simps [simp]:
  "cmp_of a b = Less \<longleftrightarrow> a < b" "cmp_of a b = Equal \<longleftrightarrow> a = b" "cmp_of a b = Greater \<longleftrightarrow> b < a"
  by (auto simp: cmp_of_def)

lemma reverse_cmp_of: "reverse_ord (cmp_of a b) = cmp_of b a"
  by (auto simp: cmp_of_def)

subsection \<open>Strings\<close>

definition ch :: "char \<Rightarrow> nat" where
  "ch c = of_char c"

lemma ch_less [simp]: "ch c < 256"
  by (simp add: ch_def)

lemma char_of_ch [simp]: "char_of (ch c) = c"
  by (simp add: ch_def)

lemma ch_inject: "ch a = ch b \<longleftrightarrow> a = b"
  by (metis char_of_ch)

lemma ch_div [simp]: "ch c div 16 < 16"
  by (rule less_mult_imp_div_less) (simp add: less_le_trans [OF ch_less])

lemma ch_char_of: "n < 256 \<Longrightarrow> ch (char_of n) = n"
  by (simp add: ch_def of_char_of)

definition is_digit :: "char \<Rightarrow> bool" where
  "is_digit c \<longleftrightarrow> 48 \<le> ch c \<and> ch c \<le> 57"

definition is_alnum :: "char \<Rightarrow> bool" where
  "is_alnum c \<longleftrightarrow> is_digit c \<or> (65 \<le> ch c \<and> ch c \<le> 90) \<or> (97 \<le> ch c \<and> ch c \<le> 122)"

definition is_space :: "char \<Rightarrow> bool" where
  "is_space c \<longleftrightarrow> (9 \<le> ch c \<and> ch c \<le> 13) \<or> ch c = 32"

definition lower_char :: "char \<Rightarrow> char" where
  "lower_char c = (if 65 \<le> ch c \<and> ch c \<le> 90 then char_of (ch c + 32) else c)"

definition ascii_lower :: "string \<Rightarrow> string" where
  "ascii_lower s = map lower_char s"

definition eq_ignore_case :: "string \<Rightarrow> string \<Rightarrow> bool" where
  "eq_ignore_case a b \<longleftrightarrow> ascii_lower a = ascii_lower b"

text \<open>\<open>str::split(char)\<close>: always at least one piece.\<close>

fun split_on :: "char \<Rightarrow> string \<Rightarrow> string list" where
  "split_on c [] = [[]]"
| "split_on c (x # xs) =
     (if x = c then [] # split_on c xs
      else (case split_on c xs of [] \<Rightarrow> [[x]] | p # ps \<Rightarrow> (x # p) # ps))"

text \<open>\<open>[..].join(sep)\<close>.\<close>

fun join :: "string \<Rightarrow> string list \<Rightarrow> string" where
  "join sep [] = []"
| "join sep [p] = p"
| "join sep (p # q # ps) = p @ sep @ join sep (q # ps)"

text \<open>\<open>str::split_once(char)\<close>: at the first occurrence.\<close>

fun split_once :: "char \<Rightarrow> string \<Rightarrow> (string \<times> string) option" where
  "split_once c [] = None"
| "split_once c (x # xs) =
     (if x = c then Some ([], xs)
      else map_option (\<lambda>(a, b). (x # a, b)) (split_once c xs))"

fun strip_prefix :: "string \<Rightarrow> string \<Rightarrow> string option" where
  "strip_prefix [] s = Some s"
| "strip_prefix (p # ps) [] = None"
| "strip_prefix (p # ps) (x # xs) = (if p = x then strip_prefix ps xs else None)"

definition starts_with :: "string \<Rightarrow> string \<Rightarrow> bool" where
  "starts_with p s \<longleftrightarrow> strip_prefix p s \<noteq> None"

fun split_once_str :: "string \<Rightarrow> string \<Rightarrow> (string \<times> string) option" where
  "split_once_str p [] = (if p = [] then Some ([], []) else None)"
| "split_once_str p (x # xs) = (case strip_prefix p (x # xs) of
     Some r \<Rightarrow> Some ([], r)
   | None \<Rightarrow> map_option (\<lambda>(a, b). (x # a, b)) (split_once_str p xs))"

definition strip_suffix :: "string \<Rightarrow> string \<Rightarrow> string option" where
  "strip_suffix p s = map_option rev (strip_prefix (rev p) (rev s))"

definition ends_with :: "string \<Rightarrow> string \<Rightarrow> bool" where
  "ends_with p s \<longleftrightarrow> strip_suffix p s \<noteq> None"

definition trim_by :: "(char \<Rightarrow> bool) \<Rightarrow> string \<Rightarrow> string" where
  "trim_by p s = rev (dropWhile p (rev (dropWhile p s)))"

definition trim_matches :: "char \<Rightarrow> string \<Rightarrow> string" where
  "trim_matches c s = trim_by (\<lambda>x. x = c) s"

definition trim :: "string \<Rightarrow> string" where
  "trim s = trim_by is_space s"

text \<open>\<open>str::contains(&str)\<close>.\<close>

fun contains_str :: "string \<Rightarrow> string \<Rightarrow> bool" where
  "contains_str p [] = (p = [])"
| "contains_str p (x # xs) = (starts_with p (x # xs) \<or> contains_str p xs)"

text \<open>\<open>split_whitespace\<close>: maximal runs of other characters.\<close>

definition split_ws :: "string \<Rightarrow> string list" where
  "split_ws s = filter (\<lambda>p. p \<noteq> []) (split_on (CHR '' '') (map (\<lambda>c. if is_space c then CHR '' '' else c) s))"

text \<open>Decimal digits of a number, as \<open>format!("{}")\<close> prints an unsigned integer.\<close>

fun show_nat :: "nat \<Rightarrow> string" where
  "show_nat n = (if n < 10 then [char_of (48 + n)] else show_nat (n div 10) @ [char_of (48 + n mod 10)])"

declare show_nat.simps [simp del]

definition show_int :: "int \<Rightarrow> string" where
  "show_int i = (if i < 0 then CHR ''-'' # show_nat (nat (- i)) else show_nat (nat i))"

text \<open>\<open>str::parse\<close> of an unsigned and of a signed integer: digits, with an optional sign.\<close>

definition digits_val :: "string \<Rightarrow> nat" where
  "digits_val s = foldl (\<lambda>n c. 10 * n + (ch c - 48)) 0 s"

definition parse_digits :: "string \<Rightarrow> nat option" where
  "parse_digits s = (if s \<noteq> [] \<and> list_all is_digit s then Some (digits_val s) else None)"

definition parse_uint :: "nat \<Rightarrow> string \<Rightarrow> nat option" where
  "parse_uint bits s =
     (case parse_digits (case s of c # cs \<Rightarrow> if c = CHR ''+'' then cs else s | [] \<Rightarrow> s) of
        Some n \<Rightarrow> if n < 2 ^ bits then Some n else None
      | None \<Rightarrow> None)"

definition parse_i64 :: "string \<Rightarrow> int option" where
  "parse_i64 s = (case s of
      [] \<Rightarrow> None
    | c # cs \<Rightarrow>
        (case (if c = CHR ''-'' then map_option (\<lambda>n. - int n) (parse_digits cs)
               else map_option int (parse_digits (if c = CHR ''+'' then cs else s))) of
           Some i \<Rightarrow> if - (2 ^ 63) \<le> i \<and> i < 2 ^ 63 then Some i else None
         | None \<Rightarrow> None))"

lemmas [str_defs] = digits_val_def parse_digits_def parse_uint_def parse_i64_def
lemmas [str_defs] = ch_def is_digit_def is_alnum_def is_space_def lower_char_def ascii_lower_def
  eq_ignore_case_def starts_with_def strip_suffix_def ends_with_def trim_by_def trim_matches_def
  trim_def split_ws_def show_int_def

text \<open>Facts about splitting and joining.\<close>

lemma split_on_ne [simp]: "split_on c s \<noteq> []"
  by (induction s) (auto split: list.splits)

lemma split_on_no_sep: "c \<notin> set s \<Longrightarrow> split_on c s = [s]"
  by (induction s) auto

lemma split_on_append_sep:
  "c \<notin> set a \<Longrightarrow> split_on c (a @ c # b) = a # split_on c b"
  by (induction a) auto

lemma split_on_pieces: "p \<in> set (split_on c s) \<Longrightarrow> c \<notin> set p"
proof (induction s arbitrary: p)
  case Nil
  then show ?case by simp
next
  case (Cons x xs)
  then show ?case
    by (cases "split_on c xs") (auto split: if_splits)
qed

lemma join_split_on: "join [c] (split_on c s) = s"
proof (induction s)
  case Nil
  then show ?case by simp
next
  case (Cons x xs)
  obtain p ps where ps: "split_on c xs = p # ps"
    by (cases "split_on c xs") auto
  then show ?case
    using Cons.IH by (cases ps) auto
qed

lemma split_on_join:
  "ps \<noteq> [] \<Longrightarrow> (\<forall>p \<in> set ps. c \<notin> set p) \<Longrightarrow> split_on c (join [c] ps) = ps"
proof (induction ps rule: induct_list012)
  case 1
  then show ?case by simp
next
  case (2 p)
  then show ?case by (simp add: split_on_no_sep)
next
  case (3 p q ps)
  then show ?case by (simp add: split_on_append_sep)
qed

lemma split_once_Some:
  "split_once c s = Some (a, b) \<longleftrightarrow> s = a @ c # b \<and> c \<notin> set a"
proof (induction s arbitrary: a b)
  case Nil
  then show ?case by simp
next
  case (Cons x xs)
  show ?case
  proof (cases a)
    case Nil
    then show ?thesis by (auto split: if_splits)
  next
    case (Cons y ys)
    then show ?thesis using Cons.IH by auto
  qed
qed

lemma split_once_None: "split_once c s = None \<longleftrightarrow> c \<notin> set s"
  by (induction s) auto

lemma strip_prefix_Some: "strip_prefix p s = Some r \<longleftrightarrow> s = p @ r"
  by (induction p s rule: strip_prefix.induct) auto

lemma strip_prefix_self [simp]: "strip_prefix p (p @ r) = Some r"
  by (simp add: strip_prefix_Some)

lemma starts_with_iff: "starts_with p s \<longleftrightarrow> (\<exists>r. s = p @ r)"
  by (auto simp: starts_with_def strip_prefix_Some)

lemma strip_suffix_Some: "strip_suffix p s = Some r \<longleftrightarrow> s = r @ p"
proof -
  have *: "rev s = rev p @ t \<longleftrightarrow> s = rev t @ p" for t
    by (metis rev_append rev_rev_ident)
  show ?thesis
    unfolding strip_suffix_def map_option_eq_Some strip_prefix_Some *
    by (metis rev_rev_ident)
qed

lemma ends_with_iff: "ends_with p s \<longleftrightarrow> (\<exists>r. s = r @ p)"
  by (auto simp: ends_with_def strip_suffix_Some)

lemma trim_by_id:
  assumes "s \<noteq> []" "\<not> p (hd s)" "\<not> p (last s)"
  shows "trim_by p s = s"
proof -
  have "dropWhile p s = s" using assms by (cases s) auto
  moreover have "dropWhile p (rev s) = rev s"
    using assms by (cases "rev s") (auto simp: hd_rev dest: arg_cong [of _ _ hd])
  ultimately show ?thesis by (simp add: trim_by_def)
qed

lemma set_trim_by: "set (trim_by p s) \<subseteq> set s"
proof
  fix x
  assume "x \<in> set (trim_by p s)"
  then have "x \<in> set (dropWhile p (rev (dropWhile p s)))" by (simp add: trim_by_def)
  then have "x \<in> set (rev (dropWhile p s))" by (rule set_dropWhileD)
  then show "x \<in> set s" by (auto dest: set_dropWhileD)
qed

lemma trim_by_ends:
  assumes "trim_by p s \<noteq> []"
  shows "\<not> p (hd (trim_by p s)) \<and> \<not> p (last (trim_by p s))"
proof -
  let ?t = "dropWhile p s"
  let ?u = "dropWhile p (rev ?t)"
  have u: "?u \<noteq> []" using assms by (simp add: trim_by_def)
  have "\<not> p (hd ?u)" using u by (rule hd_dropWhile)
  moreover have "last ?u = hd ?t"
  proof -
    have "last ?u = last (rev ?t)"
      using u by (metis last_appendR takeWhile_dropWhile_id)
    also have "\<dots> = hd ?t" using u by (metis dropWhile.simps(1) last_rev rev.simps(1))
    finally show ?thesis .
  qed
  moreover have "\<not> p (hd ?t)" using u by (metis dropWhile.simps(1) hd_dropWhile rev.simps(1))
  ultimately show ?thesis
    using u by (simp add: trim_by_def hd_rev last_rev)
qed

lemma show_nat_ne [simp]: "show_nat n \<noteq> []"
  by (subst show_nat.simps) simp

end
