(* ===== verification/Dict.thy ===== *)
theory Dict
  imports Prelude
begin

text \<open>
  Maps as sorted association lists. The program keeps its data in \<open>HashMap\<close>s and in
  \<open>serde_json::Map\<close>s (a \<open>BTreeMap\<close>, the \<open>preserve_order\<close> feature is off). Both are modelled by
  the list of their entries in strictly ascending key order, so that equal maps are equal lists
  and a traversal can be evaluated. The order in which a \<open>HashMap\<close> is traversed is not
  specified; where the code's result could depend on it, the model says so at the definition.
\<close>

type_synonym ('k, 'v) dict = "('k \<times> 'v) list"

abbreviation dget :: "('k, 'v) dict \<Rightarrow> 'k \<Rightarrow> 'v option" where
  "dget \<equiv> map_of"

fun dput :: "'k::linorder \<Rightarrow> 'v \<Rightarrow> ('k, 'v) dict \<Rightarrow> ('k, 'v) dict" where
  "dput k v [] = [(k, v)]"
| "dput k v ((a, b) # d) =
     (if k < a then (k, v) # (a, b) # d
      else if k = a then (k, v) # d
      else (a, b) # dput k v d)"

definition ddel :: "'k \<Rightarrow> ('k, 'v) dict \<Rightarrow> ('k, 'v) dict" where
  "ddel k d = filter (\<lambda>e. fst e \<noteq> k) d"

definition dkeys :: "('k, 'v) dict \<Rightarrow> 'k list" where
  "dkeys d = map fst d"

definition dvals :: "('k, 'v) dict \<Rightarrow> 'v list" where
  "dvals d = map snd d"

definition dhas :: "('k, 'v) dict \<Rightarrow> 'k \<Rightarrow> bool" where
  "dhas d k \<longleftrightarrow> dget d k \<noteq> None"

text \<open>\<open>extend\<close>: the later entry wins.\<close>

definition dextend :: "('k::linorder, 'v) dict \<Rightarrow> ('k \<times> 'v) list \<Rightarrow> ('k, 'v) dict" where
  "dextend d kvs = foldl (\<lambda>m kv. dput (fst kv) (snd kv) m) d kvs"

definition dict_of :: "('k::linorder \<times> 'v) list \<Rightarrow> ('k, 'v) dict" where
  "dict_of kvs = dextend [] kvs"

definition dretain :: "('k \<Rightarrow> 'v \<Rightarrow> bool) \<Rightarrow> ('k, 'v) dict \<Rightarrow> ('k, 'v) dict" where
  "dretain p d = filter (\<lambda>e. p (fst e) (snd e)) d"

text \<open>\<open>into_iter().filter_map(..).collect()\<close> where the key is kept.\<close>

fun dfilter_map :: "('v \<Rightarrow> 'w option) \<Rightarrow> ('k, 'v) dict \<Rightarrow> ('k, 'w) dict" where
  "dfilter_map f [] = []"
| "dfilter_map f ((k, v) # d) =
     (case f v of None \<Rightarrow> dfilter_map f d | Some w \<Rightarrow> (k, w) # dfilter_map f d)"

lemma dfilter_map_cong [fundef_cong]:
  "d = e \<Longrightarrow> (\<And>k v. (k, v) \<in> set e \<Longrightarrow> f v = g v) \<Longrightarrow> dfilter_map f d = dfilter_map g e"
proof (induction d arbitrary: e)
  case (Cons a d)
  have e: "e = a # d" using Cons.prems(1) by simp
  have "f (snd a) = g (snd a)" using Cons.prems(2) [of "fst a" "snd a"] e by simp
  moreover have "dfilter_map f d = dfilter_map g d" using Cons.prems(2) e by (intro Cons.IH) auto
  ultimately show ?case using e by (cases a) (auto split: option.splits)
qed simp

definition dict_ok :: "('k::linorder, 'v) dict \<Rightarrow> bool" where
  "dict_ok d \<longleftrightarrow> sorted_wrt (<) (map fst d)"

subsection \<open>The contract of a map\<close>

text \<open>
  What the components rely on when they look a key up, store under it or drop it. Facts about
  chains of updates are proved once from these laws.
\<close>

locale finite_map =
  fixes empty :: 'm
    and get :: "'m \<Rightarrow> 'k \<Rightarrow> 'v option"
    and put :: "'k \<Rightarrow> 'v \<Rightarrow> 'm \<Rightarrow> 'm"
    and del :: "'k \<Rightarrow> 'm \<Rightarrow> 'm"
    and inv :: "'m \<Rightarrow> bool"
  assumes get_empty: "get empty k = None"
    and get_put: "get (put k v m) j = (if j = k then Some v else get m j)"
    and get_del: "get (del k m) j = (if j = k then None else get m j)"
    and inv_empty: "inv empty"
    and inv_put: "inv m \<Longrightarrow> inv (put k v m)"
    and inv_del: "inv m \<Longrightarrow> inv (del k m)"
    and ext: "inv m \<Longrightarrow> inv n \<Longrightarrow> (\<And>k. get m k = get n k) \<Longrightarrow> m = n"
begin

lemma get_put_all:
  "get (foldl (\<lambda>m kv. put (fst kv) (snd kv) m) m kvs) k =
     (case map_of (rev kvs) k of None \<Rightarrow> get m k | Some v \<Rightarrow> Some v)"
proof (induction kvs rule: rev_induct)
  case Nil
  then show ?case by simp
next
  case (snoc kv kvs)
  then show ?case by (cases kv) (auto simp: get_put)
qed

lemma inv_put_all:
  "inv m \<Longrightarrow> inv (foldl (\<lambda>m kv. put (fst kv) (snd kv) m) m kvs)"
  by (induction kvs arbitrary: m) (auto intro: inv_put)

lemma put_put_same: "inv m \<Longrightarrow> put k v (put k w m) = put k v m"
  by (rule ext) (auto intro: inv_put simp: get_put)

lemma put_put_commute: "inv m \<Longrightarrow> j \<noteq> k \<Longrightarrow> put j v (put k w m) = put k w (put j v m)"
  by (rule ext) (auto intro: inv_put simp: get_put)

lemma put_get_same: "inv m \<Longrightarrow> get m k = Some v \<Longrightarrow> put k v m = m"
  by (rule ext) (auto intro: inv_put simp: get_put)

lemma del_absent: "inv m \<Longrightarrow> get m k = None \<Longrightarrow> del k m = m"
  by (rule ext) (auto intro: inv_del simp: get_del)

lemma del_put: "inv m \<Longrightarrow> get m k = None \<Longrightarrow> del k (put k v m) = m"
  by (rule ext) (auto intro: inv_del inv_put simp: get_del get_put)

end

subsection \<open>Sorted association lists meet it\<close>

lemma dict_ok_Nil [simp]: "dict_ok []"
  by (simp add: dict_ok_def)

lemma dict_ok_Cons: "dict_ok ((k, v) # d) \<longleftrightarrow> (\<forall>j \<in> fst ` set d. k < j) \<and> dict_ok d"
  by (simp add: dict_ok_def)

lemma fst_set_dput: "fst ` set (dput k v d) = insert k (fst ` set d)"
  by (induction k v d rule: dput.induct) auto

lemma dget_dput [simp, dict_simps]: "dget (dput k v d) j = (if j = k then Some v else dget d j)"
  by (induction k v d rule: dput.induct) auto

lemma dget_ddel [simp, dict_simps]: "dget (ddel k d) j = (if j = k then None else dget d j)"
  by (induction d) (auto simp: ddel_def)

lemma dict_ok_dput [simp]: "dict_ok d \<Longrightarrow> dict_ok (dput k v d)"
  by (induction k v d rule: dput.induct) (auto simp: dict_ok_Cons fst_set_dput)

lemma dict_ok_filter [simp]: "dict_ok d \<Longrightarrow> dict_ok (filter p d)"
  by (induction d) (auto simp: dict_ok_Cons)

lemma dict_ok_ddel [simp]: "dict_ok d \<Longrightarrow> dict_ok (ddel k d)"
  by (simp add: ddel_def)

lemma dict_ok_dretain [simp]: "dict_ok d \<Longrightarrow> dict_ok (dretain p d)"
  by (simp add: dretain_def)

lemma dict_ok_distinct: "dict_ok d \<Longrightarrow> distinct (map fst d)"
  by (auto simp: dict_ok_def strict_sorted_iff)

lemma dict_ext:
  assumes "dict_ok d" "dict_ok e" "\<And>k. dget d k = dget e k"
  shows "d = e"
proof -
  have "map_of d = map_of e" using assms(3) by blast
  then have "set d = set e"
    using assms(1,2) by (metis dict_ok_distinct graph_map_of_if_distinct_dom)
  then show ?thesis
    using assms(1,2) dict_ok_distinct [OF assms(1)] dict_ok_distinct [OF assms(2)]
    by (intro map_sorted_distinct_set_unique [of fst])
      (auto simp: dict_ok_def strict_sorted_iff distinct_map inj_on_Un)
qed

interpretation dm: finite_map "[]" dget dput ddel dict_ok
  by unfold_locales (auto intro: dict_ext)

lemma dget_dextend [dict_simps]:
  "dget (dextend d kvs) k = (case map_of (rev kvs) k of None \<Rightarrow> dget d k | Some v \<Rightarrow> Some v)"
  unfolding dextend_def by (rule dm.get_put_all)

lemma dict_ok_dextend [simp]: "dict_ok d \<Longrightarrow> dict_ok (dextend d kvs)"
  unfolding dextend_def by (rule dm.inv_put_all)

lemma dict_ok_dict_of [simp]: "dict_ok (dict_of kvs)"
  by (simp add: dict_of_def)

lemma map_of_rev_dict [simp]: "dict_ok d \<Longrightarrow> map_of (rev d) = map_of d"
  using dict_ok_distinct [of d] by (subst map_of_inject_set) (auto simp: rev_map [symmetric])

lemma dget_dextend_dict:
  "dict_ok e \<Longrightarrow> dget (dextend d e) k = (case dget e k of None \<Rightarrow> dget d k | Some v \<Rightarrow> Some v)"
  by (simp add: dget_dextend)

lemma dextend_Nil [simp]: "dextend d [] = d"
  by (simp add: dextend_def)

lemma dextend_Cons: "dextend d ((k, v) # kvs) = dextend (dput k v d) kvs"
  by (simp add: dextend_def)

lemma dextend_assoc:
  "dict_ok d \<Longrightarrow> dict_ok e \<Longrightarrow> dict_ok f \<Longrightarrow> dextend (dextend d e) f = dextend d (dextend e f)"
  by (rule dict_ext) (auto simp: dget_dextend_dict split: option.splits)

lemma dextend_empty: "dict_ok e \<Longrightarrow> dextend [] e = e"
  by (rule dict_ext) (auto simp: dget_dextend_dict split: option.splits)

lemma dget_dfilter_map:
  "dict_ok d \<Longrightarrow> dget (dfilter_map f d) k = Option.bind (dget d k) f"
proof (induction f d rule: dfilter_map.induct)
  case (1 f)
  then show ?case by simp
next
  case (2 f k' v d)
  then have "dget d k' = None"
    by (force simp: dict_ok_Cons map_of_eq_None_iff)
  with 2 show ?case by (auto simp: dict_ok_Cons split: option.splits)
qed

lemma fst_set_dfilter_map: "fst ` set (dfilter_map f d) \<subseteq> fst ` set d"
  by (induction f d rule: dfilter_map.induct) (auto split: option.splits)

lemma dict_ok_dfilter_map [simp]: "dict_ok d \<Longrightarrow> dict_ok (dfilter_map f d)"
proof (induction f d rule: dfilter_map.induct)
  case (2 f k v d)
  then have "\<forall>j \<in> fst ` set (dfilter_map f d). k < j"
    using fst_set_dfilter_map [of f d] by (auto simp only: dict_ok_Cons)
  with 2 show ?case by (auto simp: dict_ok_Cons split: option.splits)
qed simp

lemma dict_ok_snd: "dict_ok d \<Longrightarrow> (k, v) \<in> set d \<Longrightarrow> dget d k = Some v"
  by (simp add: dict_ok_distinct)

lemma dget_dretain: "dict_ok d \<Longrightarrow>
    dget (dretain p d) k = (case dget d k of None \<Rightarrow> None | Some v \<Rightarrow> if p k v then Some v else None)"
proof (induction d)
  case Nil
  then show ?case by (simp add: dretain_def)
next
  case (Cons a d)
  obtain k' v where a: "a = (k', v)" by (cases a)
  with Cons.prems have "dget d k' = None"
    by (force simp: dict_ok_Cons map_of_eq_None_iff)
  with Cons a show ?case by (auto simp: dict_ok_Cons dretain_def split: option.splits)
qed

end
