(* ===== verification/F64.thy ===== *)
theory F64
  imports Prelude Complex_Main
begin

text \<open>
  IEEE binary64 arithmetic, as far as the program uses it. A finite \<open>f64\<close> is modelled by its
  value, a rational number, and each arithmetic operation is the exact operation followed by
  \<open>f64_round\<close>: round to nearest, ties to even, with a 53-bit significand and the subnormal
  spacing \<open>2^-1074\<close>. The sign of zero is not represented, and neither are the infinities: where
  the program can reach a magnitude of \<open>2^1024\<close>, the place that does so says what happens.
\<close>

type_synonym f64 = rat

named_theorems f64_simps \<open>rounding facts\<close>

fun bitlen :: "nat \<Rightarrow> nat" where
  "bitlen n = (if n = 0 then 0 else Suc (bitlen (n div 2)))"

declare bitlen.simps [simp del]

definition pow2 :: "int \<Rightarrow> rat" where
  "pow2 e = (if 0 \<le> e then 2 ^ nat e else 1 / 2 ^ nat (- e))"

text \<open>The exponent of the binade of a positive value.\<close>

definition flog2 :: "rat \<Rightarrow> int" where
  "flog2 x = (if 1 \<le> x then int (bitlen (nat \<lfloor>x\<rfloor>)) - 1
              else - int (bitlen (nat (\<lceil>1 / x\<rceil> - 1))))"

text \<open>Nearest integer, ties to even.\<close>

definition rne :: "rat \<Rightarrow> int" where
  "rne x = (let f = \<lfloor>x\<rfloor>; r = x - of_int f in
     if r < 1/2 then f else if 1/2 < r then f + 1 else if even f then f else f + 1)"

definition f64_ulp_exp :: "rat \<Rightarrow> int" where
  "f64_ulp_exp x = max (flog2 x - 52) (-1074)"

definition f64_round :: "rat \<Rightarrow> f64" where
  "f64_round x = (if x = 0 then 0 else
     let q = f64_ulp_exp \<bar>x\<bar> in sgn x * of_int (rne (\<bar>x\<bar> / pow2 q)) * pow2 q)"

definition f64_add :: "f64 \<Rightarrow> f64 \<Rightarrow> f64" where
  "f64_add a b = f64_round (a + b)"

definition f64_sub :: "f64 \<Rightarrow> f64 \<Rightarrow> f64" where
  "f64_sub a b = f64_round (a - b)"

definition f64_mul :: "f64 \<Rightarrow> f64 \<Rightarrow> f64" where
  "f64_mul a b = f64_round (a * b)"

definition f64_div :: "f64 \<Rightarrow> f64 \<Rightarrow> f64" where
  "f64_div a b = f64_round (a / b)"

definition f64_of_int :: "int \<Rightarrow> f64" where
  "f64_of_int n = f64_round (of_int n)"

text \<open>\<open>f.fract() == 0.0\<close> and the saturating cast \<open>f as i64\<close> of an integral value.\<close>

definition f64_integral :: "f64 \<Rightarrow> bool" where
  "f64_integral x \<longleftrightarrow> x = of_int \<lfloor>x\<rfloor>"

definition i64_of_f64 :: "f64 \<Rightarrow> int" where
  "i64_of_f64 x = (let t = (if 0 \<le> x then \<lfloor>x\<rfloor> else \<lceil>x\<rceil>)
     in max (- (2 ^ 63)) (min (2 ^ 63 - 1) t))"

text \<open>
  \<open>str::parse::<f64>\<close>: a decimal with an optional fraction and exponent, correctly rounded. The
  result is \<open>None\<close> when the text is no number and when the number is not finite (\<open>inf\<close>, \<open>nan\<close> and
  decimals beyond the range): the program treats both alike.
\<close>

definition parse_mantissa :: "string \<Rightarrow> rat option" where
  "parse_mantissa s = (case split_once (CHR ''.'') s of
      None \<Rightarrow> map_option of_nat (parse_digits s)
    | Some (a, b) \<Rightarrow>
        if a @ b \<noteq> [] \<and> list_all is_digit (a @ b) then Some (of_nat (digits_val (a @ b)) / 10 ^ length b) else None)"

definition parse_exponent :: "string \<Rightarrow> int option" where
  "parse_exponent s = (case s of
      [] \<Rightarrow> None
    | c # cs \<Rightarrow> if c = CHR ''-'' then map_option (\<lambda>n. - int n) (parse_digits cs)
               else map_option int (parse_digits (if c = CHR ''+'' then cs else s)))"

definition parse_f64 :: "string \<Rightarrow> f64 option" where
  "parse_f64 s =
     (let (neg, body) = (case s of
            [] \<Rightarrow> (False, [])
          | c # cs \<Rightarrow> if c = CHR ''-'' then (True, cs) else if c = CHR ''+'' then (False, cs) else (False, s));
          (m, e) = (case split_once (CHR ''e'') (map (\<lambda>c. if c = CHR ''E'' then CHR ''e'' else c) body) of
            None \<Rightarrow> (body, Some 0)
          | Some (a, b) \<Rightarrow> (a, parse_exponent b))
      in case (parse_mantissa m, e) of
           (Some x, Some k) \<Rightarrow>
             (let r = f64_round (if 0 \<le> k then x * 10 ^ nat k else x / 10 ^ nat (- k)) in
              if r < 2 ^ 1024 then Some (if neg then - r else r) else None)
         | _ \<Rightarrow> None)"

subsection \<open>Binades\<close>

lemma bitlen_bounds: "n < 2 ^ bitlen n \<and> (0 < n \<longrightarrow> 2 ^ (bitlen n - 1) \<le> n)"
proof (induction n rule: bitlen.induct)
  case (1 n)
  show ?case
  proof (cases "n = 0")
    case True
    then show ?thesis by simp
  next
    case False
    then have b: "bitlen n = Suc (bitlen (n div 2))" by (simp add: bitlen.simps [of n])
    from 1 False have IH: "n div 2 < 2 ^ bitlen (n div 2)"
      "0 < n div 2 \<Longrightarrow> 2 ^ (bitlen (n div 2) - 1) \<le> n div 2" by auto
    have "n < 2 * 2 ^ bitlen (n div 2)" using IH(1) by linarith
    moreover have "2 ^ bitlen (n div 2) \<le> n"
    proof (cases "n div 2 = 0")
      case True
      then show ?thesis using False by (simp add: bitlen.simps)
    next
      case nz: False
      then have "bitlen (n div 2) = Suc (bitlen (n div 2) - 1)"
        by (simp add: bitlen.simps [of "n div 2"])
      then have "2 ^ bitlen (n div 2) = (2::nat) * 2 ^ (bitlen (n div 2) - 1)"
        by (metis power_Suc)
      then show ?thesis using IH(2) nz by linarith
    qed
    ultimately show ?thesis using b by simp
  qed
qed

lemma bitlen_lt: "n < 2 ^ bitlen n"
  using bitlen_bounds [of n] by blast

lemma pow2_pos [simp]: "0 < pow2 e"
  by (simp add: pow2_def)

lemma pow2_nz [simp]: "pow2 e \<noteq> 0"
  using pow2_pos [of e] by linarith

lemma pow2_add: "pow2 (a + b) = pow2 a * pow2 b"
proof -
  have "pow2 e = 2 powi e" for e
    by (simp add: pow2_def power_int_def field_simps power_one_over)
  then show ?thesis by (simp add: power_int_add)
qed

lemma pow2_diff: "pow2 a / pow2 b = pow2 (a - b)"
proof -
  have "pow2 a = pow2 (a - b) * pow2 b" by (simp add: pow2_add [symmetric])
  then show ?thesis by (simp add: nonzero_divide_eq_eq)
qed

lemma pow2_nat: "0 \<le> e \<Longrightarrow> pow2 e = 2 ^ nat e"
  by (simp add: pow2_def)

lemma pow2_mono: "a \<le> b \<Longrightarrow> pow2 a \<le> pow2 b"
proof -
  assume "a \<le> b"
  then have "1 \<le> pow2 (b - a)" by (simp add: pow2_def)
  then have "pow2 a * 1 \<le> pow2 a * pow2 (b - a)" by (intro mult_left_mono) (auto simp: less_imp_le)
  then show ?thesis by (simp add: pow2_add [symmetric])
qed

lemma pow2_less_cancel: "pow2 a < pow2 b \<Longrightarrow> a < b"
  using pow2_mono [of b a] by force

lemma flog2_bounds:
  assumes "0 < x"
  shows "pow2 (flog2 x) \<le> x \<and> x < pow2 (flog2 x + 1)"
proof (cases "1 \<le> x")
  case True
  let ?n = "nat \<lfloor>x\<rfloor>"
  have n: "0 < ?n" "of_nat ?n \<le> x" "x < of_nat ?n + 1"
    using True by (auto simp: le_floor_iff) linarith
  have b: "0 < bitlen ?n" using n(1) by (simp add: bitlen.simps [of ?n])
  have "pow2 (flog2 x) = 2 ^ (bitlen ?n - 1)"
    using True b by (simp add: flog2_def pow2_def nat_diff_distrib)
  moreover have "(2::rat) ^ (bitlen ?n - 1) \<le> of_nat ?n"
    using bitlen_bounds [of ?n] n(1) by (metis of_nat_le_iff of_nat_numeral of_nat_power)
  moreover have "pow2 (flog2 x + 1) = 2 ^ bitlen ?n"
    using True by (simp add: flog2_def pow2_def)
  moreover have "of_nat ?n + 1 \<le> (2::rat) ^ bitlen ?n"
  proof -
    have "?n + 1 \<le> 2 ^ bitlen ?n" using bitlen_lt [of ?n] by (simp only: Suc_eq_plus1 [symmetric] Suc_le_eq)
    then have "(of_nat (?n + 1) :: rat) \<le> of_nat (2 ^ bitlen ?n)" by (simp only: of_nat_le_iff)
    then show ?thesis by simp
  qed
  ultimately show ?thesis using n by linarith
next
  case False
  let ?m = "nat (\<lceil>1 / x\<rceil> - 1)"
  have y: "1 < 1 / x" using assms False by simp
  have c: "1 < \<lceil>1 / x\<rceil>" using y by (simp add: less_ceiling_iff)
  have up: "1 / x \<le> of_nat ?m + 1" and lo: "of_nat ?m < 1 / x"
    using c by (auto simp: of_nat_nat) linarith+
  have m: "0 < ?m" using c by simp
  have b: "0 < bitlen ?m" using m by (simp add: bitlen.simps [of ?m])
  have e: "flog2 x = - int (bitlen ?m)" using False by (simp add: flog2_def)
  have p1: "pow2 (flog2 x) = 1 / 2 ^ bitlen ?m" using e by (simp add: pow2_def)
  have p2: "pow2 (flog2 x + 1) = 1 / 2 ^ (bitlen ?m - 1)"
    using e b by (auto simp: pow2_def nat_diff_distrib)
  have "?m + 1 \<le> 2 ^ bitlen ?m" using bitlen_lt [of ?m] by (simp only: Suc_eq_plus1 [symmetric] Suc_le_eq)
  then have "(of_nat (?m + 1) :: rat) \<le> of_nat (2 ^ bitlen ?m)" by (simp only: of_nat_le_iff)
  then have "1 / x \<le> 2 ^ bitlen ?m" using up by simp
  then have A: "1 / 2 ^ bitlen ?m \<le> x" using assms by (simp add: field_simps)
  have "2 ^ (bitlen ?m - 1) \<le> ?m" using bitlen_bounds [of ?m] m by blast
  then have "(of_nat (2 ^ (bitlen ?m - 1)) :: rat) \<le> of_nat ?m" by (simp only: of_nat_le_iff)
  then have "2 ^ (bitlen ?m - 1) < 1 / x" using lo by (simp only: of_nat_power of_nat_numeral)
  then have "x < 1 / 2 ^ (bitlen ?m - 1)" using assms by (simp add: field_simps)
  with A p1 p2 show ?thesis by simp
qed

lemma flog2_mono: "0 < x \<Longrightarrow> x \<le> y \<Longrightarrow> flog2 x \<le> flog2 y"
proof -
  assume "0 < x" "x \<le> y"
  then have "pow2 (flog2 x) < pow2 (flog2 y + 1)"
    using flog2_bounds [of x] flog2_bounds [of y] by linarith
  then show ?thesis using pow2_less_cancel by force
qed

lemma flog2_unique: "pow2 e \<le> x \<Longrightarrow> x < pow2 (e + 1) \<Longrightarrow> flog2 x = e"
proof -
  assume a: "pow2 e \<le> x" "x < pow2 (e + 1)"
  then have "0 < x" using pow2_pos [of e] by linarith
  note b = flog2_bounds [OF this]
  have "pow2 e < pow2 (flog2 x + 1)" "pow2 (flog2 x) < pow2 (e + 1)" using a b by linarith+
  then have "e < flog2 x + 1" "flog2 x < e + 1" by (auto dest: pow2_less_cancel)
  then show ?thesis by linarith
qed

subsection \<open>Rounding\<close>

lemma rne_of_int [simp]: "rne (of_int n) = n"
  by (simp add: rne_def)

lemma rne_bounds: "\<lfloor>x\<rfloor> \<le> rne x \<and> rne x \<le> \<lfloor>x\<rfloor> + 1"
  by (simp add: rne_def Let_def)

lemma rne_mono: "x \<le> y \<Longrightarrow> rne x \<le> rne y"
proof (cases "\<lfloor>x\<rfloor> = \<lfloor>y\<rfloor>")
  case True
  assume "x \<le> y"
  with True show ?thesis by (auto simp: rne_def Let_def)
next
  case False
  assume "x \<le> y"
  with False have "\<lfloor>x\<rfloor> + 1 \<le> \<lfloor>y\<rfloor>" using floor_mono [of x y] by linarith
  then show ?thesis using rne_bounds [of x] rne_bounds [of y] by linarith
qed

lemma f64_round_0 [simp, f64_simps]: "f64_round 0 = 0"
  by (simp add: f64_round_def)

lemma f64_round_minus: "f64_round (- x) = - f64_round x"
  by (simp add: f64_round_def Let_def sgn_if)

lemma f64_round_pos: "0 < x \<Longrightarrow>
    f64_round x = of_int (rne (x / pow2 (f64_ulp_exp x))) * pow2 (f64_ulp_exp x)"
  by (simp add: f64_round_def Let_def)

lemma f64_round_nonneg [f64_simps]: "0 \<le> x \<Longrightarrow> 0 \<le> f64_round x"
proof (cases "x = 0")
  case False
  assume "0 \<le> x"
  with False have x: "0 < x" by simp
  have "rne 0 \<le> rne (x / pow2 (f64_ulp_exp x))"
    using x by (intro rne_mono) (simp add: less_imp_le)
  then have "0 \<le> rne (x / pow2 (f64_ulp_exp x))" using rne_of_int [of 0] by simp
  then show ?thesis using x by (simp add: f64_round_pos less_imp_le)
qed simp

lemma of_int_le_rat: "a \<le> b \<Longrightarrow> (of_int a :: rat) \<le> of_int b"
  by simp

lemma f64_round_mono_pos:
  assumes "0 < x" "x \<le> y"
  shows "f64_round x \<le> f64_round y"
proof -
  let ?p = "f64_ulp_exp x" and ?q = "f64_ulp_exp y"
  have y: "0 < y" using assms by simp
  have pq: "?p \<le> ?q" using flog2_mono [OF assms] by (simp add: f64_ulp_exp_def)
  show ?thesis
  proof (cases "?p = ?q")
    case True
    have "rne (x / pow2 ?q) \<le> rne (y / pow2 ?q)"
      using assms by (intro rne_mono divide_right_mono) (auto simp: less_imp_le)
    then show ?thesis
      using assms(1) y True by (simp add: f64_round_pos mult_right_mono less_imp_le)
  next
    case False
    let ?e = "flog2 y"
    have q: "?q = ?e - 52" and ex: "flog2 x < ?e" using pq False by (auto simp: f64_ulp_exp_def)
    have ep: "0 \<le> ?e - ?p" using q pq by simp
    have "x < pow2 (flog2 x + 1)" using flog2_bounds [OF assms(1)] by simp
    also have "\<dots> \<le> pow2 ?e" using ex by (intro pow2_mono) simp
    finally have "x \<le> pow2 ?e" by simp
    then have "x / pow2 ?p \<le> pow2 ?e / pow2 ?p" by (simp add: divide_right_mono less_imp_le)
    also have "\<dots> = pow2 (?e - ?p)"
      by (rule pow2_diff)
    also have "\<dots> = of_int (2 ^ nat (?e - ?p))" using ep by (simp add: pow2_nat)
    finally have "rne (x / pow2 ?p) \<le> 2 ^ nat (?e - ?p)"
      using rne_mono rne_of_int by metis
    then have "of_int (rne (x / pow2 ?p)) \<le> pow2 (?e - ?p)"
      using ep of_int_le_rat by (force simp: pow2_nat)
    then have "f64_round x \<le> pow2 (?e - ?p) * pow2 ?p"
      using assms(1) by (simp add: f64_round_pos mult_right_mono less_imp_le)
    then have A: "f64_round x \<le> pow2 ?e" by (simp add: pow2_add [symmetric])
    have "of_int (2 ^ 52) \<le> y / pow2 ?q"
    proof -
      have "pow2 ?e \<le> y" using flog2_bounds [OF y] by simp
      moreover have "pow2 ?e = 2 ^ 52 * pow2 ?q"
        using pow2_add [of 52 ?q] by (simp add: q pow2_nat)
      ultimately show ?thesis by (simp add: pos_le_divide_eq)
    qed
    then have "2 ^ 52 \<le> rne (y / pow2 ?q)" using rne_mono rne_of_int by metis
    then have "2 ^ 52 \<le> (of_int (rne (y / pow2 ?q)) :: rat)"
      using of_int_le_rat by force
    then have "2 ^ 52 * pow2 ?q \<le> f64_round y"
      using y by (simp add: f64_round_pos mult_right_mono less_imp_le)
    moreover have "pow2 ?e = 2 ^ 52 * pow2 ?q"
      using pow2_add [of 52 ?q] by (simp add: q pow2_nat)
    ultimately show ?thesis using A by simp
  qed
qed

lemma f64_round_mono [f64_simps]: "0 \<le> x \<Longrightarrow> x \<le> y \<Longrightarrow> f64_round x \<le> f64_round y"
  using f64_round_mono_pos [of x y] f64_round_nonneg [of y] by (cases "x = 0") auto

text \<open>Values with at most 53 significant bits are exact.\<close>

lemma f64_round_exact:
  assumes "0 \<le> m" "m \<le> 2 ^ 53" "-1074 \<le> q"
  shows "f64_round (of_int m * pow2 q) = of_int m * pow2 q"
proof (cases "m = 0")
  case False
  let ?x = "of_int m * pow2 q"
  have x: "0 < ?x" using assms(1) False by simp
  let ?p = "f64_ulp_exp ?x"
  have pq: "?p \<le> q \<or> m = 2 ^ 53"
  proof (cases "m = 2 ^ 53")
    case False
    then have "m < 2 ^ 53" using assms(2) by simp
    then have "(of_int m :: rat) < of_int (2 ^ 53)" by (simp only: of_int_less_iff)
    then have "?x < pow2 53 * pow2 q" by (simp add: pow2_nat)
    also have "\<dots> = pow2 (53 + q)" by (simp add: pow2_add)
    finally have "pow2 (flog2 ?x) < pow2 (53 + q)" using flog2_bounds [OF x] by linarith
    then have "flog2 ?x < 53 + q" by (rule pow2_less_cancel)
    then show ?thesis using assms(3) by (simp add: f64_ulp_exp_def)
  qed simp
  have whole: "\<exists>k. ?x / pow2 ?p = of_int k"
  proof (cases "?p \<le> q")
    case True
    have "?x / pow2 ?p = of_int m * (pow2 q / pow2 ?p)" by (rule times_divide_eq_right [symmetric])
    also have "\<dots> = of_int m * pow2 (q - ?p)" by (simp only: pow2_diff)
    also have "\<dots> = of_int (m * 2 ^ nat (q - ?p))" using True by (simp add: pow2_nat)
    finally show ?thesis by blast
  next
    case False
    with pq have m: "m = 2 ^ 53" by simp
    have "?x = pow2 53 * pow2 q" by (simp add: m pow2_nat)
    also have "\<dots> = pow2 (53 + q)" by (simp only: pow2_add)
    finally have xe: "?x = pow2 (53 + q)" .
    have "flog2 ?x = 53 + q"
    proof (rule flog2_unique)
      show "pow2 (53 + q) \<le> ?x" by (simp add: xe)
      have "pow2 (53 + q + 1) = pow2 (53 + q) * pow2 1" by (simp only: pow2_add)
      then show "?x < pow2 (53 + q + 1)" by (simp add: xe pow2_nat)
    qed
    then have "?p = q + 1" using assms(3) by (simp add: f64_ulp_exp_def)
    then have "?x = pow2 52 * pow2 ?p" using pow2_add [of 52 "q + 1"] xe by (simp add: add.commute)
    then have "?x = of_int (2 ^ 52) * pow2 ?p" by (simp add: pow2_nat)
    then have "?x / pow2 ?p = of_int (2 ^ 52)" by (simp only: nonzero_divide_eq_eq [OF pow2_nz])
    then show ?thesis by blast
  qed
  then obtain k where k: "?x / pow2 ?p = of_int k" by blast
  then have "?x = of_int k * pow2 ?p" by (simp add: nonzero_divide_eq_eq)
  then show ?thesis using x k by (simp add: f64_round_pos [OF x])
qed simp

lemma f64_of_int_exact [f64_simps]:
  assumes "\<bar>n\<bar> \<le> 2 ^ 53"
  shows "f64_of_int n = of_int n"
proof -
  have p: "f64_round (of_int m) = of_int m" if "0 \<le> m" "m \<le> 2 ^ 53" for m
    using f64_round_exact [of m 0] that by (simp add: pow2_def)
  show ?thesis
  proof (cases "0 \<le> n")
    case True
    then show ?thesis using assms p by (simp add: f64_of_int_def)
  next
    case False
    then have "f64_round (of_int (- n)) = of_int (- n)" using assms by (intro p) auto
    then show ?thesis using f64_round_minus [of "of_int (- n)"] by (simp add: f64_of_int_def)
  qed
qed

lemma f64_integral_of_int [simp]: "f64_integral (of_int n)"
  by (simp add: f64_integral_def)

lemma i64_of_f64_of_int [simp]:
  "- (2 ^ 63) \<le> n \<Longrightarrow> n < 2 ^ 63 \<Longrightarrow> i64_of_f64 (of_int n) = n"
  by (simp add: i64_of_f64_def Let_def)

end
