(* ===== verification/Json.thy ===== *)
theory Json
  imports Dict F64 "HOL-Library.Countable"
begin

text \<open>
  The values of \<open>serde_json\<close> that the program computes with. A number keeps the distinction the
  library makes between an integer (of the \<open>i64\<close> or the \<open>u64\<close> range) and a float, an object is
  a \<open>BTreeMap\<close>. Equality is the library's: the integer 1 and the float 1.0 differ. Printing a
  value (\<open>to_string\<close>) is not modelled; the operations that use it take it as a parameter.
\<close>

datatype jnum = NInt int | NFloat f64

datatype json = JNull | JBool bool | JNum jnum | JStr string
  | JArr "json list" | JObj "(string \<times> json) list"

instance jnum :: countable
  by countable_datatype

instance json :: countable
  by countable_datatype

abbreviation jint :: "int \<Rightarrow> json" where
  "jint n \<equiv> JNum (NInt n)"

fun as_str :: "json \<Rightarrow> string option" where
  "as_str (JStr s) = Some s"
| "as_str _ = None"

fun as_array :: "json \<Rightarrow> json list option" where
  "as_array (JArr a) = Some a"
| "as_array _ = None"

fun as_object :: "json \<Rightarrow> (string, json) dict option" where
  "as_object (JObj m) = Some m"
| "as_object _ = None"

fun as_bool :: "json \<Rightarrow> bool option" where
  "as_bool (JBool b) = Some b"
| "as_bool _ = None"

fun num_f64 :: "jnum \<Rightarrow> f64" where
  "num_f64 (NInt i) = f64_of_int i"
| "num_f64 (NFloat x) = x"

fun as_f64 :: "json \<Rightarrow> f64 option" where
  "as_f64 (JNum n) = Some (num_f64 n)"
| "as_f64 _ = None"

fun as_i64 :: "json \<Rightarrow> int option" where
  "as_i64 (JNum (NInt i)) = (if - (2 ^ 63) \<le> i \<and> i < 2 ^ 63 then Some i else None)"
| "as_i64 _ = None"

fun as_u64 :: "json \<Rightarrow> int option" where
  "as_u64 (JNum (NInt i)) = (if 0 \<le> i \<and> i < 2 ^ 64 then Some i else None)"
| "as_u64 _ = None"

definition is_object :: "json \<Rightarrow> bool" where
  "is_object v \<longleftrightarrow> as_object v \<noteq> None"

text \<open>\<open>value.get(key)\<close> on an object.\<close>

definition jget :: "json \<Rightarrow> string \<Rightarrow> json option" where
  "jget v k = Option.bind (as_object v) (\<lambda>m. dget m k)"

lemma size_arr [termination_simp]: "v \<in> set xs \<Longrightarrow> size v < Suc (size_list size xs)"
  using size_list_estimation' [of v xs "size v" size] by simp

lemma size_obj [termination_simp]:
  "(k, v) \<in> set m \<Longrightarrow> size v < Suc (size_list (size_prod (\<lambda>x. 0) size) m)"
  using size_list_estimation' [of "(k, v)" m "size v" "size_prod (\<lambda>x. 0) size"] by simp

text \<open>The values the library can hold: integers in range, objects in key order.\<close>

fun json_ok :: "json \<Rightarrow> bool" where
  "json_ok (JNum (NInt i)) \<longleftrightarrow> - (2 ^ 63) \<le> i \<and> i < 2 ^ 64"
| "json_ok (JArr xs) \<longleftrightarrow> list_all json_ok xs"
| "json_ok (JObj m) \<longleftrightarrow> dict_ok m \<and> list_all (\<lambda>e. json_ok (snd e)) m"
| "json_ok _ \<longleftrightarrow> True"

lemma as_object_Some [simp]: "as_object v = Some m \<longleftrightarrow> v = JObj m"
  by (cases v) auto

lemma as_array_Some [simp]: "as_array v = Some a \<longleftrightarrow> v = JArr a"
  by (cases v) auto

lemma as_str_Some [simp]: "as_str v = Some s \<longleftrightarrow> v = JStr s"
  by (cases v) auto

lemma as_i64_Some: "as_i64 v = Some i \<longleftrightarrow> v = jint i \<and> - (2 ^ 63) \<le> i \<and> i < 2 ^ 63"
  by (induction v rule: as_i64.induct) auto

lemma is_object_JObj [simp]: "is_object v \<longleftrightarrow> (\<exists>m. v = JObj m)"
  by (cases v) (auto simp: is_object_def)

end
