(* ===== verification/Core.thy ===== *)
theory Core
  imports Json
begin

text \<open>
  The shared contract of the gateway (crates/hakobackend-core/src/lib.rs): documents, filters and
  query options, paths and names, identities and claims, errors and their HTTP status, changes,
  transaction operations and the index specifications with their validation.
\<close>

section \<open>Documents and queries\<close>

record doc =
  d_id :: string
  d_data :: "(string, json) dict"

text \<open>The manual \<open>Serialize\<close>: the entries in the order they are written.\<close>

definition doc_entries :: "doc \<Rightarrow> (string \<times> json) list" where
  "doc_entries d = (''id'', JStr (d_id d)) # map (\<lambda>k. (k, the (dget (d_data d) k))) (sort (dkeys (d_data d)))"

definition agg_number :: "json \<Rightarrow> f64 option" where
  "agg_number v = (case v of JNum n \<Rightarrow> Some (num_f64 n) | _ \<Rightarrow> None)"

datatype filter_op = Eq | Ne | Gt | Lt | Gte | Lte | ArrayContains | ArrayContainsAny | InList

fun as_wire :: "filter_op \<Rightarrow> string" where
  "as_wire Eq = ''==''"
| "as_wire Ne = ''!=''"
| "as_wire Gt = ''>''"
| "as_wire Lt = ''<''"
| "as_wire Gte = ''>=''"
| "as_wire Lte = ''<=''"
| "as_wire ArrayContains = ''array-contains''"
| "as_wire ArrayContainsAny = ''array-contains-any''"
| "as_wire InList = ''in''"

definition filter_op_parse :: "string \<Rightarrow> filter_op option" where
  "filter_op_parse s =
     (if s = ''=='' \<or> s = ''eq'' then Some Eq
      else if s = ''!='' \<or> s = ''ne'' then Some Ne
      else if s = ''>'' \<or> s = ''gt'' then Some Gt
      else if s = ''<'' \<or> s = ''lt'' then Some Lt
      else if s = ''>='' \<or> s = ''gte'' then Some Gte
      else if s = ''<='' \<or> s = ''lte'' then Some Lte
      else if s = ''array-contains'' then Some ArrayContains
      else if s = ''array-contains-any'' then Some ArrayContainsAny
      else if s = ''in'' then Some InList
      else None)"

record filter_rec =
  f_field :: string
  f_op :: filter_op
  f_value :: json

datatype direction = Asc | Desc

record order_by =
  o_field :: string
  o_dir :: direction

record query_options =
  q_filters :: "filter_rec list"
  q_fields :: "string list"
  q_order_by :: "order_by list"
  q_limit :: "nat option"
  q_offset :: "nat option"
  q_start_at :: "json option"
  q_start_after :: "json option"
  q_end_at :: "json option"
  q_end_before :: "json option"

definition default_query :: query_options where
  "default_query = \<lparr>q_filters = [], q_fields = [], q_order_by = [], q_limit = None,
     q_offset = None, q_start_at = None, q_start_after = None, q_end_at = None, q_end_before = None\<rparr>"

section \<open>Paths and names\<close>

datatype path_kind = Document string string | Collection string

definition segments :: "string \<Rightarrow> string list" where
  "segments s = filter (\<lambda>p. p \<noteq> []) (split_on (CHR ''/'') s)"

definition parse_collection_path :: "string \<Rightarrow> path_kind" where
  "parse_collection_path raw =
     (let clean = trim_matches (CHR ''/'') raw; segs = segments clean in
      if length segs mod 2 = 0 \<and> segs \<noteq> []
      then Document (join ''/'' (butlast segs)) (last segs)
      else Collection clean)"

definition name_char :: "char \<Rightarrow> bool" where
  "name_char c \<longleftrightarrow> is_alnum c \<or> c = CHR ''_'' \<or> c = CHR ''-''"

definition valid_segment :: "string \<Rightarrow> bool" where
  "valid_segment seg \<longleftrightarrow> \<not> (128 < length seg \<or> seg = ''.'' \<or> seg = ''..'' \<or> \<not> list_all name_char seg)"

definition valid_collection_path :: "string \<Rightarrow> bool" where
  "valid_collection_path s =
     (if s = [] \<or> 1024 < length s then False
      else list_all valid_segment (segments s) \<and> 0 < length (segments s))"

definition valid_db_name :: "string \<Rightarrow> bool" where
  "valid_db_name s \<longleftrightarrow> s \<noteq> [] \<and> length s \<le> 128 \<and> list_all name_char s \<and> \<not> starts_with ''__'' s"

definition valid_doc_id :: "string \<Rightarrow> bool" where
  "valid_doc_id s \<longleftrightarrow> s \<noteq> [] \<and> length s \<le> 512
     \<and> \<not> list_ex (\<lambda>c. c = CHR ''/'' \<or> ch c < 32 \<or> ch c = 127) s"

fun every_other :: "'a list \<Rightarrow> 'a list" where
  "every_other [] = []"
| "every_other [x] = [x]"
| "every_other (x # y # xs) = x # every_other xs"

definition flat_table_name :: "string \<Rightarrow> string" where
  "flat_table_name p =
     (if CHR ''/'' \<notin> set p then p else join ''_'' (every_other (split_on (CHR ''/'') p)))"

section \<open>Identities, errors, changes\<close>

record auth_context =
  uid :: string
  extra :: "(string, json) dict"

definition SVC_UID_PREFIX :: string where "SVC_UID_PREFIX = ''svc:''"
definition SVC_SCOPE :: string where "SVC_SCOPE = ''svc:scope''"

record claims =
  c_provider :: string
  c_uid :: string
  c_email :: "string option"
  c_extra :: "(string, json) dict"

definition namespaced :: "claims \<Rightarrow> string" where
  "namespaced c = c_provider c @ '':'' @ c_uid c"

datatype http_method = Get | ListM | Create | Update | Delete

datatype app_error = PermissionDenied | NotFound | AlreadyExists | BadRequest string
  | Conflict string | Internal string | Unsupported string

fun status_code :: "app_error \<Rightarrow> nat" where
  "status_code PermissionDenied = 403"
| "status_code NotFound = 404"
| "status_code AlreadyExists = 400"
| "status_code (BadRequest _) = 400"
| "status_code (Conflict _) = 409"
| "status_code (Internal _) = 500"
| "status_code (Unsupported _) = 501"

fun error_code :: "app_error \<Rightarrow> string" where
  "error_code PermissionDenied = ''permission-denied''"
| "error_code NotFound = ''not-found''"
| "error_code AlreadyExists = ''already-exists''"
| "error_code (BadRequest _) = ''bad-request''"
| "error_code (Conflict _) = ''conflict''"
| "error_code (Internal _) = ''internal''"
| "error_code (Unsupported _) = ''unsupported''"

type_synonym 'a app_result = "(app_error, 'a) result"

datatype change_kind = Added | Changed | Removed

record change =
  ch_collection :: string
  ch_id :: string
  ch_kind :: change_kind
  ch_old :: "doc option"
  ch_new :: "doc option"

record raw_doc =
  r_version :: "nat option"
  r_inner :: string

text \<open>\<open>frame_doc_json\<close>; \<open>quoted\<close> is the JSON text of the id (\<open>serde_json::to_string\<close>).\<close>

definition frame_doc_json :: "(string \<Rightarrow> string) \<Rightarrow> string \<Rightarrow> string \<Rightarrow> string" where
  "frame_doc_json quoted i inner =
     ''{'' @ [CHR 34] @ ''id'' @ [CHR 34] @ '':'' @ quoted i @ '','' @
     (case strip_prefix ''{'' inner of
        Some rest \<Rightarrow> rest
      | None \<Rightarrow> [CHR 34] @ ''_value'' @ [CHR 34] @ '':'' @ inner @ ''}'')"

section \<open>Transactions, capabilities, indexes\<close>

datatype tx_kind = TxRead | TxPut (tx_merge: bool) (tx_must_exist: bool) | TxDelete

record tx_op =
  t_collection :: string
  t_id :: string
  t_kind :: tx_kind
  t_doc :: "doc option"

record tx_out =
  x_doc :: "doc option"
  x_existed :: bool

record capabilities =
  cap_driver :: string
  supports_watch :: bool
  supports_transactions :: bool
  supports_composite :: bool
  supports_fts :: bool
  supports_drop_index :: bool
  supports_unique :: bool
  supports_named_index :: bool
  supports_native_aggregation :: bool
  supports_vector :: bool
  supports_soft_delete :: bool

datatype index_kind = Simple | Composite | FullText | Vector | Traverse

record index_spec =
  ix_name :: "string option"
  ix_fields :: "string list"
  ix_unique :: bool
  ix_kind :: index_kind

record index_info =
  in_name :: string
  in_fields :: "string list"
  in_unique :: bool
  in_kind :: index_kind

definition validate_spec :: "capabilities \<Rightarrow> index_spec \<Rightarrow> unit app_result" where
  "validate_spec caps spec =
     (if ix_kind spec = Vector then
        Inl (BadRequest ''vector indexes need dim+metric: use POST /api/vector-index'')
      else if ix_kind spec = Traverse then
        Inl (BadRequest ''traverse tracking needs no field: use POST /api/traverse-index'')
      else if ix_fields spec = [] then Inl (BadRequest ''index needs >= 1 field'')
      else if (ix_kind spec = Simple \<or> ix_kind spec = FullText) \<and> 1 < length (ix_fields spec) then
        Inl (BadRequest ''simple/fts index takes exactly 1 field (multi-field = composite)'')
      else if ix_kind spec = Composite \<and> \<not> supports_composite caps then
        Inl (BadRequest (''driver '' @ cap_driver caps @ '' has no composite index''))
      else if ix_kind spec = FullText \<and> \<not> supports_fts caps then
        Inl (BadRequest (''driver '' @ cap_driver caps @ '' has no full-text index''))
      else Inr ())"

definition auto_index_name :: "index_spec \<Rightarrow> string" where
  "auto_index_name spec = (let base = join ''+'' (ix_fields spec) in
     case ix_kind spec of
       Simple \<Rightarrow> base
     | Composite \<Rightarrow> ''composite('' @ base @ '')''
     | FullText \<Rightarrow> ''fts('' @ base @ '')''
     | Vector \<Rightarrow> ''vector('' @ base @ '')''
     | Traverse \<Rightarrow> ''traverse('' @ base @ '')'')"

section \<open>Facts\<close>

lemma filter_op_parse_wire [simp]: "filter_op_parse (as_wire f) = Some f"
  by (cases f) (simp_all add: filter_op_parse_def)

lemma segments_ne: "p \<in> set (segments s) \<Longrightarrow> p \<noteq> [] \<and> CHR ''/'' \<notin> set p"
  by (auto simp: segments_def dest: split_on_pieces)

lemma join_ne: "ps \<noteq> [] \<Longrightarrow> (\<forall>p \<in> set ps. p \<noteq> []) \<Longrightarrow> join sep ps \<noteq> []"
  by (cases ps; cases "tl ps") auto

lemma segments_join:
  "(\<forall>p \<in> set ps. p \<noteq> [] \<and> CHR ''/'' \<notin> set p) \<Longrightarrow> segments (join ''/'' ps) = ps"
  by (cases "ps = []") (auto simp: segments_def split_on_join filter_id_conv)

lemma set_join: "set (join sep ps) \<subseteq> set sep \<union> \<Union> (set ` set ps)"
  by (induction ps rule: induct_list012) auto

lemma hd_join: "ps \<noteq> [] \<Longrightarrow> hd ps \<noteq> [] \<Longrightarrow> hd (join sep ps) = hd (hd ps)"
  by (cases ps; cases "tl ps") auto

lemma last_join:
  "ps \<noteq> [] \<Longrightarrow> (\<forall>p \<in> set ps. p \<noteq> []) \<Longrightarrow> last (join sep ps) = last (last ps)"
proof (induction ps rule: induct_list012)
  case (3 p q ps)
  then have "join sep (q # ps) \<noteq> []" by (intro join_ne) auto
  with 3 show ?case by (simp add: last_append)
qed auto

lemma trim_join:
  assumes "ps \<noteq> []" "\<forall>p \<in> set ps. p \<noteq> [] \<and> CHR ''/'' \<notin> set p"
  shows "trim_matches (CHR ''/'') (join ''/'' ps) = join ''/'' ps"
  unfolding trim_matches_def
proof (rule trim_by_id)
  have h: "hd ps \<in> set ps" "last ps \<in> set ps" using assms(1) by auto
  show "join ''/'' ps \<noteq> []" using assms by (intro join_ne) auto
  show "hd (join ''/'' ps) \<noteq> CHR ''/''"
    using assms h hd_in_set [of "hd ps"] by (subst hd_join) fastforce+
  show "last (join ''/'' ps) \<noteq> CHR ''/''"
    using assms h last_in_set [of "last ps"] by (subst last_join) fastforce+
qed

lemma in_split_on: "x \<in> set s \<Longrightarrow> x \<noteq> c \<Longrightarrow> \<exists>p \<in> set (split_on c s). x \<in> set p"
  by (induction c s rule: split_on.induct) (auto split: list.splits)

text \<open>A name holds nothing but the characters of names; a path has slashes besides.\<close>

lemma valid_path_chars:
  assumes "valid_collection_path s" "x \<in> set s" "x \<noteq> CHR ''/''"
  shows "name_char x"
proof -
  obtain p where p: "p \<in> set (split_on (CHR ''/'') s)" "x \<in> set p" using in_split_on [OF assms(2,3)] by blast
  then have "p \<in> set (segments s)" by (auto simp: segments_def)
  then have "list_all name_char p"
    using assms(1) by (auto simp: valid_collection_path_def list_all_iff [of valid_segment] valid_segment_def split: if_splits)
  with p(2) show ?thesis by (simp add: list_all_iff)
qed

lemma valid_db_chars: "valid_db_name n \<Longrightarrow> x \<in> set n \<Longrightarrow> name_char x"
  by (simp add: valid_db_name_def list_all_iff)

lemma name_char_code: "name_char c \<Longrightarrow> 45 \<le> ch c \<and> ch c < 128"
  by (auto simp: name_char_def is_alnum_def is_digit_def ch_def)

end
