(* ===== verification/Query.thy ===== *)
theory Query
  imports Core "HOL-Library.Multiset"
begin

text \<open>
  The reference semantics of a list query (module \<open>conformance\<close> of
  crates/hakobackend-core/src/lib.rs): the filter predicate, the cursor predicate and the
  pipeline sort, cursor, offset, limit that every driver has to agree with.
\<close>

section \<open>Definitions\<close>

fun nested_from :: "json option \<Rightarrow> string list \<Rightarrow> json option" where
  "nested_from cur [] = cur"
| "nested_from cur (p # ps) =
     nested_from (Option.bind (Option.bind cur as_object) (\<lambda>m. dget m p)) ps"

definition nested :: "(string, json) dict \<Rightarrow> string \<Rightarrow> json option" where
  "nested data field = (case split_on (CHR ''.'') field of
      [] \<Rightarrow> None
    | p # ps \<Rightarrow> nested_from (dget data p) ps)"

fun cmp_json :: "json \<Rightarrow> json \<Rightarrow> ordering option" where
  "cmp_json (JNum x) (JNum y) = Some (cmp_of (num_f64 x) (num_f64 y))"
| "cmp_json (JStr x) (JStr y) = Some (cmp_of x y)"
| "cmp_json (JBool x) (JBool y) = Some (cmp_of x y)"
| "cmp_json a b = (if a = b then Some Equal else None)"

definition cmp_is :: "json option \<Rightarrow> json \<Rightarrow> (ordering \<Rightarrow> bool) \<Rightarrow> bool" where
  "cmp_is v b p = (case Option.bind v (\<lambda>x. cmp_json x b) of None \<Rightarrow> False | Some r \<Rightarrow> p r)"

definition filter_matches :: "doc \<Rightarrow> filter_rec \<Rightarrow> bool" where
  "filter_matches d f = (let v = nested (d_data d) (f_field f) in
     case f_op f of
       Eq \<Rightarrow> v = Some (f_value f)
     | Ne \<Rightarrow> v \<noteq> Some (f_value f)
     | Gt \<Rightarrow> cmp_is v (f_value f) (\<lambda>r. r = Greater)
     | Lt \<Rightarrow> cmp_is v (f_value f) (\<lambda>r. r = Less)
     | Gte \<Rightarrow> cmp_is v (f_value f) (\<lambda>r. r \<noteq> Less)
     | Lte \<Rightarrow> cmp_is v (f_value f) (\<lambda>r. r \<noteq> Greater)
     | InList \<Rightarrow> (case as_array (f_value f) of
           None \<Rightarrow> False
         | Some arr \<Rightarrow> list_ex (\<lambda>item. Some item = v) arr)
     | ArrayContains \<Rightarrow> (case Option.bind v as_array of
           None \<Rightarrow> False
         | Some arr \<Rightarrow> List.member arr (f_value f))
     | ArrayContainsAny \<Rightarrow> (case (Option.bind v as_array, as_array (f_value f)) of
           (Some hay, Some needles) \<Rightarrow> list_ex (\<lambda>n. List.member hay n) needles
         | _ \<Rightarrow> False))"

definition doc_matches :: "doc \<Rightarrow> filter_rec list \<Rightarrow> bool" where
  "doc_matches d fs = list_all (filter_matches d) fs"

definition cursor_field :: "query_options \<Rightarrow> string" where
  "cursor_field q = (case q_order_by q of [] \<Rightarrow> ''id'' | ob # _ \<Rightarrow> o_field ob)"

definition cursor_value :: "doc \<Rightarrow> query_options \<Rightarrow> json option" where
  "cursor_value d q = (case nested (d_data d) (cursor_field q) of
      Some v \<Rightarrow> Some v
    | None \<Rightarrow> if cursor_field q = ''id'' then Some (JStr (d_id d)) else None)"

fun check_bound :: "json option \<Rightarrow> json option \<times> (ordering \<Rightarrow> bool) \<Rightarrow> bool" where
  "check_bound v (None, good) = True"
| "check_bound v (Some b, good) =
     (case v of None \<Rightarrow> False
      | Some x \<Rightarrow> (case cmp_json x b of None \<Rightarrow> False | Some r \<Rightarrow> good r))"

definition matches_cursor :: "doc \<Rightarrow> query_options \<Rightarrow> bool" where
  "matches_cursor d q = list_all (check_bound (cursor_value d q))
     [(q_start_at q, \<lambda>r. r \<noteq> Less), (q_start_after q, \<lambda>r. r = Greater),
      (q_end_at q, \<lambda>r. r \<noteq> Greater), (q_end_before q, \<lambda>r. r = Less)]"

definition apply_cursor :: "doc list \<Rightarrow> query_options \<Rightarrow> doc list" where
  "apply_cursor docs q = filter (\<lambda>d. matches_cursor d q) docs"

definition apply_offset_limit :: "doc list \<Rightarrow> query_options \<Rightarrow> doc list" where
  "apply_offset_limit docs q =
     (let off = min (unwrap_or 0 (q_offset q)) (length docs); rest = drop off docs in
      case q_limit q of None \<Rightarrow> rest | Some n \<Rightarrow> take n rest)"

definition order_key :: "order_by \<Rightarrow> doc \<Rightarrow> doc \<Rightarrow> ordering" where
  "order_key ob a b =
     (if o_field ob = ''id'' then cmp_of (d_id a) (d_id b)
      else case (nested (d_data a) (o_field ob), nested (d_data b) (o_field ob)) of
        (Some x, Some y) \<Rightarrow> unwrap_or Equal (cmp_json x y)
      | (Some _, None) \<Rightarrow> Greater
      | (None, Some _) \<Rightarrow> Less
      | (None, None) \<Rightarrow> Equal)"

fun doc_cmp :: "order_by list \<Rightarrow> doc \<Rightarrow> doc \<Rightarrow> ordering" where
  "doc_cmp [] a b = Equal"
| "doc_cmp (ob # obs) a b =
     (let r = (case o_dir ob of Asc \<Rightarrow> order_key ob a b | Desc \<Rightarrow> reverse_ord (order_key ob a b))
      in if r \<noteq> Equal then r else doc_cmp obs a b)"

text \<open>
  \<open>slice::sort_by\<close> is a stable sort. Its result is determined when the comparison is a total
  preorder on the elements; outside that the library promises no order, and this insertion sort
  is one admissible result.
\<close>

fun insert_by :: "('a \<Rightarrow> 'a \<Rightarrow> ordering) \<Rightarrow> 'a \<Rightarrow> 'a list \<Rightarrow> 'a list" where
  "insert_by cmp x [] = [x]"
| "insert_by cmp x (y # ys) = (if cmp x y \<noteq> Greater then x # y # ys else y # insert_by cmp x ys)"

definition sort_by :: "('a \<Rightarrow> 'a \<Rightarrow> ordering) \<Rightarrow> 'a list \<Rightarrow> 'a list" where
  "sort_by cmp xs = foldr (insert_by cmp) xs []"

definition sort_and_limit :: "doc list \<Rightarrow> query_options \<Rightarrow> doc list" where
  "sort_and_limit docs q =
     (let docs' = (if q_order_by q \<noteq> [] then sort_by (doc_cmp (q_order_by q)) docs else docs) in
      apply_offset_limit (apply_cursor docs' q) q)"

section \<open>Sorting by a comparison\<close>

text \<open>What a comparison has to satisfy on the elements that are sorted.\<close>

locale comparison =
  fixes carrier :: "'a set"
    and cmp :: "'a \<Rightarrow> 'a \<Rightarrow> ordering"
  assumes flip: "a \<in> carrier \<Longrightarrow> b \<in> carrier \<Longrightarrow> cmp b a = reverse_ord (cmp a b)"
    and le_trans: "a \<in> carrier \<Longrightarrow> b \<in> carrier \<Longrightarrow> c \<in> carrier \<Longrightarrow>
      cmp a b \<noteq> Greater \<Longrightarrow> cmp b c \<noteq> Greater \<Longrightarrow> cmp a c \<noteq> Greater"
begin

lemma refl: "a \<in> carrier \<Longrightarrow> cmp a a = Equal"
  using flip [of a a] by (cases "cmp a a") auto

lemma insert_sorted:
  "x \<in> carrier \<Longrightarrow> set ys \<subseteq> carrier \<Longrightarrow> sorted_wrt (\<lambda>a b. cmp a b \<noteq> Greater) ys \<Longrightarrow>
   sorted_wrt (\<lambda>a b. cmp a b \<noteq> Greater) (insert_by cmp x ys) \<and> set (insert_by cmp x ys) = insert x (set ys)"
proof (induction ys)
  case (Cons y ys)
  show ?case
  proof (cases "cmp x y = Greater")
    case False
    then have "cmp x z \<noteq> Greater" if "z \<in> set ys" for z
      using Cons.prems that le_trans [of x y z] by auto
    with False Cons.prems show ?thesis by auto
  next
    case True
    then have "cmp y x = Less" using flip [of x y] Cons.prems by simp
    with True Cons show ?thesis by auto
  qed
qed simp

lemma sorted_sort:
  "set xs \<subseteq> carrier \<Longrightarrow>
   sorted_wrt (\<lambda>a b. cmp a b \<noteq> Greater) (sort_by cmp xs) \<and> set (sort_by cmp xs) = set xs"
  by (induction xs) (auto simp: sort_by_def insert_sorted)

lemma insert_equiv:
  assumes "k \<in> carrier" "x \<in> carrier" "set ys \<subseteq> carrier"
  shows "filter (\<lambda>z. cmp k z = Equal) (insert_by cmp x ys) = filter (\<lambda>z. cmp k z = Equal) (x # ys)"
  using assms(3)
proof (induction ys)
  case (Cons y ys)
  show ?case
  proof (cases "cmp x y = Greater \<and> cmp k x = Equal \<and> cmp k y = Equal")
    case True
    then have "cmp x k = Equal" "cmp k y = Equal" using assms flip [of k x] by auto
    then have "cmp x y \<noteq> Greater" using assms Cons.prems le_trans [of x k y] by auto
    with True show ?thesis by simp
  next
    case False
    with Cons show ?thesis by auto
  qed
qed simp

text \<open>Stability: the elements that compare equal to \<open>k\<close> keep their order.\<close>

lemma sort_stable:
  "k \<in> carrier \<Longrightarrow> set xs \<subseteq> carrier \<Longrightarrow>
   filter (\<lambda>z. cmp k z = Equal) (sort_by cmp xs) = filter (\<lambda>z. cmp k z = Equal) xs"
proof (induction xs)
  case (Cons x xs)
  have "set (sort_by cmp xs) \<subseteq> carrier" using Cons.prems sorted_sort [of xs] by simp
  then show ?case using Cons insert_equiv [of k x "sort_by cmp xs"] by (simp add: sort_by_def)
qed (simp add: sort_by_def)

end

lemma mset_insert_by [simp]: "mset (insert_by cmp x ys) = add_mset x (mset ys)"
  by (induction ys) auto

lemma mset_sort_by [simp]: "mset (sort_by cmp xs) = mset xs"
  by (induction xs) (auto simp: sort_by_def)

lemma set_sort_by [simp]: "set (sort_by cmp xs) = set xs"
  by (metis mset_sort_by set_mset_mset)

lemma length_sort_by [simp]: "length (sort_by cmp xs) = length xs"
  by (metis mset_sort_by size_mset)

section \<open>The document comparison is one, on fields of one kind\<close>

datatype jkind = KNull | KBool | KNum | KStr | KArr | KObj

fun kind_of :: "json \<Rightarrow> jkind" where
  "kind_of JNull = KNull"
| "kind_of (JBool _) = KBool"
| "kind_of (JNum _) = KNum"
| "kind_of (JStr _) = KStr"
| "kind_of (JArr _) = KArr"
| "kind_of (JObj _) = KObj"

text \<open>Every document has, in each ordered field, a value of the field's kind or none.\<close>

definition homogeneous :: "(string \<Rightarrow> jkind) \<Rightarrow> order_by list \<Rightarrow> doc set" where
  "homogeneous kd obs = {d. \<forall>ob \<in> set obs. \<forall>v. nested (d_data d) (o_field ob) = Some v \<longrightarrow> kind_of v = kd (o_field ob)}"

lemma comparisonI:
  assumes "\<And>a b. a \<in> C \<Longrightarrow> b \<in> C \<Longrightarrow> cmp b a = reverse_ord (cmp a b)"
    and "\<And>a b c. a \<in> C \<Longrightarrow> b \<in> C \<Longrightarrow> c \<in> C \<Longrightarrow> cmp a b \<noteq> Greater \<Longrightarrow> cmp b c \<noteq> Greater \<Longrightarrow> cmp a c \<noteq> Greater"
  shows "comparison C cmp"
  using assms unfolding comparison_def by blast

lemma comparison_subset: "comparison C cmp \<Longrightarrow> D \<subseteq> C \<Longrightarrow> comparison D cmp"
  unfolding comparison_def by blast

lemma comparison_reverse:
  assumes "comparison C cmp"
  shows "comparison C (\<lambda>a b. reverse_ord (cmp a b))"
proof (rule comparisonI)
  fix a b c
  note fl = comparison.flip [OF assms]
  show "reverse_ord (cmp b a) = reverse_ord (reverse_ord (cmp a b))" if "a \<in> C" "b \<in> C"
    using fl [of a b] that by simp
  have rv: "reverse_ord r \<noteq> Greater \<longleftrightarrow> r \<noteq> Less" for r by (cases r) auto
  have ls: "cmp x y \<noteq> Less \<longleftrightarrow> cmp y x \<noteq> Greater" if "x \<in> C" "y \<in> C" for x y
    using fl [of x y] that by (cases "cmp x y") auto
  assume "a \<in> C" "b \<in> C" "c \<in> C" "reverse_ord (cmp a b) \<noteq> Greater" "reverse_ord (cmp b c) \<noteq> Greater"
  then show "reverse_ord (cmp a c) \<noteq> Greater"
    using comparison.le_trans [OF assms, of c b a] by (simp add: rv ls)
qed

lemma comparison_lex:
  assumes "comparison C c1" "comparison C c2"
  shows "comparison C (\<lambda>a b. if c1 a b \<noteq> Equal then c1 a b else c2 a b)"
proof (rule comparisonI)
  note f1 = comparison.flip [OF assms(1)] and f2 = comparison.flip [OF assms(2)]
  note t1 = comparison.le_trans [OF assms(1)] and t2 = comparison.le_trans [OF assms(2)]
  fix a b c
  show "(if c1 b a \<noteq> Equal then c1 b a else c2 b a) = reverse_ord (if c1 a b \<noteq> Equal then c1 a b else c2 a b)"
    if "a \<in> C" "b \<in> C" using f1 [OF that] f2 [OF that] by auto
  assume C: "a \<in> C" "b \<in> C" "c \<in> C"
    and ab: "(if c1 a b \<noteq> Equal then c1 a b else c2 a b) \<noteq> Greater"
    and bc: "(if c1 b c \<noteq> Equal then c1 b c else c2 b c) \<noteq> Greater"
  have le: "c1 a b \<noteq> Greater" "c1 b c \<noteq> Greater" using ab bc by (auto split: if_splits)
  have ac: "c1 a c \<noteq> Greater" using t1 [OF C le] .
  show "(if c1 a c \<noteq> Equal then c1 a c else c2 a c) \<noteq> Greater"
  proof (cases "c1 a c = Equal")
    case True
    then have ca: "c1 c a \<noteq> Greater" using f1 [of a c] C by simp
    have "c1 b a \<noteq> Greater" using t1 [OF C(2,3,1) le(2) ca] .
    then have "c1 a b = Equal" using le(1) f1 [of a b] C by (cases "c1 a b") auto
    moreover have "c1 c b \<noteq> Greater" using t1 [OF C(3,1,2) ca le(1)] .
    then have "c1 b c = Equal" using le(2) f1 [of b c] C by (cases "c1 b c") auto
    ultimately show ?thesis using True ab bc t2 [OF C] by simp
  qed (use ac in simp)
qed

lemma comparison_cmp_of: "comparison UNIV (\<lambda>a b. cmp_of (f a) (f b))"
proof (rule comparisonI)
  have g: "cmp_of (f x) (f y) \<noteq> Greater \<longleftrightarrow> f x \<le> f y" for x y by (simp add: not_less)
  fix a b c
  show "cmp_of (f b) (f a) = reverse_ord (cmp_of (f a) (f b))" by (simp add: reverse_cmp_of)
  show "cmp_of (f a) (f b) \<noteq> Greater \<Longrightarrow> cmp_of (f b) (f c) \<noteq> Greater \<Longrightarrow> cmp_of (f a) (f c) \<noteq> Greater"
    unfolding g by (rule order_trans)
qed

definition key_cmp :: "json option \<Rightarrow> json option \<Rightarrow> ordering" where
  "key_cmp x y = (case (x, y) of
      (Some x, Some y) \<Rightarrow> unwrap_or Equal (cmp_json x y)
    | (Some _, None) \<Rightarrow> Greater
    | (None, Some _) \<Rightarrow> Less
    | (None, None) \<Rightarrow> Equal)"

lemma key_cmp_flip:
  "\<lbrakk>\<forall>v. x = Some v \<longrightarrow> kind_of v = k; \<forall>v. y = Some v \<longrightarrow> kind_of v = k\<rbrakk> \<Longrightarrow> key_cmp y x = reverse_ord (key_cmp x y)"
  by (cases x; cases y)
    (auto simp: key_cmp_def reverse_cmp_of elim!: kind_of.elims)

lemma key_cmp_trans:
  "\<lbrakk>\<forall>v. x = Some v \<longrightarrow> kind_of v = k; \<forall>v. y = Some v \<longrightarrow> kind_of v = k; \<forall>v. z = Some v \<longrightarrow> kind_of v = k;
    key_cmp x y \<noteq> Greater; key_cmp y z \<noteq> Greater\<rbrakk> \<Longrightarrow> key_cmp x z \<noteq> Greater"
  by (cases x; cases y; cases z) (auto simp: key_cmp_def elim!: kind_of.elims split: if_splits)

lemma comparison_order_key:
  assumes "\<And>d v. d \<in> C \<Longrightarrow> nested (d_data d) (o_field ob) = Some v \<Longrightarrow> kind_of v = k"
  shows "comparison C (order_key ob)"
proof (cases "o_field ob = ''id''")
  case True
  then have "order_key ob = (\<lambda>a b. cmp_of (d_id a) (d_id b))"
    by (intro HOL.ext) (simp add: order_key_def)
  then show ?thesis using comparison_subset [OF comparison_cmp_of] by auto
next
  case False
  let ?v = "\<lambda>d. nested (d_data d) (o_field ob)"
  have e: "order_key ob a b = key_cmp (?v a) (?v b)" for a b
    using False by (simp add: order_key_def key_cmp_def)
  show ?thesis
  proof (rule comparisonI)
    fix a b c
    show "order_key ob b a = reverse_ord (order_key ob a b)" if "a \<in> C" "b \<in> C"
      unfolding e using assms that by (intro key_cmp_flip [where k = k]) auto
    show "order_key ob a c \<noteq> Greater"
      if "a \<in> C" "b \<in> C" "c \<in> C" "order_key ob a b \<noteq> Greater" "order_key ob b c \<noteq> Greater"
      using assms that unfolding e
      by (intro key_cmp_trans [where k = k and x = "?v a" and y = "?v b" and z = "?v c"]) auto
  qed
qed

lemma comparison_doc_cmp: "comparison (homogeneous kd obs) (doc_cmp obs)"
proof (induction obs)
  case Nil
  show ?case by (rule comparisonI) auto
next
  case (Cons ob obs)
  let ?C = "homogeneous kd (ob # obs)"
  have k: "comparison ?C (order_key ob)"
    by (rule comparison_order_key [where k = "kd (o_field ob)"]) (auto simp: homogeneous_def)
  have one: "comparison ?C (\<lambda>a b. case o_dir ob of Asc \<Rightarrow> order_key ob a b | Desc \<Rightarrow> reverse_ord (order_key ob a b))"
    using k comparison_reverse [OF k] by (cases "o_dir ob") auto
  have rest: "comparison ?C (doc_cmp obs)"
    by (rule comparison_subset [OF Cons]) (auto simp: homogeneous_def)
  have "doc_cmp (ob # obs) = (\<lambda>a b. if (case o_dir ob of Asc \<Rightarrow> order_key ob a b | Desc \<Rightarrow> reverse_ord (order_key ob a b)) \<noteq> Equal
      then (case o_dir ob of Asc \<Rightarrow> order_key ob a b | Desc \<Rightarrow> reverse_ord (order_key ob a b)) else doc_cmp obs a b)"
    by (intro HOL.ext) (simp add: Let_def)
  then show ?case using comparison_lex [OF one rest] by simp
qed

interpretation by_fields: comparison "homogeneous kd obs" "doc_cmp obs" for kd obs
  by (rule comparison_doc_cmp)

section \<open>Properties\<close>

text \<open>
  On documents whose ordered fields hold values of one kind per field, the list pipeline
  without cursors and paging returns the same documents, in an order no pair of which the
  requested ordering contradicts, and documents that compare equal keep the order they came in.
\<close>

theorem sort_and_limit_sorts:
  assumes "set docs \<subseteq> homogeneous kd (q_order_by q)" "q_order_by q \<noteq> []"
    and "q_limit q = None" "q_offset q = None"
    and "q_start_at q = None" "q_start_after q = None" "q_end_at q = None" "q_end_before q = None"
  shows "mset (sort_and_limit docs q) = mset docs
    \<and> sorted_wrt (\<lambda>a b. doc_cmp (q_order_by q) a b \<noteq> Greater) (sort_and_limit docs q)
    \<and> (\<forall>k \<in> set docs. filter (\<lambda>d. doc_cmp (q_order_by q) k d = Equal) (sort_and_limit docs q)
                       = filter (\<lambda>d. doc_cmp (q_order_by q) k d = Equal) docs)"
proof -
  have e: "sort_and_limit docs q = sort_by (doc_cmp (q_order_by q)) docs"
    using assms(2-8) by (simp add: sort_and_limit_def apply_offset_limit_def apply_cursor_def matches_cursor_def)
  show ?thesis
    unfolding e using by_fields.sorted_sort [OF assms(1)] by_fields.sort_stable [OF _ assms(1)] assms(1)
    by auto
qed

definition q_age :: query_options where
  "q_age = default_query\<lparr>q_order_by := [\<lparr>o_field = ''age'', o_dir = Desc\<rparr>]\<rparr>"

definition two_docs :: "doc list" where
  "two_docs = [\<lparr>d_id = ''a'', d_data = [(''age'', jint 3)]\<rparr>, \<lparr>d_id = ''b'', d_data = [(''age'', jint 7)]\<rparr>]"

lemma sort_and_limit_sorts_witness:
  "mset (sort_and_limit two_docs q_age) = mset two_docs"
proof -
  have "set two_docs \<subseteq> homogeneous (\<lambda>_. KNum) (q_order_by q_age)"
    by (auto simp: two_docs_def q_age_def homogeneous_def nested_def split: if_splits)
  then show ?thesis
    using sort_and_limit_sorts [of two_docs "\<lambda>_. KNum" q_age] by (simp add: q_age_def default_query_def)
qed

text \<open>
  Consecutive pages of \<open>n\<close> rows concatenate to the unpaged result: no document is repeated
  or lost between two pages.
\<close>

lemma pages_concat:
  "concat (map (\<lambda>i. sort_and_limit docs (q\<lparr>q_limit := Some n, q_offset := Some (i * n)\<rparr>)) [0..<k])
   = take (k * n) (sort_and_limit docs (q\<lparr>q_limit := None, q_offset := None\<rparr>))"
proof -
  let ?all = "sort_and_limit docs (q\<lparr>q_limit := None, q_offset := None\<rparr>)"
  have cur: "apply_cursor ds (q\<lparr>q_limit := l, q_offset := f\<rparr>) = apply_cursor ds q" for ds l f
    by (simp add: apply_cursor_def matches_cursor_def cursor_value_def cursor_field_def)
  have min: "drop (min m (length xs)) xs = drop m xs" for m and xs :: "doc list"
    by (cases "m \<le> length xs") (auto simp: min_def)
  have page: "sort_and_limit docs (q\<lparr>q_limit := Some n, q_offset := Some (i * n)\<rparr>) = take n (drop (i * n) ?all)" for i
    by (simp add: sort_and_limit_def cur apply_offset_limit_def Let_def min)
  show ?thesis
    unfolding page
  proof (induction k)
    case (Suc k)
    then show ?case using take_add [of "k * n" n ?all] by (simp add: add.commute [of n])
  qed simp
qed

text \<open>
  Ordering a field that holds values of different kinds: the comparison the pipeline hands to
  \<open>sort_by\<close> is not a total preorder. Two numbers that differ both compare equal to a string, so
  the order of the result depends on the sorting algorithm.
\<close>

lemma mixed_kinds_not_ordered:
  "\<not> comparison UNIV (doc_cmp [\<lparr>o_field = ''age'', o_dir = Asc\<rparr>])"
proof
  let ?d = "\<lambda>v. \<lparr>d_id = [], d_data = [(''age'', v)]\<rparr>"
  let ?c = "doc_cmp [\<lparr>o_field = ''age'', o_dir = Asc\<rparr>]"
  assume "comparison UNIV ?c"
  moreover have "?c (?d (jint 1)) (?d (JStr ''x'')) = Equal" "?c (?d (JStr ''x'')) (?d (jint 0)) = Equal"
    by (simp_all add: order_key_def nested_def)
  moreover have "?c (?d (jint 1)) (?d (jint 0)) = Greater"
    by (simp add: order_key_def nested_def f64_of_int_exact)
  ultimately show False using comparison.le_trans [of UNIV ?c "?d (jint 1)" "?d (JStr ''x'')" "?d (jint 0)"] by simp
qed

end
