(* ===== verification/Vectors.thy ===== *)
theory Vectors
  imports Query
begin

text \<open>
  Vector search and graph walks (crates/hakobackend-core/src/lib.rs): the metrics, the
  distance of two vectors, the vector a document carries in a field, and the rows of both
  searches. Distances overflow, so this theory has the infinities and NaN that theory F64 leaves
  out; only the sign of zero is missing. An \<open>f32\<close> is kept as the float value it stands for.
\<close>

section \<open>Floats with infinities\<close>

datatype fl = Fin rat | Infty bool | NaN

abbreviation PInf :: fl where "PInf \<equiv> Infty True"

definition fl64 :: "rat \<Rightarrow> fl" where
  "fl64 x = (let r = f64_round x in if \<bar>r\<bar> < 2 ^ 1024 then Fin r else Infty (0 < r))"

definition f32_ulp_exp :: "rat \<Rightarrow> int" where
  "f32_ulp_exp x = max (flog2 x - 23) (-149)"

definition f32_round :: "rat \<Rightarrow> rat" where
  "f32_round x = (if x = 0 then 0 else
     let q = f32_ulp_exp \<bar>x\<bar> in sgn x * of_int (rne (\<bar>x\<bar> / pow2 q)) * pow2 q)"

definition fl32 :: "rat \<Rightarrow> fl" where
  "fl32 x = (let r = f32_round x in if \<bar>r\<bar> < 2 ^ 128 then Fin r else Infty (0 < r))"

fun fl_neg :: "fl \<Rightarrow> fl" where
  "fl_neg (Fin x) = Fin (- x)"
| "fl_neg (Infty s) = Infty (\<not> s)"
| "fl_neg NaN = NaN"

fun fl_add :: "(rat \<Rightarrow> fl) \<Rightarrow> fl \<Rightarrow> fl \<Rightarrow> fl" where
  "fl_add rnd (Fin x) (Fin y) = rnd (x + y)"
| "fl_add rnd (Infty s) (Infty t) = (if s = t then Infty s else NaN)"
| "fl_add rnd (Infty s) (Fin _) = Infty s"
| "fl_add rnd (Fin _) (Infty t) = Infty t"
| "fl_add rnd _ _ = NaN"

definition fl_sub :: "(rat \<Rightarrow> fl) \<Rightarrow> fl \<Rightarrow> fl \<Rightarrow> fl" where
  "fl_sub rnd x y = fl_add rnd x (fl_neg y)"

fun fl_mul :: "(rat \<Rightarrow> fl) \<Rightarrow> fl \<Rightarrow> fl \<Rightarrow> fl" where
  "fl_mul rnd (Fin x) (Fin y) = rnd (x * y)"
| "fl_mul rnd (Infty s) (Infty t) = Infty (s = t)"
| "fl_mul rnd (Infty s) (Fin y) = (if y = 0 then NaN else Infty (s = (0 < y)))"
| "fl_mul rnd (Fin x) (Infty t) = (if x = 0 then NaN else Infty ((0 < x) = t))"
| "fl_mul rnd _ _ = NaN"

text \<open>Division; the program never divides by zero.\<close>

fun fl_div :: "(rat \<Rightarrow> fl) \<Rightarrow> fl \<Rightarrow> fl \<Rightarrow> fl" where
  "fl_div rnd (Fin x) (Fin y) = (if y = 0 then (if x = 0 then NaN else Infty (0 < x)) else rnd (x / y))"
| "fl_div rnd (Fin _) (Infty _) = Fin 0"
| "fl_div rnd (Infty s) (Fin y) = Infty (s = (0 \<le> y))"
| "fl_div rnd _ _ = NaN"

text \<open>
  The square root: the integer root of the value scaled to at least 108 bits, with a half added
  when it is not exact, rounds as the root itself does.
\<close>

function nat_sqrt_between :: "nat \<Rightarrow> nat \<Rightarrow> nat \<Rightarrow> nat" where
  "nat_sqrt_between n lo hi = (if hi \<le> Suc lo then lo
     else let m = (lo + hi) div 2 in if m * m \<le> n then nat_sqrt_between n m hi else nat_sqrt_between n lo m)"
  by pat_completeness auto
termination
  by (relation "measure (\<lambda>(n, lo, hi). hi - lo)") auto

declare nat_sqrt_between.simps [simp del]

definition nat_sqrt :: "nat \<Rightarrow> nat" where
  "nat_sqrt n = nat_sqrt_between n 0 (Suc n)"

definition rat_sqrt :: "rat \<Rightarrow> rat" where
  "rat_sqrt x = (if x \<le> 0 then 0 else
     let e = (flog2 x - 108) div 2; y = x / pow2 (2 * e); n = nat \<lfloor>y\<rfloor>; r = nat_sqrt n
     in (of_nat r + (if of_nat (r * r) = y then 0 else 1 / 2)) * pow2 e)"

fun fl_sqrt :: "fl \<Rightarrow> fl" where
  "fl_sqrt (Fin x) = (if x < 0 then NaN else fl64 (rat_sqrt x))"
| "fl_sqrt (Infty s) = (if s then PInf else NaN)"
| "fl_sqrt NaN = NaN"

text \<open>\<open>a.partial_cmp(&b).unwrap_or(Equal)\<close>.\<close>

fun fl_cmp :: "fl \<Rightarrow> fl \<Rightarrow> ordering" where
  "fl_cmp (Fin x) (Fin y) = cmp_of x y"
| "fl_cmp (Infty s) (Infty t) = (if s = t then Equal else if s then Greater else Less)"
| "fl_cmp (Fin _) (Infty t) = (if t then Less else Greater)"
| "fl_cmp (Infty s) (Fin _) = (if s then Greater else Less)"
| "fl_cmp _ _ = Equal"

section \<open>Vectors\<close>

datatype vector_metric = Cosine | L2

record vector_index_spec =
  vi_field :: string
  vi_dim :: nat
  vi_metric :: vector_metric

definition MAX_VECTOR_SCAN_DOCS :: nat where "MAX_VECTOR_SCAN_DOCS = 50000"

definition MAX_VECTOR_K :: nat where "MAX_VECTOR_K = 1000"

definition cosine_step :: "fl \<times> fl \<times> fl \<Rightarrow> fl \<times> fl \<Rightarrow> fl \<times> fl \<times> fl" where
  "cosine_step acc xy = (case acc of (dot, na, nb) \<Rightarrow> case xy of (x, y) \<Rightarrow>
     (fl_add fl64 dot (fl_mul fl64 x y), fl_add fl64 na (fl_mul fl64 x x), fl_add fl64 nb (fl_mul fl64 y y)))"

text \<open>The difference is taken in \<open>f32\<close>, squared and added up in \<open>f64\<close>.\<close>

definition l2_step :: "fl \<Rightarrow> fl \<times> fl \<Rightarrow> fl" where
  "l2_step acc xy = (let d = fl_sub fl32 (fst xy) (snd xy) in fl_add fl64 acc (fl_mul fl64 d d))"

definition vector_distance :: "vector_metric \<Rightarrow> fl list \<Rightarrow> fl list \<Rightarrow> fl" where
  "vector_distance metric a b =
     (if length a \<noteq> length b then PInf
      else case metric of
          Cosine \<Rightarrow>
            (case foldl cosine_step (Fin 0, Fin 0, Fin 0) (zip a b) of
               (dot, na, nb) \<Rightarrow>
                 if na = Fin 0 \<or> nb = Fin 0 then Fin 1
                 else fl_sub fl64 (Fin 1) (fl_div fl64 dot (fl_mul fl64 (fl_sqrt na) (fl_sqrt nb))))
        | L2 \<Rightarrow> foldl l2_step (Fin 0) (zip a b))"

text \<open>A JSON array of numbers, cast to \<open>f32\<close>.\<close>

definition json_float_array :: "json \<Rightarrow> fl list option" where
  "json_float_array v = (case v of
     JArr items \<Rightarrow> if items = [] then None
       else collect_opt (map (\<lambda>n. map_option fl32 (as_f64 n)) items)
   | _ \<Rightarrow> None)"

record scored_doc =
  sc_id :: string
  sc_score :: fl
  sc_doc :: doc

text \<open>The scan of the default search: the documents with a vector of the right length, nearest first.\<close>

definition scored :: "vector_metric \<Rightarrow> fl list \<Rightarrow> string \<Rightarrow> doc \<Rightarrow> (fl \<times> doc) option" where
  "scored metric query field d = (case Option.bind (dget (d_data d) field) json_float_array of
     None \<Rightarrow> None
   | Some v \<Rightarrow> if length v \<noteq> length query then None else Some (vector_distance metric query v, d))"

definition nearest :: "vector_metric \<Rightarrow> fl list \<Rightarrow> string \<Rightarrow> nat \<Rightarrow> doc list \<Rightarrow> scored_doc list" where
  "nearest metric query field k docs =
     map (\<lambda>(score, d). \<lparr>sc_id = d_id d, sc_score = score, sc_doc = d\<rparr>)
       (take k (sort_by (\<lambda>a b. fl_cmp (fst a) (fst b)) (filter_map (scored metric query field) docs)))"

section \<open>Graph walks\<close>

definition MAX_TRAVERSE_K :: nat where "MAX_TRAVERSE_K = 1000"

definition MAX_TRAVERSE_DEPTH :: nat where "MAX_TRAVERSE_DEPTH = 32"

datatype traverse_direction = Outgoing | Incoming | Both

record path_hit =
  ph_collection :: string
  ph_id :: string
  ph_depth :: nat
  ph_cost :: fl
  ph_doc :: doc

section \<open>Retention records\<close>

record restore_record =
  rr_col :: string
  rr_id :: string
  rr_deleted_at :: int
  rr_scheduled_at :: int
  rr_bytes :: nat

section \<open>What the scan finds\<close>

text \<open>Scores other than NaN compare totally, so the sort has a sorted result.\<close>

lemma fl_cmp_flip: "a \<noteq> NaN \<Longrightarrow> b \<noteq> NaN \<Longrightarrow> fl_cmp b a = reverse_ord (fl_cmp a b)"
  by (cases a; cases b) (auto simp: reverse_cmp_of)

lemma fl_cmp_le: "a \<noteq> NaN \<Longrightarrow> b \<noteq> NaN \<Longrightarrow>
    fl_cmp a b \<noteq> Greater \<longleftrightarrow> a = Infty False \<or> b = PInf \<or> (\<exists>x y. a = Fin x \<and> b = Fin y \<and> x \<le> y)"
  by (cases a; cases b) auto

lemma fl_cmp_trans:
  assumes n: "a \<noteq> NaN" "b \<noteq> NaN" "c \<noteq> NaN" and ab: "fl_cmp a b \<noteq> Greater" and bc: "fl_cmp b c \<noteq> Greater"
  shows "fl_cmp a c \<noteq> Greater"
proof -
  have "a = Infty False \<or> c = PInf \<or> (\<exists>x z. a = Fin x \<and> c = Fin z \<and> x \<le> z)"
    using ab [unfolded fl_cmp_le [OF n(1,2)]] bc [unfolded fl_cmp_le [OF n(2,3)]]
    by (elim disjE exE conjE) (auto intro: order_trans)
  then show ?thesis by (simp only: fl_cmp_le [OF n(1,3)])
qed

interpretation by_score: comparison "{p. fst p \<noteq> NaN}" "\<lambda>a b. fl_cmp (fst a) (fst b)"
  by unfold_locales (use fl_cmp_flip fl_cmp_trans in blast)+

lemma sorted_prefix_least:
  "sorted_wrt P ys \<Longrightarrow> x \<in> set (take k ys) \<Longrightarrow> y \<in> set (drop k ys) \<Longrightarrow> P x y"
  using sorted_wrt_append [of P "take k ys" "drop k ys"] by simp

text \<open>
  The hits of the scan: at most \<open>k\<close>, each a document with a vector of the length of the query and its
  distance; nearest first; and every other such document is no nearer than any hit.
\<close>

lemma nearest_spec:
  fixes k :: nat
  assumes n: "\<forall>d \<in> set docs. \<forall>x. scored metric query field d = Some (NaN, x) \<longrightarrow> False" and d: "distinct docs"
  defines "hits \<equiv> nearest metric query field k docs"
  shows "length hits = min k (card {d \<in> set docs. scored metric query field d \<noteq> None})"
    "sorted_wrt (\<lambda>a b. fl_cmp (sc_score a) (sc_score b) \<noteq> Greater) hits"
    "\<forall>h \<in> set hits. sc_doc h \<in> set docs \<and> sc_id h = d_id (sc_doc h) \<and> scored metric query field (sc_doc h) = Some (sc_score h, sc_doc h)"
    "\<forall>x \<in> set docs. \<forall>score. scored metric query field x = Some (score, x) \<longrightarrow> x \<notin> sc_doc ` set hits \<longrightarrow>
       (\<forall>h \<in> set hits. fl_cmp (sc_score h) score \<noteq> Greater)"
proof -
  let ?f = "scored metric query field"
  let ?cmp = "\<lambda>a b. fl_cmp (fst a) (fst b)"
  let ?all = "filter_map ?f docs"
  let ?ys = "sort_by ?cmp ?all"
  have f: "y = d" if "?f d = Some (score, y)" for d y score
    using that by (auto simp: scored_def split: option.splits if_splits)
  have c: "set ?all \<subseteq> {p. fst p \<noteq> NaN}" using n by (auto simp: set_filter_map)
  note srt = by_score.sorted_sort [OF c]
  have fm: "map snd ?all = filter (\<lambda>d. ?f d \<noteq> None) docs"
    by (induction docs) (auto simp: f split: option.splits)
  have len: "length ?all = card {d \<in> set docs. ?f d \<noteq> None}"
    using d by (metis fm length_map distinct_card distinct_filter set_filter)
  show "length hits = min k (card {d \<in> set docs. ?f d \<noteq> None})"
    by (simp add: hits_def nearest_def len min.commute)
  have st: "sorted_wrt (\<lambda>a b. ?cmp a b \<noteq> Greater) (take k ?ys)"
    using srt by (simp add: sorted_wrt_take)
  show "sorted_wrt (\<lambda>a b. fl_cmp (sc_score a) (sc_score b) \<noteq> Greater) hits"
    using st by (auto simp: hits_def nearest_def sorted_wrt_map case_prod_beta)
  have mem: "\<exists>p. p \<in> set (take k ?ys) \<and> p = (sc_score h, sc_doc h) \<and> sc_id h = d_id (snd p)" if "h \<in> set hits" for h
    using that by (auto simp: hits_def nearest_def)
  have ys: "set ?ys = set ?all" using srt by simp
  show "\<forall>h \<in> set hits. sc_doc h \<in> set docs \<and> sc_id h = d_id (sc_doc h) \<and> ?f (sc_doc h) = Some (sc_score h, sc_doc h)"
  proof
    fix h assume "h \<in> set hits"
    with mem obtain p where p: "p \<in> set (take k ?ys)" "p = (sc_score h, sc_doc h)" "sc_id h = d_id (snd p)" by blast
    then have "p \<in> set ?all" using ys in_set_takeD by metis
    then obtain x where "x \<in> set docs" "?f x = Some p" by (auto simp: set_filter_map)
    with p f show "sc_doc h \<in> set docs \<and> sc_id h = d_id (sc_doc h) \<and> ?f (sc_doc h) = Some (sc_score h, sc_doc h)" by auto
  qed
  show "\<forall>x \<in> set docs. \<forall>score. ?f x = Some (score, x) \<longrightarrow> x \<notin> sc_doc ` set hits \<longrightarrow>
       (\<forall>h \<in> set hits. fl_cmp (sc_score h) score \<noteq> Greater)"
  proof (intro ballI allI impI)
    fix x score h
    assume a: "x \<in> set docs" "?f x = Some (score, x)" "x \<notin> sc_doc ` set hits" "h \<in> set hits"
    then have "(score, x) \<in> set ?ys" using ys by (auto simp: set_filter_map)
    moreover have "(score, x) \<notin> set (take k ?ys)"
      using a(3) by (force simp: hits_def nearest_def image_image case_prod_beta)
    ultimately have "(score, x) \<in> set (drop k ?ys)"
      by (metis append_take_drop_id set_append Un_iff)
    moreover obtain p where "p \<in> set (take k ?ys)" "p = (sc_score h, sc_doc h)" using mem [OF a(4)] by blast
    ultimately show "fl_cmp (sc_score h) score \<noteq> Greater"
      using sorted_prefix_least [OF conjunct1 [OF srt], of p k "(score, x)"] by simp
  qed
qed

text \<open>The L2 distance of finite vectors is a number or an overflow, never NaN.\<close>

definition nonneg_fl :: "fl \<Rightarrow> bool" where
  "nonneg_fl a \<longleftrightarrow> a = PInf \<or> (\<exists>x. a = Fin x \<and> 0 \<le> x)"

lemma fl64_nonneg: "0 \<le> x \<Longrightarrow> nonneg_fl (fl64 x)"
  using f64_round_nonneg [of x] by (auto simp: fl64_def nonneg_fl_def Let_def)

lemma fl_add_nonneg: "nonneg_fl a \<Longrightarrow> nonneg_fl b \<Longrightarrow> nonneg_fl (fl_add fl64 a b)"
  by (auto simp: nonneg_fl_def [of a] nonneg_fl_def [of b] nonneg_fl_def [of PInf] intro!: fl64_nonneg)

lemma fl_square_nonneg: "a \<noteq> NaN \<Longrightarrow> nonneg_fl (fl_mul fl64 a a)"
  by (cases a) (auto simp: fl64_nonneg, auto simp: nonneg_fl_def)

definition finite_vector :: "fl list \<Rightarrow> bool" where
  "finite_vector v \<longleftrightarrow> list_all (\<lambda>a. \<exists>x. a = Fin x) v"

lemma fl32_sub_Fin: "fl_sub fl32 (Fin x) (Fin y) \<noteq> NaN"
  by (simp add: fl_sub_def fl32_def Let_def)

lemma l2_fold_nonneg:
  "list_all (\<lambda>(a, b). \<exists>x y. a = Fin x \<and> b = Fin y) ps \<Longrightarrow> nonneg_fl acc \<Longrightarrow> nonneg_fl (foldl l2_step acc ps)"
proof (induction ps arbitrary: acc)
  case (Cons p ps)
  have "nonneg_fl (l2_step acc p)"
    using Cons.prems fl32_sub_Fin by (auto simp: l2_step_def Let_def intro!: fl_add_nonneg fl_square_nonneg)
  with Cons show ?case by auto
qed simp

lemma l2_distance_not_NaN: "finite_vector a \<Longrightarrow> finite_vector b \<Longrightarrow> nonneg_fl (vector_distance L2 a b)"
  using l2_fold_nonneg [of "zip a b" "Fin 0"]
  by (force simp: vector_distance_def finite_vector_def list_all_iff nonneg_fl_def dest: set_zip_leftD set_zip_rightD)

text \<open>
  A number beyond the range of \<open>f32\<close> becomes an infinity when a vector is read, in a query that was
  checked to be finite as much as in a document, and infinities have NaN for a distance: it
  compares equal to every score, which is no order, so nothing can be said of the rows then.
\<close>

lemma overflowing_vector: "json_float_array (JArr [JNum (NFloat (2 ^ 200))]) = Some [PInf]"
proof -
  have "flog2 (2 ^ 200) = 200" by (rule flog2_unique) (simp_all add: pow2_nat)
  then have "f32_round (2 ^ 200) = of_int (rne (of_int (2 ^ 23))) * 2 ^ 177"
    by (simp add: f32_round_def f32_ulp_exp_def Let_def pow2_nat del: rne_of_int)
  then have "f32_round (2 ^ 200) = 2 ^ 200" by (simp only: rne_of_int) simp
  then show ?thesis by (simp add: json_float_array_def fl32_def)
qed

lemma overflowing_distance:
  "vector_distance L2 [PInf] [PInf] = NaN"
  "vector_distance Cosine [PInf] [Fin 1] = NaN"
  "fl_cmp (Fin 2) NaN \<noteq> Greater \<and> fl_cmp NaN (Fin 1) \<noteq> Greater \<and> fl_cmp (Fin 2) (Fin 1) = Greater"
proof -
  show "vector_distance L2 [PInf] [PInf] = NaN"
    by (simp add: vector_distance_def l2_step_def fl_sub_def)
  have one: "fl64 1 = Fin 1" using f64_of_int_exact [of 1] by (simp add: fl64_def f64_of_int_def)
  show "vector_distance Cosine [PInf] [Fin 1] = NaN"
    by (cases "fl_sqrt (Fin 1)") (simp_all add: vector_distance_def cosine_step_def fl_sub_def one)
qed auto

end
