(* ===== verification/Database.thy ===== *)
theory Database
  imports Vectors
begin

text \<open>
  The \<open>Database\<close> trait (crates/hakobackend-core/src/lib.rs) as a record of operations over a
  driver state, its default operations, the in-memory reference driver \<open>MemDb\<close>, and the
  abstract specification of a document store that drivers implement.
\<close>

section \<open>The driver interface\<close>

text \<open>
  Reads leave the driver's state alone, writes return the new one. The operations that only some
  drivers have (retention records, lazy collections, vectors, graphs) come last; \<open>subscribe\<close>, the
  change feed, is part of the model of subscriptions.
\<close>

record 's driver =
  db_capabilities :: capabilities
  db_list_collections :: "'s \<Rightarrow> string list app_result"
  db_get :: "'s \<Rightarrow> string \<Rightarrow> string \<Rightarrow> doc option app_result"
  db_doc_version :: "'s \<Rightarrow> string \<Rightarrow> string \<Rightarrow> nat option app_result"
  db_get_json :: "'s \<Rightarrow> string \<Rightarrow> string \<Rightarrow> raw_doc option app_result"
  db_list :: "'s \<Rightarrow> string \<Rightarrow> query_options \<Rightarrow> doc list app_result"
  db_insert :: "'s \<Rightarrow> string \<Rightarrow> doc \<Rightarrow> doc app_result \<times> 's"
  db_set :: "'s \<Rightarrow> string \<Rightarrow> string \<Rightarrow> doc \<Rightarrow> bool \<Rightarrow> doc app_result \<times> 's"
  db_delete :: "'s \<Rightarrow> string \<Rightarrow> string \<Rightarrow> doc option app_result \<times> 's"
  db_delete_force :: "'s \<Rightarrow> string \<Rightarrow> string \<Rightarrow> doc option app_result \<times> 's"
  db_count :: "'s \<Rightarrow> string \<Rightarrow> query_options \<Rightarrow> nat app_result"
  db_sum :: "'s \<Rightarrow> string \<Rightarrow> string \<Rightarrow> query_options \<Rightarrow> f64 app_result"
  db_avg :: "'s \<Rightarrow> string \<Rightarrow> string \<Rightarrow> query_options \<Rightarrow> f64 app_result"
  db_run_transaction :: "'s \<Rightarrow> tx_op list \<Rightarrow> tx_out list app_result \<times> 's"
  db_ensure_collection :: "'s \<Rightarrow> string \<Rightarrow> unit app_result \<times> 's"
  db_create_index :: "'s \<Rightarrow> string \<Rightarrow> index_spec \<Rightarrow> index_info app_result \<times> 's"
  db_list_indexes :: "'s \<Rightarrow> string \<Rightarrow> index_info list app_result"
  db_drop_index :: "'s \<Rightarrow> string \<Rightarrow> string \<Rightarrow> unit app_result \<times> 's"
  db_relocate :: "'s \<Rightarrow> string \<Rightarrow> string \<Rightarrow> string list \<Rightarrow> (string list \<times> string list) app_result \<times> 's"
  db_restore :: "'s \<Rightarrow> string \<Rightarrow> string \<Rightarrow> doc app_result \<times> 's"
  db_restore_available :: "'s \<Rightarrow> string option \<Rightarrow> restore_record list app_result"
  db_delete_queue :: "'s \<Rightarrow> string option \<Rightarrow> restore_record list app_result"
  db_sweep_now :: "'s \<Rightarrow> nat app_result \<times> 's"
  db_load_collection :: "'s \<Rightarrow> string \<Rightarrow> unit app_result \<times> 's"
  db_unload_collection :: "'s \<Rightarrow> string \<Rightarrow> unit app_result \<times> 's"
  db_unloaded_collections :: "'s \<Rightarrow> string list app_result"
  db_create_vector_index :: "'s \<Rightarrow> string \<Rightarrow> vector_index_spec \<Rightarrow> index_info app_result \<times> 's"
  db_vector_search :: "'s \<Rightarrow> string \<Rightarrow> string \<Rightarrow> fl list \<Rightarrow> nat \<Rightarrow> vector_metric \<Rightarrow> scored_doc list app_result"
  db_create_traverse_index :: "'s \<Rightarrow> string \<Rightarrow> index_info app_result \<times> 's"
  db_create_edge_index :: "'s \<Rightarrow> string \<Rightarrow> index_info app_result \<times> 's"
  db_traverse_search :: "'s \<Rightarrow> string \<Rightarrow> string \<Rightarrow> traverse_direction \<Rightarrow> string option \<Rightarrow> string option \<Rightarrow>
    string option \<Rightarrow> nat \<Rightarrow> nat \<Rightarrow> path_hit list app_result"

definition f64_total :: "f64 list \<Rightarrow> f64" where
  "f64_total xs = foldl f64_add 0 xs"

definition field_numbers :: "string \<Rightarrow> doc list \<Rightarrow> f64 list" where
  "field_numbers field docs = filter_map (\<lambda>d. Option.bind (dget (d_data d) field) agg_number) docs"

definition default_sum :: "'s driver \<Rightarrow> 's \<Rightarrow> string \<Rightarrow> string \<Rightarrow> query_options \<Rightarrow> f64 app_result" where
  "default_sum d s coll field q = (case db_list d s coll q of
     Inl e \<Rightarrow> Inl e
   | Inr docs \<Rightarrow> Inr (f64_total (field_numbers field docs)))"

definition default_avg :: "'s driver \<Rightarrow> 's \<Rightarrow> string \<Rightarrow> string \<Rightarrow> query_options \<Rightarrow> f64 app_result" where
  "default_avg d s coll field q = (case db_list d s coll q of
     Inl e \<Rightarrow> Inl e
   | Inr docs \<Rightarrow> (let nums = field_numbers field docs in
       Inr (if nums = [] then 0 else f64_div (f64_total nums) (f64_of_int (int (length nums))))))"

text \<open>The default operations of a driver that has none of its own.\<close>

definition default_restore :: "'s \<Rightarrow> string \<Rightarrow> string \<Rightarrow> doc app_result \<times> 's" where
  "default_restore s c i = (Inl (Unsupported ''restore''), s)"

definition default_restore_available :: "'s \<Rightarrow> string option \<Rightarrow> restore_record list app_result" where
  "default_restore_available s c = Inl (Unsupported ''restore_available'')"

definition default_delete_queue :: "'s \<Rightarrow> string option \<Rightarrow> restore_record list app_result" where
  "default_delete_queue s c = Inl (Unsupported ''delete_queue'')"

definition default_sweep_now :: "'s \<Rightarrow> nat app_result \<times> 's" where
  "default_sweep_now s = (Inl (Unsupported ''sweep_now''), s)"

definition no_graph :: "capabilities \<Rightarrow> app_error" where
  "no_graph caps = BadRequest (''driver '' @ cap_driver caps @ '' has no graph support'')"

definition default_create_traverse_index :: "capabilities \<Rightarrow> 's \<Rightarrow> string \<Rightarrow> index_info app_result \<times> 's" where
  "default_create_traverse_index caps s c = (Inl (no_graph caps), s)"

definition default_create_edge_index :: "capabilities \<Rightarrow> 's \<Rightarrow> string \<Rightarrow> index_info app_result \<times> 's" where
  "default_create_edge_index caps s c = (Inl (no_graph caps), s)"

definition default_traverse_search :: "capabilities \<Rightarrow> 's \<Rightarrow> string \<Rightarrow> string \<Rightarrow> traverse_direction \<Rightarrow> string option \<Rightarrow> string option \<Rightarrow>
    string option \<Rightarrow> nat \<Rightarrow> nat \<Rightarrow> path_hit list app_result" where
  "default_traverse_search caps s c i dir edge via_edge weight max_depth k = Inl (no_graph caps)"

definition default_create_vector_index :: "capabilities \<Rightarrow> 's \<Rightarrow> string \<Rightarrow> vector_index_spec \<Rightarrow> index_info app_result \<times> 's" where
  "default_create_vector_index caps s c spec =
     (Inl (BadRequest (''driver '' @ cap_driver caps @ '' has no vector-index support'')), s)"

text \<open>The exact scan, over the driver's own \<open>count\<close> and \<open>list\<close>.\<close>

definition default_vector_search :: "('s \<Rightarrow> string \<Rightarrow> query_options \<Rightarrow> nat app_result) \<Rightarrow>
    ('s \<Rightarrow> string \<Rightarrow> query_options \<Rightarrow> doc list app_result) \<Rightarrow>
    's \<Rightarrow> string \<Rightarrow> string \<Rightarrow> fl list \<Rightarrow> nat \<Rightarrow> vector_metric \<Rightarrow> scored_doc list app_result" where
  "default_vector_search count_op list_op s c field query k metric = (case count_op s c default_query of
     Inl e \<Rightarrow> Inl e
   | Inr n \<Rightarrow>
       if MAX_VECTOR_SCAN_DOCS < n then
         Inl (BadRequest (''collection too large for exact scan on this driver ('' @ show_nat n @ '' docs, cap '' @
           show_nat MAX_VECTOR_SCAN_DOCS @ ''): use the hako driver for indexed search''))
       else (case list_op s c default_query of
           Inl e \<Rightarrow> Inl e
         | Inr docs \<Rightarrow> Inr (nearest metric query field k docs)))"

section \<open>The in-memory driver\<close>

record mem_db =
  store :: "(string, (string, doc) dict) dict"
  indexes :: "(string, index_info list) dict"

definition mem_new :: mem_db where
  "mem_new = \<lparr>store = [], indexes = []\<rparr>"

definition mem_capabilities :: capabilities where
  "mem_capabilities = \<lparr>cap_driver = ''mem'', supports_watch = False, supports_transactions = False,
     supports_composite = True, supports_fts = True, supports_drop_index = True, supports_unique = True,
     supports_named_index = True, supports_native_aggregation = False, supports_vector = False,
     supports_soft_delete = False\<rparr>"

definition mem_list_collections :: "mem_db \<Rightarrow> string list app_result" where
  "mem_list_collections s = Inr (dkeys (store s))"

definition mem_table :: "(string, (string, doc) dict) dict \<Rightarrow> string \<Rightarrow> (string, doc) dict" where
  "mem_table st coll = unwrap_or [] (dget st coll)"

definition mem_get :: "mem_db \<Rightarrow> string \<Rightarrow> string \<Rightarrow> doc option app_result" where
  "mem_get s coll i = Inr (Option.bind (dget (store s) coll) (\<lambda>t. dget t i))"

text \<open>The traversal order of the table is the id order here; a \<open>HashMap\<close> promises none.\<close>

definition mem_list :: "mem_db \<Rightarrow> string \<Rightarrow> query_options \<Rightarrow> doc list app_result" where
  "mem_list s coll q =
     (let docs = (case dget (store s) coll of
          None \<Rightarrow> []
        | Some t \<Rightarrow> filter (\<lambda>d. doc_matches d (q_filters q)) (dvals t))
      in Inr (sort_and_limit docs q))"

definition mem_set :: "mem_db \<Rightarrow> string \<Rightarrow> string \<Rightarrow> doc \<Rightarrow> bool \<Rightarrow> doc app_result \<times> mem_db" where
  "mem_set s coll i d merge =
     (let table = mem_table (store s) coll;
          base = (if merge then (case dget table i of None \<Rightarrow> [] | Some old \<Rightarrow> d_data old) else []);
          out = \<lparr>d_id = i, d_data = dextend base (d_data d)\<rparr>
      in (Inr out, s\<lparr>store := dput coll (dput i out table) (store s)\<rparr>))"

text \<open>\<open>nanos\<close> is the clock reading a missing id is made from.\<close>

definition mem_insert :: "nat \<Rightarrow> mem_db \<Rightarrow> string \<Rightarrow> doc \<Rightarrow> doc app_result \<times> mem_db" where
  "mem_insert nanos s coll d =
     (let i = (if d_id d = [] then ''m'' @ show_nat nanos else d_id d) in mem_set s coll i d False)"

definition mem_delete :: "mem_db \<Rightarrow> string \<Rightarrow> string \<Rightarrow> doc option app_result \<times> mem_db" where
  "mem_delete s coll i = (case dget (store s) coll of
     None \<Rightarrow> (Inr None, s)
   | Some t \<Rightarrow> (Inr (dget t i), s\<lparr>store := dput coll (ddel i t) (store s)\<rparr>))"

definition mem_count :: "mem_db \<Rightarrow> string \<Rightarrow> query_options \<Rightarrow> nat app_result" where
  "mem_count s coll q = (case mem_list s coll q of Inl e \<Rightarrow> Inl e | Inr ds \<Rightarrow> Inr (length ds))"

definition mem_create_index :: "mem_db \<Rightarrow> string \<Rightarrow> index_spec \<Rightarrow> index_info app_result \<times> mem_db" where
  "mem_create_index s coll spec = (case validate_spec mem_capabilities spec of
     Inl e \<Rightarrow> (Inl e, s)
   | Inr _ \<Rightarrow>
      (let info = \<lparr>in_name = unwrap_or (auto_index_name spec) (ix_name spec), in_fields = ix_fields spec,
                   in_unique = ix_unique spec, in_kind = ix_kind spec\<rparr>
       in (Inr info, s\<lparr>indexes := dput coll (unwrap_or [] (dget (indexes s) coll) @ [info]) (indexes s)\<rparr>)))"

definition mem_list_indexes :: "mem_db \<Rightarrow> string \<Rightarrow> index_info list app_result" where
  "mem_list_indexes s coll = Inr (unwrap_or [] (dget (indexes s) coll))"

definition mem_drop_index :: "mem_db \<Rightarrow> string \<Rightarrow> string \<Rightarrow> unit app_result \<times> mem_db" where
  "mem_drop_index s coll name =
     (let v = unwrap_or [] (dget (indexes s) coll); w = filter (\<lambda>i. in_name i \<noteq> name) v;
          s' = s\<lparr>indexes := dput coll w (indexes s)\<rparr>
      in if length w = length v then (Inl NotFound, s') else (Inr (), s'))"

text \<open>The loop of \<open>run_transaction\<close>, over the scratch copy of the store.\<close>

fun mem_tx_loop :: "(string, (string, doc) dict) dict \<Rightarrow> tx_out list \<Rightarrow> tx_op list \<Rightarrow>
    (tx_out list \<times> (string, (string, doc) dict) dict) app_result" where
  "mem_tx_loop scratch out [] = Inr (out, scratch)"
| "mem_tx_loop scratch out (p # ops) =
     (let table = mem_table scratch (t_collection p); old = dget table (t_id p) in
      case t_kind p of
        TxRead \<Rightarrow>
          mem_tx_loop (dput (t_collection p) table scratch) (out @ [\<lparr>x_doc = old, x_existed = old \<noteq> None\<rparr>]) ops
      | TxPut merge must_exist \<Rightarrow>
          if must_exist \<and> old = None then Inl NotFound
          else
            (let base = (if merge then (case old of None \<Rightarrow> [] | Some d \<Rightarrow> d_data d) else []);
                 body = (case t_doc p of None \<Rightarrow> [] | Some d \<Rightarrow> d_data d);
                 d = \<lparr>d_id = t_id p, d_data = dextend base body\<rparr>
             in mem_tx_loop (dput (t_collection p) (dput (t_id p) d table) scratch)
                  (out @ [\<lparr>x_doc = Some d, x_existed = old \<noteq> None\<rparr>]) ops)
      | TxDelete \<Rightarrow>
          mem_tx_loop (dput (t_collection p) (ddel (t_id p) table) scratch)
            (out @ [\<lparr>x_doc = old, x_existed = old \<noteq> None\<rparr>]) ops)"

definition mem_run_transaction :: "mem_db \<Rightarrow> tx_op list \<Rightarrow> tx_out list app_result \<times> mem_db" where
  "mem_run_transaction s ops = (case mem_tx_loop (store s) [] ops of
     Inl e \<Rightarrow> (Inl e, s)
   | Inr (out, scratch) \<Rightarrow> (Inr out, s\<lparr>store := scratch\<rparr>))"

definition mem_driver :: "nat \<Rightarrow> mem_db driver" where
  "mem_driver nanos = (let d = \<lparr>db_capabilities = mem_capabilities, db_list_collections = mem_list_collections,
     db_get = mem_get, db_doc_version = (\<lambda>s c i. Inr None), db_get_json = (\<lambda>s c i. Inr None),
     db_list = mem_list, db_insert = mem_insert nanos, db_set = mem_set, db_delete = mem_delete,
     db_delete_force = mem_delete, db_count = mem_count,
     db_sum = (\<lambda>s c f q. Inl NotFound), db_avg = (\<lambda>s c f q. Inl NotFound),
     db_run_transaction = mem_run_transaction, db_ensure_collection = (\<lambda>s c. (Inr (), s)),
     db_create_index = mem_create_index, db_list_indexes = mem_list_indexes, db_drop_index = mem_drop_index,
     db_relocate = (\<lambda>s src dst ids. (Inl (BadRequest ''driver has no relocate support''), s)),
     db_restore = default_restore, db_restore_available = default_restore_available,
     db_delete_queue = default_delete_queue, db_sweep_now = default_sweep_now,
     db_load_collection = (\<lambda>s c. (Inl (BadRequest ''driver has no lazy-collection support''), s)),
     db_unload_collection = (\<lambda>s c. (Inl (BadRequest ''driver has no lazy-collection support''), s)),
     db_unloaded_collections = (\<lambda>s. Inl (BadRequest ''driver has no lazy-collection support'')),
     db_create_vector_index = default_create_vector_index mem_capabilities,
     db_vector_search = default_vector_search mem_count mem_list,
     db_create_traverse_index = default_create_traverse_index mem_capabilities,
     db_create_edge_index = default_create_edge_index mem_capabilities,
     db_traverse_search = default_traverse_search mem_capabilities\<rparr>
   in d\<lparr>db_sum := default_sum d, db_avg := default_avg d\<rparr>)"

section \<open>The abstract document store\<close>

text \<open>What a store promises: a map from collection and id to documents.\<close>

type_synonym docs = "string \<times> string \<Rightarrow> doc option"

definition spec_put :: "docs \<Rightarrow> string \<Rightarrow> string \<Rightarrow> (string, json) dict \<Rightarrow> bool \<Rightarrow> doc" where
  "spec_put v coll i body merge =
     \<lparr>d_id = i, d_data = dextend (if merge then (case v (coll, i) of None \<Rightarrow> [] | Some d \<Rightarrow> d_data d) else []) body\<rparr>"

text \<open>One operation of a transaction; \<open>None\<close> is the failed precondition.\<close>

definition spec_tx_op :: "docs \<Rightarrow> tx_op \<Rightarrow> (tx_out \<times> docs) option" where
  "spec_tx_op v p = (let key = (t_collection p, t_id p); old = v key in
     case t_kind p of
       TxRead \<Rightarrow> Some (\<lparr>x_doc = old, x_existed = old \<noteq> None\<rparr>, v)
     | TxPut merge must_exist \<Rightarrow>
         if must_exist \<and> old = None then None
         else (let d = spec_put v (t_collection p) (t_id p) (case t_doc p of None \<Rightarrow> [] | Some d \<Rightarrow> d_data d) merge
               in Some (\<lparr>x_doc = Some d, x_existed = old \<noteq> None\<rparr>, v(key := Some d)))
     | TxDelete \<Rightarrow> Some (\<lparr>x_doc = old, x_existed = old \<noteq> None\<rparr>, v(key := None)))"

fun spec_tx :: "docs \<Rightarrow> tx_op list \<Rightarrow> (tx_out list \<times> docs) option" where
  "spec_tx v [] = Some ([], v)"
| "spec_tx v (p # ops) = (case spec_tx_op v p of
     None \<Rightarrow> None
   | Some (x, v') \<Rightarrow> map_option (\<lambda>(xs, w). (x # xs, w)) (spec_tx v' ops))"

text \<open>
  The interface the gateway's components are proved against: \<open>view\<close> reads the documents off the
  driver's state, reads agree with it, and a successful write changes exactly its document. A
  failed write changes nothing.
\<close>

locale document_store =
  fixes db :: "'s driver"
    and view :: "'s \<Rightarrow> docs"
    and inv :: "'s \<Rightarrow> bool"
  assumes get_view: "inv s \<Longrightarrow> db_get db s c i = Inr (view s (c, i))"
    and set_view: "inv s \<Longrightarrow> db_set db s c i d m = (r, s') \<Longrightarrow> inv s' \<and>
      (case r of Inl e \<Rightarrow> view s' = view s
       | Inr x \<Rightarrow> x = spec_put (view s) c i (d_data d) m \<and> view s' = (view s)((c, i) := Some x))"
    and delete_view: "inv s \<Longrightarrow> db_delete db s c i = (rd, s') \<Longrightarrow> inv s' \<and>
      (case rd of Inl e \<Rightarrow> view s' = view s
       | Inr x \<Rightarrow> x = view s (c, i) \<and> view s' = (view s)((c, i) := None))"
    and tx_view: "inv s \<Longrightarrow> db_run_transaction db s ops = (rt, s') \<Longrightarrow> inv s' \<and>
      (case rt of Inl e \<Rightarrow> view s' = view s
       | Inr xs \<Rightarrow> spec_tx (view s) ops = Some (xs, view s'))"
    and ensure_view: "inv s \<Longrightarrow> db_ensure_collection db s c = (ru, s') \<Longrightarrow> inv s' \<and> view s' = view s"
begin

lemma get_after_set:
  "inv s \<Longrightarrow> db_set db s c i d m = (Inr x, s') \<Longrightarrow>
   db_get db s' c' i' = (if (c', i') = (c, i) then Inr (Some x) else db_get db s c' i')"
  using set_view [of s c i d m "Inr x" s'] get_view by auto

lemma get_after_delete:
  "inv s \<Longrightarrow> db_delete db s c i = (Inr x, s') \<Longrightarrow>
   db_get db s' c' i' = (if (c', i') = (c, i) then Inr None else db_get db s c' i')"
  using delete_view [of s c i "Inr x" s'] get_view by auto

lemma failed_tx_keeps:
  "inv s \<Longrightarrow> db_run_transaction db s ops = (Inl e, s') \<Longrightarrow> db_get db s' c i = db_get db s c i"
  using tx_view [of s ops "Inl e" s'] get_view by auto

end
text \<open>
  A store whose queries are exact as well. The law speaks of unpaged queries and leaves the order
  of the rows open.
\<close>

definition unpaged_query :: "query_options \<Rightarrow> bool" where
  "unpaged_query q \<longleftrightarrow> q_limit q = None \<and> q_offset q = None"

definition matching :: "docs \<Rightarrow> string \<Rightarrow> query_options \<Rightarrow> doc set" where
  "matching v c q = {d. v (c, d_id d) = Some d \<and> doc_matches d (q_filters q) \<and> matches_cursor d q}"

locale queryable_store = document_store +
  assumes list_view: "inv s \<Longrightarrow> unpaged_query q \<Longrightarrow>
      \<exists>rows. db_list db s c q = Inr rows \<and> distinct rows \<and> set rows = matching (view s) c q"
    and count_view: "inv s \<Longrightarrow> unpaged_query q \<Longrightarrow> db_count db s c q = Inr (card (matching (view s) c q))"
begin

lemma list_rows:
  assumes "inv s" "unpaged_query q"
  obtains rows where "db_list db s c q = Inr rows" "distinct rows" "set rows = matching (view s) c q"
  using list_view [OF assms] by blast

lemma matching_finite: "inv s \<Longrightarrow> unpaged_query q \<Longrightarrow> finite (matching (view s) c q)"
  by (metis list_rows List.finite_set)

end

text \<open>
  What the writing routes of the gateway use besides: inserting, deleting without a retention
  record, and index changes, which leave every document alone.
\<close>

locale gateway_store = document_store +
  assumes insert_view: "inv s \<Longrightarrow> db_insert db s c d = (r, s') \<Longrightarrow> inv s' \<and>
      (case r of Inl e \<Rightarrow> view s' = view s
       | Inr x \<Rightarrow> d_data x = dextend [] (d_data d) \<and> (d_id d \<noteq> [] \<longrightarrow> d_id x = d_id d)
           \<and> view s' = (view s)((c, d_id x) := Some x))"
    and force_view: "inv s \<Longrightarrow> db_delete_force db s c i = (rd, s') \<Longrightarrow> inv s' \<and>
      (case rd of Inl e \<Rightarrow> view s' = view s | Inr x \<Rightarrow> view s' = (view s)((c, i) := None))"
    and create_index_view: "inv s \<Longrightarrow> db_create_index db s c spec = (ri, s') \<Longrightarrow> inv s' \<and> view s' = view s"
    and drop_index_view: "inv s \<Longrightarrow> db_drop_index db s c n = (ru, s') \<Longrightarrow> inv s' \<and> view s' = view s"
begin

lemma ensured: "inv s \<Longrightarrow> inv (snd (db_ensure_collection db s c)) \<and> view (snd (db_ensure_collection db s c)) = view s"
  using ensure_view by (metis prod.collapse)

lemma get_flat: "inv s \<Longrightarrow> (case db_get db s c i of Inr (Some d) \<Rightarrow> Some d | _ \<Rightarrow> None) = view s (c, i)"
  using get_view by (simp split: option.split)

end

section \<open>The in-memory driver is such a store\<close>

definition view_of :: "(string, (string, doc) dict) dict \<Rightarrow> docs" where
  "view_of st key = Option.bind (dget st (fst key)) (\<lambda>t. dget t (snd key))"

text \<open>Tables in id order, every document filed under its own id.\<close>

definition table_ok :: "(string, doc) dict \<Rightarrow> bool" where
  "table_ok t \<longleftrightarrow> dict_ok t \<and> list_all (\<lambda>(i, d). d_id d = i \<and> dict_ok (d_data d)) t"

definition store_ok :: "(string, (string, doc) dict) dict \<Rightarrow> bool" where
  "store_ok st \<longleftrightarrow> dict_ok st \<and> list_all (\<lambda>(c, t). table_ok t) st"

definition mem_ok :: "mem_db \<Rightarrow> bool" where
  "mem_ok s \<longleftrightarrow> store_ok (store s)"

lemma set_dput: "set (dput k v d) \<subseteq> insert (k, v) (set d)"
  by (induction k v d rule: dput.induct) auto

lemma list_all_dput: "list_all P d \<Longrightarrow> P (k, v) \<Longrightarrow> list_all P (dput k v d)"
  using set_dput [of k v d] by (auto simp: list_all_iff)

lemma table_ok_Nil [simp]: "table_ok []"
  by (simp add: table_ok_def)

lemma table_ok_put [intro]: "table_ok t \<Longrightarrow> d_id d = i \<Longrightarrow> dict_ok (d_data d) \<Longrightarrow> table_ok (dput i d t)"
  by (auto simp: table_ok_def intro: list_all_dput)

lemma table_ok_del [intro]: "table_ok t \<Longrightarrow> table_ok (ddel i t)"
  by (auto simp: table_ok_def ddel_def list_all_iff)

lemma table_ok_get: "table_ok t \<Longrightarrow> dget t i = Some d \<Longrightarrow> d_id d = i \<and> dict_ok (d_data d)"
  by (auto simp: table_ok_def list_all_iff dest: map_of_SomeD)

lemma store_ok_put [intro]: "store_ok st \<Longrightarrow> table_ok t \<Longrightarrow> store_ok (dput c t st)"
  by (auto simp: store_ok_def intro: list_all_dput)

lemma store_ok_table [intro]: "store_ok st \<Longrightarrow> table_ok (mem_table st c)"
  by (auto simp: store_ok_def mem_table_def unwrap_or_def list_all_iff dest: map_of_SomeD split: option.splits)

lemma view_of_table: "view_of st (c, i) = dget (mem_table st c) i"
  by (simp add: view_of_def mem_table_def unwrap_or_def split: option.splits)

lemma mem_table_dput [simp]: "mem_table (dput c t st) c' = (if c' = c then t else mem_table st c')"
  by (simp add: mem_table_def)

lemmas store_intros = store_ok_put store_ok_table table_ok_put table_ok_del

lemma mem_set_spec:
  "mem_set s c i d m = (Inr (spec_put (view_of (store s)) c i (d_data d) m),
     s\<lparr>store := dput c (dput i (spec_put (view_of (store s)) c i (d_data d) m) (mem_table (store s) c)) (store s)\<rparr>)"
  by (simp add: mem_set_def spec_put_def view_of_table Let_def)

lemma spec_put_ok:
  "store_ok st \<Longrightarrow> d_id (spec_put (view_of st) c i b m) = i \<and> dict_ok (d_data (spec_put (view_of st) c i b m))"
  using store_ok_table [of st c]
  by (auto simp: spec_put_def view_of_table dest: table_ok_get split: option.splits)

lemma mem_set_view:
  assumes "mem_ok s" "mem_set s c i d m = (r, s')"
  shows "mem_ok s' \<and> (\<exists>x. r = Inr x \<and> x = spec_put (view_of (store s)) c i (d_data d) m
    \<and> view_of (store s') = (view_of (store s))((c, i) := Some x))"
  using assms spec_put_ok [of "store s" c i "d_data d" m]
  by (auto simp: mem_set_spec mem_ok_def view_of_table fun_eq_iff intro!: store_intros)

lemma mem_delete_view:
  assumes "mem_ok s" "mem_delete s c i = (r, s')"
  shows "mem_ok s' \<and> r = Inr (view_of (store s) (c, i)) \<and> view_of (store s') = (view_of (store s))((c, i) := None)"
proof (cases "dget (store s) c")
  case None
  with assms show ?thesis by (auto simp: mem_delete_def view_of_def fun_eq_iff)
next
  case (Some t)
  then have "t = mem_table (store s) c" by (simp add: mem_table_def)
  with assms Some show ?thesis
    by (auto simp: mem_delete_def mem_ok_def view_of_table fun_eq_iff intro!: store_intros)
qed

lemma mem_tx_loop_put:
  assumes "t_kind p = TxPut merge must"
  shows "mem_tx_loop st out (p # ops) = (let c = t_collection p; i = t_id p;
       d = spec_put (view_of st) c i (case t_doc p of None \<Rightarrow> [] | Some d \<Rightarrow> d_data d) merge
     in if must \<and> view_of st (c, i) = None then Inl NotFound
        else mem_tx_loop (dput c (dput i d (mem_table st c)) st)
          (out @ [\<lparr>x_doc = Some d, x_existed = view_of st (c, i) \<noteq> None\<rparr>]) ops)"
  by (simp add: assms spec_put_def view_of_table Let_def)

lemma mem_tx_loop_spec:
  "store_ok st \<Longrightarrow> (case mem_tx_loop st out ops of
      Inl e \<Rightarrow> e = NotFound \<and> spec_tx (view_of st) ops = None
    | Inr (xs, st') \<Rightarrow> store_ok st' \<and> (\<exists>ys. xs = out @ ys \<and> spec_tx (view_of st) ops = Some (ys, view_of st')))"
proof (induction ops arbitrary: st out)
  case (Cons p ops)
  let ?c = "t_collection p" and ?i = "t_id p"
  let ?t = "mem_table st ?c"
  have t: "table_ok ?t" using Cons.prems by blast
  have old: "dget ?t ?i = view_of st (?c, ?i)" by (simp add: view_of_table)
  note ok = Cons.prems
  show ?case
  proof (cases "t_kind p")
    case TxRead
    have "view_of (dput ?c ?t st) = view_of st" by (auto simp: view_of_table fun_eq_iff)
    moreover have "store_ok (dput ?c ?t st)" using ok t by (intro store_intros)
    ultimately show ?thesis
      using Cons.IH [of "dput ?c ?t st" "out @ [\<lparr>x_doc = dget ?t ?i, x_existed = dget ?t ?i \<noteq> None\<rparr>]"] ok t TxRead
      by (auto simp: spec_tx_op_def old Let_def split: sum.splits)
  next
    case TxDelete
    have "view_of (dput ?c (ddel ?i ?t) st) = (view_of st)((?c, ?i) := None)"
      by (auto simp: view_of_table fun_eq_iff)
    moreover have "store_ok (dput ?c (ddel ?i ?t) st)" using ok t by (intro store_intros)
    ultimately show ?thesis
      using Cons.IH [of "dput ?c (ddel ?i ?t) st" "out @ [\<lparr>x_doc = dget ?t ?i, x_existed = dget ?t ?i \<noteq> None\<rparr>]"] ok t TxDelete
      by (auto simp: spec_tx_op_def old Let_def split: sum.splits)
  next
    case (TxPut merge must)
    define d where "d = spec_put (view_of st) ?c ?i (case t_doc p of None \<Rightarrow> [] | Some d \<Rightarrow> d_data d) merge"
    note step = mem_tx_loop_put [OF TxPut, of st out ops, folded d_def]
    have "view_of (dput ?c (dput ?i d ?t) st) = (view_of st)((?c, ?i) := Some d)"
      by (auto simp: view_of_table fun_eq_iff)
    moreover have "store_ok (dput ?c (dput ?i d ?t) st)"
      using ok t spec_put_ok [OF ok, of ?c ?i] by (intro store_intros) (auto simp: d_def)
    ultimately show ?thesis
      using Cons.IH [of "dput ?c (dput ?i d ?t) st" "out @ [\<lparr>x_doc = Some d, x_existed = dget ?t ?i \<noteq> None\<rparr>]"]
      unfolding step by (auto simp: TxPut spec_tx_op_def old Let_def d_def [symmetric] split: sum.splits)
  qed
qed simp

lemma mem_run_transaction_view:
  assumes "mem_ok s" "mem_run_transaction s ops = (r, s')"
  shows "mem_ok s' \<and> (case r of Inl e \<Rightarrow> e = NotFound \<and> s' = s \<and> spec_tx (view_of (store s)) ops = None
     | Inr xs \<Rightarrow> spec_tx (view_of (store s)) ops = Some (xs, view_of (store s')))"
  using assms mem_tx_loop_spec [where st = "store s" and out = "[]" and ops = ops]
  by (auto simp: mem_run_transaction_def mem_ok_def split: sum.splits prod.splits)

interpretation mem: document_store "mem_driver nanos" "\<lambda>s. view_of (store s)" mem_ok for nanos
proof
  fix s s' c i d m r rd rt ops ru
  assume ok: "mem_ok s"
  show "db_get (mem_driver nanos) s c i = Inr (view_of (store s) (c, i))"
    by (simp add: mem_driver_def mem_get_def view_of_def Let_def)
  show "db_set (mem_driver nanos) s c i d m = (r, s') \<Longrightarrow> mem_ok s' \<and>
      (case r of Inl e \<Rightarrow> view_of (store s') = view_of (store s)
       | Inr x \<Rightarrow> x = spec_put (view_of (store s)) c i (d_data d) m
           \<and> view_of (store s') = (view_of (store s))((c, i) := Some x))"
    using mem_set_view [OF ok, of c i d m r s'] by (auto simp: mem_driver_def Let_def)
  show "db_delete (mem_driver nanos) s c i = (rd, s') \<Longrightarrow> mem_ok s' \<and>
      (case rd of Inl e \<Rightarrow> view_of (store s') = view_of (store s)
       | Inr x \<Rightarrow> x = view_of (store s) (c, i) \<and> view_of (store s') = (view_of (store s))((c, i) := None))"
    using mem_delete_view [OF ok, of c i rd s'] by (auto simp: mem_driver_def Let_def)
  show "db_run_transaction (mem_driver nanos) s ops = (rt, s') \<Longrightarrow> mem_ok s' \<and>
      (case rt of Inl e \<Rightarrow> view_of (store s') = view_of (store s)
       | Inr xs \<Rightarrow> spec_tx (view_of (store s)) ops = Some (xs, view_of (store s')))"
    using mem_run_transaction_view [OF ok, of ops rt s'] by (auto simp: mem_driver_def Let_def split: sum.splits)
  show "db_ensure_collection (mem_driver nanos) s c = (ru, s') \<Longrightarrow> mem_ok s' \<and> view_of (store s') = view_of (store s)"
    using ok by (auto simp: mem_driver_def Let_def)
qed

lemma mem_list_matching:
  assumes "mem_ok s" "unpaged_query q"
  shows "\<exists>rows. mem_list s c q = Inr rows \<and> distinct rows \<and> set rows = matching (view_of (store s)) c q"
proof -
  let ?t = "mem_table (store s) c"
  let ?docs = "filter (\<lambda>d. doc_matches d (q_filters q)) (dvals ?t)"
  have t: "table_ok ?t" using assms(1) by (auto simp: mem_ok_def)
  have "mem_list s c q = Inr (sort_and_limit ?docs q)"
    by (simp add: mem_list_def mem_table_def unwrap_or_def dvals_def split: option.splits)
  moreover have ids: "map d_id (dvals ?t) = map fst ?t"
    using t by (auto simp: table_ok_def dvals_def list_all_iff)
  then have "distinct (map d_id (dvals ?t))" using t by (simp add: table_ok_def dict_ok_distinct)
  then have "distinct (dvals ?t)" by (simp add: distinct_map)
  then have "distinct (sort_and_limit ?docs q)"
    using assms by (simp add: unpaged_query_def sort_and_limit_def apply_offset_limit_def apply_cursor_def)
      (metis distinct_filter mset_sort_by mset_eq_imp_distinct_iff)
  moreover have "d \<in> set (dvals ?t) \<longleftrightarrow> dget ?t (d_id d) = Some d" for d
    using t by (force simp: dvals_def table_ok_def list_all_iff dest: dict_ok_snd map_of_SomeD)
  then have "set (sort_and_limit ?docs q) = matching (view_of (store s)) c q"
    using assms by (auto simp: unpaged_query_def matching_def sort_and_limit_def apply_offset_limit_def
        apply_cursor_def view_of_table)
  ultimately show ?thesis by blast
qed

text \<open>The capabilities a driver announces do not change what it stores.\<close>

lemma queryable_store_caps:
  "queryable_store db view I \<Longrightarrow> queryable_store (db\<lparr>db_capabilities := caps\<rparr>) view I"
  by (cases db, hypsubst)
    (unfold queryable_store_def queryable_store_axioms_def document_store_def driver.select_convs driver.update_convs)

lemma mem_queryable: "queryable_store (mem_driver nanos) (\<lambda>s. view_of (store s)) mem_ok"
proof (intro queryable_store.intro queryable_store_axioms.intro)
  show "document_store (mem_driver nanos) (\<lambda>s. view_of (store s)) mem_ok"
    by (rule mem.document_store_axioms)
next
  fix s q c
  assume "mem_ok s" "unpaged_query q"
  from mem_list_matching [OF this]
  show "\<exists>rows. db_list (mem_driver nanos) s c q = Inr rows \<and> distinct rows
      \<and> set rows = matching (view_of (store s)) c q"
    by (simp add: mem_driver_def Let_def)
next
  fix s q c
  assume "mem_ok s" "unpaged_query q"
  from mem_list_matching [OF this, of c] obtain rows
    where r: "mem_list s c q = Inr rows" "distinct rows" "set rows = matching (view_of (store s)) c q" by blast
  have "db_count (mem_driver nanos) s c q = Inr (length rows)"
    by (simp add: mem_driver_def Let_def mem_count_def r(1))
  then show "db_count (mem_driver nanos) s c q = Inr (card (matching (view_of (store s)) c q))"
    using distinct_card [OF r(2)] r(3) by metis
qed

lemma mem_caps: "queryable_store (mem_driver nanos\<lparr>db_capabilities := caps\<rparr>) (\<lambda>s. view_of (store s)) mem_ok"
  by (rule queryable_store_caps [OF mem_queryable])

interpretation memq: queryable_store "mem_driver nanos\<lparr>db_capabilities := caps\<rparr>" "\<lambda>s. view_of (store s)" mem_ok
  for nanos caps
  by (rule mem_caps)

interpretation memg: gateway_store "mem_driver nanos" "\<lambda>s. view_of (store s)" mem_ok for nanos
proof unfold_locales
  fix s s' c i d r rd ri ru spec n
  assume ok: "mem_ok s"
  show "db_insert (mem_driver nanos) s c d = (r, s') \<Longrightarrow> mem_ok s' \<and>
      (case r of Inl e \<Rightarrow> view_of (store s') = view_of (store s)
       | Inr x \<Rightarrow> d_data x = dextend [] (d_data d) \<and> (d_id d \<noteq> [] \<longrightarrow> d_id x = d_id d)
           \<and> view_of (store s') = (view_of (store s))((c, d_id x) := Some x))"
    using mem_set_view [OF ok, of c "if d_id d = [] then ''m'' @ show_nat nanos else d_id d" d False r s']
    by (auto simp: mem_driver_def Let_def mem_insert_def spec_put_def)
  show "db_delete_force (mem_driver nanos) s c i = (rd, s') \<Longrightarrow> mem_ok s' \<and>
      (case rd of Inl e \<Rightarrow> view_of (store s') = view_of (store s)
       | Inr x \<Rightarrow> view_of (store s') = (view_of (store s))((c, i) := None))"
    using mem_delete_view [OF ok, of c i rd s'] by (auto simp: mem_driver_def Let_def)
  show "db_create_index (mem_driver nanos) s c spec = (ri, s') \<Longrightarrow> mem_ok s' \<and> view_of (store s') = view_of (store s)"
    using ok by (auto simp: mem_driver_def Let_def mem_create_index_def mem_ok_def split: sum.splits)
  show "db_drop_index (mem_driver nanos) s c n = (ru, s') \<Longrightarrow> mem_ok s' \<and> view_of (store s') = view_of (store s)"
    using ok by (auto simp: mem_driver_def Let_def mem_drop_index_def mem_ok_def split: if_splits)
qed

lemma mem_gateway_store: "gateway_store (mem_driver nanos) (\<lambda>s. view_of (store s)) mem_ok"
  by (rule memg.gateway_store_axioms)

lemma gateway_store_caps:
  "gateway_store db view I \<Longrightarrow> gateway_store (db\<lparr>db_capabilities := caps\<rparr>) view I"
  by (cases db, hypsubst)
    (unfold gateway_store_def gateway_store_axioms_def document_store_def driver.select_convs driver.update_convs)

section \<open>Properties\<close>

text \<open>
  A transaction on the in-memory driver is atomic and refines the sequential specification:
  it fails exactly when some put requires a document that the earlier operations left absent,
  and then the driver is unchanged; otherwise its results and its final documents are those of
  applying the operations one after the other, each reading the writes before it.
\<close>

theorem mem_transaction_refines:
  assumes "mem_ok s"
  shows "case mem_run_transaction s ops of
      (Inl e, s') \<Rightarrow> e = NotFound \<and> s' = s \<and> spec_tx (view_of (store s)) ops = None
    | (Inr xs, s') \<Rightarrow> mem_ok s' \<and> spec_tx (view_of (store s)) ops = Some (xs, view_of (store s'))"
  using mem_run_transaction_view [OF assms, of ops] by (auto split: prod.splits sum.splits)

definition demo_put :: "string \<Rightarrow> json \<Rightarrow> tx_op" where
  "demo_put i v = \<lparr>t_collection = ''posts'', t_id = i, t_kind = TxPut True False,
     t_doc = Some \<lparr>d_id = i, d_data = [(''n'', v)]\<rparr>\<rparr>"

lemma mem_transaction_refines_witness:
  "case mem_run_transaction mem_new [demo_put ''a'' (jint 1), demo_put ''a'' (jint 2)] of
      (Inl e, s') \<Rightarrow> False
    | (Inr xs, s') \<Rightarrow> spec_tx (view_of []) [demo_put ''a'' (jint 1), demo_put ''a'' (jint 2)] = Some (xs, view_of (store s'))"
  using mem_transaction_refines [of mem_new "[demo_put ''a'' (jint 1), demo_put ''a'' (jint 2)]"]
  by (simp add: mem_new_def mem_ok_def store_ok_def spec_tx_op_def demo_put_def Let_def split: prod.splits sum.splits)

text \<open>
  A list query on the in-memory driver without paging returns exactly the documents of the
  collection that satisfy every filter and every cursor bound, each once.
\<close>

theorem mem_list_exact:
  assumes "mem_ok s" "q_limit q = None" "q_offset q = None"
  shows "\<exists>rows. mem_list s c q = Inr rows \<and> distinct rows
    \<and> set rows = {d. view_of (store s) (c, d_id d) = Some d \<and> doc_matches d (q_filters q) \<and> matches_cursor d q}"
  using mem_list_matching [of s q c] assms by (auto simp: unpaged_query_def matching_def)

lemma mem_list_exact_witness:
  "\<exists>rows. mem_list mem_new ''posts'' default_query = Inr rows \<and> distinct rows"
  using mem_list_exact [of mem_new default_query "''posts''"]
  by (auto simp: mem_new_def mem_ok_def store_ok_def default_query_def)

end
