(* ===== verification/Ttl.thy ===== *)
theory Ttl
  imports Database
begin

text \<open>
  Expiry (crates/hakobackend-core/src/ttl.rs): documents whose \<open>__ttl_at\<close> has passed, the
  decorator \<open>TtlDb\<close> that hides them on every driver, and the sweep that deletes them. \<open>now\<close> is
  the reading of the clock in microseconds; an operation that reads it more than once is modelled
  with one reading.
\<close>

section \<open>Definitions\<close>

definition TTL_FIELD :: string where "TTL_FIELD = ''__ttl_at''"

definition is_expired :: "int \<Rightarrow> doc \<Rightarrow> bool" where
  "is_expired now d = (case Option.bind (dget (d_data d) TTL_FIELD) as_i64 of
     None \<Rightarrow> False
   | Some t \<Rightarrow> 0 < t \<and> t \<le> now)"

definition contains_ttl_key :: "string \<Rightarrow> bool" where
  "contains_ttl_key json = contains_str ([CHR 34] @ TTL_FIELD @ [CHR 34]) json"

definition unpaged :: "query_options \<Rightarrow> query_options" where
  "unpaged q = q\<lparr>q_limit := None, q_offset := None\<rparr>"

definition expired_query :: "int \<Rightarrow> query_options \<Rightarrow> query_options" where
  "expired_query now q = (let eq = unpaged q in eq\<lparr>q_filters := q_filters eq @
     [\<lparr>f_field = TTL_FIELD, f_op = Gt, f_value = jint 0\<rparr>,
      \<lparr>f_field = TTL_FIELD, f_op = Lte, f_value = jint now\<rparr>]\<rparr>)"

definition hide_expired :: "int \<Rightarrow> doc option app_result \<Rightarrow> doc option app_result" where
  "hide_expired now r = (case r of
     Inr (Some d) \<Rightarrow> if is_expired now d then Inr None else Inr (Some d)
   | _ \<Rightarrow> r)"

definition ttl_get :: "int \<Rightarrow> 's driver \<Rightarrow> 's \<Rightarrow> string \<Rightarrow> string \<Rightarrow> doc option app_result" where
  "ttl_get now d s c i = hide_expired now (db_get d s c i)"

definition ttl_get_json :: "'s driver \<Rightarrow> 's \<Rightarrow> string \<Rightarrow> string \<Rightarrow> raw_doc option app_result" where
  "ttl_get_json d s c i = (case db_get_json d s c i of
     Inr (Some r) \<Rightarrow> if contains_ttl_key (r_inner r) then Inr None else Inr (Some r)
   | r \<Rightarrow> r)"

definition ttl_list :: "int \<Rightarrow> 's driver \<Rightarrow> 's \<Rightarrow> string \<Rightarrow> query_options \<Rightarrow> doc list app_result" where
  "ttl_list now d s c q = (case db_list d s c q of
     Inl e \<Rightarrow> Inl e
   | Inr docs \<Rightarrow> Inr (filter (\<lambda>x. \<not> is_expired now x) docs))"

definition ttl_delete :: "int \<Rightarrow> 's driver \<Rightarrow> 's \<Rightarrow> string \<Rightarrow> string \<Rightarrow> doc option app_result \<times> 's" where
  "ttl_delete now d s c i = (case db_delete d s c i of (r, s') \<Rightarrow> (hide_expired now r, s'))"

definition ttl_delete_force :: "int \<Rightarrow> 's driver \<Rightarrow> 's \<Rightarrow> string \<Rightarrow> string \<Rightarrow> doc option app_result \<times> 's" where
  "ttl_delete_force now d s c i = (case db_delete_force d s c i of (r, s') \<Rightarrow> (hide_expired now r, s'))"

definition expired_count :: "int \<Rightarrow> 's driver \<Rightarrow> 's \<Rightarrow> string \<Rightarrow> query_options \<Rightarrow> nat app_result" where
  "expired_count now d s c q = (case db_list d s c (expired_query now q) of
     Inl e \<Rightarrow> Inl e
   | Inr docs \<Rightarrow> Inr (length (filter (is_expired now) docs)))"

definition expired_stats :: "int \<Rightarrow> 's driver \<Rightarrow> 's \<Rightarrow> string \<Rightarrow> string \<Rightarrow> query_options \<Rightarrow> (f64 \<times> nat) app_result" where
  "expired_stats now d s c field q = (case db_list d s c (expired_query now q) of
     Inl e \<Rightarrow> Inl e
   | Inr docs \<Rightarrow> (let dead = filter (is_expired now) docs in
       Inr (f64_total (map (\<lambda>x. unwrap_or 0 (Option.bind (dget (d_data x) field) agg_number)) dead), length dead)))"

definition ttl_count :: "int \<Rightarrow> 's driver \<Rightarrow> 's \<Rightarrow> string \<Rightarrow> query_options \<Rightarrow> nat app_result" where
  "ttl_count now d s c q =
     (if \<not> supports_native_aggregation (db_capabilities d) then
        (case ttl_list now d s c q of Inl e \<Rightarrow> Inl e | Inr docs \<Rightarrow> Inr (length docs))
      else case db_count d s c (unpaged q) of
          Inl e \<Rightarrow> Inl e
        | Inr tot \<Rightarrow> (case expired_count now d s c q of Inl e \<Rightarrow> Inl e | Inr n \<Rightarrow> Inr (tot - n)))"

definition ttl_sum :: "int \<Rightarrow> 's driver \<Rightarrow> 's \<Rightarrow> string \<Rightarrow> string \<Rightarrow> query_options \<Rightarrow> f64 app_result" where
  "ttl_sum now d s c field q =
     (if \<not> supports_native_aggregation (db_capabilities d) then
        (case ttl_list now d s c q of Inl e \<Rightarrow> Inl e | Inr docs \<Rightarrow> Inr (f64_total (field_numbers field docs)))
      else case db_sum d s c field (unpaged q) of
          Inl e \<Rightarrow> Inl e
        | Inr tot \<Rightarrow> (case expired_stats now d s c field q of
            Inl e \<Rightarrow> Inl e
          | Inr (gone, _) \<Rightarrow> Inr (f64_sub tot gone)))"

definition ttl_avg :: "int \<Rightarrow> 's driver \<Rightarrow> 's \<Rightarrow> string \<Rightarrow> string \<Rightarrow> query_options \<Rightarrow> f64 app_result" where
  "ttl_avg now d s c field q =
     (if \<not> supports_native_aggregation (db_capabilities d) then
        (case ttl_list now d s c q of Inl e \<Rightarrow> Inl e
         | Inr docs \<Rightarrow> (let nums = field_numbers field docs in
             Inr (if nums = [] then 0 else f64_div (f64_total nums) (f64_of_int (int (length nums))))))
      else case db_count d s c (unpaged q) of
          Inl e \<Rightarrow> Inl e
        | Inr n_total \<Rightarrow> (case db_sum d s c field (unpaged q) of
            Inl e \<Rightarrow> Inl e
          | Inr sum_total \<Rightarrow> (case expired_stats now d s c field q of
              Inl e \<Rightarrow> Inl e
            | Inr (gone, n_exp) \<Rightarrow> (let denom = n_total - n_exp in
                Inr (if denom = 0 then 0 else f64_div (f64_sub sum_total gone) (f64_of_int (int denom)))))))"

text \<open>
  The decorator. It forwards the operations it does not change, but it has no code for vectors and
  graphs, so there it has the defaults of the trait, whatever the inner driver has.
\<close>

definition ttl_db :: "int \<Rightarrow> 's driver \<Rightarrow> 's driver" where
  "ttl_db now d = d\<lparr>db_get := ttl_get now d, db_doc_version := (\<lambda>s c i. Inr None),
     db_get_json := ttl_get_json d, db_list := ttl_list now d, db_delete := ttl_delete now d,
     db_delete_force := ttl_delete_force now d, db_count := ttl_count now d,
     db_sum := ttl_sum now d, db_avg := ttl_avg now d,
     db_create_vector_index := default_create_vector_index (db_capabilities d),
     db_vector_search := default_vector_search (ttl_count now d) (ttl_list now d),
     db_create_traverse_index := default_create_traverse_index (db_capabilities d),
     db_create_edge_index := default_create_edge_index (db_capabilities d),
     db_traverse_search := default_traverse_search (db_capabilities d)\<rparr>"

text \<open>The default \<open>sweep_expired\<close>: a failed listing ends the pass, a failed delete does not.\<close>

fun sweep_delete :: "'s driver \<Rightarrow> string \<Rightarrow> string list \<Rightarrow> nat \<Rightarrow> 's \<Rightarrow> nat \<times> 's" where
  "sweep_delete d c [] n s = (n, s)"
| "sweep_delete d c (i # rest) n s = (case db_delete d s c i of
     (Inl e, s') \<Rightarrow> sweep_delete d c rest n s'
   | (Inr _, s') \<Rightarrow> sweep_delete d c rest (Suc n) s')"

fun sweep_loop :: "int \<Rightarrow> nat \<Rightarrow> 's driver \<Rightarrow> string list \<Rightarrow> nat \<Rightarrow> nat \<Rightarrow> 's \<Rightarrow> (nat \<times> nat) app_result \<times> 's" where
  "sweep_loop now cap d [] visited deleted s = (Inr (visited, deleted), s)"
| "sweep_loop now cap d (c # cs) visited deleted s =
     (if starts_with ''__'' c then sweep_loop now cap d cs visited deleted s
      else case db_list d s c default_query of
          Inl e \<Rightarrow> (Inl e, s)
        | Inr docs \<Rightarrow>
            (case sweep_delete d c (map d_id (take cap (filter (is_expired now) docs))) deleted s of
               (n, s') \<Rightarrow> sweep_loop now cap d cs (Suc visited) n s'))"

definition sweep_expired :: "int \<Rightarrow> nat \<Rightarrow> 's driver \<Rightarrow> 's \<Rightarrow> (nat \<times> nat) app_result \<times> 's" where
  "sweep_expired now cap d s = (case db_list_collections d s of
     Inl e \<Rightarrow> (Inl e, s)
   | Inr cs \<Rightarrow> sweep_loop now cap d cs 0 0 s)"

section \<open>The live part of a store\<close>

definition live :: "int \<Rightarrow> docs \<Rightarrow> docs" where
  "live now v = (\<lambda>k. case v k of None \<Rightarrow> None | Some d \<Rightarrow> if is_expired now d then None else Some d)"

lemma matching_live: "matching (live now v) c q = {d \<in> matching v c q. \<not> is_expired now d}"
  by (auto simp: matching_def live_def split: option.splits if_splits)

lemma unpaged_query_unpaged [simp]: "unpaged_query (unpaged q)" "unpaged_query (expired_query now q)"
  by (simp_all add: unpaged_query_def unpaged_def expired_query_def)

lemma matches_cursor_cong:
  "q_order_by q = q_order_by r \<Longrightarrow> q_start_at q = q_start_at r \<Longrightarrow> q_start_after q = q_start_after r \<Longrightarrow>
   q_end_at q = q_end_at r \<Longrightarrow> q_end_before q = q_end_before r \<Longrightarrow> matches_cursor d q = matches_cursor d r"
  by (simp add: matches_cursor_def cursor_value_def cursor_field_def)

lemma matching_unpaged [simp]: "matching v c (unpaged q) = matching v c q"
proof -
  have "matches_cursor d (unpaged q) = matches_cursor d q" for d
    by (rule matches_cursor_cong) (simp_all add: unpaged_def)
  then show ?thesis by (simp add: matching_def unpaged_def)
qed

lemma f64_of_int_mono: "0 \<le> m \<Longrightarrow> m \<le> n \<Longrightarrow> f64_of_int m \<le> f64_of_int n"
  unfolding f64_of_int_def by (rule f64_round_mono) auto

text \<open>The native candidates include every expired document, whatever the rounding of large stamps.\<close>

lemma expired_candidates:
  "{d \<in> matching v c (expired_query now q). is_expired now d} = {d \<in> matching v c q. is_expired now d}"
proof -
  have cur: "matches_cursor d (expired_query now q) = matches_cursor d q" for d
    by (rule matches_cursor_cong) (simp_all add: unpaged_def expired_query_def)
  have f: "doc_matches d (q_filters (expired_query now q)) = doc_matches d (q_filters q)"
    if dead: "is_expired now d" for d
  proof -
    obtain t where t: "dget (d_data d) TTL_FIELD = Some (jint t)" "0 < t" "t \<le> now"
      using dead by (auto simp: is_expired_def as_i64_Some bind_eq_Some_conv split: option.splits)
    have "nested (d_data d) TTL_FIELD = Some (jint t)"
      using t(1) by (simp add: nested_def TTL_FIELD_def)
    moreover have "f64_of_int 1 \<le> f64_of_int t" "f64_of_int t \<le> f64_of_int now"
      using t by (auto intro: f64_of_int_mono)
    moreover have "f64_of_int 1 = 1" "f64_of_int 0 = 0" using f64_of_int_exact [of 1] f64_of_int_exact [of 0] by auto
    ultimately show ?thesis
      by (auto simp: expired_query_def unpaged_def doc_matches_def filter_matches_def cmp_is_def)
  qed
  show ?thesis using cur f by (auto simp: matching_def)
qed

text \<open>A sweep may remove nothing but expired documents of ordinary collections.\<close>

definition only_expired :: "int \<Rightarrow> docs \<Rightarrow> docs \<Rightarrow> bool" where
  "only_expired now v w \<longleftrightarrow> (\<forall>c i. w (c, i) = v (c, i) \<or>
     (w (c, i) = None \<and> \<not> starts_with ''__'' c \<and> (\<exists>x. v (c, i) = Some x \<and> is_expired now x)))"

lemma only_expired_refl: "only_expired now v v"
  by (simp add: only_expired_def)

lemma only_expired_trans: "only_expired now u v \<Longrightarrow> only_expired now v w \<Longrightarrow> only_expired now u w"
  unfolding only_expired_def by (metis option.distinct(1))

context queryable_store
begin

lemma ttl_get_live: "inv s \<Longrightarrow> ttl_get now db s c i = Inr (live now (view s) (c, i))"
  by (simp add: ttl_get_def get_view hide_expired_def live_def split: option.splits)

lemma ttl_list_live:
  assumes "inv s" "unpaged_query q"
  shows "\<exists>rows. ttl_list now db s c q = Inr rows \<and> distinct rows \<and> set rows = matching (live now (view s)) c q"
proof -
  obtain rows where "db_list db s c q = Inr rows" "distinct rows" "set rows = matching (view s) c q"
    using list_rows [OF assms] .
  then show ?thesis by (auto simp: ttl_list_def matching_live)
qed

lemma expired_count_live:
  assumes "inv s"
  shows "expired_count now db s c q = Inr (card {d \<in> matching (view s) c q. is_expired now d})"
proof -
  obtain rows where r: "db_list db s c (expired_query now q) = Inr rows" "distinct rows"
      "set rows = matching (view s) c (expired_query now q)"
    using list_rows [OF assms, of "expired_query now q"] by auto
  have "length (filter (is_expired now) rows) = card {d \<in> set rows. is_expired now d}"
    using r(2) by (metis distinct_card distinct_filter set_filter)
  then show ?thesis by (simp add: expired_count_def r(1) r(3) expired_candidates)
qed

lemma ttl_count_live:
  assumes "inv s" "unpaged_query q"
  shows "ttl_count now db s c q = Inr (card (matching (live now (view s)) c q))"
proof (cases "supports_native_aggregation (db_capabilities db)")
  case False
  obtain rows where "ttl_list now db s c q = Inr rows" "distinct rows" "set rows = matching (live now (view s)) c q"
    using ttl_list_live [OF assms] by blast
  with False show ?thesis by (simp add: ttl_count_def) (metis distinct_card)
next
  case True
  let ?M = "matching (view s) c q"
  have "card ?M - card {d \<in> ?M. is_expired now d} = card (?M - {d \<in> ?M. is_expired now d})"
    using matching_finite [OF assms] by (intro card_Diff_subset [symmetric]) auto
  also have "?M - {d \<in> ?M. is_expired now d} = matching (live now (view s)) c q"
    by (auto simp: matching_live)
  finally show ?thesis
    using True by (simp add: ttl_count_def count_view [OF assms(1)] expired_count_live [OF assms(1)])
qed

lemma sweep_delete_only_expired:
  "inv s \<Longrightarrow> \<not> starts_with ''__'' c \<Longrightarrow> (\<forall>i \<in> set ids. \<forall>x. view s (c, i) = Some x \<longrightarrow> is_expired now x) \<Longrightarrow>
   sweep_delete db c ids n s = (n', s') \<Longrightarrow>
   inv s' \<and> only_expired now (view s) (view s') \<and> n' \<le> n + length ids"
proof (induction ids arbitrary: n s)
  case (Cons i ids)
  obtain r s1 where d: "db_delete db s c i = (r, s1)" by fastforce
  note del = delete_view [OF Cons.prems(1) d]
  have one: "only_expired now (view s) (view s1)"
    using del Cons.prems(2,3) by (cases r) (auto simp: only_expired_def)
  have pre: "\<forall>i \<in> set ids. \<forall>x. view s1 (c, i) = Some x \<longrightarrow> is_expired now x"
    using del Cons.prems(3) by (cases r) auto
  obtain m where m: "sweep_delete db c ids m s1 = (n', s')" "m \<le> Suc n"
    using Cons.prems(4) d by (cases r) auto
  show ?case
    using Cons.IH [OF _ Cons.prems(2) pre m(1)] del one m(2) only_expired_trans by fastforce
qed (auto simp: only_expired_refl)

lemma sweep_loop_only_expired:
  "inv s \<Longrightarrow> sweep_loop now cap db cs v n s = (r, s') \<Longrightarrow>
   inv s' \<and> only_expired now (view s) (view s') \<and>
   (case r of Inl e \<Rightarrow> True | Inr (v', n') \<Rightarrow> v \<le> v' \<and> n' \<le> n + cap * (v' - v))"
proof (induction cs arbitrary: v n s)
  case (Cons c cs)
  show ?case
  proof (cases "starts_with ''__'' c")
    case True
    with Cons show ?thesis by simp
  next
    case False
    obtain rows where r: "db_list db s c default_query = Inr rows" "distinct rows"
        "set rows = matching (view s) c default_query"
      using list_rows [OF Cons.prems(1), of default_query c] by (auto simp: unpaged_query_def default_query_def)
    let ?ids = "map d_id (take cap (filter (is_expired now) rows))"
    obtain m s1 where m: "sweep_delete db c ?ids n s = (m, s1)" by fastforce
    have "\<forall>i \<in> set ?ids. \<forall>x. view s (c, i) = Some x \<longrightarrow> is_expired now x"
      using r(3) by (auto simp: matching_def dest!: in_set_takeD)
    from sweep_delete_only_expired [OF Cons.prems(1) False this m]
    have s1: "inv s1" "only_expired now (view s) (view s1)" "m \<le> n + cap" by auto
    have "sweep_loop now cap db cs (Suc v) m s1 = (r, s')"
      using Cons.prems(2) False r(1) m by simp
    note IH = Cons.IH [OF s1(1) this]
    have "(case r of Inl e \<Rightarrow> True | Inr (v', n') \<Rightarrow> v \<le> v' \<and> n' \<le> n + cap * (v' - v))"
    proof (cases r)
      case (Inr p)
      obtain v' n' where p: "p = (v', n')" by fastforce
      then have "Suc v \<le> v'" "n' \<le> m + cap * (v' - Suc v)" using IH Inr by auto
      moreover have "cap * (v' - v) = cap + cap * (v' - Suc v)"
        using \<open>Suc v \<le> v'\<close> by (simp add: Suc_diff_Suc [symmetric] Suc_le_eq)
      ultimately show ?thesis using s1(3) Inr p by simp
    qed simp
    then show ?thesis using IH s1(2) only_expired_trans by blast
  qed
qed (auto simp: only_expired_refl)

lemma sweep_expired_safe:
  "inv s \<Longrightarrow> sweep_expired now cap db s = (r, s') \<Longrightarrow>
   inv s' \<and> only_expired now (view s) (view s') \<and> (\<forall>v n. r = Inr (v, n) \<longrightarrow> n \<le> cap * v)"
  using sweep_loop_only_expired [of s now cap _ 0 0 r s']
  by (auto simp: sweep_expired_def only_expired_refl split: sum.splits)

end

section \<open>Properties\<close>

text \<open>
  C30. The decorator presents exactly the live documents of any driver that meets the contract: a
  read returns the document unless it has expired, an unpaged query returns the live matching
  documents, and a count is their number, both for drivers that list and for drivers that count
  natively and have the expired ones subtracted.
\<close>

theorem ttl_presents_live:
  assumes "queryable_store db view I" "I s" "q_limit q = None" "q_offset q = None"
  shows "db_get (ttl_db now db) s c i = Inr (live now (view s) (c, i))
    \<and> (\<exists>rows. db_list (ttl_db now db) s c q = Inr rows \<and> distinct rows
           \<and> set rows = matching (live now (view s)) c q)
    \<and> db_count (ttl_db now db) s c q = Inr (card (matching (live now (view s)) c q))"
  using queryable_store.ttl_get_live [OF assms(1,2)] queryable_store.ttl_list_live [OF assms(1,2)]
    queryable_store.ttl_count_live [OF assms(1,2)] assms(3,4)
  by (simp add: ttl_db_def unpaged_query_def)

definition native_caps :: capabilities where
  "native_caps = mem_capabilities\<lparr>supports_native_aggregation := True\<rparr>"

lemma ttl_presents_live_witness:
  "db_count (ttl_db 5 (mem_driver 0\<lparr>db_capabilities := native_caps\<rparr>)) mem_new ''c'' default_query
     = Inr (card (matching (live 5 (view_of [])) ''c'' default_query))"
  using ttl_presents_live [OF mem_caps [where nanos = 0 and caps = native_caps], where s = mem_new
      and q = default_query and now = 5 and c = "''c''"]
  by (simp add: mem_new_def mem_ok_def store_ok_def default_query_def)

text \<open>
  A sweep of any driver that meets the contract removes only documents that had expired, none
  of a collection whose name starts with two underscores, and reports at most the per-collection
  cap times the number of collections visited.
\<close>

theorem sweep_only_expired:
  assumes "queryable_store db view I" "I s" "sweep_expired now cap db s = (r, s')"
  shows "I s' \<and> only_expired now (view s) (view s') \<and> (\<forall>v n. r = Inr (v, n) \<longrightarrow> n \<le> cap * v)"
  by (rule queryable_store.sweep_expired_safe [OF assms])

definition stamped :: "int \<Rightarrow> doc" where
  "stamped t = \<lparr>d_id = ''a'', d_data = [(TTL_FIELD, jint t)]\<rparr>"

definition stamped_store :: mem_db where
  "stamped_store = \<lparr>store = [(''posts'', [(''a'', stamped 3)])], indexes = []\<rparr>"

lemma stamped_store_ok: "mem_ok stamped_store"
  by (simp add: stamped_store_def mem_ok_def store_ok_def table_ok_def dict_ok_def stamped_def)

lemma sweep_only_expired_witness:
  "only_expired 5 (view_of (store stamped_store)) (view_of (store (snd (sweep_expired 5 10 (mem_driver 0) stamped_store))))"
  using sweep_only_expired [OF mem_queryable stamped_store_ok, of 5 10 0] by (metis prod.collapse)

text \<open>
  The decorator does not cover transactions: a document that has expired is hidden from
  \<open>get\<close> and still returned by a read inside a transaction.
\<close>

lemma ttl_transaction_reads_expired:
  "\<exists>s d. mem_ok s \<and> is_expired 5 d \<and> db_get (ttl_db 5 (mem_driver 0)) s ''posts'' ''a'' = Inr None
     \<and> fst (db_run_transaction (ttl_db 5 (mem_driver 0)) s
          [\<lparr>t_collection = ''posts'', t_id = ''a'', t_kind = TxRead, t_doc = None\<rparr>])
       = Inr [\<lparr>x_doc = Some d, x_existed = True\<rparr>]"
proof (intro exI conjI)
  show "mem_ok stamped_store" by (rule stamped_store_ok)
  show dead: "is_expired 5 (stamped 3)" by (simp add: is_expired_def stamped_def)
  show "db_get (ttl_db 5 (mem_driver 0)) stamped_store ''posts'' ''a'' = Inr None"
    using dead by (simp add: ttl_db_def ttl_get_def mem_driver_def Let_def mem_get_def stamped_store_def hide_expired_def)
  show "fst (db_run_transaction (ttl_db 5 (mem_driver 0)) stamped_store
          [\<lparr>t_collection = ''posts'', t_id = ''a'', t_kind = TxRead, t_doc = None\<rparr>])
       = Inr [\<lparr>x_doc = Some (stamped 3), x_existed = True\<rparr>]"
    by (simp add: ttl_db_def mem_driver_def Let_def mem_run_transaction_def stamped_store_def mem_table_def)
qed

end
