(* ===== verification/Calendar.thy ===== *)
theory Calendar
  imports Prelude
begin

text \<open>
  The time stamps of the program: \<open>format_iso\<close> and its per-second cache
  (crates/hakobackend-core/src/atomics.rs), with the conversion of a day number to a calendar
  date, and the proof that it follows the Gregorian calendar from 1970-01-01 on.
\<close>

section \<open>Timestamps\<close>

definition pad :: "nat \<Rightarrow> int \<Rightarrow> string" where
  "pad w n = (let s = show_int n in replicate (w - length s) (CHR ''0'') @ s)"

text \<open>Days since 1970-01-01 to year, month and day, as \<open>format_iso\<close> computes it.\<close>

definition civil :: "int \<Rightarrow> int \<times> int \<times> int" where
  "civil days =
     (let z = days + 719468;
          era = z div 146097;
          doe = z - era * 146097;
          yoe = (doe - doe div 1460 + doe div 36524 - doe div 146096) div 365;
          y = yoe + era * 400;
          doy = doe - (365 * yoe + yoe div 4 - yoe div 100);
          mp = (5 * doy + 2) div 153;
          d = doy - (153 * mp + 2) div 5 + 1;
          m = (if mp < 10 then mp + 3 else mp - 9)
      in (if m \<le> 2 then y + 1 else y, m, d))"

definition format_iso :: "nat \<Rightarrow> string" where
  "format_iso secs =
     (let sod = int (secs mod 86400); (y, m, d) = civil (int (secs div 86400))
      in pad 4 y @ ''-'' @ pad 2 m @ ''-'' @ pad 2 d @ ''T'' @ pad 2 (sod div 3600) @ '':''
         @ pad 2 (sod mod 3600 div 60) @ '':'' @ pad 2 (sod mod 60) @ ''Z'')"

text \<open>The cache of \<open>now_iso_cached\<close>: the second it was filled at and the text.\<close>

type_synonym iso_cache = "nat \<times> string"

definition now_iso_cached :: "nat \<Rightarrow> iso_cache \<Rightarrow> string \<times> iso_cache" where
  "now_iso_cached secs g = (let g' = (if fst g \<noteq> secs then (secs, format_iso secs) else g) in (snd g', g'))"


section \<open>The Gregorian calendar\<close>

definition leap_year :: "int \<Rightarrow> bool" where
  "leap_year y \<longleftrightarrow> y mod 4 = 0 \<and> (y mod 100 \<noteq> 0 \<or> y mod 400 = 0)"

definition month_days :: "int \<Rightarrow> int \<Rightarrow> int" where
  "month_days y m = (if m = 2 then if leap_year y then 29 else 28
     else if m = 4 \<or> m = 6 \<or> m = 9 \<or> m = 11 then 30 else 31)"

fun next_date :: "int \<times> int \<times> int \<Rightarrow> int \<times> int \<times> int" where
  "next_date (y, m, d) = (if d < month_days y m then (y, m, d + 1)
     else if m < 12 then (y, m + 1, 1) else (y + 1, 1, 1))"

text \<open>Year of the era, first day of a year of the era (years start in March), month and day.\<close>

definition yoe_of :: "int \<Rightarrow> int" where
  "yoe_of doe = (doe - doe div 1460 + doe div 36524 - doe div 146096) div 365"

definition year_start :: "int \<Rightarrow> int" where
  "year_start y = 365 * y + y div 4 - y div 100"

definition month_of :: "int \<Rightarrow> int" where
  "month_of doy = (let mp = (5 * doy + 2) div 153 in if mp < 10 then mp + 3 else mp - 9)"

definition day_of :: "int \<Rightarrow> int" where
  "day_of doy = doy - (153 * ((5 * doy + 2) div 153) + 2) div 5 + 1"

definition year_len :: "int \<Rightarrow> int" where
  "year_len y = (if leap_year (y + 1) then 366 else 365)"

lemma div_is: "n = k * q + r \<Longrightarrow> 0 \<le> r \<Longrightarrow> r < k \<Longrightarrow> n div k = (q::int)"
  by (simp add: div_pos_pos_trivial)

lemma year_parts:
  assumes "0 \<le> y" "y < (400::int)"
  obtains c a b where "y = 100 * c + 4 * a + b" "0 \<le> c" "c \<le> 3" "0 \<le> a" "a \<le> 24" "0 \<le> b" "b \<le> 3"
proof -
  have eq: "y = 100 * (y div 100) + 4 * (y mod 100 div 4) + y mod 100 mod 4" by simp
  have "y mod 100 < 100" "0 \<le> y mod 100" by simp_all
  then have "y mod 100 div 4 \<le> 24" by linarith
  moreover have "y mod 100 mod 4 \<le> 3" "0 \<le> y mod 100 mod 4"
    using pos_mod_bound [of 4 "y mod 100"] pos_mod_sign [of 4 "y mod 100"] by linarith+
  ultimately show thesis using assms by (intro that [OF eq]) auto
qed

lemma leap_parts:
  assumes "0 \<le> c" "c \<le> 3" "0 \<le> a" "a \<le> 24" "0 \<le> b" "b \<le> (3::int)"
  shows "leap_year (100 * c + 4 * a + b + 1) \<longleftrightarrow> b = 3 \<and> (a < 24 \<or> c = 3)"
proof (cases "b = 3")
  case False
  have "(100 * c + 4 * a + b + 1) mod 4 = (4 * (25 * c + a) + (b + 1)) mod 4" by (simp add: algebra_simps)
  also have "\<dots> = (b + 1) mod 4" by (rule mod_mult_self3 [where b = 4, unfolded mult.commute [of _ 4]])
  also have "\<dots> = b + 1" using assms False by simp
  finally show ?thesis using False assms by (simp add: leap_year_def)
next
  case True
  let ?y = "100 * c + 4 * a + b + 1"
  have y: "?y = 100 * c + 4 * (a + 1)" using True by simp
  have m4: "?y mod 4 = 0" unfolding y by presburger
  show ?thesis
  proof (cases "a = 24")
    case False
    then have "(4 * (a + 1)) mod 100 = 4 * (a + 1)" using assms by (intro mod_pos_pos_trivial) auto
    then have "?y mod 100 \<noteq> 0" unfolding y using assms by simp
    with m4 True False assms show ?thesis by (simp add: leap_year_def)
  next
    case a: True
    then have "?y = 100 * (c + 1)" using True by simp
    moreover have "c = 0 \<or> c = 1 \<or> c = 2 \<or> c = 3" using assms by linarith
    ultimately show ?thesis using a True by (auto simp: leap_year_def)
  qed
qed

lemma yoe_year:
  assumes y: "0 \<le> y" "y < 400" and j: "0 \<le> j" "j < year_len y"
  shows "yoe_of (year_start y + j) = y"
proof -
  obtain c a b where p: "y = 100 * c + 4 * a + b" "0 \<le> c" "c \<le> 3" "0 \<le> a" "a \<le> 24" "0 \<le> b" "b \<le> 3"
    using year_parts [OF y] .
  have len: "year_len y = (if b = 3 \<and> (a < 24 \<or> c = 3) then 366 else 365)"
    using leap_parts [of c a b] p by (simp add: year_len_def)
  let ?n = "year_start y + j" and ?e = "24 * c + a + 365 * b + j"
  have d: "y div 4 = 25 * c + a" "y div 100 = c"
    using p by (auto intro!: div_is [where r = b] div_is [where r = "4 * a + b"])
  have n: "?n = 36524 * c + (1461 * a + 365 * b + j)" unfolding year_start_def d using p(1) by linarith
  have d1460: "?n div 1460 = 25 * c + a + (if 1460 \<le> ?e then 1 else 0)"
    using p j len n by (intro div_is [where r = "?e - (if 1460 \<le> ?e then 1460 else 0)"]) (auto split: if_splits)
  let ?last = "c = 3 \<and> a = 24 \<and> b = 3 \<and> j = 365"
  have d36524: "?n div 36524 = c + (if ?last then 1 else 0)"
    using p j len n by (intro div_is [where r = "1461 * a + 365 * b + j - (if ?last then 36524 else 0)"])
      (auto split: if_splits)
  have d146096: "?n div 146096 = (if ?last then 1 else 0)"
    using p j len n by (intro div_is [where r = "?n - (if ?last then 146096 else 0)"]) (auto split: if_splits)
  have s: "year_start y = 365 * y + 24 * c + a" unfolding year_start_def d by simp
  have "?n - ?n div 1460 + ?n div 36524 - ?n div 146096 = 365 * y + (j - (if 1460 \<le> ?e then 1 else 0))"
    unfolding d1460 d36524 d146096 using s by simp
  moreover have "0 \<le> j - (if 1460 \<le> ?e then 1 else 0)" "j - (if 1460 \<le> ?e then 1 else 0) < 365"
    using p j len by (auto split: if_splits)
  ultimately show ?thesis unfolding yoe_of_def by (intro div_is)
qed

lemma month_table:
  fixes j :: int
  shows
  "0 \<le> j \<Longrightarrow> j < 31 \<Longrightarrow> month_of j = 3 \<and> day_of j = j - -1"
  "31 \<le> j \<Longrightarrow> j < 61 \<Longrightarrow> month_of j = 4 \<and> day_of j = j - 30"
  "61 \<le> j \<Longrightarrow> j < 92 \<Longrightarrow> month_of j = 5 \<and> day_of j = j - 60"
  "92 \<le> j \<Longrightarrow> j < 122 \<Longrightarrow> month_of j = 6 \<and> day_of j = j - 91"
  "122 \<le> j \<Longrightarrow> j < 153 \<Longrightarrow> month_of j = 7 \<and> day_of j = j - 121"
  "153 \<le> j \<Longrightarrow> j < 184 \<Longrightarrow> month_of j = 8 \<and> day_of j = j - 152"
  "184 \<le> j \<Longrightarrow> j < 214 \<Longrightarrow> month_of j = 9 \<and> day_of j = j - 183"
  "214 \<le> j \<Longrightarrow> j < 245 \<Longrightarrow> month_of j = 10 \<and> day_of j = j - 213"
  "245 \<le> j \<Longrightarrow> j < 275 \<Longrightarrow> month_of j = 11 \<and> day_of j = j - 244"
  "275 \<le> j \<Longrightarrow> j < 306 \<Longrightarrow> month_of j = 12 \<and> day_of j = j - 274"
  "306 \<le> j \<Longrightarrow> j < 337 \<Longrightarrow> month_of j = 1 \<and> day_of j = j - 305"
  "337 \<le> j \<Longrightarrow> j < 366 \<Longrightarrow> month_of j = 2 \<and> day_of j = j - 336"
  subgoal
    by (simp add: month_of_def day_of_def div_is [of "5 * j + 2" 153 0 "5 * j + 2 - 153 * 0"])
  subgoal
    by (simp add: month_of_def day_of_def div_is [of "5 * j + 2" 153 1 "5 * j + 2 - 153 * 1"])
  subgoal
    by (simp add: month_of_def day_of_def div_is [of "5 * j + 2" 153 2 "5 * j + 2 - 153 * 2"])
  subgoal
    by (simp add: month_of_def day_of_def div_is [of "5 * j + 2" 153 3 "5 * j + 2 - 153 * 3"])
  subgoal
    by (simp add: month_of_def day_of_def div_is [of "5 * j + 2" 153 4 "5 * j + 2 - 153 * 4"])
  subgoal
    by (simp add: month_of_def day_of_def div_is [of "5 * j + 2" 153 5 "5 * j + 2 - 153 * 5"])
  subgoal
    by (simp add: month_of_def day_of_def div_is [of "5 * j + 2" 153 6 "5 * j + 2 - 153 * 6"])
  subgoal
    by (simp add: month_of_def day_of_def div_is [of "5 * j + 2" 153 7 "5 * j + 2 - 153 * 7"])
  subgoal
    by (simp add: month_of_def day_of_def div_is [of "5 * j + 2" 153 8 "5 * j + 2 - 153 * 8"])
  subgoal
    by (simp add: month_of_def day_of_def div_is [of "5 * j + 2" 153 9 "5 * j + 2 - 153 * 9"])
  subgoal
    by (simp add: month_of_def day_of_def div_is [of "5 * j + 2" 153 10 "5 * j + 2 - 153 * 10"])
  subgoal
    by (simp add: month_of_def day_of_def div_is [of "5 * j + 2" 153 11 "5 * j + 2 - 153 * 11"])
  done

definition date_at :: "int \<Rightarrow> int \<Rightarrow> int \<times> int \<times> int" where
  "date_at y j = (if month_of j \<le> 2 then y + 1 else y, month_of j, day_of j)"

lemma next_date_within:
  assumes "0 \<le> j" "j + 1 < (if leap_year (y + 1) then 366 else 365)"
  shows "next_date (date_at y j) = date_at y (j + 1)"
proof -
  have "j + 1 < 366" using assms(2) by (auto split: if_splits)
  then have "(0 \<le> j \<and> j + 1 < 31) \<or> j + 1 = 31
      \<or> (31 \<le> j \<and> j + 1 < 61) \<or> j + 1 = 61
      \<or> (61 \<le> j \<and> j + 1 < 92) \<or> j + 1 = 92
      \<or> (92 \<le> j \<and> j + 1 < 122) \<or> j + 1 = 122
      \<or> (122 \<le> j \<and> j + 1 < 153) \<or> j + 1 = 153
      \<or> (153 \<le> j \<and> j + 1 < 184) \<or> j + 1 = 184
      \<or> (184 \<le> j \<and> j + 1 < 214) \<or> j + 1 = 214
      \<or> (214 \<le> j \<and> j + 1 < 245) \<or> j + 1 = 245
      \<or> (245 \<le> j \<and> j + 1 < 275) \<or> j + 1 = 275
      \<or> (275 \<le> j \<and> j + 1 < 306) \<or> j + 1 = 306
      \<or> (306 \<le> j \<and> j + 1 < 337) \<or> j + 1 = 337
      \<or> (337 \<le> j \<and> j + 1 < 366)"
    using assms(1) by presburger
  then show ?thesis
    using assms by (elim disjE conjE) (auto simp: date_at_def month_table month_days_def split: if_splits)
qed

lemma next_date_year: 
  "next_date (date_at y ((if leap_year (y + 1) then 366 else 365) - 1)) = date_at (y + 1) 0"
  by (simp add: date_at_def month_table month_days_def)

lemma civil_at:
  assumes "0 \<le> y" "y < 400" "0 \<le> j" "j < year_len y"
    and z: "days + 719468 = 146097 * era + (year_start y + j)"
  shows "civil days = date_at (y + 400 * era) j"
proof -
  have b: "0 \<le> year_start y + j" "year_start y + j < 146097"
  proof -
    obtain c a b where p: "y = 100 * c + 4 * a + b" "0 \<le> c" "c \<le> 3" "0 \<le> a" "a \<le> 24" "0 \<le> b" "b \<le> 3"
      using year_parts [OF assms(1,2)] .
    have d: "y div 4 = 25 * c + a" "y div 100 = c"
      using p by (auto intro!: div_is [where r = b] div_is [where r = "4 * a + b"])
    have len: "year_len y = (if b = 3 \<and> (a < 24 \<or> c = 3) then 366 else 365)"
      using leap_parts [of c a b] p by (simp add: year_len_def)
    show "0 \<le> year_start y + j" "year_start y + j < 146097"
      unfolding year_start_def d using p assms(3,4) len by (auto split: if_splits)
  qed
  have e: "(days + 719468) div 146097 = era" using b unfolding z by (intro div_is) auto
  have doe: "days + 719468 - era * 146097 = year_start y + j" using z by simp
  show ?thesis
    unfolding civil_def Let_def e doe yoe_of_def [symmetric] yoe_year [OF assms(1-4)]
    unfolding year_start_def [symmetric]
    by (simp add: date_at_def month_of_def day_of_def Let_def)
qed

lemma year_start_Suc:
  assumes "0 \<le> y" "y < 399"
  shows "year_start (y + 1) = year_start y + year_len y"
proof -
  have "y < 400" using assms(2) by simp
  obtain c a b where p: "y = 100 * c + 4 * a + b" "0 \<le> c" "c \<le> 3" "0 \<le> a" "a \<le> 24" "0 \<le> b" "b \<le> 3"
    using year_parts [OF assms(1) \<open>y < 400\<close>] .
  have d: "y div 4 = 25 * c + a" "y div 100 = c"
    using p by (auto intro!: div_is [where r = b] div_is [where r = "4 * a + b"])
  have d4: "(y + 1) div 4 = 25 * c + a + (if b = 3 then 1 else 0)"
    using p by (intro div_is [where r = "if b = 3 then 0 else b + 1"]) auto
  have d100: "(y + 1) div 100 = c + (if b = 3 \<and> a = 24 then 1 else 0)"
    using p by (intro div_is [where r = "if b = 3 \<and> a = 24 then 0 else 4 * a + b + 1"]) auto
  have len: "year_len y = (if b = 3 \<and> (a < 24 \<or> c = 3) then 366 else 365)"
    using leap_parts [of c a b] p by (simp add: year_len_def)
  show ?thesis unfolding year_start_def d d4 d100 using len p assms(2) by (auto split: if_splits)
qed

lemma leap_year_era: "leap_year (y + 400 * e) = leap_year y"
proof -
  have "(y + 400 * e) mod 4 = y mod 4" "(y + 400 * e) mod 100 = y mod 100" "(y + 400 * e) mod 400 = y mod 400"
    using mod_mult_self2 [of y 4 "100 * e"] mod_mult_self2 [of y 100 "4 * e"] mod_mult_self2 [of y 400 e]
    by simp_all
  then show ?thesis by (simp add: leap_year_def)
qed

text \<open>Every day has a place in an era, and the next day is the next date.\<close>

definition placed :: "int \<Rightarrow> int \<Rightarrow> int \<Rightarrow> int \<Rightarrow> bool" where
  "placed days era y j \<longleftrightarrow> 0 \<le> y \<and> y < 400 \<and> 0 \<le> j \<and> j < year_len y
     \<and> days + 719468 = 146097 * era + (year_start y + j)"

lemma civil_next:
  assumes "placed days era y j"
  shows "\<exists>era y j. placed (days + 1) era y j" and "civil (days + 1) = next_date (civil days)"
proof -
  note p = assms [unfolded placed_def]
  let ?Y = "y + 400 * era"
  have c: "civil days = date_at ?Y j" using p by (intro civil_at) auto
  have leap: "leap_year (?Y + 1) = leap_year (y + 1)" using leap_year_era [of "y + 1" era] by (simp add: algebra_simps)
  have "\<exists>era' y' j'. placed (days + 1) era' y' j' \<and> date_at (y' + 400 * era') j' = next_date (date_at ?Y j)"
  proof (cases "j + 1 < year_len y")
    case True
    have "placed (days + 1) era y (j + 1)" using p True by (simp add: placed_def)
    moreover have "next_date (date_at ?Y j) = date_at ?Y (j + 1)"
      using p True by (intro next_date_within) (auto simp: leap year_len_def)
    ultimately show ?thesis by metis
  next
    case False
    then have j: "j = year_len y - 1" using p by simp
    have nx: "next_date (date_at ?Y j) = date_at (?Y + 1) 0"
      using next_date_year [of ?Y] j leap by (simp add: year_len_def)
    show ?thesis
    proof (cases "y = 399")
      case True
      have "year_start 399 + year_len 399 = 146097" by (simp add: year_start_def year_len_def leap_year_def)
      then have "placed (days + 1) (era + 1) 0 0"
        using p j True by (simp add: placed_def year_len_def year_start_def)
      moreover have "0 + 400 * (era + 1) = ?Y + 1" using True by simp
      ultimately show ?thesis using nx by metis
    next
      case f: False
      have "placed (days + 1) era (y + 1) 0"
        using p j f year_start_Suc [of y] by (simp add: placed_def year_len_def)
      moreover have "y + 1 + 400 * era = ?Y + 1" by simp
      ultimately show ?thesis using nx by metis
    qed
  qed
  then obtain era' y' j' where n: "placed (days + 1) era' y' j'"
      "date_at (y' + 400 * era') j' = next_date (date_at ?Y j)" by blast
  then show "\<exists>era y j. placed (days + 1) era y j" by blast
  have "civil (days + 1) = date_at (y' + 400 * era') j'"
    using n(1) unfolding placed_def by (intro civil_at) auto
  then show "civil (days + 1) = next_date (civil days)" using n(2) c by simp
qed

lemma placed_0: "placed 0 4 369 306"
  by (simp add: placed_def year_start_def year_len_def leap_year_def)

lemma placed_int: "\<exists>era y j. placed (int n) era y j"
proof (induction n)
  case 0
  then show ?case using placed_0 by auto
next
  case (Suc n)
  then show ?case using civil_next(1) by (metis of_nat_Suc add.commute)
qed

section \<open>Properties\<close>

text \<open>
  The date of day \<open>n\<close> is the one reached from 1970-01-01 by stepping \<open>n\<close> times to the next
  calendar date, with the month lengths and leap years of the Gregorian calendar.
\<close>

theorem civil_is_gregorian: "civil (int n) = (next_date ^^ n) (1970, 1, 1)"
proof (induction n)
  case 0
  have "civil 0 = date_at (369 + 400 * 4) 306"
    using placed_0 unfolding placed_def by (intro civil_at) auto
  then show ?case by (simp add: date_at_def month_table)
next
  case (Suc n)
  obtain era y j where "placed (int n) era y j" using placed_int by blast
  from civil_next(2) [OF this] Suc show ?case by (simp add: add.commute)
qed

text \<open>
  The cache starts with the second \<open>u64::MAX\<close>; from then on it returns what formatting the current
  second returns.
\<close>

definition U64_MAX :: nat where "U64_MAX = 2 ^ 64 - 1"

definition cache_ok :: "iso_cache \<Rightarrow> bool" where
  "cache_ok g \<longleftrightarrow> fst g = U64_MAX \<or> snd g = format_iso (fst g)"

lemma now_iso_cached_ok:
  "cache_ok g \<Longrightarrow> secs \<noteq> U64_MAX \<Longrightarrow> fst (now_iso_cached secs g) = format_iso secs \<and> cache_ok (snd (now_iso_cached secs g))"
  unfolding now_iso_cached_def cache_ok_def Let_def by (cases "fst g = secs") auto

end
