(* ===== verification/Atomics.thy ===== *)
theory Atomics
  imports Core Calendar "HOL-Library.Sublist" "HOL-Library.Multiset"
begin

text \<open>
  Field sentinels and timestamps (crates/hakobackend-core/src/atomics.rs): resolving sentinels on
  the create path, executing them on the merge path over dot-paths, and the calendar conversion
  behind the stamps. \<open>ts\<close> is the formatted current time, \<open>jtext\<close> the JSON text of a value
  (\<open>to_string\<close> of serde_json), by which array elements are compared.
\<close>

section \<open>Sentinels\<close>

definition op_of :: "json \<Rightarrow> string option" where
  "op_of v = Option.bind (jget v ''__type__'') as_str"

definition is_sentinel :: "json \<Rightarrow> bool" where
  "is_sentinel v \<longleftrightarrow> op_of v \<noteq> None"

fun has_sentinel :: "json \<Rightarrow> bool" where
  "has_sentinel (JArr items) = list_ex has_sentinel items"
| "has_sentinel (JObj m) = (op_of (JObj m) \<noteq> None \<or> list_ex (\<lambda>e. has_sentinel (snd e)) m)"
| "has_sentinel _ = False"

lemma size_entry: "(k, v) \<in> set m \<Longrightarrow> size v < size_list (size_prod (\<lambda>x. 0) size) m"
  using size_list_estimation [of "(k, v)" m "size v" "size_prod (\<lambda>x. 0) size"] by simp

function (sequential) resolve_deep :: "string \<Rightarrow> json \<Rightarrow> json option"
  and resolve_sentinel :: "string \<Rightarrow> (string, json) dict \<Rightarrow> json option" where
  "resolve_deep ts (JArr items) = Some (JArr (filter_map (resolve_deep ts) items))"
| "resolve_deep ts (JObj m) =
     (if op_of (JObj m) \<noteq> None then resolve_sentinel ts m
      else Some (JObj (dfilter_map (resolve_deep ts) m)))"
| "resolve_deep ts v = Some v"
| "resolve_sentinel ts m = (case op_of (JObj m) of
     Some t \<Rightarrow>
       if t = ''serverTimestamp'' then Some (JStr ts)
       else if t = ''increment'' then Some (unwrap_or (jint 0) (dget m ''n''))
       else if t = ''arrayUnion'' then Some (unwrap_or (JArr []) (dget m ''elements''))
       else if t = ''arrayRemove'' then Some (JArr [])
       else if t = ''deleteField'' then None
       else Some (JObj (dfilter_map (resolve_deep ts) m))
   | None \<Rightarrow> Some (JObj (dfilter_map (resolve_deep ts) m)))"
  by pat_completeness auto

termination
  by (relation "measure (case_sum (\<lambda>(ts, v). 2 * size v)
        (\<lambda>(ts, m). 2 * size_list (size_prod (\<lambda>x. 0) size) m + 1))")
    (auto dest: size_arr size_entry)

definition resolve_for_create :: "string \<Rightarrow> (string, json) dict \<Rightarrow> (string, json) dict" where
  "resolve_for_create ts data =
     (if \<not> list_ex has_sentinel (dvals data) then data
      else dfilter_map (\<lambda>v. if is_sentinel v then resolve_sentinel ts (the (as_object v)) else resolve_deep ts v) data)"

section \<open>Dot-paths\<close>

abbreviation path_parts :: "string \<Rightarrow> string list" where
  "path_parts \<equiv> split_on (CHR ''.'')"

fun get_parts :: "json \<Rightarrow> string list \<Rightarrow> json option" where
  "get_parts cur [] = Some cur"
| "get_parts cur (p # ps) = (case jget cur p of None \<Rightarrow> None | Some c \<Rightarrow> get_parts c ps)"

definition get_path :: "json \<Rightarrow> string \<Rightarrow> json option" where
  "get_path data path = get_parts data (path_parts path)"

text \<open>The entries of an object; anything else is replaced by an empty one on the way down.\<close>

definition entries :: "json \<Rightarrow> (string, json) dict" where
  "entries v = (case v of JObj m \<Rightarrow> m | _ \<Rightarrow> [])"

fun set_parts :: "json \<Rightarrow> string list \<Rightarrow> json \<Rightarrow> json" where
  "set_parts cur [] v = cur"
| "set_parts cur [p] v = (case cur of JObj m \<Rightarrow> JObj (dput p v m) | _ \<Rightarrow> cur)"
| "set_parts cur (p # q # ps) v =
     (let m = entries cur;
          child = (case dget m p of Some (JObj c) \<Rightarrow> JObj c | _ \<Rightarrow> JObj [])
      in JObj (dput p (set_parts child (q # ps) v) m))"

definition set_path :: "json \<Rightarrow> string \<Rightarrow> json \<Rightarrow> json" where
  "set_path data path v = set_parts data (path_parts path) v"

fun delete_parts :: "json \<Rightarrow> string list \<Rightarrow> json" where
  "delete_parts cur [] = cur"
| "delete_parts cur [p] = (case cur of JObj m \<Rightarrow> JObj (ddel p m) | _ \<Rightarrow> cur)"
| "delete_parts cur (p # q # ps) = (case cur of
     JObj m \<Rightarrow> (case dget m p of Some c \<Rightarrow> JObj (dput p (delete_parts c (q # ps)) m) | None \<Rightarrow> cur)
   | _ \<Rightarrow> cur)"

definition delete_path :: "json \<Rightarrow> string \<Rightarrow> json" where
  "delete_path data path = delete_parts data (path_parts path)"

section \<open>The merge path\<close>

text \<open>\<open>json!(x)\<close> of a float: a value beyond the range is an infinity, which prints as null.\<close>

definition json_of_f64 :: "f64 \<Rightarrow> json" where
  "json_of_f64 x = (if 2 ^ 1024 \<le> \<bar>x\<bar> then JNull else JNum (NFloat x))"

definition increment :: "json option \<Rightarrow> json option \<Rightarrow> json" where
  "increment cur n =
     (let n = unwrap_or 0 (Option.bind n as_f64);
          c = unwrap_or 0 (Option.bind cur as_f64);
          s = f64_add c n
      in if f64_integral n \<and> f64_integral c then jint (i64_of_f64 s) else json_of_f64 s)"

definition array_union :: "(json \<Rightarrow> string) \<Rightarrow> json option \<Rightarrow> json option \<Rightarrow> json" where
  "array_union jtext cur els =
     (let arr = unwrap_or [] (Option.bind cur as_array); have = map jtext arr in
      JArr (arr @ filter (\<lambda>el. jtext el \<notin> set have) (unwrap_or [] (Option.bind els as_array))))"

definition array_remove :: "(json \<Rightarrow> string) \<Rightarrow> json option \<Rightarrow> json option \<Rightarrow> json" where
  "array_remove jtext cur els =
     (let arr = unwrap_or [] (Option.bind cur as_array);
          gone = map jtext (unwrap_or [] (Option.bind els as_array))
      in JArr (filter (\<lambda>i. jtext i \<notin> set gone) arr))"

text \<open>What one update entry writes at its path: \<open>None\<close> removes the field.\<close>

definition update_value :: "(json \<Rightarrow> string) \<Rightarrow> string \<Rightarrow> json option \<Rightarrow> json \<Rightarrow> json option" where
  "update_value jtext ts cur v =
     (if is_sentinel v then
        (let m = entries v; t = the (op_of v) in
         if t = ''serverTimestamp'' then Some (JStr ts)
         else if t = ''increment'' then Some (increment cur (dget m ''n''))
         else if t = ''arrayUnion'' then Some (array_union jtext cur (dget m ''elements''))
         else if t = ''arrayRemove'' then Some (array_remove jtext cur (dget m ''elements''))
         else if t = ''deleteField'' then None
         else resolve_deep ts v)
      else if \<not> has_sentinel v then Some v
      else resolve_deep ts v)"

text \<open>
  One step of the loop. The value resolves to nothing only for \<open>deleteField\<close>: an unknown sentinel
  and a plain value always resolve (\<open>resolve_keeps\<close> below), so the deleting branch is the code's.
\<close>

definition apply_one :: "(json \<Rightarrow> string) \<Rightarrow> string \<Rightarrow> json \<Rightarrow> string \<times> json \<Rightarrow> json" where
  "apply_one jtext ts body pv = (case pv of (path, v) \<Rightarrow>
     (case update_value jtext ts (get_path body path) v of
        Some w \<Rightarrow> set_path body path w
      | None \<Rightarrow> delete_path body path))"

text \<open>\<open>updates\<close> is the \<open>HashMap\<close> in the order it is traversed.\<close>

definition apply_update :: "(json \<Rightarrow> string) \<Rightarrow> string \<Rightarrow> (string, json) dict \<Rightarrow> (string \<times> json) list \<Rightarrow> (string, json) dict" where
  "apply_update jtext ts base updates = entries (foldl (apply_one jtext ts) (JObj base) updates)"

definition or_insert :: "string \<Rightarrow> json \<Rightarrow> (string, json) dict \<Rightarrow> (string, json) dict" where
  "or_insert k v d = (if dhas d k then d else dput k v d)"

definition stamp_new :: "string \<Rightarrow> (string, json) dict \<Rightarrow> (string, json) dict" where
  "stamp_new ts data = or_insert ''updatedAt'' (JStr ts) (or_insert ''createdAt'' (JStr ts) data)"

definition stamp_update :: "string \<Rightarrow> (string, json) dict \<Rightarrow> json option \<Rightarrow> (string, json) dict" where
  "stamp_update ts data created_at = dput ''updatedAt'' (JStr ts)
     (case created_at of Some c \<Rightarrow> or_insert ''createdAt'' c data | None \<Rightarrow> data)"

section \<open>Resolving\<close>

lemma op_of_JObj: "op_of v = Some t \<Longrightarrow> \<exists>m. v = JObj m \<and> dget m ''__type__'' = Some (JStr t)"
  by (cases v) (auto simp: op_of_def jget_def bind_eq_Some_conv)

lemma filter_map_Some: "(\<And>x. x \<in> set xs \<Longrightarrow> f x = Some x) \<Longrightarrow> filter_map f xs = xs"
  by (induction xs) auto

lemma dfilter_map_Some: "(\<And>k v. (k, v) \<in> set d \<Longrightarrow> f v = Some v) \<Longrightarrow> dfilter_map f d = d"
proof (induction d)
  case (Cons e d)
  have "f (snd e) = Some (snd e)" using Cons.prems [of "fst e" "snd e"] by simp
  moreover have "dfilter_map f d = d" using Cons.prems by (intro Cons.IH) auto
  ultimately show ?case by (cases e) simp
qed simp

lemma resolve_deep_plain: "\<not> has_sentinel v \<Longrightarrow> resolve_deep ts v = Some v"
  by (induction v rule: has_sentinel.induct)
    (auto simp: list_ex_iff intro!: filter_map_Some dfilter_map_Some)

declare resolve_sentinel.simps [simp del]

lemma resolve_sentinel_deep:
  "is_sentinel v \<Longrightarrow> resolve_sentinel ts (the (as_object v)) = resolve_deep ts v"
proof -
  assume "is_sentinel v"
  then obtain t m where "v = JObj m" "op_of v = Some t"
    using op_of_JObj by (fastforce simp: is_sentinel_def)
  then show ?thesis by simp
qed

lemma resolve_keeps:
  "resolve_deep ts v = None \<longleftrightarrow> op_of v = Some ''deleteField''"
  by (cases v) (auto simp: resolve_sentinel.simps op_of_def jget_def split: option.splits)

lemma resolve_for_create_eq: "resolve_for_create ts data = dfilter_map (resolve_deep ts) data"
proof (cases "list_ex has_sentinel (dvals data)")
  case False
  then have "dfilter_map (resolve_deep ts) data = data"
    by (intro dfilter_map_Some resolve_deep_plain) (force simp: list_ex_iff dvals_def)
  with False show ?thesis by (simp add: resolve_for_create_def)
next
  case True
  then show ?thesis
    by (auto simp: resolve_for_create_def resolve_sentinel_deep intro!: dfilter_map_cong)
qed

section \<open>Reading back what a path update wrote\<close>

text \<open>Setting or deleting at a path, as one operation on the entry of its first part.\<close>

definition upd :: "json \<Rightarrow> string list \<Rightarrow> json option \<Rightarrow> json" where
  "upd cur ps x = (case x of Some v \<Rightarrow> set_parts cur ps v | None \<Rightarrow> delete_parts cur ps)"

definition dset :: "string \<Rightarrow> json option \<Rightarrow> (string, json) dict \<Rightarrow> (string, json) dict" where
  "dset k x m = (case x of Some v \<Rightarrow> dput k v m | None \<Rightarrow> ddel k m)"

lemma dget_dset [simp]: "dget (dset k x m) j = (if j = k then x else dget m j)"
  by (cases x) (auto simp: dset_def)

lemma dict_ok_dset [simp]: "dict_ok m \<Longrightarrow> dict_ok (dset k x m)"
  by (cases x) (auto simp: dset_def)

lemma dset_same: "dict_ok m \<Longrightarrow> dset k x (dset k y m) = dset k x m"
  by (rule dict_ext) auto

lemma dset_commute: "dict_ok m \<Longrightarrow> j \<noteq> k \<Longrightarrow> dset j x (dset k y m) = dset k y (dset j x m)"
  by (rule dict_ext) auto

definition child :: "json option \<Rightarrow> json" where
  "child c = (case c of Some (JObj m) \<Rightarrow> JObj m | _ \<Rightarrow> JObj [])"

fun step :: "json option \<Rightarrow> string list \<Rightarrow> json option \<Rightarrow> json option" where
  "step c [] x = x"
| "step c (q # qs) (Some v) = Some (upd (child c) (q # qs) (Some v))"
| "step c (q # qs) None = map_option (\<lambda>c. upd c (q # qs) None) c"

lemma upd_obj: "dict_ok m \<Longrightarrow> upd (JObj m) (p # ps) x = JObj (dset p (step (dget m p) ps x) m)"
  by (cases ps; cases x)
    (auto simp: upd_def dset_def entries_def child_def dm.del_absent split: option.splits)

lemma upd_non_object: "as_object c = None \<Longrightarrow> upd c (q # qs) None = c"
  by (cases c; cases qs) (auto simp: upd_def)

lemma json_ok_dset: "json_ok (JObj m) \<Longrightarrow> (\<And>v. x = Some v \<Longrightarrow> json_ok v) \<Longrightarrow> json_ok (JObj (dset k x m))"
proof (cases x)
  case None
  assume "json_ok (JObj m)"
  with None show ?thesis by (auto simp: dset_def ddel_def list_all_iff)
next
  case (Some v)
  assume a: "json_ok (JObj m)" "\<And>v. x = Some v \<Longrightarrow> json_ok v"
  have "set (dput k v m) \<subseteq> insert (k, v) (set m)"
    by (induction k v m rule: dput.induct) auto
  with a Some show ?thesis by (auto simp: dset_def list_all_iff)
qed

lemma json_ok_get: "json_ok (JObj m) \<Longrightarrow> dget m k = Some v \<Longrightarrow> json_ok v"
  by (force simp: list_all_iff dest: map_of_SomeD)

lemma child_Some [simp]: "child (Some (JObj m)) = JObj m"
  by (simp add: child_def)

lemma child_obj: "\<exists>m. child c = JObj m"
  by (simp add: child_def split: option.split json.split)

lemma json_ok_child: "(\<And>v. c = Some v \<Longrightarrow> json_ok v) \<Longrightarrow> json_ok (child c)"
  by (auto simp: child_def split: option.splits json.splits)

lemma json_ok_child_get: "json_ok (JObj m) \<Longrightarrow> json_ok (child (dget m p))"
  by (rule json_ok_child) (rule json_ok_get)

lemma json_ok_upd:
  "json_ok (JObj m) \<Longrightarrow> (\<And>v. x = Some v \<Longrightarrow> json_ok v) \<Longrightarrow> json_ok (upd (JObj m) (p # ps) x)"
proof (induction ps arbitrary: m p)
  case Nil
  then show ?case using json_ok_dset [of m x p] by (simp add: upd_obj)
next
  case (Cons q qs)
  have "json_ok v" if "step (dget m p) (q # qs) x = Some v" for v
  proof (cases x)
    case (Some w)
    have "json_ok (child (dget m p))" by (rule json_ok_child) (rule json_ok_get [OF Cons.prems(1)])
    moreover obtain c where c: "child (dget m p) = JObj c"
      using child_obj by blast
    ultimately have "json_ok (JObj c)" by simp
    then have "json_ok (upd (JObj c) (q # qs) x)" by (rule Cons.IH) (rule Cons.prems(2))
    moreover have "v = upd (JObj c) (q # qs) x" using that Some c by simp
    ultimately show ?thesis by simp
  next
    case None
    with that obtain c where c: "dget m p = Some c" "v = upd c (q # qs) None" by auto
    have "json_ok c" using Cons.prems(1) c(1) by (rule json_ok_get)
    show ?thesis
    proof (cases "as_object c")
      case None
      then show ?thesis using c(2) \<open>json_ok c\<close> upd_non_object by simp
    next
      case (Some o')
      with \<open>json_ok c\<close> have "json_ok (upd (JObj o') (q # qs) x)"
        using Cons.prems(2) by (intro Cons.IH) auto
      then show ?thesis using c(2) Some \<open>x = None\<close> by simp
    qed
  qed
  then show ?case using Cons.prems(1) json_ok_dset [of m "step (dget m p) (q # qs) x" p]
    by (simp add: upd_obj)
qed

definition indep :: "string list \<Rightarrow> string list \<Rightarrow> bool" where
  "indep ps qs \<longleftrightarrow> \<not> prefix ps qs \<and> \<not> prefix qs ps"

lemma indep_Cons: "indep (p # ps) (q # qs) \<longleftrightarrow> p \<noteq> q \<or> indep ps qs"
  by (auto simp: indep_def)

lemma indep_ne: "indep ps qs \<Longrightarrow> ps \<noteq> [] \<and> qs \<noteq> []"
  by (auto simp: indep_def)

lemma upd_commute:
  "json_ok (JObj m) \<Longrightarrow> indep ps qs \<Longrightarrow> upd (upd (JObj m) ps x) qs y = upd (upd (JObj m) qs y) ps x"
proof (induction ps arbitrary: m qs)
  case Nil
  then show ?case by (simp add: indep_def)
next
  case (Cons p ps)
  obtain q qs' where qs: "qs = q # qs'" using indep_ne [OF Cons.prems(2)] by (cases qs) auto
  have m: "dict_ok m" using Cons.prems(1) by simp
  show ?case
  proof (cases "p = q")
    case False
    then show ?thesis unfolding qs using m by (simp add: upd_obj dset_commute)
  next
    case True
    then have ind: "indep ps qs'" using Cons.prems(2) qs by (simp add: indep_Cons)
    obtain a as where ps: "ps = a # as" using indep_ne [OF ind] by (cases ps) auto
    obtain b bs where qs': "qs' = b # bs" using indep_ne [OF ind] by (cases qs') auto
    have comm: "upd (upd (JObj c) ps x) qs' y = upd (upd (JObj c) qs' y) ps x" if "json_ok (JObj c)" for c
      using Cons.IH [OF that ind] .
    have obj: "\<exists>c'. upd (JObj c) ps x = JObj c'" "\<exists>c'. upd (JObj c) qs' y = JObj c'" if "dict_ok c" for c
      using that by (simp_all add: ps qs' upd_obj)
    have "step (step c ps x) qs' y = step (step c qs' y) ps x" if "\<And>v. c = Some v \<Longrightarrow> json_ok v" for c
    proof (cases "\<exists>c'. c = Some (JObj c')")
      case True
      then obtain c' where c': "c = Some (JObj c')" by blast
      have ok: "json_ok (JObj c')" using that c' by simp
      have ch: "child (Some (upd (JObj c') ps x)) = upd (JObj c') ps x"
        "child (Some (upd (JObj c') qs' y)) = upd (JObj c') qs' y"
        using obj [of c'] ok by (auto simp: child_def)
      have st: "step (Some (JObj d)) ps x = Some (upd (JObj d) ps x)"
        "step (Some (JObj d)) qs' y = Some (upd (JObj d) qs' y)" for d
        by (cases x; simp add: ps child_def) (cases y; simp add: qs' child_def)
      show ?thesis using obj [of c'] ok comm [OF ok] by (auto simp: c' st)
    next
      case False
      then have ch: "child c = JObj []" by (auto simp: child_def split: option.splits json.splits)
      have noop: "upd (JObj []) ps None = JObj []" "upd (JObj []) qs' None = JObj []"
        by (cases as; simp add: ps upd_def ddel_def) (cases bs; simp add: qs' upd_def ddel_def)
      have stay: "step c ps None = c" "step c qs' None = c"
        using False by (cases c; auto simp: ps qs' intro!: upd_non_object simp: as_object_Some [symmetric] simp del: as_object_Some)+
      have "json_ok (JObj [])" by simp
      note c0 = comm [OF this]
      show ?thesis
        using c0 obj [of "[]"] noop stay
        by (cases x; cases y) (auto simp: ps qs' ch)
    qed
    then have "step (step (dget m p) ps x) qs' y = step (step (dget m p) qs' y) ps x"
      using json_ok_get [OF Cons.prems(1)] by blast
    then show ?thesis using m True by (simp add: qs upd_obj dset_same)
  qed
qed

lemma get_upd_same: "json_ok (JObj m) \<Longrightarrow> ps \<noteq> [] \<Longrightarrow> get_parts (upd (JObj m) ps x) ps = x"
proof (induction ps arbitrary: m)
  case (Cons p ps)
  have m: "dict_ok m" using Cons.prems(1) by simp
  show ?case
  proof (cases ps)
    case Nil
    then show ?thesis using m by (simp add: upd_obj jget_def split: option.split)
  next
    case (Cons q qs)
    obtain c where c: "child (dget m p) = JObj c" using child_obj by blast
    have ok: "json_ok (JObj c)"
      using json_ok_child_get [OF Cons.prems(1), of p] c by simp
    note IH = Cons.IH [OF ok, unfolded Cons]
    show ?thesis
    proof (cases x)
      case (Some w)
      then show ?thesis using IH m c by (simp add: upd_obj jget_def Cons)
    next
      case None
      show ?thesis
      proof (cases "dget m p")
        case None
        then show ?thesis using \<open>x = None\<close> m by (simp add: upd_obj jget_def Cons)
      next
        case (Some d)
        show ?thesis
        proof (cases "as_object d")
          case None
          then show ?thesis using Some \<open>x = None\<close> m upd_non_object [OF None]
            by (simp add: upd_obj jget_def Cons)
        next
          case d: (Some d')
          then have "c = d'" using Some c by simp
          then show ?thesis using Some d \<open>x = None\<close> m IH by (simp add: upd_obj jget_def Cons)
        qed
      qed
    qed
  qed
qed simp

lemma get_parts_non_object: "as_object c = None \<Longrightarrow> qs \<noteq> [] \<Longrightarrow> get_parts c qs = None"
  by (cases qs) (auto simp: jget_def)

lemma get_upd_indep:
  "json_ok (JObj m) \<Longrightarrow> indep ps qs \<Longrightarrow> get_parts (upd (JObj m) ps x) qs = get_parts (JObj m) qs"
proof (induction ps arbitrary: m qs)
  case (Cons p ps)
  obtain q qs' where qs: "qs = q # qs'" using indep_ne [OF Cons.prems(2)] by (cases qs) auto
  have m: "dict_ok m" using Cons.prems(1) by simp
  show ?case
  proof (cases "p = q")
    case False
    then show ?thesis unfolding qs using m by (simp add: upd_obj jget_def)
  next
    case True
    then have ind: "indep ps qs'" using Cons.prems(2) qs by (simp add: indep_Cons)
    obtain a as where ps: "ps = a # as" using indep_ne [OF ind] by (cases ps) auto
    obtain c where c: "child (dget m p) = JObj c" using child_obj by blast
    have ok: "json_ok (JObj c)"
      using json_ok_child_get [OF Cons.prems(1), of p] c by simp
    note IH = Cons.IH [OF ok ind]
    show ?thesis
    proof (cases "Option.bind (dget m p) as_object")
      case None
      then have none: "c = []" using c by (auto simp: child_def bind_eq_None_conv split: option.splits json.splits)
      have old: "get_parts (JObj m) qs = None"
        using None True indep_ne [OF ind] get_parts_non_object by (cases "dget m p") (auto simp: qs jget_def)
      have emp: "get_parts (JObj []) qs' = None" using indep_ne [OF ind] by (cases qs') (auto simp: jget_def)
      show ?thesis
        using None True IH m c old emp get_parts_non_object indep_ne [OF ind]
        by (cases x; cases "dget m p") (auto simp: qs upd_obj jget_def ps none upd_non_object)
    next
      case (Some c')
      then have "dget m p = Some (JObj c)" using c by (auto simp: bind_eq_Some_conv)
      then show ?thesis using IH m True by (cases x) (auto simp: qs upd_obj jget_def ps)
    qed
  qed
qed (simp add: indep_def)

section \<open>The update loop\<close>

lemma json_ok_filter_map:
  "list_all json_ok xs \<Longrightarrow> (\<And>x y. x \<in> set xs \<Longrightarrow> json_ok x \<Longrightarrow> f x = Some y \<Longrightarrow> json_ok y) \<Longrightarrow> list_all json_ok (filter_map f xs)"
  by (auto simp: list_all_iff set_filter_map)

lemma json_ok_dfilter_map:
  "json_ok (JObj m) \<Longrightarrow> (\<And>k x y. (k, x) \<in> set m \<Longrightarrow> json_ok x \<Longrightarrow> f x = Some y \<Longrightarrow> json_ok y) \<Longrightarrow> json_ok (JObj (dfilter_map f m))"
proof -
  assume a: "json_ok (JObj m)" "\<And>k x y. (k, x) \<in> set m \<Longrightarrow> json_ok x \<Longrightarrow> f x = Some y \<Longrightarrow> json_ok y"
  have "\<exists>x. (fst e, x) \<in> set m \<and> f x = Some (snd e)" if "e \<in> set (dfilter_map f m)" for e
    using that by (induction f m rule: dfilter_map.induct) (auto split: option.splits)
  then show ?thesis using a by (fastforce simp: list_all_iff)
qed

lemma json_ok_get_or: "json_ok (JObj m) \<Longrightarrow> json_ok d \<Longrightarrow> json_ok (unwrap_or d (dget m k))"
  using json_ok_get by (auto simp: unwrap_or_def split: option.split)

lemma json_ok_resolve: "json_ok v \<Longrightarrow> resolve_deep ts v = Some w \<Longrightarrow> json_ok w"
proof (induction v arbitrary: w rule: json_ok.induct)
  case (2 items)
  have "list_all json_ok (filter_map (resolve_deep ts) items)"
    using 2(1,2) by (intro json_ok_filter_map) auto
  then show ?case using 2(3) by auto
next
  case (3 m)
  have d: "json_ok (JObj (dfilter_map (resolve_deep ts) m))"
  proof (rule json_ok_dfilter_map [OF 3(2)])
    fix k x y
    assume "(k, x) \<in> set m" "json_ok x" "resolve_deep ts x = Some y"
    then show "json_ok y" using 3(1) [of "(k, x)" y] 3(2) by simp
  qed
  note g = json_ok_get_or [OF 3(2), of "jint 0" "''n''"] json_ok_get_or [OF 3(2), of "JArr []" "''elements''"]
  show ?case
    using 3(3) d g
    by (auto simp: resolve_sentinel.simps simp del: json_ok.simps(3) split: option.splits if_splits)
qed auto

lemma json_ok_as_array: "json_ok v \<Longrightarrow> as_array v = Some xs \<Longrightarrow> list_all json_ok xs"
  by (cases v) auto

lemma json_ok_arrays:
  assumes "\<And>v. cur = Some v \<Longrightarrow> json_ok v" "\<And>v. els = Some v \<Longrightarrow> json_ok v"
  shows "json_ok (array_union jtext cur els)" "json_ok (array_remove jtext cur els)"
proof -
  have "list_all json_ok (unwrap_or [] (Option.bind cur as_array))"
    "list_all json_ok (unwrap_or [] (Option.bind els as_array))"
    using assms by (auto simp: unwrap_or_def split: option.split Option.bind_splits dest: json_ok_as_array)
  then show "json_ok (array_union jtext cur els)" "json_ok (array_remove jtext cur els)"
    by (auto simp: array_union_def array_remove_def Let_def list_all_iff)
qed

lemma json_ok_increment: "json_ok (increment cur n)"
  by (auto simp: increment_def json_of_f64_def i64_of_f64_def Let_def)

lemma json_ok_entries: "json_ok v \<Longrightarrow> dget (entries v) k = Some w \<Longrightarrow> json_ok w"
  by (cases v) (auto simp: entries_def intro: json_ok_get simp del: json_ok.simps)

lemma json_ok_update_value:
  assumes "\<And>c. cur = Some c \<Longrightarrow> json_ok c" "json_ok v" "update_value jtext ts cur v = Some w"
  shows "json_ok w"
proof -
  have e: "\<And>x. dget (entries v) k = Some x \<Longrightarrow> json_ok x" for k
    using json_ok_entries [OF assms(2)] .
  note ar = json_ok_arrays [where jtext = jtext and cur = cur and els = "dget (entries v) ''elements''", OF assms(1) e]
  show ?thesis
    using assms(2,3) ar json_ok_increment json_ok_resolve [of v ts]
    by (auto simp: update_value_def Let_def split: if_splits)
qed

lemma path_parts_ne [simp]: "path_parts p \<noteq> []"
  by simp

lemma json_ok_get_parts: "json_ok r \<Longrightarrow> get_parts r ps = Some v \<Longrightarrow> json_ok v"
proof (induction ps arbitrary: r)
  case (Cons p ps)
  then show ?case
    by (cases r) (auto simp: jget_def split: option.splits intro: json_ok_get simp del: json_ok.simps)
qed simp

lemma apply_one_upd:
  "apply_one jtext ts r (path, v) = upd r (path_parts path) (update_value jtext ts (get_path r path) v)"
  by (simp add: apply_one_def upd_def set_path_def delete_path_def split: option.split)

definition obj_ok :: "json \<Rightarrow> bool" where
  "obj_ok r \<longleftrightarrow> is_object r \<and> json_ok r"

lemma obj_ok_upd:
  assumes "obj_ok r" "\<And>v. x = Some v \<Longrightarrow> json_ok v" "ps \<noteq> []"
  shows "obj_ok (upd r ps x)"
proof -
  obtain m where r: "r = JObj m" "json_ok (JObj m)" using assms(1) by (auto simp: obj_ok_def)
  obtain p qs where ps: "ps = p # qs" using assms(3) by (cases ps) auto
  have "json_ok (upd r ps x)" unfolding r(1) ps by (rule json_ok_upd [OF r(2) assms(2)])
  moreover have "is_object (upd r ps x)" using r by (simp add: ps upd_obj)
  ultimately show ?thesis by (simp add: obj_ok_def)
qed

lemma obj_ok_apply_one:
  assumes "obj_ok r" "json_ok (snd u)"
  shows "obj_ok (apply_one jtext ts r u)"
proof (cases u)
  case (Pair path v)
  have "json_ok w" if "update_value jtext ts (get_path r path) v = Some w" for w
    using assms that Pair json_ok_get_parts [of r "path_parts path"]
    by (intro json_ok_update_value [OF _ _ that]) (auto simp: obj_ok_def get_path_def)
  then show ?thesis unfolding Pair apply_one_upd using assms(1) by (intro obj_ok_upd) auto
qed

definition indep_paths :: "string \<Rightarrow> string \<Rightarrow> bool" where
  "indep_paths p q \<longleftrightarrow> indep (path_parts p) (path_parts q)"

lemma get_apply_one:
  assumes "obj_ok r"
  shows "get_path (apply_one jtext ts r (p, v)) p = update_value jtext ts (get_path r p) v"
    and "indep_paths p q \<Longrightarrow> get_path (apply_one jtext ts r (p, v)) q = get_path r q"
proof -
  obtain m where r: "r = JObj m" "json_ok (JObj m)" using assms by (auto simp: obj_ok_def)
  show "get_path (apply_one jtext ts r (p, v)) p = update_value jtext ts (get_path r p) v"
    unfolding apply_one_upd unfolding get_path_def r(1) by (rule get_upd_same [OF r(2)]) simp
  show "indep_paths p q \<Longrightarrow> get_path (apply_one jtext ts r (p, v)) q = get_path r q"
    unfolding apply_one_upd unfolding get_path_def r(1) indep_paths_def by (rule get_upd_indep [OF r(2)])
qed

lemma apply_one_commute:
  assumes "obj_ok r" "indep_paths (fst u) (fst w)"
  shows "apply_one jtext ts (apply_one jtext ts r u) w = apply_one jtext ts (apply_one jtext ts r w) u"
proof -
  obtain p v where u: "u = (p, v)" by fastforce
  obtain q x where w: "w = (q, x)" by fastforce
  have i: "indep_paths p q" "indep_paths q p" using assms(2) u w by (auto simp: indep_paths_def indep_def)
  obtain m where r: "r = JObj m" "json_ok (JObj m)" using assms by (auto simp: obj_ok_def)
  show ?thesis
    unfolding u w apply_one_upd [of _ _ "apply_one jtext ts r _"] get_apply_one(2) [OF assms(1) i(1)]
      get_apply_one(2) [OF assms(1) i(2)]
    unfolding apply_one_upd unfolding r(1)
    using upd_commute [OF r(2)] i(1) by (simp add: indep_paths_def)
qed

text \<open>Entries of a map whose paths do not overlap: they may be applied in any order.\<close>

definition separate :: "(string \<times> json) list \<Rightarrow> bool" where
  "separate us \<longleftrightarrow> (\<forall>u \<in> set us. json_ok (snd u) \<and> (\<forall>w \<in> set us. u = w \<or> indep_paths (fst u) (fst w)))"

lemma foldl_apply_perm:
  assumes "separate us" "mset us = mset ws" "obj_ok r"
  shows "foldl (apply_one jtext ts) r us = foldl (apply_one jtext ts) r ws"
proof -
  define g where "g u r = (if obj_ok r \<and> json_ok (snd u) then apply_one jtext ts r u else r)" for u r
  have g: "foldl (apply_one jtext ts) r xs = fold g xs r" if "\<forall>u \<in> set xs. json_ok (snd u)" "obj_ok r" for xs r
    using that by (induction xs arbitrary: r) (auto simp: g_def obj_ok_apply_one)
  have "g u \<circ> g w = g w \<circ> g u" if "u \<in> set us" "w \<in> set us" for u w
  proof
    fix r
    show "(g u \<circ> g w) r = (g w \<circ> g u) r"
    proof (cases "u = w")
      case False
      then have "indep_paths (fst u) (fst w)" using assms(1) that by (auto simp: separate_def)
      then show ?thesis using apply_one_commute [of r u w jtext ts] by (auto simp: g_def obj_ok_apply_one)
    qed simp
  qed
  then have "fold g us = fold g ws" using assms(2) by (rule fold_multiset_equiv)
  moreover have "set us = set ws" using assms(2) by (metis set_mset_mset)
  ultimately show ?thesis using assms(1,3) g [of us r] g [of ws r] by (auto simp: separate_def)
qed

lemma foldl_apply_get:
  assumes "separate us" "distinct us" "obj_ok r"
  shows "(p, v) \<in> set us \<Longrightarrow> get_path (foldl (apply_one jtext ts) r us) p = update_value jtext ts (get_path r p) v"
    and "(\<And>u. u \<in> set us \<Longrightarrow> indep_paths (fst u) q) \<Longrightarrow> get_path (foldl (apply_one jtext ts) r us) q = get_path r q"
proof -
  have frame: "get_path (foldl (apply_one jtext ts) r xs) q = get_path r q"
    if "obj_ok r" "\<forall>u \<in> set xs. json_ok (snd u) \<and> indep_paths (fst u) q" for r xs q
    using that by (induction xs arbitrary: r) (auto simp: obj_ok_apply_one get_apply_one(2))
  show "(\<And>u. u \<in> set us \<Longrightarrow> indep_paths (fst u) q) \<Longrightarrow> get_path (foldl (apply_one jtext ts) r us) q = get_path r q"
    using assms by (intro frame) (auto simp: separate_def)
  assume "(p, v) \<in> set us"
  then obtain xs where xs: "mset us = mset ((p, v) # xs)"
    by (metis ex_mset set_mset_mset in_set_conv_decomp mset.simps(2) mset_append union_mset_add_mset_right)
  have d: "(p, v) \<notin> set xs" using xs assms(2) by (metis distinct.simps(2) mset_eq_imp_distinct_iff)
  have in_us: "set us = insert (p, v) (set xs)" using xs by (metis set_mset_mset list.simps(15))
  have "obj_ok (apply_one jtext ts r (p, v))"
    using assms in_us by (intro obj_ok_apply_one) (auto simp: separate_def)
  moreover have "\<forall>u \<in> set xs. json_ok (snd u) \<and> indep_paths (fst u) p"
    using assms(1) in_us d by (force simp: separate_def)
  ultimately have "get_path (foldl (apply_one jtext ts) (apply_one jtext ts r (p, v)) xs) p
      = get_path (apply_one jtext ts r (p, v)) p" by (rule frame)
  then show "get_path (foldl (apply_one jtext ts) r us) p = update_value jtext ts (get_path r p) v"
    using foldl_apply_perm [OF assms(1) xs assms(3)] get_apply_one(1) [OF assms(3)] by simp
qed

lemma apply_update_JObj:
  assumes "obj_ok (JObj base)" "\<forall>u \<in> set us. json_ok (snd u)"
  shows "JObj (apply_update jtext ts base us) = foldl (apply_one jtext ts) (JObj base) us"
proof -
  have "obj_ok (foldl (apply_one jtext ts) r us)" if "obj_ok r" for r
    using that assms(2) by (induction us arbitrary: r) (auto simp: obj_ok_apply_one)
  from this [OF assms(1)] show ?thesis by (auto simp: apply_update_def obj_ok_def entries_def)
qed

lemma increment_ints:
  "increment (Some (jint c)) (Some (jint n)) =
     (if f64_integral (f64_of_int n) \<and> f64_integral (f64_of_int c)
      then jint (i64_of_f64 (f64_add (f64_of_int c) (f64_of_int n)))
      else json_of_f64 (f64_add (f64_of_int c) (f64_of_int n)))"
  by (simp add: increment_def Let_def)

section \<open>Properties\<close>

text \<open>
  The create path's shortcut for bodies without sentinels is invisible: resolving is in every
  case the recursive resolution of each field.
\<close>

theorem resolve_for_create_is_deep: "resolve_for_create ts data = dfilter_map (resolve_deep ts) data"
  by (rule resolve_for_create_eq)

text \<open>
  Merging an update whose paths do not overlap: the result does not depend on the order in
  which the map of updates is traversed; at each updated path it holds what that entry computes
  from the old value there (or nothing for a removed field); every path that overlaps none of
  them reads as before.
\<close>

theorem apply_update_separate:
  assumes "json_ok (JObj base)" "separate us" "distinct us"
  shows "(\<forall>ws. mset ws = mset us \<longrightarrow> apply_update jtext ts base ws = apply_update jtext ts base us)
    \<and> (\<forall>p v. (p, v) \<in> set us \<longrightarrow> get_path (JObj (apply_update jtext ts base us)) p
           = update_value jtext ts (get_path (JObj base) p) v)
    \<and> (\<forall>q. (\<forall>u \<in> set us. indep_paths (fst u) q) \<longrightarrow>
           get_path (JObj (apply_update jtext ts base us)) q = get_path (JObj base) q)"
proof -
  have ok: "obj_ok (JObj base)" using assms(1) by (simp add: obj_ok_def)
  have vals: "\<forall>u \<in> set us. json_ok (snd u)" using assms(2) by (simp add: separate_def)
  note e = apply_update_JObj [OF ok vals] and get = foldl_apply_get [OF assms(2,3) ok]
  show ?thesis
  proof (intro conjI allI impI)
    fix ws
    assume m: "mset ws = mset us"
    have "foldl (apply_one jtext ts) (JObj base) us = foldl (apply_one jtext ts) (JObj base) ws"
      by (rule foldl_apply_perm [OF assms(2) m [symmetric] ok])
    then show "apply_update jtext ts base ws = apply_update jtext ts base us"
      by (simp only: apply_update_def)
  next
    fix p v
    assume "(p, v) \<in> set us"
    then show "get_path (JObj (apply_update jtext ts base us)) p = update_value jtext ts (get_path (JObj base) p) v"
      unfolding e by (rule get(1))
  next
    fix q
    assume "\<forall>u \<in> set us. indep_paths (fst u) q"
    then show "get_path (JObj (apply_update jtext ts base us)) q = get_path (JObj base) q"
      unfolding e by (intro get(2)) blast
  qed
qed

definition two_updates :: "(string \<times> json) list" where
  "two_updates = [(''a.b'', jint 1), (''c'', JStr ''x'')]"

lemma apply_update_separate_witness:
  "get_path (JObj (apply_update (\<lambda>_. []) ''now'' [] two_updates)) ''a.b'' = Some (jint 1)"
proof -
  have "separate two_updates" by (simp add: separate_def two_updates_def indep_paths_def indep_def)
  then have "get_path (JObj (apply_update (\<lambda>_. []) ''now'' [] two_updates)) ''a.b''
      = update_value (\<lambda>_. []) ''now'' (get_path (JObj []) ''a.b'') (jint 1)"
    by (intro apply_update_separate [THEN conjunct2, THEN conjunct1, rule_format])
      (simp_all add: two_updates_def)
  then show ?thesis by (simp add: update_value_def is_sentinel_def op_of_def jget_def)
qed

text \<open>
  With overlapping paths the merge does depend on the traversal order of the \<open>HashMap\<close>: the
  same update stores the inner field or loses it.
\<close>

lemma apply_update_order_matters:
  "\<exists>us ws. mset us = mset ws \<and> distinct (map fst us)
     \<and> apply_update jtext ts [] us \<noteq> apply_update jtext ts [] ws"
proof (intro exI conjI)
  let ?us = "[(''a'', JObj []), (''a.b'', jint 1)]"
  show "mset ?us = mset (rev ?us)" by simp
  show "distinct (map fst ?us)" by simp
  show "apply_update jtext ts [] ?us \<noteq> apply_update jtext ts [] (rev ?us)"
    by (simp add: apply_update_def apply_one_def update_value_def is_sentinel_def op_of_def jget_def
        set_path_def get_path_def entries_def)
qed

text \<open>
  An integer increment is exact as long as both operands and the sum stay within 53 bits.
\<close>

lemma increment_exact:
  assumes "\<bar>c\<bar> \<le> 2 ^ 53" "\<bar>n\<bar> \<le> 2 ^ 53" "\<bar>c + n\<bar> \<le> 2 ^ 53"
  shows "increment (Some (jint c)) (Some (jint n)) = jint (c + n)"
proof -
  have "f64_add (f64_of_int c) (f64_of_int n) = of_int (c + n)"
    using f64_of_int_exact [OF assms(3)] f64_of_int_exact [OF assms(1)] f64_of_int_exact [OF assms(2)]
    by (simp add: f64_add_def f64_of_int_def)
  moreover have "- (2 ^ 63) \<le> c + n" "c + n < 2 ^ 63" using assms(3) by auto
  ultimately show ?thesis
    unfolding increment_ints using f64_of_int_exact [OF assms(1)] f64_of_int_exact [OF assms(2)]
    by (simp del: of_int_add)
qed

lemma increment_exact_witness: "increment (Some (jint 40)) (Some (jint 2)) = jint 42"
  using increment_exact [of 40 2] by simp

text \<open>
  Beyond that the counter stops: a stored \<open>2^53\<close> stays \<open>2^53\<close> when it is incremented by one.
\<close>

lemma increment_stuck: "increment (Some (jint (2 ^ 53))) (Some (jint 1)) = jint (2 ^ 53)"
proof -
  have fl: "flog2 9007199254740993 = 53" by (rule flog2_unique) (simp_all add: pow2_def)
  have "\<lfloor>9007199254740993 / 2 :: rat\<rfloor> = 4503599627370496" by (simp add: floor_eq_iff)
  then have "rne (9007199254740993 / 2) = 4503599627370496" by (simp add: rne_def Let_def)
  then have "f64_round 9007199254740993 = 9007199254740992"
    by (simp add: f64_round_pos f64_ulp_exp_def fl pow2_def)
  moreover have "f64_of_int (2 ^ 53) = of_int (2 ^ 53)" "f64_of_int 1 = of_int 1"
    by (rule f64_of_int_exact; simp)+
  ultimately show ?thesis unfolding increment_ints by (simp add: f64_add_def f64_integral_def i64_of_f64_def)
qed

text \<open>
  \<open>arrayUnion\<close> compares the new elements with the stored array only, so repetitions among the
  new elements are stored.
\<close>

lemma array_union_keeps_duplicates:
  "array_union jtext None (Some (JArr [v, v])) = JArr [v, v]"
  by (simp add: array_union_def)

end
