(* ===== verification/Policy.thy ===== *)
theory Policy
  imports Core "HOL-Library.Multiset" "HOL-Library.Product_Lexorder"
begin

text \<open>
  The policy file (crates/hakobackend-policy/src/lib.rs): rules and how they are parsed, the
  resolution of a collection to its rules, and the decisions taken on a request. Reading the file
  and the TOML syntax are not modelled; the parsed file is a value.
\<close>

section \<open>Rules\<close>

datatype field_cond = EqAuth string string | EqLit string json | IntRange string int int

datatype rule = Public | Auth | Deny
  | Claim string "string list" "string list"
  | UidSelf "string list"
  | Fields "field_cond list" "string list"

text \<open>The \<open>!field\<close> tail both rule bodies share.\<close>

definition parse_strip :: "string list \<Rightarrow> string list option" where
  "parse_strip parts = (case collect_opt (map (strip_prefix ''!'') parts) of
     None \<Rightarrow> None
   | Some strip \<Rightarrow> if [] \<in> set strip then None else Some strip)"

definition parse_claim :: "string \<Rightarrow> rule option" where
  "parse_claim body = (case split_ws body of
     [] \<Rightarrow> None
   | h # parts \<Rightarrow> (case parse_strip parts of
       None \<Rightarrow> None
     | Some strip \<Rightarrow>
         if h = ''uid=self'' then Some (UidSelf strip)
         else (case split_once (CHR ''='') h of
             None \<Rightarrow> None
           | Some (field, csv) \<Rightarrow>
               if field = [] \<or> field = ''uid'' then None
               else (let values = filter (\<lambda>v. v \<noteq> []) (split_on (CHR '','') csv) in
                 if values = [] \<or> list_ex (starts_with ''!'') values then None
                 else Some (Claim field values strip)))))"

definition parse_lit :: "string \<Rightarrow> json" where
  "parse_lit raw = (case parse_i64 raw of
     Some i \<Rightarrow> jint i
   | None \<Rightarrow> (case parse_f64 raw of
       Some f \<Rightarrow> JNum (NFloat f)
     | None \<Rightarrow>
         if raw = ''true'' then JBool True
         else if raw = ''false'' then JBool False
         else if raw = ''null'' then JNull
         else JStr raw))"

definition parse_cond :: "string \<Rightarrow> field_cond option" where
  "parse_cond item = (case split_once (CHR ''='') item of
     None \<Rightarrow> None
   | Some (field, rhs) \<Rightarrow>
       if field = [] then None
       else (case strip_prefix ''auth.'' rhs of
           Some attr \<Rightarrow> if attr = [] then None else Some (EqAuth field attr)
         | None \<Rightarrow> (case strip_prefix ''int:'' rhs of
             Some rest \<Rightarrow> (case split_once_str ''..'' rest of
                 None \<Rightarrow> None
               | Some (lo, hi) \<Rightarrow> (case (parse_i64 lo, parse_i64 hi) of
                   (Some a, Some b) \<Rightarrow> if a > b then None else Some (IntRange field a b)
                 | _ \<Rightarrow> None))
           | None \<Rightarrow> Some (EqLit field (parse_lit rhs)))))"

definition parse_fields :: "string \<Rightarrow> rule option" where
  "parse_fields body = (case split_ws body of
     [] \<Rightarrow> None
   | h # parts \<Rightarrow> (case parse_strip parts of
       None \<Rightarrow> None
     | Some strip \<Rightarrow> (case collect_opt (map parse_cond (split_on (CHR '','') h)) of
         None \<Rightarrow> None
       | Some conds \<Rightarrow> if conds = [] then None else Some (Fields conds strip))))"

text \<open>\<open>From<String>\<close>: whatever is not a rule denies.\<close>

definition rule_from :: "string \<Rightarrow> rule" where
  "rule_from s =
     (if s = ''public'' then Public
      else if s = ''auth'' then Auth
      else case Option.bind (strip_prefix ''claim:'' s) parse_claim of
          Some r \<Rightarrow> r
        | None \<Rightarrow> (case Option.bind (strip_prefix ''fields:'' s) parse_fields of
            Some r \<Rightarrow> r
          | None \<Rightarrow> Deny))"

definition rule_deserialize :: "string \<Rightarrow> (string, rule) result" where
  "rule_deserialize s =
     (if s = ''owner'' \<or> starts_with ''role:'' s then
        Inl (''rule '' @ [CHR 39] @ s @ [CHR 39] @ '' removed: single-user backend has public|auth|deny|claim: only'')
      else if (case strip_prefix ''claim:'' s of Some b \<Rightarrow> parse_claim b = None | None \<Rightarrow> False) then
        Inl (''malformed claim rule '' @ [CHR 39] @ s @ [CHR 39])
      else if (case strip_prefix ''fields:'' s of Some b \<Rightarrow> parse_fields b = None | None \<Rightarrow> False) then
        Inl (''malformed fields rule '' @ [CHR 39] @ s @ [CHR 39])
      else Inr (rule_from s))"

section \<open>The policy file\<close>

record identity =
  users_collection :: string
  attrs :: "string list"

record defaults =
  def_read :: rule
  def_write :: rule

record collection_policy =
  p_get :: "rule option"
  p_list :: "rule option"
  p_create :: "rule option"
  p_update :: "rule option"
  p_delete :: "rule option"
  p_read :: "rule option"
  p_write :: "rule option"

definition empty_policy :: collection_policy where
  "empty_policy = \<lparr>p_get = None, p_list = None, p_create = None, p_update = None, p_delete = None,
     p_read = None, p_write = None\<rparr>"

definition slot :: "collection_policy \<Rightarrow> http_method \<Rightarrow> defaults \<Rightarrow> rule" where
  "slot p m d =
     (case (case m of Get \<Rightarrow> p_get p | ListM \<Rightarrow> p_list p | Create \<Rightarrow> p_create p | Update \<Rightarrow> p_update p
            | Delete \<Rightarrow> p_delete p) of
        Some r \<Rightarrow> r
      | None \<Rightarrow>
          (if m = Get \<or> m = ListM then unwrap_or (def_read d) (p_read p) else unwrap_or (def_write d) (p_write p)))"

text \<open>\<open>p_collections\<close> lists the \<open>HashMap\<close> in the order it is traversed.\<close>

record policy_file =
  p_identity :: identity
  p_defaults :: defaults
  p_collections :: "(string \<times> collection_policy) list"
  p_skip_read :: bool

definition policy_open :: policy_file where
  "policy_open = \<lparr>p_identity = \<lparr>users_collection = ''users'', attrs = []\<rparr>,
     p_defaults = \<lparr>def_read = Public, def_write = Public\<rparr>, p_collections = [], p_skip_read = False\<rparr>"

definition svc_scope_hit :: "(string, json) dict \<Rightarrow> string \<Rightarrow> http_method \<Rightarrow> bool" where
  "svc_scope_hit ex coll m =
     (let class = (if m = Get \<or> m = ListM then ''read'' else ''write'') in
      case Option.bind (dget ex SVC_SCOPE) as_array of
        None \<Rightarrow> False
      | Some scopes \<Rightarrow> list_ex (\<lambda>s. case split_once (CHR '':'') s of
            None \<Rightarrow> False
          | Some (c, op) \<Rightarrow> op = class \<and> c = coll) (filter_map as_str scopes))"

definition pattern_matches :: "string \<Rightarrow> string list \<Rightarrow> bool" where
  "pattern_matches pattern segs =
     (let parts = split_on (CHR ''/'') pattern in
      CHR ''*'' \<in> set pattern \<and> length parts = length segs
      \<and> list_all (\<lambda>(pat, seg). pat = ''*'' \<or> pat = seg) (zip parts segs))"

definition wilds :: "string \<Rightarrow> nat" where
  "wilds pattern = length (filter (\<lambda>p. p = ''*'') (split_on (CHR ''/'') pattern))"

definition better :: "string list \<Rightarrow> (nat \<times> string \<times> collection_policy) option \<Rightarrow> string \<times> collection_policy \<Rightarrow>
    (nat \<times> string \<times> collection_policy) option" where
  "better segs best e = (case e of (pattern, policy) \<Rightarrow>
     (if \<not> pattern_matches pattern segs then best
      else if (case best of None \<Rightarrow> True | Some (w, p, _) \<Rightarrow> (wilds pattern, pattern) < (w, p))
      then Some (wilds pattern, pattern, policy)
      else best))"

definition policy_find :: "policy_file \<Rightarrow> string \<Rightarrow> collection_policy option" where
  "policy_find f coll = (case map_of (p_collections f) coll of
     Some p \<Rightarrow> Some p
   | None \<Rightarrow>
       (let segs = split_on (CHR ''/'') coll in
        case foldl (better segs) None (p_collections f) of
          Some (_, _, p) \<Rightarrow> Some p
        | None \<Rightarrow> if CHR ''/'' \<in> set coll then map_of (p_collections f) (hd segs) else None))"

definition governing :: "policy_file \<Rightarrow> string \<Rightarrow> http_method \<Rightarrow> rule" where
  "governing f coll m = slot (unwrap_or empty_policy (policy_find f coll)) m (p_defaults f)"

section \<open>Decisions\<close>

definition eval_rule :: "rule \<Rightarrow> auth_context option \<Rightarrow> doc option \<Rightarrow> bool" where
  "eval_rule r auth resource = (case r of
     Public \<Rightarrow> True
   | Deny \<Rightarrow> False
   | Auth \<Rightarrow> auth \<noteq> None
   | Claim field values _ \<Rightarrow> (case Option.bind auth (\<lambda>a. dget (extra a) field) of
       Some (JStr s) \<Rightarrow> List.member values s
     | Some (JArr a) \<Rightarrow> list_ex (List.member values) (filter_map as_str a)
     | _ \<Rightarrow> False)
   | UidSelf _ \<Rightarrow> (case (auth, resource) of
       (Some a, Some d) \<Rightarrow> d_id d \<noteq> [] \<and>
         (d_id d = uid a \<or> (case split_once (CHR '':'') (uid a) of
             None \<Rightarrow> False
           | Some (_, raw) \<Rightarrow> raw \<noteq> [] \<and> d_id d = raw))
     | _ \<Rightarrow> False)
   | Fields _ _ \<Rightarrow> True)"

definition eval_cond :: "auth_context option \<Rightarrow> (string, json) dict \<Rightarrow> field_cond \<Rightarrow> bool" where
  "eval_cond auth data c = (case c of
     EqAuth field attr \<Rightarrow> (case (dget data field, Option.bind auth (\<lambda>a. dget (extra a) attr)) of
         (Some v, Some w) \<Rightarrow> v = w
       | _ \<Rightarrow> False)
   | EqLit field v \<Rightarrow> dget data field = Some v
   | IntRange field lo hi \<Rightarrow> (case Option.bind (dget data field) as_i64 of
         None \<Rightarrow> False
       | Some n \<Rightarrow> lo \<le> n \<and> n \<le> hi))"

definition eval_conds :: "field_cond list \<Rightarrow> auth_context option \<Rightarrow> (string, json) dict \<Rightarrow> bool" where
  "eval_conds conds auth data = list_all (eval_cond auth data) conds"

definition policy_allow :: "policy_file \<Rightarrow> auth_context option \<Rightarrow> string \<Rightarrow> http_method \<Rightarrow> doc option \<Rightarrow> bool" where
  "policy_allow f auth coll m resource =
     (if (case auth of None \<Rightarrow> False
          | Some a \<Rightarrow> starts_with SVC_UID_PREFIX (uid a) \<and> svc_scope_hit (extra a) coll m) then True
      else eval_rule (governing f coll m) auth resource)"

definition strip_fields :: "policy_file \<Rightarrow> string \<Rightarrow> http_method \<Rightarrow> string list" where
  "strip_fields f coll m = (case governing f coll m of
     Claim _ _ strip \<Rightarrow> strip
   | UidSelf strip \<Rightarrow> strip
   | Fields _ strip \<Rightarrow> strip
   | _ \<Rightarrow> [])"

definition allow_fields :: "policy_file \<Rightarrow> auth_context option \<Rightarrow> string \<Rightarrow> http_method \<Rightarrow> (string, json) dict \<Rightarrow> bool" where
  "allow_fields f auth coll m data = (case governing f coll m of
     Fields conds _ \<Rightarrow> eval_conds conds auth data
   | _ \<Rightarrow> True)"

definition needs_existing :: "policy_file \<Rightarrow> string \<Rightarrow> http_method \<Rightarrow> bool" where
  "needs_existing f coll m = False"

section \<open>Wildcards\<close>

text \<open>The patterns that apply, and what the loop keeps: the least of them.\<close>

definition rank :: "string \<Rightarrow> nat \<times> string" where
  "rank p = (wilds p, p)"

lemma rank_less: "(wilds p, p) < (wilds q, q) \<longleftrightarrow> rank p < rank q"
  by (simp add: rank_def)

lemma rank_inj: "rank p \<le> rank q \<Longrightarrow> rank q \<le> rank p \<Longrightarrow> p = q"
  using order_antisym [of "rank p" "rank q"] by (simp add: rank_def)

definition least_match :: "string list \<Rightarrow> (string \<times> collection_policy) list \<Rightarrow> (nat \<times> string \<times> collection_policy) option \<Rightarrow> bool" where
  "least_match segs es r = (case r of
     None \<Rightarrow> \<forall>e \<in> set es. \<not> pattern_matches (fst e) segs
   | Some (w, p, pol) \<Rightarrow> (p, pol) \<in> set es \<and> w = wilds p \<and> pattern_matches p segs
       \<and> (\<forall>e \<in> set es. pattern_matches (fst e) segs \<longrightarrow> rank p \<le> rank (fst e)))"

lemma better_least:
  assumes "least_match segs es b"
  shows "least_match segs (es @ [e]) (better segs b e)"
proof -
  obtain p pol where e: "e = (p, pol)" by fastforce
  show ?thesis
  proof (cases b)
    case None
    with assms show ?thesis by (auto simp: least_match_def better_def e)
  next
    case (Some t)
    obtain w q r where t: "t = (w, q, r)" by (cases t)
    with assms Some have b: "(q, r) \<in> set es" "w = wilds q" "pattern_matches q segs"
      "\<And>x. x \<in> set es \<Longrightarrow> pattern_matches (fst x) segs \<Longrightarrow> rank q \<le> rank (fst x)"
      by (auto simp: least_match_def)
    show ?thesis
    proof (cases "pattern_matches p segs \<and> rank p < rank q")
      case True
      then have "better segs b e = Some (wilds p, p, pol)" using Some t b by (simp add: better_def e rank_less del: less_prod_simp)
      moreover have "rank p \<le> rank (fst x)" if "x \<in> set es" "pattern_matches (fst x) segs" for x
        using b(4) [OF that] True by (meson less_imp_le order_trans)
      ultimately show ?thesis using True by (auto simp: least_match_def e)
    next
      case False
      then have "better segs b e = b" using Some t b
        by (auto simp add: better_def e rank_less simp del: less_prod_simp)
      then show ?thesis using False b Some t by (auto simp: least_match_def e not_less)
    qed
  qed
qed

lemma foldl_better: "least_match segs es (foldl (better segs) None es)"
proof (induction es rule: rev_induct)
  case Nil
  show ?case by (simp add: least_match_def)
next
  case (snoc e es)
  then show ?case by (simp add: better_least)
qed

lemma least_match_unique:
  assumes "least_match segs es r" "least_match segs es' r'" "set es = set es'" "distinct (map fst es)"
  shows "r = r'"
proof (cases r)
  case None
  then show ?thesis using assms by (cases r') (auto simp: least_match_def)
next
  case (Some b)
  obtain w p pol where b: "b = (w, p, pol)" by (cases b)
  then have p: "(p, pol) \<in> set es" "w = wilds p" "pattern_matches p segs" using assms(1) Some by (auto simp: least_match_def)
  obtain w' p' pol' where r': "r' = Some (w', p', pol')"
    using assms(2,3) p by (cases r') (auto simp: least_match_def)
  then have "rank p \<le> rank p'" "rank p' \<le> rank p"
    using assms(1-3) Some b p by (force simp: least_match_def)+
  then have "p = p'" by (rule rank_inj)
  moreover have "(p', pol') \<in> set es" using assms(2,3) r' by (simp add: least_match_def)
  ultimately have "pol = pol'" using p(1) assms(4) by (metis eq_key_imp_eq_value)
  then show ?thesis using Some b r' p(2) \<open>p = p'\<close> assms(2) by (simp add: least_match_def)
qed

lemma policy_find_cong:
  assumes "mset (p_collections f) = mset (p_collections g)" "distinct (map fst (p_collections f))"
  shows "policy_find f coll = policy_find g coll"
proof -
  let ?segs = "split_on (CHR ''/'') coll"
  have s: "set (p_collections f) = set (p_collections g)" using assms(1) by (metis set_mset_mset)
  have "distinct (map fst (p_collections g))"
    using assms by (metis mset_eq_imp_distinct_iff mset_map)
  then have "map_of (p_collections f) = map_of (p_collections g)"
    using assms(2) s by (intro map_of_inject_set [THEN iffD2]) auto
  moreover have "foldl (better ?segs) None (p_collections f) = foldl (better ?segs) None (p_collections g)"
    by (rule least_match_unique [OF foldl_better foldl_better s assms(2)])
  ultimately show ?thesis unfolding policy_find_def Let_def by (simp only:)
qed

lemma policy_open_allows: "policy_allow policy_open auth c Get r"
  by (simp add: policy_allow_def governing_def policy_open_def policy_find_def slot_def empty_policy_def eval_rule_def)

section \<open>Properties\<close>

text \<open>
  The rules that govern a collection do not depend on the order in which the \<open>HashMap\<close> of
  patterns is traversed, although the loop over it keeps a running best.
\<close>

theorem policy_order_independent:
  assumes "mset (p_collections f) = mset (p_collections g)" "distinct (map fst (p_collections f))"
    and "p_defaults f = p_defaults g"
  shows "policy_allow f auth coll m d = policy_allow g auth coll m d
    \<and> strip_fields f coll m = strip_fields g coll m
    \<and> allow_fields f auth coll m data = allow_fields g auth coll m data"
  using policy_find_cong [OF assms(1,2)] assms(3)
  by (simp add: policy_allow_def strip_fields_def allow_fields_def governing_def)

definition deny_all :: collection_policy where
  "deny_all = empty_policy\<lparr>p_read := Some Deny, p_write := Some Deny\<rparr>"

definition demo_policy :: policy_file where
  "demo_policy = policy_open\<lparr>p_collections := [(''a/*'', deny_all), (''*/b'', empty_policy)]\<rparr>"

lemma policy_order_independent_witness:
  "policy_allow demo_policy None ''a/b'' Get None
     = policy_allow (demo_policy\<lparr>p_collections := rev (p_collections demo_policy)\<rparr>) None ''a/b'' Get None"
  using policy_order_independent [of demo_policy "demo_policy\<lparr>p_collections := rev (p_collections demo_policy)\<rparr>"]
  by (simp add: demo_policy_def)

text \<open>
  Resolution: the exact entry wins; without one, the entry of a matching wildcard pattern with
  the fewest wildcards (of several, the least pattern); without one, the entry of the first
  segment of a path with several; otherwise none.
\<close>

theorem policy_find_precedence:
  assumes "distinct (map fst (p_collections f))"
  shows "case policy_find f coll of
      None \<Rightarrow> (\<forall>e \<in> set (p_collections f). fst e \<noteq> coll
          \<and> \<not> pattern_matches (fst e) (split_on (CHR ''/'') coll)
          \<and> \<not> (CHR ''/'' \<in> set coll \<and> fst e = hd (split_on (CHR ''/'') coll)))
    | Some p \<Rightarrow> \<exists>k. (k, p) \<in> set (p_collections f) \<and>
        (k = coll
         \<or> map_of (p_collections f) coll = None \<and> pattern_matches k (split_on (CHR ''/'') coll)
            \<and> (\<forall>e \<in> set (p_collections f). pattern_matches (fst e) (split_on (CHR ''/'') coll) \<longrightarrow> rank k \<le> rank (fst e))
         \<or> map_of (p_collections f) coll = None
            \<and> (\<forall>e \<in> set (p_collections f). \<not> pattern_matches (fst e) (split_on (CHR ''/'') coll))
            \<and> CHR ''/'' \<in> set coll \<and> k = hd (split_on (CHR ''/'') coll))"
proof -
  let ?segs = "split_on (CHR ''/'') coll"
  note lm = foldl_better [of ?segs "p_collections f"]
  show ?thesis
  proof (cases "map_of (p_collections f) coll")
    case (Some p)
    then show ?thesis by (auto simp: policy_find_def dest: map_of_SomeD)
  next
    case None
    then have no: "\<forall>e \<in> set (p_collections f). fst e \<noteq> coll" by (auto simp: map_of_eq_None_iff)
    show ?thesis
    proof (cases "foldl (better ?segs) None (p_collections f)")
      case (Some b)
      then show ?thesis using None lm by (cases b) (auto simp: policy_find_def least_match_def)
    next
      case n: None
      then have nm: "\<forall>e \<in> set (p_collections f). \<not> pattern_matches (fst e) ?segs"
        using lm by (simp add: least_match_def)
      show ?thesis
      proof (cases "if CHR ''/'' \<in> set coll then map_of (p_collections f) (hd ?segs) else None")
        case None
        then have "policy_find f coll = None" using \<open>map_of (p_collections f) coll = None\<close> n
          by (simp add: policy_find_def)
        then show ?thesis using no nm None by (force simp: map_of_eq_None_iff split: if_splits)
      next
        case (Some p)
        then have "policy_find f coll = Some p" "CHR ''/'' \<in> set coll"
          using \<open>map_of (p_collections f) coll = None\<close> n by (auto simp: policy_find_def split: if_splits)
        then show ?thesis using Some None nm by (auto dest: map_of_SomeD)
      qed
    qed
  qed
qed

lemma policy_find_precedence_witness: "policy_find demo_policy ''a/b'' = Some empty_policy"
proof -
  have d: "policy_find demo_policy ''a/b'' \<noteq> None" "map_of (p_collections demo_policy) ''a/b'' = None"
    by (simp_all add: demo_policy_def policy_find_def better_def pattern_matches_def wilds_def)
  have "rank ''*/b'' \<le> rank ''a/*''" "\<not> rank ''a/*'' \<le> rank ''*/b''"
    by (simp_all add: rank_def wilds_def less_char_def less_eq_char_def)
  then show ?thesis
    using policy_find_precedence [of demo_policy "''a/b''"] d
    by (auto simp: demo_policy_def pattern_matches_def split: option.splits)
qed

text \<open>
  Parsing fails closed: the only rule texts that let a caller without a token through are
  \<open>public\<close> and a well-formed \<open>fields:\<close> rule, and a \<open>fields:\<close> rule then still has to hold of the
  written data.
\<close>

theorem rule_from_fails_closed:
  "eval_rule (rule_from s) None d \<longleftrightarrow>
     s = ''public'' \<or> (\<exists>body. s = ''fields:'' @ body \<and> parse_fields body \<noteq> None)"
proof -
  have c: "parse_claim b = Some r \<Longrightarrow> \<not> eval_rule r None d" for b r
    by (auto simp: parse_claim_def eval_rule_def Let_def split: list.splits option.splits if_splits)
  have f: "parse_fields b = Some r \<Longrightarrow> eval_rule r None d" for b r
    by (auto simp: parse_fields_def eval_rule_def split: list.splits option.splits if_splits)
  show ?thesis
  proof (cases "Option.bind (strip_prefix ''claim:'' s) parse_claim")
    case (Some r)
    then obtain b where "s = ''claim:'' @ b" "parse_claim b = Some r"
      by (auto simp: bind_eq_Some_conv strip_prefix_Some)
    then show ?thesis using c by (auto simp: rule_from_def eval_rule_def)
  next
    case None
    show ?thesis
    proof (cases "Option.bind (strip_prefix ''fields:'' s) parse_fields")
      case (Some r)
      then show ?thesis using None f
        by (auto simp: rule_from_def bind_eq_Some_conv strip_prefix_Some)
    next
      case n: None
      then have "\<not> (\<exists>body. s = ''fields:'' @ body \<and> parse_fields body \<noteq> None)" by auto
      then show ?thesis using None n by (auto simp: rule_from_def eval_rule_def)
    qed
  qed
qed

text \<open>
  A token never takes access away: what a caller without one may do, every authenticated
  caller may do.
\<close>

theorem allow_monotone:
  assumes "policy_allow f None coll m d"
  shows "policy_allow f (Some a) coll m d"
  using assms by (auto simp: policy_allow_def eval_rule_def split: rule.splits)

lemma allow_monotone_witness: "policy_allow policy_open (Some \<lparr>uid = ''u'', extra = []\<rparr>) ''posts'' Get None"
  by (rule allow_monotone) (simp add: policy_allow_def governing_def policy_find_def policy_open_def
      slot_def empty_policy_def eval_rule_def)

text \<open>
  The gate on written data holds no deletion: under a write rule that demands a field of the
  new data, deleting a document is open to everyone.
\<close>

lemma fields_rule_opens_delete:
  "\<exists>f. p_defaults f = \<lparr>def_read = Deny, def_write = rule_from ''fields:owner=auth.name''\<rparr>
     \<and> (\<forall>coll d. policy_allow f None coll Delete d)
     \<and> (\<forall>coll auth. \<not> allow_fields f auth coll Create [])"
proof -
  let ?f = "policy_open\<lparr>p_defaults := \<lparr>def_read = Deny, def_write = rule_from ''fields:owner=auth.name''\<rparr>\<rparr>"
  have r: "rule_from ''fields:owner=auth.name'' = Fields [EqAuth ''owner'' ''name''] []"
    by (simp add: rule_from_def parse_fields_def parse_cond_def parse_strip_def split_ws_def is_space_def ch_def)
  have "policy_find ?f coll = None" for coll by (simp add: policy_find_def policy_open_def)
  then have g: "governing ?f coll m = Fields [EqAuth ''owner'' ''name''] []" if "m \<noteq> Get" "m \<noteq> ListM" for coll m
    using that by (cases m) (simp_all add: governing_def slot_def empty_policy_def r)
  show ?thesis
    by (rule exI [of _ ?f]) (simp add: policy_allow_def g eval_rule_def allow_fields_def eval_conds_def eval_cond_def)
qed

end
