(* ===== verification/Coalesce.thy ===== *)
theory Coalesce
  imports Atomics Database "HOL-Library.Product_Lexorder"
begin

text \<open>
  Write coalescing (crates/hakobackend-server/src/coalesce.rs): the pending bodies, merging and
  overlaying them, and the flush. Instants are milliseconds on one clock. The mutex makes each
  method one step; the flusher releases it while it writes, which the transition system at the
  end models.
\<close>

section \<open>Definitions\<close>

definition COALESCE_WINDOW :: nat where "COALESCE_WINDOW = 100"
definition MAX_FLUSH_FAILS :: nat where "MAX_FLUSH_FAILS = 10"

type_synonym data = "(string, json) dict"
type_synonym doc_key = "string \<times> string"

record pending =
  pd_body :: data
  pd_first_at :: nat
  pd_fails :: nat

type_synonym coalescer = "(doc_key, pending) dict"

definition co_is_empty :: "coalescer \<Rightarrow> bool" where
  "co_is_empty co \<longleftrightarrow> co = []"

definition co_has :: "coalescer \<Rightarrow> string \<Rightarrow> string \<Rightarrow> bool" where
  "co_has co coll i \<longleftrightarrow> dhas co (coll, i)"

definition co_eligible :: "(json \<Rightarrow> string) \<Rightarrow> json \<Rightarrow> bool" where
  "co_eligible jtext body = (case as_object body of
     None \<Rightarrow> False
   | Some obj \<Rightarrow>
       (if list_ex (\<lambda>k. CHR ''.'' \<in> set k) (dkeys obj) then False
        else \<not> contains_str ''__type__'' (jtext body)))"

definition co_merge :: "nat \<Rightarrow> coalescer \<Rightarrow> string \<Rightarrow> string \<Rightarrow> data \<Rightarrow> bool \<times> coalescer" where
  "co_merge now co coll i body =
     (let e = unwrap_or \<lparr>pd_body = [], pd_first_at = now, pd_fails = 0\<rparr> (dget co (coll, i)) in
      (True, dput (coll, i) (e\<lparr>pd_body := dextend (pd_body e) body\<rparr>) co))"

definition co_overlay :: "coalescer \<Rightarrow> string \<Rightarrow> string \<Rightarrow> data option \<Rightarrow> data option" where
  "co_overlay co coll i stored =
     map_option (\<lambda>p. dextend (unwrap_or [] stored) (pd_body p)) (dget co (coll, i))"

text \<open>What \<open>flush_due\<close> takes out under the lock, and what stays.\<close>

definition co_is_due :: "nat \<Rightarrow> pending \<Rightarrow> bool" where
  "co_is_due now p \<longleftrightarrow> COALESCE_WINDOW \<le> now - pd_first_at p"

type_synonym due_entry = "doc_key \<times> data \<times> nat"

definition co_drain :: "nat \<Rightarrow> coalescer \<Rightarrow> due_entry list \<times> coalescer" where
  "co_drain now co =
     (map (\<lambda>(k, p). (k, pd_body p, pd_fails p)) (filter (\<lambda>(k, p). co_is_due now p) co),
      filter (\<lambda>(k, p). \<not> co_is_due now p) co)"

text \<open>The error branch of the flush: back under newer merges, or requeued while budget remains.\<close>

definition co_requeue :: "nat \<Rightarrow> coalescer \<Rightarrow> due_entry \<Rightarrow> coalescer" where
  "co_requeue now co e = (case e of (key, body, fails) \<Rightarrow>
     (case dget co key of
        Some p \<Rightarrow> dput key (p\<lparr>pd_fails := pd_fails p + 1, pd_body := dextend body (pd_body p)\<rparr>) co
      | None \<Rightarrow> if fails < MAX_FLUSH_FAILS
               then dput key \<lparr>pd_body = body, pd_first_at = now, pd_fails = fails + 1\<rparr> co
               else co))"

text \<open>The write loop when nothing else runs in between; \<open>write\<close> returns whether it stored.\<close>

fun co_flush_loop :: "('s \<Rightarrow> doc_key \<Rightarrow> data \<Rightarrow> bool \<times> 's) \<Rightarrow> nat \<Rightarrow> due_entry list \<Rightarrow> coalescer \<Rightarrow> nat \<Rightarrow> 's \<Rightarrow>
    nat \<times> coalescer \<times> 's" where
  "co_flush_loop write now [] co n s = (n, co, s)"
| "co_flush_loop write now ((key, body, fails) # due) co n s =
     (if body = [] then co_flush_loop write now due co n s
      else case write s key body of
          (True, s') \<Rightarrow> co_flush_loop write now due co (Suc n) s'
        | (False, s') \<Rightarrow> co_flush_loop write now due (co_requeue now co (key, body, fails)) n s')"

definition co_flush_due :: "('s \<Rightarrow> doc_key \<Rightarrow> data \<Rightarrow> bool \<times> 's) \<Rightarrow> nat \<Rightarrow> coalescer \<Rightarrow> 's \<Rightarrow> nat \<times> coalescer \<times> 's" where
  "co_flush_due write now co s = (case co_drain now co of (due, rest) \<Rightarrow> co_flush_loop write now due rest 0 s)"

fun co_flush_all :: "('s \<Rightarrow> doc_key \<Rightarrow> data \<Rightarrow> bool \<times> 's) \<Rightarrow> coalescer \<Rightarrow> nat \<Rightarrow> 's \<Rightarrow> nat \<times> coalescer \<times> 's" where
  "co_flush_all write [] n s = (n, [], s)"
| "co_flush_all write ((key, p) # co) n s =
     (if pd_body p = [] then co_flush_all write co n s
      else case write s key (pd_body p) of
          (True, s') \<Rightarrow> co_flush_all write co (Suc n) s'
        | (False, s') \<Rightarrow> co_flush_all write co n s')"

text \<open>Where a pending key is stored: the database before the dot, if there is one of that name.\<close>

definition flush_target :: "string list \<Rightarrow> string \<Rightarrow> string \<times> string" where
  "flush_target dbs coll = (case split_once (CHR ''.'') coll of
     Some (d, rest) \<Rightarrow> if d \<in> set dbs then (d, rest) else (''default'', coll)
   | None \<Rightarrow> (''default'', coll))"

text \<open>The body the flusher's closure stores with merge.\<close>

definition flush_body :: "string \<Rightarrow> data \<Rightarrow> data" where
  "flush_body ts body = dput ''updatedAt'' (JStr ts) body"

section \<open>Exactness of folding\<close>

text \<open>Bodies the coalescer may take: plain keys, no sentinel.\<close>

definition plain_body :: "data \<Rightarrow> bool" where
  "plain_body b \<longleftrightarrow> dict_ok b \<and> list_all (\<lambda>(k, v). CHR ''.'' \<notin> set k \<and> \<not> has_sentinel v) b"

text \<open>What the gateway stores for a PATCH that is not coalesced.\<close>

definition direct_patch :: "(json \<Rightarrow> string) \<Rightarrow> string \<Rightarrow> data \<Rightarrow> data \<Rightarrow> data" where
  "direct_patch jtext ts base body = stamp_update ts (apply_update jtext ts base body) (dget base ''createdAt'')"

lemma apply_one_plain:
  assumes "CHR ''.'' \<notin> set k" "\<not> has_sentinel v"
  shows "apply_one jtext ts (JObj m) (k, v) = JObj (dput k v m)"
proof -
  have "\<not> is_sentinel v" using assms(2) by (cases v) (auto simp: is_sentinel_def op_of_def jget_def)
  then show ?thesis
    using assms by (simp add: apply_one_def update_value_def set_path_def split_on_no_sep)
qed

lemma apply_update_plain:
  "list_all (\<lambda>(k, v). CHR ''.'' \<notin> set k \<and> \<not> has_sentinel v) b \<Longrightarrow> apply_update jtext ts base b = dextend base b"
proof -
  assume "list_all (\<lambda>(k, v). CHR ''.'' \<notin> set k \<and> \<not> has_sentinel v) b"
  then have "foldl (apply_one jtext ts) (JObj m) b = JObj (dextend m b)" for m
    by (induction b arbitrary: m) (auto simp: apply_one_plain dextend_Cons)
  then show ?thesis by (simp add: apply_update_def entries_def)
qed

lemma direct_patch_plain:
  assumes "dict_ok base" "plain_body b"
  shows "direct_patch jtext ts base b = dextend base (flush_body ts b)"
proof (rule dict_ext)
  have b: "dict_ok b" and a: "apply_update jtext ts base b = dextend base b"
    using assms(2) by (auto simp: plain_body_def apply_update_plain)
  show "dict_ok (direct_patch jtext ts base b)"
    using assms b by (auto simp: direct_patch_def a stamp_update_def or_insert_def split: option.split)
  show "dict_ok (dextend base (flush_body ts b))" using assms by simp
  fix k
  show "dget (direct_patch jtext ts base b) k = dget (dextend base (flush_body ts b)) k"
    using assms(1) b
    by (auto simp: direct_patch_def a stamp_update_def or_insert_def dhas_def flush_body_def
        dget_dextend_dict split: option.splits)
qed

lemma plain_body_ok: "plain_body b \<Longrightarrow> dict_ok b"
  by (simp add: plain_body_def)

lemma fold_patches:
  assumes "dict_ok base" "bs \<noteq> []" "\<forall>b \<in> set bs. plain_body b"
  shows "foldl (direct_patch jtext ts) base bs = dextend base (flush_body ts (foldl dextend [] bs))"
  using assms(2,3)
proof (induction bs rule: rev_induct)
  case (snoc b bs)
  have ok: "dict_ok (foldl dextend [] xs)" for xs :: "data list"
    by (induction xs rule: rev_induct) auto
  have b: "plain_body b" "dict_ok b" using snoc.prems by (auto intro: plain_body_ok)
  show ?case
  proof (cases "bs = []")
    case True
    then show ?thesis using direct_patch_plain [OF assms(1) b(1)] b(2) by (simp add: dextend_empty)
  next
    case False
    let ?c = "foldl dextend [] bs"
    have "foldl (direct_patch jtext ts) base bs = dextend base (flush_body ts ?c)"
      using snoc False by simp
    then have "foldl (direct_patch jtext ts) base (bs @ [b])
        = dextend (dextend base (flush_body ts ?c)) (flush_body ts b)"
      using direct_patch_plain [of "dextend base (flush_body ts ?c)" b jtext ts] assms(1) b(1) by simp
    also have "\<dots> = dextend base (flush_body ts (dextend ?c b))"
      by (rule dict_ext)
        (use assms(1) b(2) ok [of bs] in \<open>auto simp: flush_body_def dget_dextend_dict split: option.splits\<close>)
    finally show ?thesis by simp
  qed
qed simp

lemma merge_many:
  assumes "dict_ok co" "dget co (coll, i) = None" "bs \<noteq> []"
  shows "dget (foldl (\<lambda>co b. snd (co_merge now co coll i b)) co bs) (coll, i)
     = Some \<lparr>pd_body = foldl dextend [] bs, pd_first_at = now, pd_fails = 0\<rparr>"
  using assms(3)
proof (induction bs rule: rev_induct)
  case (snoc b bs)
  then show ?case using assms(2) by (cases "bs = []") (auto simp: co_merge_def Let_def)
qed simp

section \<open>Merging, draining and writing interleaved\<close>

text \<open>
  The stored documents, the pending entries, and the entries the single flusher has taken out and
  not yet written. A label says which body was acknowledged and which entry was given up.
\<close>

record sys =
  sy_store :: "doc_key \<Rightarrow> data option"
  sy_pending :: coalescer
  sy_inflight :: "due_entry list"

datatype label = Merged doc_key data | Internal_step | Dropped doc_key

inductive co_step :: "sys \<Rightarrow> label \<Rightarrow> sys \<Rightarrow> bool" where
  merge: "dict_ok b \<Longrightarrow>
    co_step s (Merged k b) (s\<lparr>sy_pending := snd (co_merge now (sy_pending s) (fst k) (snd k) b)\<rparr>)"
| drain: "sy_inflight s = [] \<Longrightarrow>
    co_step s Internal_step (s\<lparr>sy_inflight := fst (co_drain now (sy_pending s)), sy_pending := snd (co_drain now (sy_pending s))\<rparr>)"
| skip: "sy_inflight s = (k, [], n) # rest \<Longrightarrow> co_step s Internal_step (s\<lparr>sy_inflight := rest\<rparr>)"
| stored: "sy_inflight s = (k, b, n) # rest \<Longrightarrow> b \<noteq> [] \<Longrightarrow>
    co_step s Internal_step (s\<lparr>sy_inflight := rest,
      sy_store := (sy_store s)(k := Some (dextend (unwrap_or [] (sy_store s k)) (flush_body ts b)))\<rparr>)"
| failed: "sy_inflight s = (k, b, n) # rest \<Longrightarrow> b \<noteq> [] \<Longrightarrow>
    co_step s (if dget (sy_pending s) k = None \<and> MAX_FLUSH_FAILS \<le> n then Dropped k else Internal_step)
      (s\<lparr>sy_inflight := rest, sy_pending := co_requeue now (sy_pending s) (k, b, n)\<rparr>)"

inductive_cases co_step_cases: "co_step s l s'"

inductive co_run :: "sys \<Rightarrow> label list \<Rightarrow> sys \<Rightarrow> bool" where
  nil: "co_run s [] s"
| snoc: "co_run s ls s' \<Longrightarrow> co_step s' l s'' \<Longrightarrow> co_run s (ls @ [l]) s''"

definition sys_ok :: "sys \<Rightarrow> bool" where
  "sys_ok s \<longleftrightarrow> dict_ok (sy_pending s) \<and> (\<forall>k p. dget (sy_pending s) k = Some p \<longrightarrow> dict_ok (pd_body p))
     \<and> distinct (map fst (sy_inflight s)) \<and> (\<forall>e \<in> set (sy_inflight s). dict_ok (fst (snd e)))"

text \<open>A field of a document once everything acknowledged is applied.\<close>

definition look :: "sys \<Rightarrow> doc_key \<Rightarrow> string \<Rightarrow> json option" where
  "look s k f = (case Option.bind (dget (sy_pending s) k) (\<lambda>p. dget (pd_body p) f) of
     Some v \<Rightarrow> Some v
   | None \<Rightarrow> (case Option.bind (map_of (sy_inflight s) k) (\<lambda>e. dget (fst e) f) of
       Some v \<Rightarrow> Some v
     | None \<Rightarrow> Option.bind (sy_store s k) (\<lambda>d. dget d f)))"

declare split_paired_All [simp del] split_paired_Ex [simp del]

lemma dict_ok_drain:
  assumes "dict_ok co"
  shows "dict_ok (snd (co_drain now co)) \<and> distinct (map fst (fst (co_drain now co)))"
proof -
  have f: "fst \<circ> (\<lambda>(k, p). (k, pd_body p, pd_fails p)) = fst" by auto
  have m: "map fst (fst (co_drain now co)) = map fst (filter (\<lambda>(k, p). co_is_due now p) co)"
    by (simp add: co_drain_def f)
  have "dict_ok (filter (\<lambda>(k, p). co_is_due now p) co)" using assms by simp
  then have "distinct (map fst (fst (co_drain now co)))" unfolding m by (rule dict_ok_distinct)
  then show ?thesis using assms by (simp add: co_drain_def)
qed

lemma drain_get:
  assumes "dict_ok co"
  shows "dget (snd (co_drain now co)) k = (case dget co k of None \<Rightarrow> None | Some p \<Rightarrow> if co_is_due now p then None else Some p)"
    and "map_of (fst (co_drain now co)) k = (case dget co k of None \<Rightarrow> None
          | Some p \<Rightarrow> if co_is_due now p then Some (pd_body p, pd_fails p) else None)"
proof -
  have r: "snd (co_drain now co) = dretain (\<lambda>k p. \<not> co_is_due now p) co"
    by (simp add: co_drain_def dretain_def case_prod_unfold)
  show "dget (snd (co_drain now co)) k = (case dget co k of None \<Rightarrow> None | Some p \<Rightarrow> if co_is_due now p then None else Some p)"
    unfolding r dget_dretain [OF assms] by (auto split: option.split)
  have "fst (co_drain now co) = map (\<lambda>(k, p). (k, pd_body p, pd_fails p)) (dretain (\<lambda>k p. co_is_due now p) co)"
    by (simp add: co_drain_def dretain_def case_prod_unfold)
  then have "map_of (fst (co_drain now co)) k
      = map_option (\<lambda>p. (pd_body p, pd_fails p)) (dget (dretain (\<lambda>k p. co_is_due now p) co) k)"
    by (simp add: map_of_map)
  then show "map_of (fst (co_drain now co)) k = (case dget co k of None \<Rightarrow> None
      | Some p \<Rightarrow> if co_is_due now p then Some (pd_body p, pd_fails p) else None)"
    unfolding dget_dretain [OF assms] by (auto split: option.split)
qed

lemma co_merge_get:
  "dget (snd (co_merge now co coll i b)) k = (if k = (coll, i)
     then Some ((unwrap_or \<lparr>pd_body = [], pd_first_at = now, pd_fails = 0\<rparr> (dget co (coll, i)))
            \<lparr>pd_body := dextend (pd_body (unwrap_or \<lparr>pd_body = [], pd_first_at = now, pd_fails = 0\<rparr> (dget co (coll, i)))) b\<rparr>)
     else dget co k)"
  by (simp add: co_merge_def Let_def)

lemma co_requeue_get:
  "dget (co_requeue now co (k0, b, n)) k = (if k \<noteq> k0 then dget co k else
     (case dget co k0 of
        Some p \<Rightarrow> Some (p\<lparr>pd_fails := pd_fails p + 1, pd_body := dextend b (pd_body p)\<rparr>)
      | None \<Rightarrow> if n < MAX_FLUSH_FAILS then Some \<lparr>pd_body = b, pd_first_at = now, pd_fails = n + 1\<rparr> else None))"
  by (simp add: co_requeue_def split: option.split)

text \<open>One step keeps every acknowledged field, but for the stamp the flusher sets.\<close>

definition step_keeps :: "label \<Rightarrow> sys \<Rightarrow> sys \<Rightarrow> bool" where
  "step_keeps l s s' \<longleftrightarrow> (\<forall>k f. f \<noteq> ''updatedAt'' \<longrightarrow> (case l of
       Merged k0 b \<Rightarrow> look s' k f = (if k = k0 \<and> dget b f \<noteq> None then dget b f else look s k f)
     | Internal_step \<Rightarrow> look s' k f = look s k f
     | Dropped k0 \<Rightarrow> k \<noteq> k0 \<longrightarrow> look s' k f = look s k f))"

lemma co_step_keeps:
  assumes "co_step s l s'" "sys_ok s"
  shows "sys_ok s' \<and> step_keeps l s s'"
  using assms(1)
proof cases
  case (merge b k now)
  let ?e = "unwrap_or \<lparr>pd_body = [], pd_first_at = now, pd_fails = 0\<rparr> (dget (sy_pending s) k)"
  have g: "dget (sy_pending s') k' = (if k' = k then Some (?e\<lparr>pd_body := dextend (pd_body ?e) b\<rparr>) else dget (sy_pending s) k')" for k'
    using co_merge_get [of now "sy_pending s" "fst k" "snd k" b k'] merge by simp
  have e: "dict_ok (pd_body ?e)" using assms(2) by (auto simp: sys_ok_def unwrap_or_def simp del: split_paired_All split: option.split)
  have "dict_ok (sy_pending s')" using merge assms(2) by (simp add: sys_ok_def co_merge_def Let_def)
  then have "sys_ok s'" using assms(2) g e merge by (auto simp: sys_ok_def)
  moreover have "step_keeps l s s'"
    using g merge e by (auto simp: step_keeps_def look_def dget_dextend_dict unwrap_or_def split: option.splits)
  ultimately show ?thesis by blast
next
  case (drain now)
  have p: "dict_ok (sy_pending s)" using assms(2) by (simp add: sys_ok_def)
  note g = drain_get [OF p, of now]
  have fl: "\<forall>e \<in> set (sy_inflight s'). dict_ok (fst (snd e))"
  proof
    fix e
    assume "e \<in> set (sy_inflight s')"
    then obtain k q where "e = (k, pd_body q, pd_fails q)" "(k, q) \<in> set (sy_pending s)"
      using drain by (auto simp: co_drain_def)
    moreover have "dget (sy_pending s) k = Some q" using calculation(2) by (rule dict_ok_snd [OF p])
    ultimately show "dict_ok (fst (snd e))" using assms(2) unfolding sys_ok_def by simp
  qed
  have "sys_ok s'" using assms(2) dict_ok_drain [OF p, of now] fl drain g(1)
    by (auto simp: sys_ok_def split: option.splits if_splits)
  moreover have "step_keeps l s s'" using drain g by (auto simp: step_keeps_def look_def split: option.split)
  ultimately show ?thesis by blast
next
  case (skip k n rest)
  have nr: "map_of rest k = None" using assms(2) skip by (auto simp: sys_ok_def map_of_eq_None_iff)
  have "sys_ok s'" using assms(2) skip by (auto simp: sys_ok_def)
  moreover have f: "sy_inflight s' = rest" "sy_pending s' = sy_pending s" "sy_store s' = sy_store s" "l = Internal_step"
    using skip by simp_all
  have "look s' k' f = look s k' f" for k' f
    using nr unfolding look_def f skip(3) by (auto split: option.split)
  then have "step_keeps l s s'" by (simp add: step_keeps_def f)
  ultimately show ?thesis by blast
next
  case (stored k b n rest ts)
  have nr: "map_of rest k = None" using assms(2) stored by (auto simp: sys_ok_def map_of_eq_None_iff)
  have b: "dict_ok b" using assms(2) stored by (auto simp: sys_ok_def)
  then have fb: "dget (dextend d (flush_body ts b)) f = (case dget b f of None \<Rightarrow> dget d f | Some v \<Rightarrow> Some v)"
    if "f \<noteq> ''updatedAt''" for d f
    using that by (simp add: dget_dextend_dict flush_body_def)
  have "sys_ok s'" using assms(2) stored by (auto simp: sys_ok_def)
  moreover have "step_keeps l s s'"
    using stored nr fb by (auto simp: step_keeps_def look_def unwrap_or_def split: option.split)
  ultimately show ?thesis by blast
next
  case (failed k b n rest now)
  have nr: "map_of rest k = None" using assms(2) failed by (auto simp: sys_ok_def map_of_eq_None_iff)
  have b: "dict_ok b" using assms(2) failed by (auto simp: sys_ok_def)
  have p: "\<And>k p. dget (sy_pending s) k = Some p \<Longrightarrow> dict_ok (pd_body p)" using assms(2) by (auto simp: sys_ok_def)
  have dp: "dict_ok (sy_pending s')"
    using assms(2) failed by (auto simp: sys_ok_def co_requeue_def split: option.split)
  have g: "dget (sy_pending s') k' = dget (co_requeue now (sy_pending s) (k, b, n)) k'" for k'
    using failed by simp
  have "sys_ok s'"
    using assms(2) failed dp g b by (auto simp: sys_ok_def co_requeue_get split: option.splits if_splits)
  moreover have "step_keeps l s s'"
    using failed nr p b unfolding step_keeps_def look_def g co_requeue_get
    by (auto simp: dget_dextend_dict split: option.splits)
  ultimately show ?thesis by blast
qed

definition merged_into :: "doc_key \<Rightarrow> label list \<Rightarrow> data" where
  "merged_into k ls = foldl dextend [] (filter_map (\<lambda>l. case l of Merged k' b \<Rightarrow> if k' = k then Some b else None | _ \<Rightarrow> None) ls)"

lemma merged_into_snoc:
  "merged_into k (ls @ [l]) = (case l of Merged k' b \<Rightarrow> if k' = k then dextend (merged_into k ls) b else merged_into k ls | _ \<Rightarrow> merged_into k ls)"
  by (simp add: merged_into_def split: label.split)

lemma co_run_keeps:
  assumes "co_run s ls s'" "sys_ok s" "\<forall>k. Dropped k \<notin> set ls" "f \<noteq> ''updatedAt''"
  shows "sys_ok s' \<and> look s' k f = (case dget (merged_into k ls) f of Some v \<Rightarrow> Some v | None \<Rightarrow> look s k f)"
  using assms
proof (induction rule: co_run.induct)
  case (nil s)
  then show ?case by (simp add: merged_into_def)
next
  case (snoc s ls s' l s'')
  have IH: "sys_ok s'" "look s' k f = (case dget (merged_into k ls) f of Some v \<Rightarrow> Some v | None \<Rightarrow> look s k f)"
    using snoc by auto
  have st: "sys_ok s''" "step_keeps l s' s''" using co_step_keeps [OF snoc.hyps(2) IH(1)] by auto
  show ?case
  proof (cases l)
    case (Merged k' b)
    have "dict_ok b" using snoc.hyps(2) Merged by (auto elim: co_step_cases split: if_splits)
    moreover have "look s'' k f = (if k = k' \<and> dget b f \<noteq> None then dget b f else look s' k f)"
      using st(2) snoc.prems(3) unfolding step_keeps_def Merged label.case by blast
    ultimately show ?thesis
      using st(1) IH(2) Merged by (auto simp: merged_into_snoc dget_dextend_dict split: option.splits)
  next
    case Internal_step
    then show ?thesis using st IH(2) snoc.prems(3) by (auto simp: step_keeps_def merged_into_snoc)
  next
    case (Dropped k')
    then show ?thesis using snoc.prems(2) by auto
  qed
qed

section \<open>Properties\<close>

text \<open>
  C23. Folding is exact: several eligible PATCH bodies that are merged into one pending entry and
  then stored by one flush leave the document that applying them one by one leaves.
\<close>

theorem coalesce_exact:
  assumes "dict_ok base" "bs \<noteq> []" "\<forall>b \<in> set bs. plain_body b" "dict_ok co" "dget co (coll, i) = None"
  shows "\<exists>p. dget (foldl (\<lambda>co b. snd (co_merge now co coll i b)) co bs) (coll, i) = Some p
    \<and> dextend base (flush_body ts (pd_body p)) = foldl (direct_patch jtext ts) base bs"
  using merge_many [OF assms(4,5,2), of now] fold_patches [OF assms(1-3), of jtext ts] by simp

lemma coalesce_exact_witness:
  "\<exists>p. dget (foldl (\<lambda>co b. snd (co_merge 0 co ''c'' ''i'' b)) [] [[(''a'', jint 1)], [(''a'', jint 2)]]) (''c'', ''i'') = Some p
    \<and> dextend [] (flush_body ''now'' (pd_body p))
      = foldl (direct_patch (\<lambda>_. []) ''now'') [] [[(''a'', jint 1)], [(''a'', jint 2)]]"
  by (rule coalesce_exact) (simp_all add: plain_body_def dict_ok_def)

text \<open>
  C22. No acknowledged field is lost while merges, drains, writes and failed writes interleave:
  unless an entry is given up, each field of a document reads as the last acknowledged value, in
  what is stored overlaid with what is in flight and what is pending. Only the flusher's own
  \<open>updatedAt\<close> stamp is exempt.
\<close>

theorem acknowledged_fields_kept:
  assumes "co_run s ls s'" "sys_ok s" "\<forall>k. Dropped k \<notin> set ls" "f \<noteq> ''updatedAt''"
  shows "look s' k f = (case dget (merged_into k ls) f of Some v \<Rightarrow> Some v | None \<Rightarrow> look s k f)"
  using co_run_keeps [OF assms] by simp

definition sys0 :: sys where
  "sys0 = \<lparr>sy_store = (\<lambda>_. None), sy_pending = [], sy_inflight = []\<rparr>"

definition one_body :: data where
  "one_body = [(''a'', jint 1)]"

lemma run_merge_drain:
  "co_run sys0 [Merged (''c'', ''i'') one_body, Internal_step]
     \<lparr>sy_store = (\<lambda>_. None), sy_pending = [], sy_inflight = [((''c'', ''i''), one_body, 0)]\<rparr>"
proof -
  let ?k = "(''c'', ''i'')"
  let ?p = "\<lparr>pd_body = one_body, pd_first_at = 0, pd_fails = 0\<rparr>"
  have one: "dextend [] one_body = one_body" by (simp add: one_body_def dextend_def)
  have "co_step sys0 (Merged ?k one_body) (sys0\<lparr>sy_pending := [(?k, ?p)]\<rparr>)"
    using co_step.merge [of one_body sys0 ?k 0] one
    by (simp add: sys0_def co_merge_def Let_def) (simp add: one_body_def dict_ok_def)
  then have r: "co_run sys0 ([] @ [Merged ?k one_body]) (sys0\<lparr>sy_pending := [(?k, ?p)]\<rparr>)"
    by (rule co_run.snoc [OF co_run.nil])
  have "co_step (sys0\<lparr>sy_pending := [(?k, ?p)]\<rparr>) Internal_step
      \<lparr>sy_store = (\<lambda>_. None), sy_pending = [], sy_inflight = [(?k, one_body, 0)]\<rparr>"
    using co_step.drain [of "sys0\<lparr>sy_pending := [(?k, ?p)]\<rparr>" 200]
    by (simp add: sys0_def co_drain_def co_is_due_def COALESCE_WINDOW_def)
  from co_run.snoc [OF r this] show ?thesis by simp
qed

lemma acknowledged_fields_kept_witness:
  "look \<lparr>sy_store = (\<lambda>_. None), sy_pending = [], sy_inflight = [((''c'', ''i''), one_body, 0)]\<rparr> (''c'', ''i'') ''a''
     = Some (jint 1)"
  using acknowledged_fields_kept [OF run_merge_drain, of "''a''" "(''c'', ''i'')"]
  by (simp add: sys0_def sys_ok_def merged_into_def one_body_def dextend_def)

text \<open>
  Read-your-write does not hold across a flush: once the flusher has taken an entry out and
  before it has stored it, the overlay of a read no longer shows an acknowledged field.
\<close>

theorem read_misses_inflight:
  "\<exists>s. co_run sys0 [Merged (''c'', ''i'') one_body, Internal_step] s
     \<and> co_overlay (sy_pending s) ''c'' ''i'' (sy_store s (''c'', ''i'')) = None
     \<and> sy_store s (''c'', ''i'') = None \<and> look s (''c'', ''i'') ''a'' = Some (jint 1)"
  by (rule exI, rule conjI [OF run_merge_drain]) (simp add: co_overlay_def look_def one_body_def)

end
