(* ===== verification/Gateway.thy ===== *)
theory Gateway
  imports Coalesce Policy Ttl
begin

text \<open>
  The document routes of the gateway (crates/hakobackend-server/src/main.rs): response helpers,
  name gates, GET and list, POST, PUT, PATCH and DELETE, collections and indexes, batches and
  transactions, and the flusher's write. A handler is a function of the configuration, the state
  and the request; it returns the response and the new state.
\<close>

section \<open>Responses\<close>

datatype body = BText string | BJson json | BDoc doc | BDocs "doc list" | BRaw string
  | BIndex index_info | BIndexes "index_info list" | BScored "scored_doc list" | BPaths "path_hit list"
  | BRetention "restore_record list"

record response =
  r_status :: nat
  r_body :: body
  r_etag :: "string option"
  r_retry_after :: "string option"

definition resp :: "nat \<Rightarrow> body \<Rightarrow> response" where
  "resp code b = \<lparr>r_status = code, r_body = b, r_etag = None, r_retry_after = None\<rparr>"

definition err :: "nat \<Rightarrow> string \<Rightarrow> response" where
  "err code msg = resp code (BJson (JObj [(''error'', JStr msg)]))"

definition err_code :: "nat \<Rightarrow> string \<Rightarrow> string \<Rightarrow> response" where
  "err_code status msg code = resp status (BJson (JObj [(''code'', JStr code), (''error'', JStr msg)]))"

definition forbidden :: response where
  "forbidden = err 403 ''Permission denied by policy''"

definition unauthorized :: response where
  "unauthorized = err 401 ''authentication required''"

definition err_internal :: response where
  "err_internal = err 500 ''internal error''"

definition ok_true :: response where
  "ok_true = resp 200 (BJson (JObj [(''success'', JBool True)]))"

text \<open>The texts of \<open>AppError\<close> (its \<open>Display\<close>).\<close>

fun err_text :: "app_error \<Rightarrow> string" where
  "err_text PermissionDenied = ''permission denied''"
| "err_text NotFound = ''not found''"
| "err_text AlreadyExists = ''already exists''"
| "err_text (BadRequest m) = ''bad request: '' @ m"
| "err_text (Conflict m) = ''conflict: '' @ m"
| "err_text (Internal m) = ''internal: '' @ m"
| "err_text (Unsupported m) = m @ '' not supported by this driver''"

definition app_err :: "app_error \<Rightarrow> response" where
  "app_err e = err_code (status_code e) (err_text e) (error_code e)"

definition etag_of :: "nat \<Rightarrow> string" where
  "etag_of v = [CHR 34] @ show_nat v @ [CHR 34]"

text \<open>\<open>inm\<close> is the \<open>If-None-Match\<close> header.\<close>

definition etag_match :: "string option \<Rightarrow> nat \<Rightarrow> bool" where
  "etag_match inm v = (case inm of
     None \<Rightarrow> False
   | Some s \<Rightarrow> list_ex (\<lambda>t. let t = trim t in t = ''*'' \<or> t = etag_of v \<or> t = ''W/'' @ etag_of v)
                 (split_on (CHR '','') s))"

definition not_modified :: "nat \<Rightarrow> response" where
  "not_modified v = (resp 304 (BText []))\<lparr>r_etag := Some (etag_of v)\<rparr>"

definition raw_json :: "string \<Rightarrow> nat option \<Rightarrow> response" where
  "raw_json b v = (resp 200 (BRaw b))\<lparr>r_etag := map_option etag_of v\<rparr>"

section \<open>Configuration and state\<close>

text \<open>
  Library functions the handlers call: the JSON text of a value and of a string, the
  \<open>Debug\<close> text of a string, and the derived decoders of request bodies and of the
  \<open>options\<close> parameter.
\<close>

record batch_op =
  b_type :: string
  b_collection :: string
  b_id :: "string option"
  b_data :: "json option"
  b_merge :: "bool option"

record lib =
  jtext :: "json \<Rightarrow> string"
  quoted :: "string \<Rightarrow> string"
  debug_str :: "string \<Rightarrow> string"
  decode_query :: "string \<Rightarrow> query_options option"
  decode_ops :: "json \<Rightarrow> batch_op list option"
  decode_spec :: "json \<Rightarrow> index_spec option"

record 's config =
  cf_policy :: policy_file
  cf_dbs :: "(string, 's driver) dict"
  cf_read_only :: bool
  cf_coalesce_on :: bool
  cf_max_batch_ops :: nat
  cf_admin_uids :: "string list"

text \<open>The databases, the pending PATCH bodies, and what was emitted on the realtime bus.\<close>

record 's gw =
  gw_db :: "string \<Rightarrow> 's"
  gw_pending :: coalescer
  gw_bus :: "(string \<times> change) list"

text \<open>A request: caller, path, query parameters, the headers that matter, body, and the clock.\<close>

record request =
  rq_auth :: "auth_context option"
  rq_path :: string
  rq_query :: "(string, string) dict"
  rq_if_none_match :: "string option"
  rq_skip_rbw :: "string option"
  rq_body :: json
  rq_now :: nat
  rq_ts :: string

definition emit :: "string \<Rightarrow> change \<Rightarrow> 's gw \<Rightarrow> 's gw" where
  "emit pol c s = s\<lparr>gw_bus := gw_bus s @ [(pol, c)]\<rparr>"

definition put_change :: "string \<Rightarrow> string \<Rightarrow> doc option \<Rightarrow> change" where
  "put_change pol i d = \<lparr>ch_collection = pol, ch_id = i, ch_kind = Changed, ch_old = None, ch_new = d\<rparr>"

definition remove_change :: "string \<Rightarrow> string \<Rightarrow> change" where
  "remove_change pol i = \<lparr>ch_collection = pol, ch_id = i, ch_kind = Removed, ch_old = None, ch_new = None\<rparr>"

text \<open>Run a driver operation on one database.\<close>

definition on_db :: "string \<Rightarrow> ('s \<Rightarrow> 'r \<times> 's) \<Rightarrow> 's gw \<Rightarrow> 'r \<times> 's gw" where
  "on_db name f s = (case f (gw_db s name) of (r, t) \<Rightarrow> (r, s\<lparr>gw_db := (gw_db s)(name := t)\<rparr>))"

definition ensure :: "'s driver \<Rightarrow> string \<Rightarrow> string \<Rightarrow> 's gw \<Rightarrow> 's gw" where
  "ensure d name coll s = snd (on_db name (\<lambda>t. db_ensure_collection d t coll) s)"

definition ok_flatten :: "doc option app_result \<Rightarrow> doc option" where
  "ok_flatten r = (case r of Inr (Some d) \<Rightarrow> Some d | _ \<Rightarrow> None)"

section \<open>Gates\<close>

definition deny_if_read_only :: "'s config \<Rightarrow> response option" where
  "deny_if_read_only cf = (if cf_read_only cf then
     Some ((err 503 ''read-only mode: writes paused for maintenance'')\<lparr>r_retry_after := Some ''60''\<rparr>)
   else None)"

definition is_admin :: "auth_context option \<Rightarrow> string list \<Rightarrow> bool" where
  "is_admin auth admins = (case auth of None \<Rightarrow> False | Some a \<Rightarrow> List.member admins (uid a))"

definition strip_write :: "policy_file \<Rightarrow> string \<Rightarrow> http_method \<Rightarrow> data \<Rightarrow> data" where
  "strip_write p coll m d = foldl (\<lambda>d f. ddel f d) d (strip_fields p coll m)"

definition denied_internal :: "string \<Rightarrow> response option" where
  "denied_internal logical =
     (if starts_with ''__'' (hd (split_on (CHR ''/'') logical)) then Some (err 403 ''reserved __ prefix'') else None)"

definition valid_names :: "string \<Rightarrow> string option \<Rightarrow> response option" where
  "valid_names coll i =
     (if \<not> valid_collection_path coll then Some (err 400 ''invalid collection name'')
      else case i of
          None \<Rightarrow> None
        | Some x \<Rightarrow> if \<not> valid_doc_id x then Some (err 400 ''invalid document id'') else None)"

definition resolve_db_name :: "(string, string) dict \<Rightarrow> (response, string) result" where
  "resolve_db_name q = (let db = unwrap_or ''default'' (dget q ''db'') in
     if \<not> valid_db_name db then Inl (err 400 ''invalid db name'') else Inr db)"

definition dotted :: "string \<Rightarrow> string \<Rightarrow> string" where
  "dotted db coll = (if db = ''default'' then coll else db @ ''.'' @ coll)"

definition db_for :: "'s config \<Rightarrow> string \<Rightarrow> (response, 's driver) result" where
  "db_for cf db = (case dget (cf_dbs cf) db of
     Some h \<Rightarrow> Inr h
   | None \<Rightarrow>
       if length (cf_dbs cf) \<le> 1 then Inl (err 400 ''single-database deployment (default only)'')
       else Inl (err 404 ''unknown database''))"

definition skip_hint :: "string option \<Rightarrow> bool" where
  "skip_hint h = (case h of None \<Rightarrow> False | Some s \<Rightarrow> s = ''1'' \<or> eq_ignore_case s ''true'')"

definition incoming_doc :: "string \<Rightarrow> json \<Rightarrow> doc" where
  "incoming_doc i b =
     (let data = (case b of JObj m \<Rightarrow> m | _ \<Rightarrow> []) in
      if i = [] then
        (case Option.bind (dget data ''id'') as_str of
           Some bid \<Rightarrow> if valid_doc_id bid then \<lparr>d_id = bid, d_data = ddel ''id'' data\<rparr> else \<lparr>d_id = i, d_data = data\<rparr>
         | None \<Rightarrow> \<lparr>d_id = i, d_data = data\<rparr>)
      else \<lparr>d_id = i, d_data = data\<rparr>)"

definition legacy_index_collection :: "string \<Rightarrow> string option" where
  "legacy_index_collection path = strip_suffix ''/index'' (trim_matches (CHR ''/'') path)"

section \<open>Reads\<close>

definition descend_json :: "data \<Rightarrow> string list \<Rightarrow> json option" where
  "descend_json d path = (case path of
     [] \<Rightarrow> None
   | p # ps \<Rightarrow> Option.bind (dget d p) (\<lambda>v. get_parts v ps))"

text \<open>One step of the projection: the value at the field, put back under the same nesting.\<close>

fun put_nested :: "json \<Rightarrow> string list \<Rightarrow> json \<Rightarrow> json" where
  "put_nested cur [] v = v"
| "put_nested cur (s # ss) v = (let m = entries cur in
     JObj (dput s (put_nested (unwrap_or (JObj []) (dget m s)) ss v) m))"

definition project_field :: "data \<Rightarrow> data \<Rightarrow> string \<Rightarrow> data" where
  "project_field d out f =
     (let segs = path_parts f in
      if [] \<in> set segs then out
      else case descend_json d segs of
          None \<Rightarrow> out
        | Some v \<Rightarrow> entries (put_nested (JObj out) segs v))"

definition project_fields :: "data \<Rightarrow> string list \<Rightarrow> data" where
  "project_fields d fs = (if fs = [] then d else foldl (project_field d) [] fs)"

definition get_owned :: "'s config \<Rightarrow> 's gw \<Rightarrow> auth_context option \<Rightarrow> string \<Rightarrow> string \<Rightarrow> string \<Rightarrow> string \<Rightarrow> 's driver \<Rightarrow> response" where
  "get_owned cf s auth pol stored i name d =
     (case db_get d (gw_db s name) stored i of
        Inl e \<Rightarrow> err_internal
      | Inr maybe \<Rightarrow>
          (let found = (case co_overlay (gw_pending s) pol i (map_option d_data maybe) of
               Some data \<Rightarrow> Some \<lparr>d_id = i, d_data = data\<rparr>
             | None \<Rightarrow> maybe)
           in case found of
               None \<Rightarrow> err 404 ''Document not found''
             | Some x \<Rightarrow>
                 if \<not> policy_allow (cf_policy cf) auth pol Get (Some x) then forbidden else resp 200 (BDoc x)))"

text \<open>The probe at one document boundary: \<open>None\<close> goes on, \<open>Some None\<close> gives up.\<close>

definition field_path_at :: "'s config \<Rightarrow> 's gw \<Rightarrow> auth_context option \<Rightarrow> string \<Rightarrow> 's driver \<Rightarrow> string option \<Rightarrow>
    string list \<Rightarrow> nat \<Rightarrow> response option option" where
  "field_path_at cf s auth name d inm segs depth =
     (let coll = join ''/'' (take (depth - 1) segs); i = segs ! (depth - 1); fs = drop depth segs;
          pol = dotted name coll; shell = \<lparr>d_id = i, d_data = []\<rparr> in
      if \<not> policy_allow (cf_policy cf) auth pol Get (Some shell) then Some (Some forbidden)
      else case db_get d (gw_db s name) coll i of
          Inl e \<Rightarrow> Some None
        | Inr None \<Rightarrow> None
        | Inr (Some x) \<Rightarrow>
            if \<not> policy_allow (cf_policy cf) auth pol Get (Some x) then Some (Some forbidden)
            else if \<not> allow_fields (cf_policy cf) auth pol Get (d_data x) then Some (Some forbidden)
            else
              (let data = (if \<not> co_is_empty (gw_pending s) \<and> co_has (gw_pending s) pol i
                 then unwrap_or (d_data x) (co_overlay (gw_pending s) pol i (Some (d_data x))) else d_data x) in
               case descend_json data fs of
                 None \<Rightarrow> None
               | Some v \<Rightarrow>
                   (case db_doc_version d (gw_db s name) coll i of
                      Inr (Some ver) \<Rightarrow> if etag_match inm ver then Some (Some (not_modified ver))
                                       else Some (Some (resp 200 (BJson v)))
                    | _ \<Rightarrow> Some (Some (resp 200 (BJson v))))))"


text \<open>The probing loop, over the even depths below \<open>max\<close>.\<close>

function field_path_loop :: "'s config \<Rightarrow> 's gw \<Rightarrow> auth_context option \<Rightarrow> string \<Rightarrow> 's driver \<Rightarrow> string option \<Rightarrow>
    string list \<Rightarrow> nat \<Rightarrow> nat \<Rightarrow> response option" where
  "field_path_loop cf s auth name d inm segs depth max_depth =
     (if depth < max_depth then
        (case field_path_at cf s auth name d inm segs depth of
           Some r \<Rightarrow> r
         | None \<Rightarrow> field_path_loop cf s auth name d inm segs (depth + 2) max_depth)
      else None)"
  by pat_completeness auto
termination
  by (relation "measure (\<lambda>(cf, s, auth, name, d, inm, segs, depth, max_depth). max_depth - depth)") auto

declare field_path_loop.simps [simp del]

definition path_segs :: "string \<Rightarrow> string list" where
  "path_segs path = segments (trim_matches (CHR ''/'') path)"

definition field_path_get :: "'s config \<Rightarrow> 's gw \<Rightarrow> auth_context option \<Rightarrow> string \<Rightarrow> 's driver \<Rightarrow> string option \<Rightarrow>
    string \<Rightarrow> nat \<Rightarrow> response option" where
  "field_path_get cf s auth name d inm path max_depth =
     (let segs = path_segs path in
      if length segs < 3 then None else field_path_loop cf s auth name d inm segs 2 max_depth)"

text \<open>An early return, and the rest of the handler.\<close>

definition or_else :: "'a option \<Rightarrow> 'a \<Rightarrow> 'a" where
  "or_else early rest = (case early of Some r \<Rightarrow> r | None \<Rightarrow> rest)"

text \<open>The tail of a document read: raw bytes of the driver when nothing is pending.\<close>

definition raw_or_owned :: "lib \<Rightarrow> 's gw \<Rightarrow> 's driver \<Rightarrow> string \<Rightarrow> string \<Rightarrow> string \<Rightarrow> string \<Rightarrow> string option \<Rightarrow> response \<Rightarrow> response" where
  "raw_or_owned L s d name pol coll i inm owned =
     (if \<not> co_is_empty (gw_pending s) \<and> co_has (gw_pending s) pol i then owned
      else case db_get_json d (gw_db s name) coll i of
          Inr (Some raw) \<Rightarrow>
            (let b = frame_doc_json (quoted L) i (r_inner raw) in
             case r_version raw of
               Some v \<Rightarrow> if etag_match inm v then not_modified v else raw_json b (Some v)
             | None \<Rightarrow> raw_json b None)
        | _ \<Rightarrow> owned)"

definition get_doc_route :: "lib \<Rightarrow> 's config \<Rightarrow> request \<Rightarrow> 's gw \<Rightarrow> string \<Rightarrow> 's driver \<Rightarrow> string \<Rightarrow> string \<Rightarrow> response" where
  "get_doc_route L cf rq s name d coll i =
     or_else (denied_internal coll) (or_else (valid_names coll (Some i))
     (let pol = dotted name coll; auth = rq_auth rq; inm = rq_if_none_match rq; segs = path_segs (rq_path rq);
          tail = raw_or_owned L s d name pol coll i inm (get_owned cf s auth pol coll i name d) in
      if \<not> policy_allow (cf_policy cf) auth pol Get (Some \<lparr>d_id = i, d_data = []\<rparr>) then forbidden
      else or_else
        (if 4 \<le> length segs \<and> length segs mod 2 = 0 \<and> ok_flatten (db_get d (gw_db s name) coll i) = None
         then field_path_get cf s auth name d inm (rq_path rq) (length segs - 1) else None)
        (case db_doc_version d (gw_db s name) coll i of
           Inr (Some v) \<Rightarrow> if etag_match inm v then not_modified v else tail
         | _ \<Rightarrow> tail)))"

definition parse_options :: "lib \<Rightarrow> (string, string) dict \<Rightarrow> (string, query_options) result" where
  "parse_options L q = (case dget q ''options'' of
     None \<Rightarrow> Inr default_query
   | Some raw \<Rightarrow> (case decode_query L raw of
       Some opts \<Rightarrow> Inr opts
     | None \<Rightarrow> Inl (''malformed '' @ [CHR 34] @ ''options'' @ [CHR 34] @ '' query parameter'')))"

definition visible_rows :: "policy_file \<Rightarrow> auth_context option \<Rightarrow> string \<Rightarrow> string list \<Rightarrow> doc list \<Rightarrow> doc list" where
  "visible_rows p auth pol fs docs =
     map (\<lambda>d. if fs = [] then d else d\<lparr>d_data := project_fields (d_data d) fs\<rparr>)
       (filter (\<lambda>d. policy_allow p auth pol Get (Some d)) docs)"

definition get_list_route :: "lib \<Rightarrow> 's config \<Rightarrow> request \<Rightarrow> 's gw \<Rightarrow> string \<Rightarrow> 's driver \<Rightarrow> string \<Rightarrow> response" where
  "get_list_route L cf rq s name d coll =
     or_else (denied_internal coll) (or_else (valid_names coll None)
     (or_else (field_path_get cf s (rq_auth rq) name d (rq_if_none_match rq) (rq_path rq) (length (path_segs (rq_path rq))))
     (case parse_options L (rq_query rq) of
        Inl msg \<Rightarrow> err 400 msg
      | Inr opts \<Rightarrow> (case db_list d (gw_db s name) coll opts of
          Inl e \<Rightarrow> err_internal
        | Inr docs \<Rightarrow> resp 200 (BDocs (visible_rows (cf_policy cf) (rq_auth rq) (dotted name coll) (q_fields opts) docs))))))"

definition get_or_list :: "lib \<Rightarrow> 's config \<Rightarrow> request \<Rightarrow> 's gw \<Rightarrow> response" where
  "get_or_list L cf rq s = (case resolve_db_name (rq_query rq) of
     Inl r \<Rightarrow> r
   | Inr name \<Rightarrow> (case db_for cf name of
       Inl r \<Rightarrow> r
     | Inr d \<Rightarrow> (case parse_collection_path (rq_path rq) of
         Document coll i \<Rightarrow> get_doc_route L cf rq s name d coll i
       | Collection coll \<Rightarrow> get_list_route L cf rq s name d coll)))"

end
