(* ===== verification/Writes.thy ===== *)
theory Writes
  imports Gateway
begin

text \<open>
  The writing routes of the gateway (crates/hakobackend-server/src/main.rs): collections, indexes,
  POST, PUT, PATCH and DELETE, and the write of the coalescer's flusher
  (crates/hakobackend-server/src/coalesce.rs). Each returns its response and the new state; the
  time stamp of a request is read once.
\<close>

section \<open>Definitions\<close>

text \<open>An early return that leaves the state as it is, and \<open>match\<close> on a response error.\<close>

definition halt :: "response option \<Rightarrow> 's \<Rightarrow> response \<times> 's \<Rightarrow> response \<times> 's" where
  "halt early s rest = (case early of Some r \<Rightarrow> (r, s) | None \<Rightarrow> rest)"

definition or_return :: "(response, 'a) result \<Rightarrow> 's \<Rightarrow> ('a \<Rightarrow> response \<times> 's) \<Rightarrow> response \<times> 's" where
  "or_return x s k = (case x of Inl r \<Rightarrow> (r, s) | Inr a \<Rightarrow> k a)"

definition deny :: "bool \<Rightarrow> response \<Rightarrow> response option" where
  "deny b r = (if b then Some r else None)"

definition list_collections :: "'s config \<Rightarrow> request \<Rightarrow> 's gw \<Rightarrow> response" where
  "list_collections cf rq s = (case resolve_db_name (rq_query rq) of
     Inl r \<Rightarrow> r
   | Inr name \<Rightarrow> (case db_for cf name of
       Inl r \<Rightarrow> r
     | Inr d \<Rightarrow> (case db_list_collections d (gw_db s name) of
         Inl e \<Rightarrow> err_internal
       | Inr names \<Rightarrow> resp 200 (BJson (JArr (map JStr
           (filter (\<lambda>n. policy_allow (cf_policy cf) (rq_auth rq) (dotted name n) ListM None) names)))))))"

definition nonempty_str :: "json option \<Rightarrow> string option" where
  "nonempty_str v = (case Option.bind v as_str of Some n \<Rightarrow> if n = [] then None else Some n | None \<Rightarrow> None)"

definition required :: "string \<Rightarrow> 'a option \<Rightarrow> (response, 'a) result" where
  "required msg x = (case x of Some a \<Rightarrow> Inr a | None \<Rightarrow> Inl (err 400 msg))"

definition create_collection :: "'s config \<Rightarrow> request \<Rightarrow> 's gw \<Rightarrow> response \<times> 's gw" where
  "create_collection cf rq s =
     halt (deny_if_read_only cf) s
     (or_return (resolve_db_name (rq_query rq)) s (\<lambda>name.
     or_return (required ''body requires {name}'' (nonempty_str (jget (rq_body rq) ''name''))) s (\<lambda>coll.
     halt (denied_internal coll) s
     (or_return (db_for cf name) s (\<lambda>d.
     halt (deny (\<not> policy_allow (cf_policy cf) (rq_auth rq) (dotted name coll) Create None) forbidden) s
     (case on_db name (\<lambda>t. db_ensure_collection d t coll) s of
        (Inr _, s') \<Rightarrow> (ok_true, s')
      | (Inl e, s') \<Rightarrow> (err_internal, s')))))))"

section \<open>Indexes\<close>

definition index_create_inner :: "lib \<Rightarrow> 's config \<Rightarrow> request \<Rightarrow> 's gw \<Rightarrow> string \<Rightarrow> string \<Rightarrow> response \<times> 's gw" where
  "index_create_inner L cf rq s coll name =
     halt (deny_if_read_only cf) s
     (halt (denied_internal coll) s
     (halt (valid_names coll None) s
     (or_return (required ''body requires {collection, fields[], name?, unique?, kind?}'' (decode_spec L (rq_body rq))) s (\<lambda>spec.
     or_return (db_for cf name) s (\<lambda>d.
     halt (deny (\<not> policy_allow (cf_policy cf) (rq_auth rq) (dotted name coll) Update None) forbidden) s
     (case on_db name (\<lambda>t. db_create_index d t coll spec) (ensure d name coll s) of
        (Inr info, s') \<Rightarrow> (resp 200 (BIndex info), s')
      | (Inl e, s') \<Rightarrow> (app_err e, s')))))))"

definition index_create :: "lib \<Rightarrow> 's config \<Rightarrow> request \<Rightarrow> 's gw \<Rightarrow> response \<times> 's gw" where
  "index_create L cf rq s =
     or_return (resolve_db_name (rq_query rq)) s (\<lambda>name.
     or_return (required ''collection required'' (nonempty_str (jget (rq_body rq) ''collection''))) s (\<lambda>coll.
     index_create_inner L cf rq s coll name))"

definition nonempty_param :: "(string, string) dict \<Rightarrow> string \<Rightarrow> string option" where
  "nonempty_param q k = (case dget q k of Some v \<Rightarrow> if v = [] then None else Some v | None \<Rightarrow> None)"

definition index_list :: "'s config \<Rightarrow> request \<Rightarrow> 's gw \<Rightarrow> response" where
  "index_list cf rq s = (case nonempty_param (rq_query rq) ''collection'' of
     None \<Rightarrow> err 400 ''query ?collection= required''
   | Some coll \<Rightarrow>
       or_else (denied_internal coll) (or_else (valid_names coll None)
       (case resolve_db_name (rq_query rq) of
          Inl r \<Rightarrow> r
        | Inr name \<Rightarrow> (case db_for cf name of
            Inl r \<Rightarrow> r
          | Inr d \<Rightarrow>
              if \<not> policy_allow (cf_policy cf) (rq_auth rq) (dotted name coll) ListM None then forbidden
              else (case db_list_indexes d (gw_db s name) coll of
                  Inr is \<Rightarrow> resp 200 (BIndexes is)
                | Inl e \<Rightarrow> err_internal)))))"

definition index_drop :: "'s config \<Rightarrow> request \<Rightarrow> 's gw \<Rightarrow> response \<times> 's gw" where
  "index_drop cf rq s =
     halt (deny_if_read_only cf) s
     (case (nonempty_param (rq_query rq) ''collection'', nonempty_param (rq_query rq) ''name'') of
        (Some coll, Some ix) \<Rightarrow>
          halt (denied_internal coll) s
          (or_return (resolve_db_name (rq_query rq)) s (\<lambda>name.
          or_return (db_for cf name) s (\<lambda>d.
          halt (deny (\<not> policy_allow (cf_policy cf) (rq_auth rq) (dotted name coll) Update None) forbidden) s
          (case on_db name (\<lambda>t. db_drop_index d t coll ix) s of
             (Inr _, s') \<Rightarrow> (ok_true, s')
           | (Inl e, s') \<Rightarrow> (app_err e, s')))))
      | _ \<Rightarrow> (err 400 ''query ?collection= & ?name= required'', s))"

section \<open>Documents\<close>

definition create :: "lib \<Rightarrow> 's config \<Rightarrow> request \<Rightarrow> 's gw \<Rightarrow> response \<times> 's gw" where
  "create L cf rq s =
     halt (deny_if_read_only cf) s
     (or_return (resolve_db_name (rq_query rq)) s (\<lambda>name.
     case legacy_index_collection (rq_path rq) of
       Some coll \<Rightarrow> index_create_inner L cf rq s coll name
     | None \<Rightarrow> (case parse_collection_path (rq_path rq) of
         Document _ _ \<Rightarrow> (resp 400 (BText ''POST requests must target collection endpoints, not document routes.''), s)
       | Collection coll \<Rightarrow>
           halt (denied_internal coll) s
           (halt (valid_names coll None) s
           (or_return (db_for cf name) s (\<lambda>d.
           let pol = dotted name coll; p = cf_policy cf; incoming = incoming_doc [] (rq_body rq) in
           halt (deny (\<not> policy_allow p (rq_auth rq) pol Create (Some incoming)) forbidden) s
           (let s1 = ensure d name coll s;
                body = strip_write p pol Create (stamp_new (rq_ts rq) (resolve_for_create (rq_ts rq) (d_data incoming))) in
            halt (deny (\<not> allow_fields p (rq_auth rq) pol Create body) forbidden) s1
            (case on_db name (\<lambda>t. db_insert d t coll (incoming\<lparr>d_data := body\<rparr>)) s1 of
               (Inr x, s2) \<Rightarrow> (resp 200 (BDoc x), emit pol (put_change pol (d_id x) (Some x)) s2)
             | (Inl e, s2) \<Rightarrow> (app_err e, s2)))))))))"

text \<open>What PUT and PATCH store.\<close>

definition write_data :: "lib \<Rightarrow> policy_file \<Rightarrow> string \<Rightarrow> string \<Rightarrow> string \<Rightarrow> bool \<Rightarrow> doc option \<Rightarrow> json \<Rightarrow> data" where
  "write_data L p pol ts i merge existing b =
     (let body = d_data (incoming_doc i b);
          old = (case existing of Some d \<Rightarrow> d_data d | None \<Rightarrow> []);
          data = (if merge then apply_update (jtext L) ts old body else resolve_for_create ts body);
          stamped = (if existing = None then stamp_new ts data
                     else stamp_update ts data (Option.bind existing (\<lambda>d. dget (d_data d) ''createdAt'')))
      in strip_write p pol Update stamped)"

definition skip_rbw :: "policy_file \<Rightarrow> string \<Rightarrow> bool \<Rightarrow> string option \<Rightarrow> bool" where
  "skip_rbw p pol merge hint \<longleftrightarrow>
     \<not> merge \<and> \<not> needs_existing p pol Update \<and> (skip_hint hint \<or> p_skip_read p)"

text \<open>The coalesced acknowledgement: the new pending map when the body is taken.\<close>

definition coalesce_patch :: "lib \<Rightarrow> 's config \<Rightarrow> request \<Rightarrow> coalescer \<Rightarrow> string \<Rightarrow> string \<Rightarrow> coalescer option" where
  "coalesce_patch L cf rq co pol i =
     (if cf_coalesce_on cf \<and> strip_fields (cf_policy cf) pol Update = [] then
        (case as_object (rq_body rq) of
           None \<Rightarrow> None
         | Some m \<Rightarrow> if co_eligible (jtext L) (rq_body rq) then
               (case co_merge (rq_now rq) co pol i m of (took, co') \<Rightarrow> if took then Some co' else None)
             else None)
      else None)"

definition write_doc :: "lib \<Rightarrow> 's config \<Rightarrow> request \<Rightarrow> 's gw \<Rightarrow> bool \<Rightarrow> string \<Rightarrow> response \<times> 's gw" where
  "write_doc L cf rq s merge name = (case parse_collection_path (rq_path rq) of
     Collection _ \<Rightarrow> (resp 400 (BText ''PUT/PATCH requests must target explicit document endpoints.''), s)
   | Document coll i \<Rightarrow>
       halt (denied_internal coll) s
       (halt (valid_names coll (Some i)) s
       (or_return (db_for cf name) s (\<lambda>d.
       let pol = dotted name coll; p = cf_policy cf;
           existing = (if skip_rbw p pol merge (rq_skip_rbw rq) then None
                       else ok_flatten (db_get d (gw_db s name) coll i)) in
       halt (deny (\<not> policy_allow p (rq_auth rq) pol Update existing) forbidden) s
       (halt (deny (merge \<and> existing = None) (err 404 ''Document not found'')) s
       (case (if merge then coalesce_patch L cf rq (gw_pending s) pol i else None) of
          Some co \<Rightarrow> (ok_true, s\<lparr>gw_pending := co\<rparr>)
        | None \<Rightarrow>
           (let s1 = ensure d name coll s;
                data = write_data L p pol (rq_ts rq) i merge existing (rq_body rq) in
            halt (deny (\<not> allow_fields p (rq_auth rq) pol Update data) forbidden) s1
            (case on_db name (\<lambda>t. db_set d t coll i \<lparr>d_id = i, d_data = data\<rparr> False) s1 of
               (Inr x, s2) \<Rightarrow> (ok_true, emit pol (put_change pol i (Some x)) s2)
             | (Inl e, s2) \<Rightarrow> (app_err e, s2)))))))))"

definition put :: "lib \<Rightarrow> 's config \<Rightarrow> request \<Rightarrow> 's gw \<Rightarrow> response \<times> 's gw" where
  "put L cf rq s =
     halt (deny_if_read_only cf) s
     (or_return (resolve_db_name (rq_query rq)) s (\<lambda>name. write_doc L cf rq s False name))"

definition patch :: "lib \<Rightarrow> 's config \<Rightarrow> request \<Rightarrow> 's gw \<Rightarrow> response \<times> 's gw" where
  "patch L cf rq s =
     halt (deny_if_read_only cf) s
     (or_return (resolve_db_name (rq_query rq)) s (\<lambda>name. write_doc L cf rq s True name))"

definition delete_mode :: "lib \<Rightarrow> string option \<Rightarrow> (response, bool) result" where
  "delete_mode L m = (case m of
     None \<Rightarrow> Inr False
   | Some v \<Rightarrow> if v = [] then Inr False else if v = ''force'' then Inr True
       else Inl (err 400 (''unknown delete mode '' @ debug_str L v @ '': only '' @ [CHR 34] @ ''force'' @ [CHR 34] @ '' is valid'')))"

definition remove :: "lib \<Rightarrow> 's config \<Rightarrow> request \<Rightarrow> 's gw \<Rightarrow> response \<times> 's gw" where
  "remove L cf rq s =
     halt (deny_if_read_only cf) s
     (or_return (resolve_db_name (rq_query rq)) s (\<lambda>name.
     case parse_collection_path (rq_path rq) of
       Collection _ \<Rightarrow> (resp 400 (BText ''DELETE requests must target explicit document endpoints.''), s)
     | Document coll i \<Rightarrow>
         halt (denied_internal coll) s
         (halt (valid_names coll (Some i)) s
         (or_return (db_for cf name) s (\<lambda>d.
         let pol = dotted name coll; existing = ok_flatten (db_get d (gw_db s name) coll i) in
         halt (deny (\<not> policy_allow (cf_policy cf) (rq_auth rq) pol Delete existing) forbidden) s
         (let s1 = ensure d name coll s in
          or_return (delete_mode L (dget (rq_query rq) ''mode'')) s1 (\<lambda>force.
          case on_db name (\<lambda>t. if force then db_delete_force d t coll i else db_delete d t coll i) s1 of
            (Inr _, s2) \<Rightarrow> (ok_true, emit pol (remove_change pol i) s2)
          | (Inl e, s2) \<Rightarrow> (app_err e, s2))))))))"

section \<open>The flusher\<close>

text \<open>
  The closure the flusher passes to \<open>flush_due\<close>: it stores one pending body and says whether
  that succeeded. The change carries the document as read back.
\<close>

definition flush_write :: "'s config \<Rightarrow> string \<Rightarrow> 's gw \<Rightarrow> doc_key \<Rightarrow> data \<Rightarrow> bool \<times> 's gw" where
  "flush_write cf ts s k body = (case k of (coll, i) \<Rightarrow>
     (case flush_target (dkeys (cf_dbs cf)) coll of (name, bare) \<Rightarrow>
       (case dget (cf_dbs cf) name of
          None \<Rightarrow> (False, s)
        | Some d \<Rightarrow> (case on_db name (\<lambda>t. db_set d t bare i \<lparr>d_id = i, d_data = flush_body ts body\<rparr> True) s of
            (Inl e, s1) \<Rightarrow> (False, s1)
          | (Inr _, s1) \<Rightarrow> (True, (case db_get d (gw_db s1 name) bare i of
               Inr (Some x) \<Rightarrow> emit coll (put_change coll i (Some x)) s1
             | _ \<Rightarrow> s1))))))"

text \<open>One tick of the flusher with nothing in between.\<close>

definition flush_tick :: "'s config \<Rightarrow> nat \<Rightarrow> string \<Rightarrow> 's gw \<Rightarrow> nat \<times> 's gw" where
  "flush_tick cf now ts s = (case co_flush_due (flush_write cf ts) now (gw_pending s) s of
     (n, co, s') \<Rightarrow> (n, s'\<lparr>gw_pending := co\<rparr>))"

end
