(* ===== verification/Batch.thy ===== *)
theory Batch
  imports Writes
begin

text \<open>
  Batches, transactions and relocation (crates/hakobackend-server/src/main.rs, \<open>run_ops\<close> and its
  routes). The runner gates every operation, computes the bodies, runs one driver transaction and
  says what to emit. It works on one database, so its state is the driver's.
\<close>

section \<open>Definitions\<close>

definition op_method :: "string \<Rightarrow> bool \<Rightarrow> bool \<Rightarrow> http_method" where
  "op_method t existed is_tx =
     (if t = ''get'' then Get
      else if t = ''delete'' then Delete
      else if t = ''update'' then Update
      else if t = ''set'' then (if existed then Update else Create)
      else if is_tx then (if existed then Update else Create)
      else Create)"

datatype op_out = OutV json | OutRaw string

text \<open>The JSON text of a document (its \<open>Serialize\<close>).\<close>

definition doc_text :: "lib \<Rightarrow> doc \<Rightarrow> string" where
  "doc_text L d = ''{'' @ join '','' (map (\<lambda>(k, v). quoted L k @ '':'' @ jtext L v) (doc_entries d)) @ ''}''"

definition render_results :: "lib \<Rightarrow> op_out list \<Rightarrow> response" where
  "render_results L rs =
     (if list_all (\<lambda>r. case r of OutV _ \<Rightarrow> True | OutRaw _ \<Rightarrow> False) rs then
        resp 200 (BJson (JObj [(''results'', JArr (filter_map (\<lambda>r. case r of OutV v \<Rightarrow> Some v | _ \<Rightarrow> None) rs)),
                               (''success'', JBool True)]))
      else resp 200 (BRaw (''{'' @ quoted L ''success'' @ '':true,'' @ quoted L ''results'' @ '':['' @
        join '','' (map (\<lambda>r. case r of OutV v \<Rightarrow> jtext L v | OutRaw t \<Rightarrow> t) rs) @ '']}'')))"

definition KNOWN :: "string list" where
  "KNOWN = [''get'', ''set'', ''add'', ''update'', ''delete'', ''create'']"

type_synonym op_error = "nat \<times> string \<times> string"

fun method_name :: "http_method \<Rightarrow> string" where
  "method_name Get = ''Get''"
| "method_name ListM = ''List''"
| "method_name Create = ''Create''"
| "method_name Update = ''Update''"
| "method_name Delete = ''Delete''"

text \<open>An operation that passed its gate; the stored name is the collection itself.\<close>

record gated =
  g_body :: batch_op
  g_id :: string
  g_existing :: "doc option"
  g_pol :: string
  g_method :: http_method

definition gate_op :: "'s driver \<Rightarrow> policy_file \<Rightarrow> auth_context option \<Rightarrow> bool \<Rightarrow> string \<Rightarrow> batch_op \<Rightarrow> 's \<Rightarrow>
    (op_error, gated) result \<times> 's" where
  "gate_op d p auth is_tx name op s =
     (let t = ascii_lower (b_type op); i = unwrap_or [] (b_id op); coll = b_collection op in
      if \<not> List.member KNOWN t \<and> \<not> is_tx then (Inl (400, ''unknown op type: '' @ b_type op, ''bad-request''), s)
      else if i = [] then (Inl (400, ''op requires id'', ''bad-request''), s)
      else if denied_internal coll \<noteq> None then (Inl (403, ''reserved __ prefix'', ''permission-denied''), s)
      else if \<not> valid_collection_path coll then (Inl (400, ''invalid collection name'', ''bad-request''), s)
      else if \<not> valid_doc_id i then (Inl (400, ''invalid document id'', ''bad-request''), s)
      else
        (let pol = dotted name coll; existing = ok_flatten (db_get d s coll i); m = op_method t (existing \<noteq> None) is_tx in
         if \<not> policy_allow p auth pol m existing then
           (Inl (403, ''Permission denied: '' @ method_name m @ '' on '' @ pol @ ''/'' @ i, ''permission-denied''), s)
         else (Inr \<lparr>g_body = op, g_id = i, g_existing = existing, g_pol = pol, g_method = m\<rparr>,
               snd (db_ensure_collection d s coll))))"

fun gate_ops :: "'s driver \<Rightarrow> policy_file \<Rightarrow> auth_context option \<Rightarrow> bool \<Rightarrow> string \<Rightarrow> batch_op list \<Rightarrow> 's \<Rightarrow>
    (op_error, gated list) result \<times> 's" where
  "gate_ops d p auth is_tx name [] s = (Inr [], s)"
| "gate_ops d p auth is_tx name (op # ops) s = (case gate_op d p auth is_tx name op s of
     (Inl e, s') \<Rightarrow> (Inl e, s')
   | (Inr g, s') \<Rightarrow> (case gate_ops d p auth is_tx name ops s' of
       (Inl e, s'') \<Rightarrow> (Inl e, s'')
     | (Inr gs, s'') \<Rightarrow> (Inr (g # gs), s'')))"

definition op_type :: "gated \<Rightarrow> string" where
  "op_type g = ascii_lower (b_type (g_body g))"

definition op_merges :: "gated \<Rightarrow> bool" where
  "op_merges g = (let t = op_type g in
     if t = ''add'' \<or> t = ''update'' then True
     else if t = ''set'' then b_merge (g_body g) = Some True
     else g_existing g \<noteq> None)"

text \<open>The body an operation stores, before the field conditions are checked.\<close>

definition op_data :: "lib \<Rightarrow> policy_file \<Rightarrow> string \<Rightarrow> gated \<Rightarrow> data" where
  "op_data L p ts g =
     (let t = op_type g;
          raw = (case b_data (g_body g) of None \<Rightarrow> [] | Some v \<Rightarrow> d_data (incoming_doc (g_id g) v));
          created = Option.bind (g_existing g) (\<lambda>d. dget (d_data d) ''createdAt'') in
      if t = ''get'' \<or> t = ''delete'' then raw
      else strip_write p (g_pol g) (g_method g)
        (if op_merges g then
           stamp_update ts (apply_update (jtext L) ts (case g_existing g of Some d \<Rightarrow> d_data d | None \<Rightarrow> []) raw) created
         else if g_existing g \<noteq> None then stamp_update ts (resolve_for_create ts raw) created
         else stamp_new ts (resolve_for_create ts raw)))"

definition op_kind :: "bool \<Rightarrow> gated \<Rightarrow> tx_kind" where
  "op_kind is_tx g = (let t = op_type g in
     if t = ''get'' then TxRead
     else if t = ''delete'' then TxDelete
     else if t = ''update'' then TxPut False True
     else if is_tx \<and> g_existing g \<noteq> None \<and> t \<noteq> ''set'' \<and> t \<noteq> ''add'' then TxPut False True
     else TxPut False False)"

definition prepare_op :: "lib \<Rightarrow> policy_file \<Rightarrow> auth_context option \<Rightarrow> string \<Rightarrow> bool \<Rightarrow> gated \<Rightarrow> (op_error, tx_op) result" where
  "prepare_op L p auth ts is_tx g =
     (let t = op_type g; body = op_data L p ts g in
      if t \<noteq> ''get'' \<and> t \<noteq> ''delete'' \<and> \<not> allow_fields p auth (g_pol g) (g_method g) body then
        Inl (403, ''Permission denied: fields on '' @ g_pol g @ ''/'' @ g_id g, ''permission-denied'')
      else Inr \<lparr>t_collection = b_collection (g_body g), t_id = g_id g, t_kind = op_kind is_tx g,
                t_doc = Some \<lparr>d_id = g_id g, d_data = body\<rparr>\<rparr>)"

definition op_change :: "gated \<times> tx_op \<Rightarrow> (string \<times> change) option" where
  "op_change gt = (case gt of (g, t) \<Rightarrow> (case t_kind t of
     TxRead \<Rightarrow> None
   | TxDelete \<Rightarrow> Some (g_pol g, remove_change (g_pol g) (g_id g))
   | TxPut _ _ \<Rightarrow> Some (g_pol g, put_change (g_pol g) (g_id g) (t_doc t))))"

definition op_result :: "lib \<Rightarrow> bool \<Rightarrow> gated \<times> tx_out \<Rightarrow> op_out" where
  "op_result L is_tx go = (case go of (g, x) \<Rightarrow>
     if \<not> is_tx then OutV (JObj [(''id'', JStr (g_id g)), (''success'', JBool True)])
     else if op_type g = ''get'' then (case x_doc x of Some d \<Rightarrow> OutRaw (doc_text L d) | None \<Rightarrow> OutV JNull)
     else OutV (JObj [(''success'', JBool True)]))"

definition run_ops :: "lib \<Rightarrow> 's driver \<Rightarrow> policy_file \<Rightarrow> auth_context option \<Rightarrow> string \<Rightarrow> batch_op list \<Rightarrow> bool \<Rightarrow> string \<Rightarrow> 's \<Rightarrow>
    (op_error, op_out list \<times> (string \<times> change) list) result \<times> 's" where
  "run_ops L d p auth ts ops is_tx name s = (case gate_ops d p auth is_tx name ops s of
     (Inl e, s1) \<Rightarrow> (Inl e, s1)
   | (Inr gs, s1) \<Rightarrow>
       if \<not> supports_transactions (db_capabilities d) then
         (Inl (400, ''driver '' @ cap_driver (db_capabilities d) @ '' has no transaction support'', ''bad-request''), s1)
       else (case collect_res (map (prepare_op L p auth ts is_tx) gs) of
           Inl e \<Rightarrow> (Inl e, s1)
         | Inr txs \<Rightarrow> (case db_run_transaction d s1 txs of
             (Inl e, s2) \<Rightarrow> (Inl (status_code e, err_text e, error_code e), s2)
           | (Inr outs, s2) \<Rightarrow>
               (Inr (map (op_result L is_tx) (zip gs outs), filter_map op_change (zip gs txs)), s2))))"

text \<open>The outcome put back into the gateway: the driver's new state, and the bus.\<close>

definition apply_ops :: "string \<Rightarrow> (op_error, op_out list \<times> (string \<times> change) list) result \<times> 's \<Rightarrow> 's gw \<Rightarrow> 's gw" where
  "apply_ops name out s = (case out of (r, t) \<Rightarrow>
     (let s1 = s\<lparr>gw_db := (gw_db s)(name := t)\<rparr> in
      case r of Inl e \<Rightarrow> s1 | Inr (_, cs) \<Rightarrow> s1\<lparr>gw_bus := gw_bus s1 @ cs\<rparr>))"

definition decode_body :: "lib \<Rightarrow> json \<Rightarrow> (response, batch_op list) result" where
  "decode_body L b = required ''body requires {operations[]}'' (decode_ops L (unwrap_or JNull (jget b ''operations'')))"

definition batch :: "lib \<Rightarrow> 's config \<Rightarrow> request \<Rightarrow> 's gw \<Rightarrow> response \<times> 's gw" where
  "batch L cf rq s =
     halt (deny_if_read_only cf) s
     (or_return (resolve_db_name (rq_query rq)) s (\<lambda>name.
     or_return (decode_body L (rq_body rq)) s (\<lambda>ops.
     halt (deny (cf_max_batch_ops cf < length ops) (err 500 (''too many ops (max '' @ show_nat (cf_max_batch_ops cf) @ '')''))) s
     (or_return (db_for cf name) s (\<lambda>d.
     let out = run_ops L d (cf_policy cf) (rq_auth rq) (rq_ts rq) ops False name (gw_db s name) in
     (case fst out of Inr (rs, _) \<Rightarrow> render_results L rs | Inl (_, msg, _) \<Rightarrow> err 500 msg, apply_ops name out s))))))"

definition transaction :: "lib \<Rightarrow> 's config \<Rightarrow> request \<Rightarrow> 's gw \<Rightarrow> response \<times> 's gw" where
  "transaction L cf rq s =
     halt (deny_if_read_only cf) s
     (or_return (resolve_db_name (rq_query rq)) s (\<lambda>name.
     or_return (decode_body L (rq_body rq)) s (\<lambda>ops.
     halt (deny (cf_max_batch_ops cf < length ops)
       (err_code 400 (''too many ops (max '' @ show_nat (cf_max_batch_ops cf) @ '')'') ''bad-request'')) s
     (or_return (db_for cf name) s (\<lambda>d.
     let out = run_ops L d (cf_policy cf) (rq_auth rq) (rq_ts rq) ops True name (gw_db s name) in
     (case fst out of Inr (rs, _) \<Rightarrow> render_results L rs | Inl (st, msg, code) \<Rightarrow> err_code st msg code, apply_ops name out s))))))"

fun driver_err :: "app_error \<Rightarrow> response" where
  "driver_err (BadRequest m) = err 400 m"
| "driver_err PermissionDenied = forbidden"
| "driver_err NotFound = err 404 ''not found''"
| "driver_err AlreadyExists = err 400 ''already exists''"
| "driver_err (Conflict m) = err 409 m"
| "driver_err (Internal m) = err 500 m"
| "driver_err (Unsupported m) = err 501 m"

definition relocate_gate :: "'s config \<Rightarrow> auth_context option \<Rightarrow> string \<Rightarrow> string \<Rightarrow> string \<Rightarrow> string \<Rightarrow> response option" where
  "relocate_gate cf auth name src dst i =
     (let shell = \<lparr>d_id = i, d_data = []\<rparr>; p = cf_policy cf in
      if valid_names src (Some i) \<noteq> None then Some (err 400 ''invalid doc id'')
      else if \<not> policy_allow p auth (dotted name src) Get (Some shell) then Some forbidden
      else if \<not> policy_allow p auth (dotted name src) Delete (Some shell) then Some forbidden
      else if \<not> policy_allow p auth (dotted name dst) Create (Some shell) then Some forbidden
      else None)"

fun first_some :: "'a option list \<Rightarrow> 'a option" where
  "first_some [] = None"
| "first_some (x # xs) = (case x of Some a \<Rightarrow> Some a | None \<Rightarrow> first_some xs)"

definition relocate_names :: "string \<Rightarrow> response option" where
  "relocate_names col =
     (if denied_internal col \<noteq> None then Some (err 403 ''reserved __ prefix'')
      else if valid_names col None \<noteq> None then Some (err 400 ''invalid collection name'')
      else None)"

definition relocate :: "'s config \<Rightarrow> request \<Rightarrow> 's gw \<Rightarrow> response \<times> 's gw" where
  "relocate cf rq s =
     halt (deny_if_read_only cf) s
     (or_return (resolve_db_name (rq_query rq)) s (\<lambda>name.
     or_return (required ''body requires {src, dst, ids[]}'' (nonempty_str (jget (rq_body rq) ''src''))) s (\<lambda>src.
     or_return (required ''body requires {src, dst, ids[]}'' (nonempty_str (jget (rq_body rq) ''dst''))) s (\<lambda>dst.
     let ids = (case Option.bind (jget (rq_body rq) ''ids'') as_array of None \<Rightarrow> [] | Some a \<Rightarrow> filter_map as_str a) in
     halt (deny (cf_max_batch_ops cf < length ids) (err 400 (''too many ids (max '' @ show_nat (cf_max_batch_ops cf) @ '')''))) s
     (halt (first_some (map relocate_names [src, dst])) s
     (or_return (db_for cf name) s (\<lambda>d.
     halt (first_some (map (relocate_gate cf (rq_auth rq) name src dst) ids)) s
     (case on_db name (\<lambda>t. db_relocate d t src dst ids) s of
        (Inr (moved, missing), s') \<Rightarrow>
          (resp 200 (BJson (JObj [(''missing'', JArr (map JStr missing)), (''moved'', JArr (map JStr moved))])), s')
      | (Inl e, s') \<Rightarrow> (driver_err e, s')))))))))"

end
