(* ===== verification/Guarantees.thy ===== *)
theory Guarantees
  imports Batch
begin

text \<open>
  What the document routes guarantee over any drivers that meet the store contract: a request that
  is not answered with 200 changes no document, every change of a document was permitted by the
  policy on a valid, unreserved collection, and what the successful writes store.
\<close>

section \<open>Outcomes\<close>

definition gw_docs :: "('s \<Rightarrow> docs) \<Rightarrow> 's gw \<Rightarrow> string \<Rightarrow> docs" where
  "gw_docs view s n = view (gw_db s n)"

definition gw_ok :: "('s \<Rightarrow> bool) \<Rightarrow> 's gw \<Rightarrow> bool" where
  "gw_ok I s \<longleftrightarrow> (\<forall>n. I (gw_db s n))"

text \<open>Nothing a client can observe has changed.\<close>

definition quiet :: "('s \<Rightarrow> docs) \<Rightarrow> 's gw \<Rightarrow> 's gw \<Rightarrow> bool" where
  "quiet view s s' \<longleftrightarrow> gw_docs view s' = gw_docs view s \<and> gw_pending s' = gw_pending s \<and> gw_bus s' = gw_bus s"

text \<open>
  A document change that the gates allow: not in maintenance, not in a reserved collection, and
  some decision of the policy for this caller on this collection passed. Updates and deletions are
  decided on the stored document, or on none.
\<close>

definition permitted :: "'s config \<Rightarrow> ('s \<Rightarrow> docs) \<Rightarrow> auth_context option \<Rightarrow> 's gw \<Rightarrow> string \<Rightarrow> string \<Rightarrow> string \<Rightarrow> bool" where
  "permitted cf view auth s n c i \<longleftrightarrow> \<not> cf_read_only cf \<and> denied_internal c = None \<and> valid_collection_path c
     \<and> (\<exists>m res. (m = Create \<or> m \<in> {Update, Delete} \<and> res \<in> {None, gw_docs view s n (c, i)})
          \<and> policy_allow (cf_policy cf) auth (dotted n c) m res)"

definition outcome_ok :: "'s config \<Rightarrow> ('s \<Rightarrow> docs) \<Rightarrow> ('s \<Rightarrow> bool) \<Rightarrow> auth_context option \<Rightarrow> 's gw \<Rightarrow> response \<times> 's gw \<Rightarrow> bool" where
  "outcome_ok cf view I auth s out \<longleftrightarrow> gw_ok I (snd out)
     \<and> (r_status (fst out) \<noteq> 200 \<longrightarrow> quiet view s (snd out))
     \<and> (\<forall>n c i. gw_docs view (snd out) n (c, i) \<noteq> gw_docs view s n (c, i) \<longrightarrow> permitted cf view auth s n c i)"

lemma quiet_refl [simp]: "quiet view s s"
  by (simp add: quiet_def)

lemma outcome_stay: "gw_ok I s1 \<Longrightarrow> quiet view s s1 \<Longrightarrow> outcome_ok cf view I auth s (r, s1)"
  by (simp add: outcome_ok_def quiet_def)

lemma outcome_halt:
  "gw_ok I s1 \<Longrightarrow> quiet view s s1 \<Longrightarrow> (g = None \<Longrightarrow> outcome_ok cf view I auth s X)
   \<Longrightarrow> outcome_ok cf view I auth s (halt g s1 X)"
  by (auto simp: halt_def outcome_stay split: option.split)

lemma outcome_return:
  "gw_ok I s1 \<Longrightarrow> quiet view s s1 \<Longrightarrow> (\<And>a. x = Inr a \<Longrightarrow> outcome_ok cf view I auth s (k a))
   \<Longrightarrow> outcome_ok cf view I auth s (or_return x s1 k)"
  by (auto simp: or_return_def outcome_stay split: sum.split)

lemma deny_None [simp]: "deny b r = None \<longleftrightarrow> \<not> b"
  by (simp add: deny_def)

lemma deny_if_read_only_None [simp]: "deny_if_read_only cf = None \<longleftrightarrow> \<not> cf_read_only cf"
  by (simp add: deny_if_read_only_def)

lemma valid_names_None:
  "valid_names c j = None \<longleftrightarrow> valid_collection_path c \<and> (case j of None \<Rightarrow> True | Some i \<Rightarrow> valid_doc_id i)"
  by (simp add: valid_names_def split: option.split)

lemma resp_status [simp]: "r_status (resp c b) = c"
  by (simp add: resp_def)

lemma forbidden_status [simp]: "r_status forbidden = 403" "r_status (err c m) = c"
  by (simp_all add: forbidden_def err_def)

lemma gw_updates [simp]:
  "gw_docs view (s\<lparr>gw_pending := p\<rparr>) = gw_docs view s" "gw_docs view (s\<lparr>gw_bus := b\<rparr>) = gw_docs view s"
  "gw_ok I (s\<lparr>gw_pending := p\<rparr>) = gw_ok I s" "gw_ok I (s\<lparr>gw_bus := b\<rparr>) = gw_ok I s"
  "gw_docs view (emit c e s) = gw_docs view s" "gw_ok I (emit c e s) = gw_ok I s"
  by (simp_all add: gw_docs_def gw_ok_def emit_def fun_eq_iff)

lemma error_status [simp]: "status_code e \<noteq> 200"
  by (cases e) auto

lemma app_err_status [simp]: "r_status (app_err e) = status_code e"
  by (simp add: app_err_def err_code_def)

section \<open>Batches over one store\<close>

text \<open>What the gate establishes about an operation, against the documents at the start.\<close>

definition gated_ok :: "policy_file \<Rightarrow> auth_context option \<Rightarrow> bool \<Rightarrow> string \<Rightarrow> docs \<Rightarrow> gated \<Rightarrow> bool" where
  "gated_ok p auth is_tx name v g \<longleftrightarrow> (let c = b_collection (g_body g) in
     denied_internal c = None \<and> valid_collection_path c \<and> valid_doc_id (g_id g) \<and> g_pol g = dotted name c
     \<and> g_existing g = v (c, g_id g) \<and> g_method g = op_method (op_type g) (g_existing g \<noteq> None) is_tx
     \<and> policy_allow p auth (g_pol g) (g_method g) (g_existing g))"

lemma spec_tx_frame:
  "spec_tx v ops = Some (xs, w) \<Longrightarrow> w k \<noteq> v k \<Longrightarrow> \<exists>p \<in> set ops. (t_collection p, t_id p) = k \<and> t_kind p \<noteq> TxRead"
proof (induction ops arbitrary: v xs)
  case (Cons p ops)
  then obtain x v' ys where st: "spec_tx_op v p = Some (x, v')" "spec_tx v' ops = Some (ys, w)"
    by (auto split: option.splits)
  show ?case
  proof (cases "v' k = v k")
    case True
    then show ?thesis using Cons.IH [OF st(2)] Cons.prems(2) by auto
  next
    case False
    then show ?thesis using st(1) by (auto simp: spec_tx_op_def Let_def split: tx_kind.splits if_splits)
  qed
qed simp

context gateway_store
begin

lemma gate_op_ok:
  assumes "inv s" "gate_op db p auth is_tx name q s = (r, s')"
  shows "inv s' \<and> view s' = view s \<and> (case r of Inl e \<Rightarrow> fst e \<noteq> 200 | Inr g \<Rightarrow> gated_ok p auth is_tx name (view s) g)"
proof -
  have flat: "ok_flatten (db_get db s c i) = view s (c, i)" for c i
    using get_flat [OF assms(1)] by (simp add: ok_flatten_def)
  show ?thesis
    using assms ensured [OF assms(1)]
    by (auto simp: gate_op_def Let_def gated_ok_def op_type_def flat split: if_splits)
qed

lemma gate_ops_ok:
  assumes "inv s" "gate_ops db p auth is_tx name ops s = (r, s')"
  shows "inv s' \<and> view s' = view s
    \<and> (case r of Inl e \<Rightarrow> fst e \<noteq> 200 | Inr gs \<Rightarrow> \<forall>g \<in> set gs. gated_ok p auth is_tx name (view s) g)"
  using assms
proof (induction ops arbitrary: s r s')
  case (Cons q ops)
  obtain rq s1 where q: "gate_op db p auth is_tx name q s = (rq, s1)" by fastforce
  note g = gate_op_ok [OF Cons.prems(1) q]
  show ?case
  proof (cases rq)
    case (Inl e)
    then show ?thesis using Cons.prems(2) g by (auto simp: q)
  next
    case (Inr x)
    obtain rs s2 where t: "gate_ops db p auth is_tx name ops s1 = (rs, s2)" by fastforce
    from Cons.IH [OF _ t] g Inr Cons.prems(2) show ?thesis
      by (auto simp: q t split: sum.splits)
  qed
qed auto

text \<open>A run either fails and changes no document, or is the sequential specification of its operations.\<close>

lemma run_ops_ok:
  assumes "inv s" "run_ops L db p auth ts ops is_tx name s = (r, s')"
  shows "inv s' \<and> (case r of
      Inl e \<Rightarrow> fst e \<noteq> 200 \<and> view s' = view s
    | Inr out \<Rightarrow> \<exists>gs txs xs. (\<forall>g \<in> set gs. gated_ok p auth is_tx name (view s) g)
        \<and> list_all2 (\<lambda>g t. prepare_op L p auth ts is_tx g = Inr t) gs txs
        \<and> spec_tx (view s) txs = Some (xs, view s')
        \<and> out = (map (op_result L is_tx) (zip gs xs), filter_map op_change (zip gs txs)))"
proof -
  obtain rg s1 where g: "gate_ops db p auth is_tx name ops s = (rg, s1)" by fastforce
  note ok = gate_ops_ok [OF assms(1) g]
  show ?thesis
  proof (cases rg)
    case (Inl e)
    then show ?thesis using assms(2) ok by (auto simp: run_ops_def g)
  next
    case (Inr gs)
    show ?thesis
    proof (cases "supports_transactions (db_capabilities db)")
      case False
      then show ?thesis using assms(2) ok by (auto simp: run_ops_def g Inr)
    next
      case caps: True
      show ?thesis
      proof (cases "collect_res (map (prepare_op L p auth ts is_tx) gs)")
        case (Inl e)
        then have "fst e \<noteq> 200" by (auto dest!: collect_res_err simp: prepare_op_def Let_def split: if_splits)
        then show ?thesis using assms(2) ok caps Inl by (auto simp: run_ops_def g Inr)
      next
        case txs: (Inr txs)
        obtain rt s2 where t: "db_run_transaction db s1 txs = (rt, s2)" by fastforce
        have "inv s1" using ok by simp
        note v = tx_view [OF this t]
        show ?thesis
        proof (cases rt)
          case (Inl e)
          then show ?thesis using v assms(2) ok caps by (auto simp: run_ops_def g Inr txs t)
        next
          case outs: (Inr xs)
          have "r = Inr (map (op_result L is_tx) (zip gs xs), filter_map op_change (zip gs txs))" "s' = s2"
            using assms(2) caps by (simp_all add: run_ops_def g Inr txs t outs)
          then show ?thesis using v ok Inr outs collect_res_map [OF txs] by (simp, blast)
        qed
      qed
    qed
  qed
qed

end

section \<open>Over any drivers that meet the contract\<close>

locale gateway =
  fixes cf :: "'s config"
    and view :: "'s \<Rightarrow> docs"
    and I :: "'s \<Rightarrow> bool"
  assumes drivers: "dget (cf_dbs cf) n = Some d \<Longrightarrow> gateway_store d view I"
begin

lemma db_for_store: "db_for cf n = Inr d \<Longrightarrow> gateway_store d view I"
  by (auto simp: db_for_def intro: drivers split: option.splits if_splits)

lemma on_db_ok: "gw_ok I s \<Longrightarrow> I t \<Longrightarrow> gw_ok I (s\<lparr>gw_db := (gw_db s)(n := t)\<rparr>)"
  by (simp add: gw_ok_def)

lemma gw_ok_at: "gw_ok I s \<Longrightarrow> I (gw_db s n)"
  by (simp add: gw_ok_def)

text \<open>A driver operation that keeps the documents, and one that replaces one of them.\<close>

lemma on_db_quiet:
  assumes "gw_ok I s" "on_db n f s = (r, s')" "\<And>r t. f (gw_db s n) = (r, t) \<Longrightarrow> I t \<and> view t = view (gw_db s n)"
  shows "gw_ok I s' \<and> quiet view s s'"
  using assms by (auto simp: on_db_def quiet_def gw_docs_def fun_eq_iff intro: on_db_ok split: prod.splits)

lemma ensure_quiet:
  assumes "gw_ok I s" "db_for cf n = Inr d"
  shows "gw_ok I (ensure d n c s) \<and> quiet view s (ensure d n c s)"
  unfolding ensure_def
  by (rule on_db_quiet [OF assms(1) prod.collapse [symmetric]])
    (rule document_store.ensure_view [OF gateway_store.axioms(1) [OF db_for_store [OF assms(2)]] gw_ok_at [OF assms(1)]])

lemma flat_get:
  "gw_ok I s \<Longrightarrow> db_for cf n = Inr d \<Longrightarrow> ok_flatten (db_get d (gw_db s n) c i) = gw_docs view s n (c, i)"
  using gateway_store.get_flat [OF db_for_store gw_ok_at] by (simp add: ok_flatten_def gw_docs_def)

lemma flat_get_if:
  "gw_ok I s \<Longrightarrow> db_for cf n = Inr d \<Longrightarrow> (if b then None else ok_flatten (db_get d (gw_db s n) c i)) = Some x
   \<Longrightarrow> gw_docs view s n (c, i) = Some x"
  by (simp add: flat_get split: if_splits)

text \<open>One document is replaced, after steps that changed nothing.\<close>

lemma one_change:
  assumes "gw_ok I s1" "quiet view s s1"
    and step: "\<And>r t. f (gw_db s1 n) = (r, t) \<Longrightarrow> I t \<and>
      (case r of Inl e \<Rightarrow> view t = view (gw_db s1 n) | Inr x \<Rightarrow> \<exists>v. view t = (view (gw_db s1 n))((c, key x) := v))"
    and "\<And>x. permitted cf view auth s n c (key x)"
    and "\<And>x. r_status (g x) = 200" "\<And>x s2. gw_docs view (h x s2) = gw_docs view s2 \<and> gw_ok I (h x s2) = gw_ok I s2"
  shows "outcome_ok cf view I auth s (case on_db n f s1 of (Inr x, s2) \<Rightarrow> (g x, h x s2) | (Inl e, s2) \<Rightarrow> (app_err e, s2))"
proof -
  obtain r t where f: "f (gw_db s1 n) = (r, t)" by fastforce
  let ?s2 = "s1\<lparr>gw_db := (gw_db s1)(n := t)\<rparr>"
  have o: "on_db n f s1 = (r, ?s2)" by (simp add: on_db_def f)
  have ok: "gw_ok I ?s2" using assms(1) step [OF f] by (simp add: on_db_ok)
  show ?thesis
  proof (cases r)
    case (Inl e)
    then have "gw_docs view ?s2 = gw_docs view s1"
      using step [OF f] by (simp add: gw_docs_def fun_eq_iff)
    then have "quiet view s ?s2" using assms(2) by (simp add: quiet_def)
    then show ?thesis using ok by (simp add: o Inl outcome_stay)
  next
    case (Inr x)
    then obtain v where "view t = (view (gw_db s1 n))((c, key x) := v)" using step [OF f] by auto
    then have "gw_docs view ?s2 = (gw_docs view s1)(n := (gw_docs view s1 n)((c, key x) := v))"
      by (simp add: gw_docs_def fun_eq_iff)
    moreover have "gw_docs view s1 = gw_docs view s" using assms(2) by (simp add: quiet_def)
    ultimately have "gw_docs view ?s2 n' (c', i') \<noteq> gw_docs view s n' (c', i') \<Longrightarrow> permitted cf view auth s n' c' i'"
      for n' c' i' using assms(4) by (auto split: if_splits)
    then show ?thesis using ok assms(5,6) by (auto simp: o Inr outcome_ok_def)
  qed
qed

lemma no_change:
  assumes "gw_ok I s1" "quiet view s s1" "\<And>r t. f (gw_db s1 n) = (r, t) \<Longrightarrow> I t \<and> view t = view (gw_db s1 n)"
  shows "outcome_ok cf view I auth s (case on_db n f s1 of (Inr x, s2) \<Rightarrow> (g x, s2) | (Inl e, s2) \<Rightarrow> (b e, s2))"
proof -
  obtain r s2 where o: "on_db n f s1 = (r, s2)" by fastforce
  have "gw_ok I s2 \<and> quiet view s1 s2" by (rule on_db_quiet [OF assms(1) o assms(3)])
  then have "gw_ok I s2" "quiet view s s2" using assms(2) by (auto simp: quiet_def)
  then show ?thesis by (auto simp: o outcome_stay split: sum.split)
qed

subsection \<open>The routes\<close>

lemma permittedI:
  assumes "\<not> cf_read_only cf" "denied_internal c = None" "valid_collection_path c"
    "policy_allow (cf_policy cf) auth (dotted n c) m res" "m = Create \<or> m \<in> {Update, Delete} \<and> res \<in> {None, gw_docs view s n (c, i)}"
  shows "permitted cf view auth s n c i"
  using assms unfolding permitted_def by blast

lemma index_create_inner_ok:
  assumes "gw_ok I s"
  shows "outcome_ok cf view I (rq_auth rq) s (index_create_inner L cf rq s c n)"
  unfolding index_create_inner_def
proof (intro outcome_halt outcome_return)
  fix spec d
  assume "db_for cf n = Inr d"
  note e = ensure_quiet [OF assms this, of c] and st = db_for_store [OF this]
  show "outcome_ok cf view I (rq_auth rq) s (case on_db n (\<lambda>t. db_create_index d t c spec) (ensure d n c s) of
      (Inr info, s') \<Rightarrow> (resp 200 (BIndex info), s') | (Inl e, s') \<Rightarrow> (app_err e, s'))"
  proof (rule no_change)
    show "gw_ok I (ensure d n c s)" "quiet view s (ensure d n c s)" using e by auto
    show "\<And>r t. db_create_index d (gw_db (ensure d n c s) n) c spec = (r, t) \<Longrightarrow> I t \<and> view t = view (gw_db (ensure d n c s) n)"
      by (rule gateway_store.create_index_view [OF st gw_ok_at]) (use e in auto)
  qed
qed (use assms in simp_all)

lemma index_create_ok: "gw_ok I s \<Longrightarrow> outcome_ok cf view I (rq_auth rq) s (index_create L cf rq s)"
  unfolding index_create_def by (intro outcome_return) (simp_all add: index_create_inner_ok)

lemma index_drop_ok:
  assumes "gw_ok I s"
  shows "outcome_ok cf view I (rq_auth rq) s (index_drop cf rq s)"
proof -
  have "outcome_ok cf view I (rq_auth rq) s (case on_db n (\<lambda>t. db_drop_index d t c ix) s of
      (Inr x, s') \<Rightarrow> (ok_true, s') | (Inl e, s') \<Rightarrow> (app_err e, s'))" if "db_for cf n = Inr d" for n d c ix
    by (rule no_change [OF assms quiet_refl gateway_store.drop_index_view [OF db_for_store [OF that] gw_ok_at [OF assms]]])
  then show ?thesis
    unfolding index_drop_def using assms
    by (auto intro!: outcome_halt outcome_return outcome_stay split: option.split)
qed

lemma create_collection_ok:
  assumes "gw_ok I s"
  shows "outcome_ok cf view I (rq_auth rq) s (create_collection cf rq s)"
proof -
  have "outcome_ok cf view I (rq_auth rq) s (case on_db n (\<lambda>t. db_ensure_collection d t c) s of
      (Inr x, s') \<Rightarrow> (ok_true, s') | (Inl e, s') \<Rightarrow> (err_internal, s'))" if "db_for cf n = Inr d" for n d c
    by (rule no_change [OF assms quiet_refl document_store.ensure_view
          [OF gateway_store.axioms(1) [OF db_for_store [OF that]] gw_ok_at [OF assms]]])
  then show ?thesis
    unfolding create_collection_def using assms by (auto intro!: outcome_halt outcome_return)
qed

lemma create_ok:
  assumes "gw_ok I s"
  shows "outcome_ok cf view I (rq_auth rq) s (create L cf rq s)"
proof -
  have main: "outcome_ok cf view I (rq_auth rq) s (case on_db n (\<lambda>t. db_insert d t c x) (ensure d n c s) of
      (Inr x, s2) \<Rightarrow> (resp 200 (BDoc x), emit pol (put_change pol (d_id x) (Some x)) s2) | (Inl e, s2) \<Rightarrow> (app_err e, s2))"
    if g: "\<not> cf_read_only cf" "denied_internal c = None" "valid_collection_path c" "db_for cf n = Inr d"
      "policy_allow (cf_policy cf) (rq_auth rq) (dotted n c) Create res" for n d c x pol res
  proof (rule one_change [where key = d_id and c = c])
    note e = ensure_quiet [OF assms g(4), of c]
    show "gw_ok I (ensure d n c s)" "quiet view s (ensure d n c s)" using e by auto
    fix r t
    assume "db_insert d (gw_db (ensure d n c s) n) c x = (r, t)"
    from gateway_store.insert_view [OF db_for_store [OF g(4)] gw_ok_at this] e
    show "I t \<and> (case r of Inl e \<Rightarrow> view t = view (gw_db (ensure d n c s) n)
        | Inr x \<Rightarrow> \<exists>v. view t = (view (gw_db (ensure d n c s) n))((c, d_id x) := v))"
      by (auto split: sum.splits)
  qed (use g in \<open>auto intro: permittedI\<close>)
  have quiet: "gw_ok I (ensure d n c s)" "quiet view s (ensure d n c s)" if "db_for cf n = Inr d" for d n c
    using ensure_quiet [OF assms that] by auto
  show ?thesis
    unfolding create_def Let_def
    by (auto intro!: outcome_halt outcome_return outcome_stay main quiet index_create_inner_ok assms
        simp: valid_names_None split: option.split path_kind.split)
qed

lemma write_doc_ok:
  assumes "gw_ok I s" "\<not> cf_read_only cf"
  shows "outcome_ok cf view I (rq_auth rq) s (write_doc L cf rq s merge n)"
proof -
  have main: "outcome_ok cf view I (rq_auth rq) s (case on_db n (\<lambda>t. db_set d t c i x False) (ensure d n c s) of
      (Inr x, s2) \<Rightarrow> (ok_true, emit pol (put_change pol i (Some x)) s2) | (Inl e, s2) \<Rightarrow> (app_err e, s2))"
    if g: "denied_internal c = None" "valid_collection_path c" "db_for cf n = Inr d"
      "policy_allow (cf_policy cf) (rq_auth rq) (dotted n c) Update res" "res \<in> {None, gw_docs view s n (c, i)}"
    for d c i x pol res
  proof (rule one_change [where key = "\<lambda>_. i" and c = c])
    note e = ensure_quiet [OF assms(1) g(3), of c]
    show "gw_ok I (ensure d n c s)" "quiet view s (ensure d n c s)" using e by auto
    fix r t
    assume "db_set d (gw_db (ensure d n c s) n) c i x False = (r, t)"
    from document_store.set_view [OF gateway_store.axioms(1) [OF db_for_store [OF g(3)]] gw_ok_at this] e
    show "I t \<and> (case r of Inl e \<Rightarrow> view t = view (gw_db (ensure d n c s) n)
        | Inr x \<Rightarrow> \<exists>v. view t = (view (gw_db (ensure d n c s) n))((c, i) := v))"
      by (auto split: sum.splits)
  qed (use g assms in \<open>auto simp: ok_true_def intro: permittedI\<close>)
  have quiet: "gw_ok I (ensure d n c s)" "quiet view s (ensure d n c s)" if "db_for cf n = Inr d" for d n c
    using ensure_quiet [OF assms(1) that] by auto
  have taken: "outcome_ok cf view I (rq_auth rq) s (ok_true, s\<lparr>gw_pending := co\<rparr>)" for co
    using assms(1) by (simp add: outcome_ok_def ok_true_def)
  show ?thesis
    unfolding write_doc_def Let_def
    by (auto intro!: outcome_halt outcome_return outcome_stay main quiet taken assms(1)
        dest: flat_get_if [OF assms(1)] simp: valid_names_None flat_get [OF assms(1)] split: option.split path_kind.split)
qed

lemma put_ok: "gw_ok I s \<Longrightarrow> outcome_ok cf view I (rq_auth rq) s (put L cf rq s)"
  unfolding put_def by (auto intro!: outcome_halt outcome_return write_doc_ok)

lemma patch_ok: "gw_ok I s \<Longrightarrow> outcome_ok cf view I (rq_auth rq) s (patch L cf rq s)"
  unfolding patch_def by (auto intro!: outcome_halt outcome_return write_doc_ok)

lemma remove_ok:
  assumes "gw_ok I s"
  shows "outcome_ok cf view I (rq_auth rq) s (remove L cf rq s)"
proof -
  have main: "outcome_ok cf view I (rq_auth rq) s
     (case on_db n (\<lambda>t. if force then db_delete_force d t c i else db_delete d t c i) (ensure d n c s) of
      (Inr x, s2) \<Rightarrow> (ok_true, emit pol (remove_change pol i) s2) | (Inl e, s2) \<Rightarrow> (app_err e, s2))"
    if g: "\<not> cf_read_only cf" "denied_internal c = None" "valid_collection_path c" "db_for cf n = Inr d"
      "policy_allow (cf_policy cf) (rq_auth rq) (dotted n c) Delete (gw_docs view s n (c, i))" for n d c i pol force
  proof (rule one_change [where key = "\<lambda>_. i" and c = c])
    note e = ensure_quiet [OF assms g(4), of c] and st = db_for_store [OF g(4)]
    show "gw_ok I (ensure d n c s)" "quiet view s (ensure d n c s)" using e by auto
    fix r t
    assume "(if force then db_delete_force d (gw_db (ensure d n c s) n) c i else db_delete d (gw_db (ensure d n c s) n) c i) = (r, t)"
    then show "I t \<and> (case r of Inl e \<Rightarrow> view t = view (gw_db (ensure d n c s) n)
        | Inr x \<Rightarrow> \<exists>v. view t = (view (gw_db (ensure d n c s) n))((c, i) := v))"
      using gateway_store.force_view [OF st gw_ok_at, of "ensure d n c s" n c i r t] e
        document_store.delete_view [OF gateway_store.axioms(1) [OF st] gw_ok_at, of "ensure d n c s" n c i r t]
      by (auto split: sum.splits if_splits)
  qed (use g in \<open>auto simp: ok_true_def intro: permittedI\<close>)
  have quiet: "gw_ok I (ensure d n c s)" "quiet view s (ensure d n c s)" if "db_for cf n = Inr d" for d n c
    using ensure_quiet [OF assms that] by auto
  show ?thesis
    unfolding remove_def Let_def
    by (auto intro!: outcome_halt outcome_return outcome_stay main quiet assms
        simp: valid_names_None flat_get [OF assms] split: path_kind.split)
qed

lemma ops_permitted:
  assumes "gated_ok (cf_policy cf) auth is_tx n (gw_docs view s n) g" "\<not> cf_read_only cf"
    "prepare_op L (cf_policy cf) auth ts is_tx g = Inr t" "t_kind t \<noteq> TxRead"
  shows "permitted cf view auth s n (t_collection t) (t_id t)"
proof -
  have t: "t_collection t = b_collection (g_body g)" "t_id t = g_id g" "op_type g \<noteq> ''get''"
    using assms(3,4) by (auto simp: prepare_op_def op_kind_def Let_def split: if_splits)
  have "g_method g \<in> {Create, Update, Delete}"
    using assms(1) t(3) by (auto simp: gated_ok_def op_method_def Let_def)
  then show ?thesis using assms(1,2)
    by (intro permittedI [where m = "g_method g" and res = "g_existing g"]) (auto simp: gated_ok_def Let_def t)
qed

lemma run_ops_outcome:
  assumes "gw_ok I s" "\<not> cf_read_only cf" "db_for cf n = Inr d"
    "run_ops L d (cf_policy cf) auth ts ops is_tx n (gw_db s n) = (r, t)"
    "\<And>e. r = Inl e \<Longrightarrow> fst e \<noteq> 200 \<Longrightarrow> r_status res \<noteq> 200" "\<And>x. r = Inr x \<Longrightarrow> r_status res = 200"
  shows "outcome_ok cf view I auth s (res, apply_ops n (r, t) s)"
proof -
  note run = gateway_store.run_ops_ok [OF db_for_store [OF assms(3)] gw_ok_at [OF assms(1)] assms(4)]
  let ?s1 = "s\<lparr>gw_db := (gw_db s)(n := t)\<rparr>"
  have ok: "gw_ok I ?s1" using run assms(1) by (simp add: on_db_ok)
  show ?thesis
  proof (cases r)
    case (Inl e)
    then have "gw_docs view ?s1 = gw_docs view s" using run by (simp add: gw_docs_def fun_eq_iff)
    then show ?thesis using ok Inl by (simp add: apply_ops_def outcome_stay quiet_def)
  next
    case (Inr x)
    then obtain gs txs xs where g: "\<forall>g \<in> set gs. gated_ok (cf_policy cf) auth is_tx n (view (gw_db s n)) g"
      "list_all2 (\<lambda>g t. prepare_op L (cf_policy cf) auth ts is_tx g = Inr t) gs txs"
      "spec_tx (view (gw_db s n)) txs = Some (xs, view t)" using run by auto
    have "permitted cf view auth s n c i" if ne: "view t (c, i) \<noteq> view (gw_db s n) (c, i)" for c i
    proof -
      obtain q where q: "q \<in> set txs" "t_collection q = c" "t_id q = i" "t_kind q \<noteq> TxRead"
        using spec_tx_frame [OF g(3) ne] by auto
      obtain a where "a \<in> set gs" "prepare_op L (cf_policy cf) auth ts is_tx a = Inr q"
        using list_all2_member [OF g(2) q(1)] by blast
      then show ?thesis using ops_permitted [OF _ assms(2) _ q(4)] g(1) q by (auto simp: gw_docs_def)
    qed
    then have "gw_docs view ?s1 n' (c, i) \<noteq> gw_docs view s n' (c, i) \<Longrightarrow> permitted cf view auth s n' c i" for n' c i
      by (auto simp: gw_docs_def split: if_splits)
    then show ?thesis using ok assms(6) Inr by (auto simp: apply_ops_def outcome_ok_def split: prod.split)
  qed
qed

lemma batch_ok: "gw_ok I s \<Longrightarrow> outcome_ok cf view I (rq_auth rq) s (batch L cf rq s)"
  unfolding batch_def Let_def
  by (intro outcome_halt outcome_return)
    (auto intro!: run_ops_outcome [OF _ _ _ prod.collapse [symmetric], unfolded prod.collapse]
      simp: err_def render_results_def split: sum.split prod.split)

lemma transaction_ok: "gw_ok I s \<Longrightarrow> outcome_ok cf view I (rq_auth rq) s (transaction L cf rq s)"
  unfolding transaction_def Let_def
  by (intro outcome_halt outcome_return)
    (auto intro!: run_ops_outcome [OF _ _ _ prod.collapse [symmetric], unfolded prod.collapse]
      simp: err_code_def render_results_def split: sum.split prod.split)

end

text \<open>The writing routes, and a gateway over in-memory drivers with transactions.\<close>

definition write_routes :: "lib \<Rightarrow> 's config \<Rightarrow> (request \<Rightarrow> 's gw \<Rightarrow> response \<times> 's gw) list" where
  "write_routes L cf = [put L cf, patch L cf, create L cf, remove L cf, batch L cf, transaction L cf,
     create_collection cf, index_create L cf, index_drop cf]"

definition tx_caps :: capabilities where
  "tx_caps = mem_capabilities\<lparr>supports_transactions := True\<rparr>"

definition mem_config :: "policy_file \<Rightarrow> bool \<Rightarrow> mem_db config" where
  "mem_config p coalesce = \<lparr>cf_policy = p, cf_dbs = [(''default'', mem_driver 0\<lparr>db_capabilities := tx_caps\<rparr>)],
     cf_read_only = False, cf_coalesce_on = coalesce, cf_max_batch_ops = 500, cf_admin_uids = []\<rparr>"

lemma mem_config_db [simp]: "db_for (mem_config p co) ''default'' = Inr (mem_driver 0\<lparr>db_capabilities := tx_caps\<rparr>)"
  by (simp add: db_for_def mem_config_def)

interpretation memgw: gateway "mem_config p co" "\<lambda>s. view_of (store s)" mem_ok for p co
proof (rule gateway.intro)
  fix n d
  assume "dget (cf_dbs (mem_config p co)) n = Some d"
  then have "d = mem_driver 0\<lparr>db_capabilities := tx_caps\<rparr>" by (auto simp: mem_config_def split: if_splits)
  then show "gateway_store d (\<lambda>s. view_of (store s)) mem_ok"
    using gateway_store_caps [OF mem_gateway_store] by simp
qed

definition mem_gw :: "mem_db gw" where
  "mem_gw = \<lparr>gw_db = (\<lambda>n. mem_new), gw_pending = [], gw_bus = []\<rparr>"

lemma mem_gw_ok [simp]: "gw_ok mem_ok mem_gw"
  by (simp add: gw_ok_def mem_gw_def mem_new_def mem_ok_def store_ok_def)

definition plain_lib :: lib where
  "plain_lib = \<lparr>jtext = (\<lambda>_. []), quoted = (\<lambda>s. s), debug_str = (\<lambda>s. s), decode_query = (\<lambda>_. None),
     decode_ops = (\<lambda>_. None), decode_spec = (\<lambda>_. None)\<rparr>"

definition doc_request :: "string \<Rightarrow> json \<Rightarrow> request" where
  "doc_request path b = \<lparr>rq_auth = None, rq_path = path, rq_query = [], rq_if_none_match = None,
     rq_skip_rbw = None, rq_body = b, rq_now = 0, rq_ts = ''t0''\<rparr>"

definition closed_policy :: policy_file where
  "closed_policy = policy_open\<lparr>p_defaults := \<lparr>def_read = Deny, def_write = Deny\<rparr>\<rparr>"

lemma write_routes_ok:
  assumes "gateway cf view I" "gw_ok I s" "h \<in> set (write_routes L cf)"
  shows "outcome_ok cf view I (rq_auth rq) s (h rq s)"
  using assms(2,3) gateway.put_ok [OF assms(1,2), of rq L] gateway.patch_ok [OF assms(1,2), of rq L]
    gateway.create_ok [OF assms(1,2), of rq L] gateway.remove_ok [OF assms(1,2), of rq L]
    gateway.batch_ok [OF assms(1,2), of rq L] gateway.transaction_ok [OF assms(1,2), of rq L]
    gateway.create_collection_ok [OF assms(1,2), of rq] gateway.index_create_ok [OF assms(1,2), of rq L]
    gateway.index_drop_ok [OF assms(1,2), of rq]
  by (auto simp: write_routes_def)

section \<open>Properties\<close>

text \<open>
  C3. A request that is not answered with 200 changes nothing a client can see: over any drivers
  that meet the store contract, no document of any database, no pending PATCH and no event on the
  bus comes from a refused, failed or partly applied write, batch or transaction.
\<close>

theorem failed_requests_change_nothing:
  assumes "gateway cf view I" "gw_ok I s" "h \<in> set (write_routes L cf)" "r_status (fst (h rq s)) \<noteq> 200"
  shows "quiet view s (snd (h rq s)) \<and> gw_ok I (snd (h rq s))"
  using write_routes_ok [OF assms(1-3), of rq] assms(4) by (simp add: outcome_ok_def)

definition put_a :: request where
  "put_a = doc_request ''posts/a'' (JObj [(''n'', jint 1)])"

lemma closed_put: "r_status (fst (put plain_lib (mem_config closed_policy False) put_a mem_gw)) = 403"
  by code_simp

lemma failed_requests_change_nothing_witness:
  "quiet (\<lambda>s. view_of (store s)) mem_gw (snd (put plain_lib (mem_config closed_policy False) put_a mem_gw))"
  using failed_requests_change_nothing [OF memgw.gateway_axioms mem_gw_ok, of "put plain_lib (mem_config closed_policy False)"
      plain_lib closed_policy False put_a]
  by (simp add: write_routes_def closed_put)

text \<open>
  C1. Every document a writing route changes was open to the caller: the gateway is not in
  maintenance, the collection is valid and not reserved, and the policy granted this caller a
  write there, updates and deletions being decided on the stored document or on none.
\<close>

theorem changes_are_permitted:
  assumes "gateway cf view I" "gw_ok I s" "h \<in> set (write_routes L cf)"
    "gw_docs view (snd (h rq s)) n (c, i) \<noteq> gw_docs view s n (c, i)"
  shows "\<not> cf_read_only cf \<and> denied_internal c = None \<and> valid_collection_path c
    \<and> (\<exists>m res. (m = Create \<or> m \<in> {Update, Delete} \<and> res \<in> {None, gw_docs view s n (c, i)})
         \<and> policy_allow (cf_policy cf) (rq_auth rq) (dotted n c) m res)"
  using write_routes_ok [OF assms(1-3), of rq] assms(4) unfolding outcome_ok_def permitted_def by blast

lemma open_put: "Option.bind (dget (store (gw_db (snd (put plain_lib (mem_config policy_open False) put_a mem_gw)) ''default'')) ''posts'')
    (\<lambda>t. dget t ''a'') \<noteq> None"
  by code_simp

lemma changes_are_permitted_witness:
  "denied_internal ''posts'' = None \<and> valid_collection_path ''posts''"
  using changes_are_permitted [OF memgw.gateway_axioms mem_gw_ok, of "put plain_lib (mem_config policy_open False)"
      plain_lib policy_open False put_a "''default''" "''posts''" "''a''"] open_put
  by (simp add: write_routes_def gw_docs_def view_of_def mem_gw_def mem_new_def)



end
