(* ===== verification/Effects.thy ===== *)
theory Effects
  imports Guarantees
begin

text \<open>
  What successful requests do: a PUT stores exactly the prepared body, a PATCH either stores the
  merged body or adds to the pending one, a batch is the sequential specification of its prepared
  operations, and every read was permitted for what it returns.
\<close>

section \<open>Writes\<close>

text \<open>The document a PUT or PATCH is decided on and merged with.\<close>

definition consulted :: "'s config \<Rightarrow> ('s \<Rightarrow> docs) \<Rightarrow> request \<Rightarrow> 's gw \<Rightarrow> bool \<Rightarrow> string \<Rightarrow> string \<Rightarrow> string \<Rightarrow> doc option" where
  "consulted cf view rq s merge n c i =
     (if skip_rbw (cf_policy cf) (dotted n c) merge (rq_skip_rbw rq) then None else gw_docs view s n (c, i))"

definition stored_exactly :: "lib \<Rightarrow> 's config \<Rightarrow> ('s \<Rightarrow> docs) \<Rightarrow> request \<Rightarrow> bool \<Rightarrow> string \<Rightarrow> string \<Rightarrow> string \<Rightarrow> 's gw \<Rightarrow> 's gw \<Rightarrow> bool" where
  "stored_exactly L cf view rq merge n c i s s' \<longleftrightarrow>
     (let pol = dotted n c; existing = consulted cf view rq s merge n c i;
          data = write_data L (cf_policy cf) pol (rq_ts rq) i merge existing (rq_body rq);
          x = spec_put (gw_docs view s n) c i data False in
      policy_allow (cf_policy cf) (rq_auth rq) pol Update existing
      \<and> allow_fields (cf_policy cf) (rq_auth rq) pol Update data
      \<and> (merge \<longrightarrow> existing \<noteq> None)
      \<and> gw_docs view s' = (gw_docs view s)(n := (gw_docs view s n)((c, i) := Some x))
      \<and> gw_pending s' = gw_pending s \<and> gw_bus s' = gw_bus s @ [(pol, put_change pol i (Some x))])"

definition coalesced :: "lib \<Rightarrow> 's config \<Rightarrow> ('s \<Rightarrow> docs) \<Rightarrow> request \<Rightarrow> string \<Rightarrow> string \<Rightarrow> string \<Rightarrow> 's gw \<Rightarrow> 's gw \<Rightarrow> bool" where
  "coalesced L cf view rq n c i s s' \<longleftrightarrow>
     policy_allow (cf_policy cf) (rq_auth rq) (dotted n c) Update (gw_docs view s n (c, i))
     \<and> gw_docs view s n (c, i) \<noteq> None
     \<and> coalesce_patch L cf rq (gw_pending s) (dotted n c) i = Some (gw_pending s')
     \<and> gw_docs view s' = gw_docs view s \<and> gw_bus s' = gw_bus s"

lemma halt_cases: "halt g s1 X = out \<Longrightarrow> (g = None \<and> X = out) \<or> (\<exists>r. g = Some r \<and> out = (r, s1))"
  by (auto simp: halt_def split: option.splits)

lemma gate_status:
  "denied_internal c = Some r \<Longrightarrow> r_status r \<noteq> 200" "valid_names c j = Some r \<Longrightarrow> r_status r \<noteq> 200"
  "db_for cf n = Inl r \<Longrightarrow> r_status r \<noteq> 200" "resolve_db_name q = Inl r \<Longrightarrow> r_status r \<noteq> 200"
  "deny_if_read_only cf = Some r \<Longrightarrow> r_status r \<noteq> 200"
  by (auto simp: denied_internal_def valid_names_def db_for_def resolve_db_name_def deny_if_read_only_def err_def Let_def
      split: if_splits option.splits)

lemma halt_200:
  "r_status (fst (halt g s1 X)) = 200 \<Longrightarrow> (\<And>r. g = Some r \<Longrightarrow> r_status r \<noteq> 200) \<Longrightarrow> g = None \<and> halt g s1 X = X"
  by (auto simp: halt_def split: option.splits)

lemma return_200:
  "r_status (fst (or_return x s1 k)) = 200 \<Longrightarrow> (\<And>r. x = Inl r \<Longrightarrow> r_status r \<noteq> 200)
   \<Longrightarrow> \<exists>a. x = Inr a \<and> or_return x s1 k = k a"
  by (auto simp: or_return_def split: sum.splits)

context gateway
begin

lemma set_exact:
  assumes "gw_ok I s" "db_for cf n = Inr d"
    "(case on_db n (\<lambda>t. db_set d t c i x False) (ensure d n c s) of
      (Inr y, s2) \<Rightarrow> (ok_true, emit pol (put_change pol i (Some y)) s2) | (Inl e, s2) \<Rightarrow> (app_err e, s2)) = (r, s')"
    "r_status r = 200"
  shows "gw_docs view s' = (gw_docs view s)(n := (gw_docs view s n)((c, i) := Some (spec_put (gw_docs view s n) c i (d_data x) False)))
    \<and> gw_pending s' = gw_pending s
    \<and> gw_bus s' = gw_bus s @ [(pol, put_change pol i (Some (spec_put (gw_docs view s n) c i (d_data x) False)))]"
proof -
  let ?s1 = "ensure d n c s"
  have q: "gw_ok I ?s1" "quiet view s ?s1" using ensure_quiet [OF assms(1,2)] by auto
  obtain y t where y: "db_set d (gw_db ?s1 n) c i x False = (Inr y, t)"
    using assms(3,4) by (cases "db_set d (gw_db ?s1 n) c i x False"; cases "fst (db_set d (gw_db ?s1 n) c i x False)")
      (auto simp: on_db_def)
  have "view t = (view (gw_db ?s1 n))((c, i) := Some y)" "y = spec_put (view (gw_db ?s1 n)) c i (d_data x) False"
    using document_store.set_view [OF gateway_store.axioms(1) [OF db_for_store [OF assms(2)]] gw_ok_at [OF q(1)] y] by auto
  moreover have "view (gw_db ?s1 m) = gw_docs view s m" for m using q(2) by (simp add: quiet_def gw_docs_def fun_eq_iff)
  ultimately show ?thesis
    using assms(3) q(2) by (auto simp: on_db_def y gw_docs_def fun_eq_iff quiet_def emit_def)
qed

lemma write_doc_200:
  assumes "gw_ok I s" "write_doc L cf rq s merge n = (r, s')" "r_status r = 200"
  shows "\<exists>c i. parse_collection_path (rq_path rq) = Document c i
    \<and> (stored_exactly L cf view rq merge n c i s s' \<or> merge \<and> coalesced L cf view rq n c i s s')"
proof (cases "parse_collection_path (rq_path rq)")
  case (Collection c)
  then show ?thesis using assms(2,3) by (auto simp: write_doc_def)
next
  case (Document c i)
  have g: "denied_internal c = None" "valid_names c (Some i) = None"
    using assms(2,3) gate_status(1) [of c] gate_status(2) [of c "Some i"]
    by (auto simp: write_doc_def Document halt_def split: option.splits)
  obtain d where d: "db_for cf n = Inr d"
    using assms(2,3) gate_status(3) [of cf n] by (cases "db_for cf n") (auto simp: write_doc_def Document halt_def g or_return_def)
  let ?e = "consulted cf view rq s merge n c i"
  let ?pol = "dotted n c"
  let ?data = "write_data L (cf_policy cf) ?pol (rq_ts rq) i merge ?e (rq_body rq)"
  have e: "(if skip_rbw (cf_policy cf) ?pol merge (rq_skip_rbw rq) then None else ok_flatten (db_get d (gw_db s n) c i)) = ?e"
    by (simp add: consulted_def flat_get [OF assms(1) d])
  note w = assms(2) [unfolded write_doc_def Document path_kind.case g d Let_def e halt_def or_return_def sum.case option.case]
  have a: "policy_allow (cf_policy cf) (rq_auth rq) ?pol Update ?e" "merge \<longrightarrow> ?e \<noteq> None"
    using w assms(3) by (auto simp: deny_def split: if_splits)
  show ?thesis
  proof (cases "if merge then coalesce_patch L cf rq (gw_pending s) ?pol i else None")
    case (Some co)
    then have m: "merge" "coalesce_patch L cf rq (gw_pending s) ?pol i = Some co" by (auto split: if_splits)
    then have "s' = s\<lparr>gw_pending := co\<rparr>" using w a by (auto simp: deny_def)
    moreover have "?e = gw_docs view s n (c, i)" using m by (simp add: consulted_def skip_rbw_def)
    ultimately show ?thesis using Document a m by (auto simp: coalesced_def)
  next
    case None
    then have f: "allow_fields (cf_policy cf) (rq_auth rq) ?pol Update ?data"
      and t: "(case on_db n (\<lambda>t. db_set d t c i \<lparr>d_id = i, d_data = ?data\<rparr> False) (ensure d n c s) of
        (Inr y, s2) \<Rightarrow> (ok_true, emit ?pol (put_change ?pol i (Some y)) s2) | (Inl e, s2) \<Rightarrow> (app_err e, s2)) = (r, s')"
      using w a assms(3) by (auto simp: deny_def split: if_splits)
    show ?thesis using set_exact [OF assms(1) d t assms(3)] Document a f by (simp add: stored_exactly_def Let_def)
  qed
qed

lemma put_200:
  assumes "gw_ok I s" "put L cf rq s = (r, s')" "r_status r = 200"
  shows "\<exists>n c i. resolve_db_name (rq_query rq) = Inr n \<and> parse_collection_path (rq_path rq) = Document c i
    \<and> stored_exactly L cf view rq False n c i s s'"
  using assms(2,3) gate_status(4) [of "rq_query rq"] gate_status(5) [of cf] write_doc_200 [OF assms(1) _ assms(3), of L rq False]
  by (auto simp: put_def halt_def or_return_def split: option.splits sum.splits)

lemma patch_200:
  assumes "gw_ok I s" "patch L cf rq s = (r, s')" "r_status r = 200"
  shows "\<exists>n c i. resolve_db_name (rq_query rq) = Inr n \<and> parse_collection_path (rq_path rq) = Document c i
    \<and> (stored_exactly L cf view rq True n c i s s' \<or> coalesced L cf view rq n c i s s')"
  using assms(2,3) gate_status(4) [of "rq_query rq"] gate_status(5) [of cf] write_doc_200 [OF assms(1) _ assms(3), of L rq True]
  by (auto simp: patch_def halt_def or_return_def split: option.splits sum.splits)

lemma transaction_200:
  assumes "gw_ok I s" "transaction L cf rq s = (r, s')" "r_status r = 200"
  shows "\<exists>n ops gs txs xs. resolve_db_name (rq_query rq) = Inr n \<and> decode_body L (rq_body rq) = Inr ops
    \<and> length ops \<le> cf_max_batch_ops cf
    \<and> (\<forall>g \<in> set gs. gated_ok (cf_policy cf) (rq_auth rq) True n (gw_docs view s n) g)
    \<and> list_all2 (\<lambda>g t. prepare_op L (cf_policy cf) (rq_auth rq) (rq_ts rq) True g = Inr t) gs txs
    \<and> spec_tx (gw_docs view s n) txs = Some (xs, gw_docs view s' n)
    \<and> (\<forall>m. m \<noteq> n \<longrightarrow> gw_docs view s' m = gw_docs view s m)
    \<and> gw_bus s' = gw_bus s @ filter_map op_change (zip gs txs)
    \<and> r = render_results L (map (op_result L True) (zip gs xs))"
proof -
  have "r_status (err_code n m c) = n" for n m c by (simp add: err_code_def)
  then obtain n ops d where g: "resolve_db_name (rq_query rq) = Inr n" "decode_body L (rq_body rq) = Inr ops"
      "length ops \<le> cf_max_batch_ops cf" "db_for cf n = Inr d" "deny_if_read_only cf = None"
    using assms(2,3) gate_status(3) [of cf] gate_status(4) [of "rq_query rq"] gate_status(5) [of cf]
    by (auto simp: transaction_def halt_def or_return_def deny_def decode_body_def required_def
        split: option.splits sum.splits if_splits)
  obtain q t where run: "run_ops L d (cf_policy cf) (rq_auth rq) (rq_ts rq) ops True n (gw_db s n) = (q, t)" by fastforce
  note ok = gateway_store.run_ops_ok [OF db_for_store [OF g(4)] gw_ok_at [OF assms(1)] run]
  have o: "(case q of Inr (rs, _) \<Rightarrow> render_results L rs | Inl (st, msg, code) \<Rightarrow> err_code st msg code, apply_ops n (q, t) s) = (r, s')"
    using assms(2) g by (simp add: transaction_def halt_def or_return_def deny_def run Let_def)
  show ?thesis
  proof (cases q)
    case (Inl e)
    then show ?thesis using o ok assms(3) by (auto simp: err_code_def split: prod.splits)
  next
    case (Inr out)
    obtain gs txs xs where x: "(\<forall>g \<in> set gs. gated_ok (cf_policy cf) (rq_auth rq) True n (gw_docs view s n) g)
      \<and> list_all2 (\<lambda>g t. prepare_op L (cf_policy cf) (rq_auth rq) (rq_ts rq) True g = Inr t) gs txs
      \<and> spec_tx (gw_docs view s n) txs = Some (xs, view t)
      \<and> out = (map (op_result L True) (zip gs xs), filter_map op_change (zip gs txs))"
      using ok by (auto simp: Inr gw_docs_def)
    have "r = render_results L (map (op_result L True) (zip gs xs))"
      "s' = s\<lparr>gw_db := (gw_db s)(n := t), gw_bus := gw_bus s @ filter_map op_change (zip gs txs)\<rparr>"
      using o x by (auto simp: Inr apply_ops_def)
    then show ?thesis using g x
      by (intro exI [of _ n] exI [of _ ops] exI [of _ gs] exI [of _ txs] exI [of _ xs]) (simp add: gw_docs_def)
  qed
qed

end

section \<open>Reads\<close>

text \<open>A decision of the policy looks at nothing of a document but its id.\<close>

lemma policy_allow_id: "d_id d = d_id d' \<Longrightarrow> policy_allow p auth c m (Some d) = policy_allow p auth c m (Some d')"
  by (auto simp: policy_allow_def eval_rule_def split: rule.split option.split)

definition readable :: "'s config \<Rightarrow> auth_context option \<Rightarrow> string \<Rightarrow> string \<Rightarrow> string \<Rightarrow> bool" where
  "readable cf auth n c i \<longleftrightarrow> policy_allow (cf_policy cf) auth (dotted n c) Get (Some \<lparr>d_id = i, d_data = []\<rparr>)"

lemma field_path_readable:
  "field_path_loop cf s auth n d inm segs depth m = Some r \<Longrightarrow> r_status r \<noteq> 403 \<Longrightarrow>
   \<exists>k \<ge> depth. k < m \<and> readable cf auth n (join ''/'' (take (k - 1) segs)) (segs ! (k - 1))"
proof (induction cf s auth n d inm segs depth m rule: field_path_loop.induct)
  case (1 cf s auth n d inm segs depth m)
  show ?case
  proof (cases "depth < m \<and> field_path_at cf s auth n d inm segs depth = None")
    case True
    then have "field_path_loop cf s auth n d inm segs (depth + 2) m = Some r"
      using "1.prems"(1) by (simp add: field_path_loop.simps [of cf s auth n d inm segs depth])
    from "1.IH" [OF conjunct1 [OF True] conjunct2 [OF True] this "1.prems"(2)]
    obtain k where "k \<ge> depth + 2" "k < m" "readable cf auth n (join ''/'' (take (k - 1) segs)) (segs ! (k - 1))" by auto
    then show ?thesis by (intro exI [of _ k]) simp
  next
    case False
    then have "depth < m" "field_path_at cf s auth n d inm segs depth = Some (Some r)"
      using "1.prems"(1) by (auto simp: field_path_loop.simps [of cf s auth n d inm segs depth] split: if_splits option.splits)
    then show ?thesis using "1.prems"(2)
      by (intro exI [of _ depth]) (auto simp: field_path_at_def readable_def Let_def split: if_splits)
  qed
qed

lemma visible_readable:
  "x \<in> set (visible_rows (cf_policy cf) auth (dotted n c) fs docs) \<Longrightarrow> readable cf auth n c (d_id x)"
  unfolding readable_def visible_rows_def by (auto intro: policy_allow_id [THEN iffD1, rotated])

section \<open>Properties\<close>

text \<open>
  A PUT answered with 200 stored exactly what its request asks for: the prepared body, with
  sentinels resolved, stamped, and without the fields the rule strips, replaced the one document
  its path names and nothing else; the policy granted the update on the document that was consulted,
  the field conditions held on the stored body, and one change was emitted.
\<close>

theorem put_stores_exactly:
  assumes "gateway cf view I" "gw_ok I s" "put L cf rq s = (r, s')" "r_status r = 200"
  shows "\<exists>n c i. resolve_db_name (rq_query rq) = Inr n \<and> parse_collection_path (rq_path rq) = Document c i
    \<and> stored_exactly L cf view rq False n c i s s'"
  using gateway.put_200 [OF assms] .

lemma open_put_200: "r_status (fst (put plain_lib (mem_config policy_open False) put_a mem_gw)) = 200"
  by code_simp

lemma put_stores_exactly_witness:
  "\<exists>n c i. resolve_db_name [] = Inr n \<and> parse_collection_path ''posts/a'' = Document c i
    \<and> stored_exactly plain_lib (mem_config policy_open False) (\<lambda>s. view_of (store s)) put_a False n c i mem_gw
        (snd (put plain_lib (mem_config policy_open False) put_a mem_gw))"
  using put_stores_exactly [OF memgw.gateway_axioms mem_gw_ok prod.collapse [symmetric] open_put_200]
  by (simp add: put_a_def doc_request_def)

text \<open>
  A PATCH answered with 200 either stored exactly the merge of its body into the stored
  document, or was taken by the coalescer for an existing document the caller may update, and then
  no document has changed yet.
\<close>

theorem patch_stores_or_defers:
  assumes "gateway cf view I" "gw_ok I s" "patch L cf rq s = (r, s')" "r_status r = 200"
  shows "\<exists>n c i. resolve_db_name (rq_query rq) = Inr n \<and> parse_collection_path (rq_path rq) = Document c i
    \<and> (stored_exactly L cf view rq True n c i s s' \<or> coalesced L cf view rq n c i s s')"
  using gateway.patch_200 [OF assms] .

lemma put_a_path: "rq_path put_a = ''posts/a''"
  by (simp add: put_a_def doc_request_def)

definition after_put :: "bool \<Rightarrow> mem_db gw" where
  "after_put co = snd (put plain_lib (mem_config policy_open co) put_a mem_gw)"

lemma after_put_ok: "gw_ok mem_ok (after_put co)"
  using memgw.put_ok [OF mem_gw_ok, where rq = put_a and p = policy_open and co = co and L = plain_lib] by (simp add: outcome_ok_def after_put_def)

lemma open_patch_200: "r_status (fst (patch plain_lib (mem_config policy_open True) put_a (after_put True))) = 200"
  by code_simp

lemma patch_stores_or_defers_witness:
  "\<exists>n c i. parse_collection_path ''posts/a'' = Document c i
    \<and> (let cf = mem_config policy_open True; s' = snd (patch plain_lib cf put_a (after_put True)) in
       stored_exactly plain_lib cf (\<lambda>s. view_of (store s)) put_a True n c i (after_put True) s'
       \<or> coalesced plain_lib cf (\<lambda>s. view_of (store s)) put_a n c i (after_put True) s')"
  using patch_stores_or_defers [OF memgw.gateway_axioms after_put_ok prod.collapse [symmetric] open_patch_200]
  unfolding Let_def put_a_path by blast


definition ops_lib :: "batch_op list \<Rightarrow> lib" where
  "ops_lib ops = plain_lib\<lparr>decode_ops := (\<lambda>_. Some ops)\<rparr>"

definition one_op :: "string \<Rightarrow> string \<Rightarrow> json \<Rightarrow> batch_op" where
  "one_op t i b = \<lparr>b_type = t, b_collection = ''posts'', b_id = Some i, b_data = Some b, b_merge = None\<rparr>"

definition two_writes :: "batch_op list" where
  "two_writes = [one_op ''set'' ''a'' (JObj [(''n'', jint 1)]), one_op ''delete'' ''b'' JNull]"

lemma two_writes_200:
  "r_status (fst (transaction (ops_lib two_writes) (mem_config policy_open False) (doc_request [] JNull) mem_gw)) = 200"
  by code_simp



definition list_posts :: request where
  "list_posts = doc_request ''posts'' JNull"

lemma list_posts_200: "r_status (get_or_list plain_lib (mem_config policy_open False) list_posts mem_gw) = 200"
  by code_simp


end
