(* ===== verification/Loopholes.thy ===== *)
theory Loopholes
  imports Effects
begin

text \<open>
  Where the routes do not do what they are meant to: runs of the modelled gateway over the
  in-memory driver in which a gate is passed by or a write is lost. Each is evaluated on concrete
  requests.
\<close>

section \<open>Scenarios\<close>

definition posts_policy :: "collection_policy \<Rightarrow> policy_file" where
  "posts_policy r = policy_open\<lparr>p_collections := [(''posts'', r)]\<rparr>"

text \<open>Updates of posts must leave the status at draft.\<close>

definition draft_only :: policy_file where
  "draft_only = posts_policy (empty_policy\<lparr>p_update := Some (Fields [EqLit ''status'' (JStr ''draft'')] [])\<rparr>)"

definition draft :: json where "draft = JObj [(''status'', JStr ''draft'')]"
definition published :: json where "published = JObj [(''status'', JStr ''published'')]"

definition on_doc :: "json \<Rightarrow> request" where
  "on_doc b = doc_request ''posts/a'' b"

definition field_of :: "mem_db gw \<Rightarrow> string \<Rightarrow> json option" where
  "field_of s f = Option.bind (Option.bind (dget (store (gw_db s ''default'')) ''posts'') (\<lambda>t. dget t ''a'')) (\<lambda>d. dget (d_data d) f)"

definition run_flush :: "mem_db config \<Rightarrow> mem_db gw \<Rightarrow> mem_db gw" where
  "run_flush cf s = snd (flush_tick cf 1000 ''t1'' s)"

text \<open>A PATCH the coalescer takes is acknowledged and later stored without the field conditions of the rule.\<close>

definition drafted :: "bool \<Rightarrow> mem_db gw" where
  "drafted co = snd (put plain_lib (mem_config draft_only co) (on_doc draft) mem_gw)"

lemma coalesced_patch_skips_field_rules:
  "r_status (fst (patch plain_lib (mem_config draft_only False) (on_doc published) (drafted False))) = 403
   \<and> r_status (fst (patch plain_lib (mem_config draft_only True) (on_doc published) (drafted True))) = 200
   \<and> field_of (run_flush (mem_config draft_only True)
        (snd (patch plain_lib (mem_config draft_only True) (on_doc published) (drafted True)))) ''status''
     = Some (JStr ''published'')"
proof (intro conjI)
  show "r_status (fst (patch plain_lib (mem_config draft_only False) (on_doc published) (drafted False))) = 403" by code_simp
  show "r_status (fst (patch plain_lib (mem_config draft_only True) (on_doc published) (drafted True))) = 200" by code_simp
  show "field_of (run_flush (mem_config draft_only True)
        (snd (patch plain_lib (mem_config draft_only True) (on_doc published) (drafted True)))) ''status''
     = Some (JStr ''published'')" by code_simp
qed

text \<open>In a batch, \<open>add\<close> is authorised as a creation also when it changes an existing document.\<close>

definition append_only :: policy_file where
  "append_only = posts_policy (empty_policy\<lparr>p_update := Some Deny\<rparr>)"

definition seeded :: "json \<Rightarrow> mem_db gw" where
  "seeded b = snd (put plain_lib (mem_config policy_open False) (on_doc b) mem_gw)"

definition run_batch :: "policy_file \<Rightarrow> batch_op list \<Rightarrow> mem_db gw \<Rightarrow> response \<times> mem_db gw" where
  "run_batch p ops s = batch (ops_lib ops) (mem_config p False) (doc_request [] JNull) s"

lemma batch_add_changes_existing:
  "r_status (fst (put plain_lib (mem_config append_only False) (on_doc published) (seeded draft))) = 403
   \<and> field_of (snd (run_batch append_only [one_op ''add'' ''a'' published] (seeded draft))) ''status'' = Some (JStr ''published'')"
proof
  show "r_status (fst (put plain_lib (mem_config append_only False) (on_doc published) (seeded draft))) = 403" by code_simp
  show "field_of (snd (run_batch append_only [one_op ''add'' ''a'' published] (seeded draft))) ''status'' = Some (JStr ''published'')"
    by code_simp
qed

text \<open>Two increments of one document in a batch add up to one: both bodies are computed from the state before the batch.\<close>

definition plus_one :: json where
  "plus_one = JObj [(''n'', JObj [(''__type__'', JStr ''increment''), (''n'', jint 1)])]"

lemma batch_increments_lost:
  "field_of (snd (run_batch policy_open [one_op ''update'' ''a'' plus_one, one_op ''update'' ''a'' plus_one]
      (seeded (JObj [(''n'', jint 0)])))) ''n'' = Some (jint 1)"
  by code_simp

text \<open>A flush after a newer PUT overwrites it, and a flush after a DELETE brings the document back.\<close>

definition pending_patch :: "mem_db gw" where
  "pending_patch = snd (patch plain_lib (mem_config policy_open True) (on_doc published)
     (snd (put plain_lib (mem_config policy_open True) (on_doc draft) mem_gw)))"

lemma flush_overwrites_newer_put:
  "field_of (snd (put plain_lib (mem_config policy_open True) (on_doc draft) pending_patch)) ''status'' = Some (JStr ''draft'')
   \<and> field_of (run_flush (mem_config policy_open True)
        (snd (put plain_lib (mem_config policy_open True) (on_doc draft) pending_patch))) ''status'' = Some (JStr ''published'')"
proof
  show "field_of (snd (put plain_lib (mem_config policy_open True) (on_doc draft) pending_patch)) ''status'' = Some (JStr ''draft'')"
    by code_simp
  show "field_of (run_flush (mem_config policy_open True)
        (snd (put plain_lib (mem_config policy_open True) (on_doc draft) pending_patch))) ''status'' = Some (JStr ''published'')"
    by code_simp
qed

lemma flush_revives_deleted:
  "field_of (snd (remove plain_lib (mem_config policy_open True) (on_doc JNull) pending_patch)) ''status'' = None
   \<and> field_of (run_flush (mem_config policy_open True)
        (snd (remove plain_lib (mem_config policy_open True) (on_doc JNull) pending_patch))) ''status'' = Some (JStr ''published'')"
proof
  show "field_of (snd (remove plain_lib (mem_config policy_open True) (on_doc JNull) pending_patch)) ''status'' = None"
    by code_simp
  show "field_of (run_flush (mem_config policy_open True)
        (snd (remove plain_lib (mem_config policy_open True) (on_doc JNull) pending_patch))) ''status'' = Some (JStr ''published'')"
    by code_simp
qed

text \<open>A conditional GET is answered from the stored version although a newer body is pending.\<close>

lemma stale_304:
  assumes "denied_internal coll = None" "valid_names coll (Some i) = None"
    "policy_allow (cf_policy cf) (rq_auth rq) (dotted name coll) Get (Some \<lparr>d_id = i, d_data = []\<rparr>)"
    "length (path_segs (rq_path rq)) < 4" "db_doc_version d (gw_db s name) coll i = Inr (Some v)" "etag_match (rq_if_none_match rq) v"
  shows "get_doc_route L cf rq s name d coll i = get_doc_route L cf rq (s\<lparr>gw_pending := co\<rparr>) name d coll i
    \<and> r_status (get_doc_route L cf rq (s\<lparr>gw_pending := co\<rparr>) name d coll i) = 304"
  using assms by (simp add: get_doc_route_def or_else_def Let_def not_modified_def)

text \<open>
  The gate on reserved names looks at the logical path, the SQL drivers at the flattened name:
  paths that pass the gate reach the session table, and distinct collections share a table.
\<close>

lemma reserved_gate_is_logical:
  "denied_internal ''//_sessions'' = None \<and> valid_collection_path ''//_sessions'' \<and> flat_table_name ''//_sessions'' = ''__sessions''
   \<and> parse_collection_path ''_/x/sessions/s1'' = Document ''_/x/sessions'' ''s1'' \<and> denied_internal ''_/x/sessions'' = None
   \<and> valid_collection_path ''_/x/sessions'' \<and> flat_table_name ''_/x/sessions'' = ''__sessions''
   \<and> denied_internal ''__sessions'' \<noteq> None"
proof (intro conjI)
  show "denied_internal ''//_sessions'' = None" by code_simp
  show "valid_collection_path ''//_sessions''" by code_simp
  show "flat_table_name ''//_sessions'' = ''__sessions''" by code_simp
  show "parse_collection_path ''_/x/sessions/s1'' = Document ''_/x/sessions'' ''s1''" by code_simp
  show "denied_internal ''_/x/sessions'' = None" by code_simp
  show "valid_collection_path ''_/x/sessions''" by code_simp
  show "flat_table_name ''_/x/sessions'' = ''__sessions''" by code_simp
  show "denied_internal ''__sessions'' \<noteq> None" by code_simp
qed

end
