(* ===== verification/Sqlite.thy ===== *)
theory Sqlite
  imports Database
begin

text \<open>
  The SQLite driver (crates/hakobackend-db-sqlite/src/lib.rs): the SQL text it builds for filters,
  cursors, order and pages, with the bound parameters, and its document operations over the
  statements it sends. The engine is not part of the program: it is a record of the statements the
  driver uses, and its laws are a locale.
\<close>

section \<open>SQL text\<close>

definition sq :: string where "sq = [CHR 39]"
definition dq :: string where "dq = [CHR 34]"

definition PATH_FIELD :: string where
  "PATH_FIELD = ''_collectionPath''"

definition replace_char :: "char \<Rightarrow> string \<Rightarrow> string \<Rightarrow> string" where
  "replace_char x r s = concat (map (\<lambda>c. if c = x then r else [c]) s)"

definition qi :: "string \<Rightarrow> string" where
  "qi name = dq @ replace_char (CHR 34) (dq @ dq) name @ dq"

definition jpath :: "string \<Rightarrow> string" where
  "jpath field = ''json_extract(data, '' @ sq @ ''$.'' @
     join ''.'' (map (\<lambda>s. dq @ replace_char (CHR 34) (dq @ dq) s @ dq) (split_on (CHR ''.'') field)) @ sq @ '')''"

definition bs :: string where "bs = [CHR 92]"

definition jpath_str :: "string \<Rightarrow> string" where
  "jpath_str field = sq @ replace_char (CHR 39) (sq @ sq) (''$.'' @
     join ''.'' (map (\<lambda>s. dq @ replace_char (CHR 34) (bs @ dq) (replace_char (CHR 92) (bs @ bs) s) @ dq)
       (split_on (CHR ''.'') field))) @ sq"

datatype sql_param = PF f64 | PT string | PI int

definition to_param :: "json \<Rightarrow> sql_param option" where
  "to_param v = (case v of
     JBool b \<Rightarrow> Some (PI (if b then 1 else 0))
   | JNum n \<Rightarrow> Some (PF (num_f64 n))
   | JStr s \<Rightarrow> Some (PT s)
   | _ \<Rightarrow> None)"

definition compare_frag :: "string \<Rightarrow> string \<Rightarrow> json \<Rightarrow> (string \<times> sql_param list) app_result" where
  "compare_frag col op v = (case to_param v of
     None \<Rightarrow> Inl (BadRequest ''comparison needs a scalar'')
   | Some p \<Rightarrow> Inr (col @ op @ ''?'', [p]))"

definition each_frag :: "string \<Rightarrow> string" where
  "each_frag field = ''EXISTS (SELECT 1 FROM json_each(data, '' @ jpath_str field @ '') WHERE value = ?)''"

definition push_filter :: "filter_rec \<Rightarrow> (string \<times> sql_param list) app_result" where
  "push_filter f = (let col = jpath (f_field f); v = f_value f in
     case f_op f of
       Eq \<Rightarrow> (case to_param v of
           Some p \<Rightarrow> Inr (col @ '' = ?'', [p])
         | None \<Rightarrow> Inr (if v = JNull then col @ '' IS NULL'' else ''FALSE'', []))
     | Ne \<Rightarrow> (case to_param v of
           Some p \<Rightarrow> Inr (''('' @ col @ '' <> ? OR '' @ col @ '' IS NULL)'', [p])
         | None \<Rightarrow> Inr (col @ '' IS NOT NULL'', []))
     | Gt \<Rightarrow> compare_frag col '' > '' v
     | Gte \<Rightarrow> compare_frag col '' >= '' v
     | Lt \<Rightarrow> compare_frag col '' < '' v
     | Lte \<Rightarrow> compare_frag col '' <= '' v
     | InList \<Rightarrow> (case as_array v of
           None \<Rightarrow> Inl (BadRequest ''in needs an array'')
         | Some vs \<Rightarrow> Inr (if vs = [] then ''FALSE''
               else ''('' @ join '' OR '' (map (\<lambda>x. if to_param x = None then col @ '' IS NULL'' else col @ '' = ?'') vs) @ '')'',
             filter_map to_param vs))
     | ArrayContains \<Rightarrow> (case to_param v of
           None \<Rightarrow> Inl (BadRequest ''array-contains needs a scalar'')
         | Some p \<Rightarrow> Inr (each_frag (f_field f), [p]))
     | ArrayContainsAny \<Rightarrow> (case as_array v of
           None \<Rightarrow> Inl (BadRequest ''array-contains-any needs an array'')
         | Some vs \<Rightarrow>
             if vs = [] then Inr (''FALSE'', [])
             else (case collect_opt (map to_param vs) of
                 None \<Rightarrow> Inl (BadRequest ''array-contains-any needs scalars'')
               | Some ps \<Rightarrow> Inr (''('' @ join '' OR '' (map (\<lambda>_. each_frag (f_field f)) vs) @ '')'', ps))))"

definition cursor_frag :: "query_options \<Rightarrow> string \<Rightarrow> json \<Rightarrow> string \<times> sql_param list" where
  "cursor_frag q op v = (let field = cursor_field q in
     if field = ''id'' then (case as_str v of
         Some s \<Rightarrow> (''id '' @ op @ '' ?'', [PT s])
       | None \<Rightarrow> (''FALSE'', []))
     else (case to_param v of
         Some p \<Rightarrow> (jpath field @ '' '' @ op @ '' ?'', [p])
       | None \<Rightarrow> (''FALSE'', [])))"

definition push_cursor :: "query_options \<Rightarrow> (string \<times> sql_param list) list" where
  "push_cursor q = filter_map (\<lambda>(op, b). map_option (cursor_frag q op) b)
     [(''>='', q_start_at q), (''>'', q_start_after q), (''<='', q_end_at q), (''<'', q_end_before q)]"

definition path_frag :: "string \<Rightarrow> (string \<times> sql_param list) list" where
  "path_frag coll = (if CHR ''/'' \<in> set coll
     then [(''json_extract(data, '' @ sq @ ''$.'' @ dq @ PATH_FIELD @ dq @ sq @ '') = ?'', [PT coll])] else [])"

definition build_where :: "string \<Rightarrow> query_options \<Rightarrow> (string \<times> sql_param list) app_result" where
  "build_where coll q = (case collect_res (map push_filter (q_filters q)) of
     Inl e \<Rightarrow> Inl e
   | Inr frags \<Rightarrow> (let fs = path_frag coll @ frags @ push_cursor q in
       Inr (if fs = [] then [] else '' WHERE '' @ join '' AND '' (map fst fs), concat (map snd fs))))"

definition build_page :: "query_options \<Rightarrow> string \<times> sql_param list" where
  "build_page q = (case (q_limit q, q_offset q) of
     (Some n, Some k) \<Rightarrow> ('' LIMIT ? OFFSET ?'', [PI (int n), PI (int k)])
   | (Some n, None) \<Rightarrow> ('' LIMIT ?'', [PI (int n)])
   | (None, Some k) \<Rightarrow> ('' LIMIT -1 OFFSET ?'', [PI (int k)])
   | (None, None) \<Rightarrow> ([], []))"

definition build_order :: "query_options \<Rightarrow> string" where
  "build_order q = (if q_order_by q = [] then [] else '' ORDER BY '' @ join '', '' (map (\<lambda>b.
     (if o_field b = ''id'' then ''id'' else jpath (o_field b)) @ '' '' @ (case o_dir b of Asc \<Rightarrow> ''ASC'' | Desc \<Rightarrow> ''DESC''))
     (q_order_by q)))"

text \<open>The statement of \<open>list\<close> and its parameters.\<close>

definition list_sql :: "string \<Rightarrow> query_options \<Rightarrow> (string \<times> sql_param list) app_result" where
  "list_sql coll q = (case build_where coll q of
     Inl e \<Rightarrow> Inl e
   | Inr (w, ps) \<Rightarrow> (case build_page q of (page, qs) \<Rightarrow>
       Inr (''SELECT id, data FROM '' @ qi (flat_table_name coll) @ w @ build_order q @ page, ps @ qs)))"

section \<open>Reading SQL text\<close>

text \<open>
  Where a reader of SQL is: outside, in a string literal, or in a quoted identifier. A doubled
  quote leaves and enters again.
\<close>

datatype sql_state = Outside | InString | InName

fun sql_step :: "sql_state \<Rightarrow> char \<Rightarrow> sql_state" where
  "sql_step Outside c = (if c = CHR 39 then InString else if c = CHR 34 then InName else Outside)"
| "sql_step InString c = (if c = CHR 39 then Outside else InString)"
| "sql_step InName c = (if c = CHR 34 then Outside else InName)"

definition sql_end :: "sql_state \<Rightarrow> string \<Rightarrow> sql_state" where
  "sql_end st s = foldl sql_step st s"

text \<open>The characters read outside of literals and quoted names.\<close>

fun sql_code :: "sql_state \<Rightarrow> string \<Rightarrow> string" where
  "sql_code st [] = []"
| "sql_code st (c # s) = (if st = Outside \<and> sql_step st c = Outside then c # sql_code Outside s else sql_code (sql_step st c) s)"

definition closed_sql :: "string \<Rightarrow> bool" where
  "closed_sql s \<longleftrightarrow> sql_end Outside s = Outside"

definition holes :: "string \<Rightarrow> nat" where
  "holes s = length (filter (\<lambda>c. c = CHR ''?'') (sql_code Outside s))"

lemma sql_end_append: "sql_end st (a @ b) = sql_end (sql_end st a) b"
  by (simp add: sql_end_def)

lemma sql_code_append: "sql_code st (a @ b) = sql_code st a @ sql_code (sql_end st a) b"
  by (induction st a rule: sql_code.induct) (auto simp: sql_end_def)

lemma closed_append [simp]: "closed_sql a \<Longrightarrow> closed_sql (a @ b) = closed_sql b"
  by (simp add: closed_sql_def sql_end_append)

lemma holes_append [simp]: "closed_sql a \<Longrightarrow> holes (a @ b) = holes a + holes b"
  by (simp add: closed_sql_def holes_def sql_code_append)

lemma in_string: "CHR 39 \<notin> set s \<Longrightarrow> sql_end InString s = InString \<and> sql_code InString s = []"
  by (induction s) (auto simp: sql_end_def)

lemma literal:
  assumes "CHR 39 \<notin> set s"
  shows "closed_sql (sq @ s @ sq)" "holes (sq @ s @ sq) = 0"
  using in_string [OF assms] by (auto simp: closed_sql_def holes_def sql_end_append sql_code_append sq_def) (simp_all add: sql_end_def)

lemma set_replace_char: "set (replace_char x r s) \<subseteq> set r \<union> set s"
  by (auto simp: replace_char_def)

lemma set_split_on: "p \<in> set (split_on c s) \<Longrightarrow> set p \<subseteq> set s"
proof (induction s arbitrary: p)
  case (Cons x s)
  then show ?case by (cases "split_on c s") (fastforce split: if_splits)+
qed simp

text \<open>A fragment with as many holes as parameters, and fragments put together.\<close>

definition bound :: "string \<times> 'a list \<Rightarrow> bool" where
  "bound f \<longleftrightarrow> closed_sql (fst f) \<and> holes (fst f) = length (snd f)"

definition plain_sql :: "string \<Rightarrow> bool" where
  "plain_sql s \<longleftrightarrow> closed_sql s \<and> holes s = 0"

lemma sql_Nil [simp]: "closed_sql []" "holes [] = 0" "plain_sql []"
  by (simp_all add: plain_sql_def closed_sql_def holes_def sql_end_def)

lemma sql_Cons [simp]:
  "c \<noteq> CHR 39 \<Longrightarrow> c \<noteq> CHR 34 \<Longrightarrow> closed_sql (c # s) = closed_sql s"
  "c \<noteq> CHR 39 \<Longrightarrow> c \<noteq> CHR 34 \<Longrightarrow> holes (c # s) = (if c = CHR ''?'' then Suc (holes s) else holes s)"
  "c \<noteq> CHR 39 \<Longrightarrow> c \<noteq> CHR 34 \<Longrightarrow> c \<noteq> CHR ''?'' \<Longrightarrow> plain_sql (c # s) = plain_sql s"
  by (auto simp: plain_sql_def closed_sql_def holes_def sql_end_def)

lemma plain_append [simp]: "plain_sql a \<Longrightarrow> plain_sql (a @ b) = plain_sql b"
  by (auto simp: plain_sql_def)

lemma plainD [simp]: "plain_sql a \<Longrightarrow> closed_sql (a @ b) = closed_sql b" "plain_sql a \<Longrightarrow> holes (a @ b) = holes b"
  by (auto simp: plain_sql_def)

lemma plain_literal: "CHR 39 \<notin> set s \<Longrightarrow> plain_sql (sq @ s @ sq)"
  using literal by (simp add: plain_sql_def)

lemma plain_literal_append: "CHR 39 \<notin> set s \<Longrightarrow> plain_sql (sq @ s @ sq @ r) = plain_sql r"
  using plain_append [OF plain_literal, of s r] by simp

lemma join_closed:
  "list_all closed_sql xs \<Longrightarrow> plain_sql sep \<Longrightarrow> closed_sql (join sep xs) \<and> holes (join sep xs) = sum_list (map holes xs)"
  by (induction xs rule: induct_list012) auto

lemma join_bound:
  "list_all bound fs \<Longrightarrow> plain_sql sep \<Longrightarrow> bound (join sep (map fst fs), concat (map snd fs))"
  using join_closed [of "map fst fs" sep]
  by (auto simp: bound_def list_all_iff length_concat comp_def intro!: arg_cong [of _ _ sum_list])

lemma jpath_plain:
  assumes "CHR 39 \<notin> set field"
  shows "plain_sql (jpath field)"
proof -
  let ?j = "join ''.'' (map (\<lambda>s. dq @ replace_char (CHR 34) (dq @ dq) s @ dq) (split_on (CHR ''.'') field))"
  have "CHR 39 \<notin> set ?j"
    using set_join [of "''.''"] set_split_on [of _ "CHR ''.''" field] set_replace_char assms
    by (fastforce simp: dq_def)
  then have "plain_sql (sq @ (''$.'' @ ?j) @ sq @ '')'')" by (subst plain_literal_append) auto
  then show ?thesis by (simp add: jpath_def)
qed

lemma jpath_str_plain: "plain_sql (jpath_str field)"
proof -
  have "sql_end InString (replace_char (CHR 39) (sq @ sq) s) = InString \<and> sql_code InString (replace_char (CHR 39) (sq @ sq) s) = []" for s
    by (induction s) (auto simp: replace_char_def sq_def sql_end_def)
  then have "plain_sql (sq @ replace_char (CHR 39) (sq @ sq) s @ sq)" for s
    by (simp add: plain_sql_def closed_sql_def holes_def sq_def sql_end_append sql_code_append) (simp add: sql_end_def)
  then show ?thesis by (simp add: jpath_str_def)
qed

lemma each_bound: "closed_sql (each_frag field)" "holes (each_frag field) = 1"
  using jpath_str_plain [of field] by (simp_all add: each_frag_def)

definition array_op :: "filter_op \<Rightarrow> bool" where
  "array_op f \<longleftrightarrow> f = ArrayContains \<or> f = ArrayContainsAny"

lemma push_filter_bound:
  assumes "push_filter f = Inr r" "array_op (f_op f) \<or> CHR 39 \<notin> set (f_field f)"
  shows "bound r"
proof (cases "array_op (f_op f)")
  case True
  have a: "closed_sql (join '' OR '' (map (\<lambda>_. each_frag (f_field f)) vs))"
    "holes (join '' OR '' (map (\<lambda>_. each_frag (f_field f)) vs)) = length vs" for vs :: "json list"
    using join_closed [of "map (\<lambda>_. each_frag (f_field f)) vs" "'' OR ''"]
    by (simp_all add: list_all_iff each_bound o_def sum_list_triv)
  have "collect_opt (map to_param vs) = Some ps \<Longrightarrow> length ps = length vs" for vs ps
    by (metis collect_opt_Some length_map)
  then show ?thesis
    using True assms(1)
    by (auto simp: push_filter_def array_op_def bound_def Let_def each_bound a split: option.splits if_splits)
next
  case False
  then have j: "plain_sql (jpath (f_field f))" using assms(2) by (simp add: jpath_plain)
  have "bound (join '' OR '' (map (\<lambda>x. if to_param x = None then jpath (f_field f) @ '' IS NULL'' else jpath (f_field f) @ '' = ?'') vs),
      filter_map to_param vs)" for vs
  proof -
    have "length (filter_map to_param vs) = sum_list (map (\<lambda>x. if to_param x = None then 0 else 1) vs)"
      by (induction vs) (auto split: option.split)
    moreover have "list_all closed_sql (map (\<lambda>x. if to_param x = None then jpath (f_field f) @ '' IS NULL'' else jpath (f_field f) @ '' = ?'') vs)"
      using j by (induction vs) auto
    ultimately show ?thesis
      using join_closed [of "map (\<lambda>x. if to_param x = None then jpath (f_field f) @ '' IS NULL'' else jpath (f_field f) @ '' = ?'') vs" "'' OR ''"] j
      by (simp add: bound_def o_def if_distrib cong: if_cong)
  qed
  then show ?thesis
    using False assms(1) j
    by (auto simp: push_filter_def array_op_def bound_def compare_frag_def Let_def
        split: option.splits if_splits filter_op.splits)
qed

lemma qi_plain: "plain_sql (qi name)"
proof -
  have "sql_end InName (replace_char (CHR 34) (dq @ dq) s) = InName \<and> sql_code InName (replace_char (CHR 34) (dq @ dq) s) = []" for s
    by (induction s) (auto simp: replace_char_def dq_def sql_end_def)
  then show ?thesis
    by (simp add: qi_def plain_sql_def closed_sql_def holes_def dq_def sql_end_append sql_code_append) (simp add: sql_end_def)
qed

lemma cursor_bound: "CHR 39 \<notin> set (cursor_field q) \<Longrightarrow> op \<in> {''>='', ''>'', ''<='', ''<''} \<Longrightarrow> bound (cursor_frag q op v)"
  using jpath_plain [of "cursor_field q"] by (auto simp: cursor_frag_def bound_def Let_def split: option.split)

lemma path_bound: "list_all bound (path_frag coll)"
  by (simp add: path_frag_def bound_def closed_sql_def holes_def sql_end_def PATH_FIELD_def sq_def dq_def)

text \<open>The field names a query makes part of the text in an unescaped way.\<close>

definition text_fields :: "query_options \<Rightarrow> string list" where
  "text_fields q = map f_field (filter (\<lambda>f. \<not> array_op (f_op f)) (q_filters q)) @ [cursor_field q] @ map o_field (q_order_by q)"

lemma where_bound:
  assumes "build_where coll q = Inr (w, ps)" "\<forall>f \<in> set (text_fields q). CHR 39 \<notin> set f"
  shows "closed_sql w \<and> holes w = length ps"
proof -
  obtain frags where f: "collect_res (map push_filter (q_filters q)) = Inr frags"
    using assms(1) by (auto simp: build_where_def split: sum.splits)
  have "bound r" if r: "r \<in> set frags" for r
  proof -
    have "\<exists>g \<in> set (q_filters q). push_filter g = Inr r"
      using list_all2_member [OF collect_res_map [OF f] r] by blast
    then show ?thesis using assms(2) by (auto simp: text_fields_def intro: push_filter_bound)
  qed
  moreover have "bound r" if "r \<in> set (push_cursor q)" for r
    using that assms(2) cursor_bound [of q] unfolding push_cursor_def set_filter_map by (auto simp: text_fields_def)
  ultimately have "list_all bound (path_frag coll @ frags @ push_cursor q)"
    using path_bound [of coll] by (auto simp: list_all_iff)
  from join_bound [OF this, of "'' AND ''"] show ?thesis
    using assms(1) by (auto simp: build_where_def f bound_def Let_def split: if_splits)
qed

lemma join_plain: "list_all plain_sql xs \<Longrightarrow> plain_sql sep \<Longrightarrow> plain_sql (join sep xs)"
  by (induction xs rule: induct_list012) auto

lemma order_plain:
  assumes "\<forall>f \<in> set (text_fields q). CHR 39 \<notin> set f"
  shows "plain_sql (build_order q)"
proof (cases "q_order_by q = []")
  case False
  let ?col = "\<lambda>b. (if o_field b = ''id'' then ''id'' else jpath (o_field b)) @ '' '' @ (case o_dir b of Asc \<Rightarrow> ''ASC'' | Desc \<Rightarrow> ''DESC'')"
  have "plain_sql (?col b)" if "b \<in> set (q_order_by q)" for b
    using assms that jpath_plain [of "o_field b"] by (auto simp: text_fields_def split: direction.split)
  then have "plain_sql (join '', '' (map ?col (q_order_by q)))" by (intro join_plain) (simp_all add: list_all_iff)
  then show ?thesis using False by (simp add: build_order_def)
qed (simp add: build_order_def)

section \<open>The engine and the document operations\<close>

text \<open>
  The statements the driver sends, on a table, an id and the path a subcollection row carries. A
  row is its JSON value. \<open>Inl\<close> is an error of the engine; the flag of an insertion or update is
  whether a row was affected.
\<close>

datatype sql_error = UniqueFailed | OtherError

record 's sql_engine =
  sq_select :: "'s \<Rightarrow> string \<Rightarrow> string \<Rightarrow> string option \<Rightarrow> (sql_error, (string, json) dict option) result"
  sq_insert :: "'s \<Rightarrow> string \<Rightarrow> string \<Rightarrow> (string, json) dict \<Rightarrow> (sql_error, bool) result \<times> 's"
  sq_update :: "'s \<Rightarrow> string \<Rightarrow> string \<Rightarrow> string option \<Rightarrow> (string, json) dict \<Rightarrow> (sql_error, bool) result \<times> 's"
  sq_upsert :: "'s \<Rightarrow> string \<Rightarrow> string \<Rightarrow> (string, json) dict \<Rightarrow> (sql_error, unit) result \<times> 's"
  sq_delete :: "'s \<Rightarrow> string \<Rightarrow> string \<Rightarrow> string option \<Rightarrow> (sql_error, unit) result \<times> 's"

definition db_error :: "sql_error \<Rightarrow> app_error" where
  "db_error e = Internal ''db error''"

definition constraint_err :: "sql_error \<Rightarrow> app_error" where
  "constraint_err e = (case e of UniqueFailed \<Rightarrow> AlreadyExists | OtherError \<Rightarrow> Internal ''db error'')"

definition path_of :: "string \<Rightarrow> string option" where
  "path_of coll = (if CHR ''/'' \<in> set coll then Some coll else None)"

definition to_doc :: "string \<Rightarrow> (string, json) dict \<Rightarrow> doc" where
  "to_doc i m = \<lparr>d_id = i, d_data = ddel PATH_FIELD m\<rparr>"

definition inject_path :: "string \<Rightarrow> (string, json) dict \<Rightarrow> (string, json) dict" where
  "inject_path coll m = (if CHR ''/'' \<in> set coll then dput PATH_FIELD (JStr coll) m else m)"

definition sqlite_get :: "'s sql_engine \<Rightarrow> 's \<Rightarrow> string \<Rightarrow> string \<Rightarrow> doc option app_result" where
  "sqlite_get E s coll i = (case sq_select E s (flat_table_name coll) i (path_of coll) of
     Inl e \<Rightarrow> Inl (db_error e)
   | Inr r \<Rightarrow> Inr (map_option (to_doc i) r))"

definition sqlite_insert :: "(sql_error \<Rightarrow> app_error) \<Rightarrow> string \<Rightarrow> 's sql_engine \<Rightarrow> 's \<Rightarrow> string \<Rightarrow> doc \<Rightarrow> doc app_result \<times> 's" where
  "sqlite_insert fail fresh E s coll d =
     (let i = (if d_id d = [] then fresh else d_id d); row = inject_path coll (d_data d) in
      case sq_insert E s (flat_table_name coll) i row of
        (Inl e, s') \<Rightarrow> (Inl (fail e), s')
      | (Inr changed, s') \<Rightarrow> if \<not> changed then (Inl AlreadyExists, s') else (Inr (to_doc i row), s'))"

definition sqlite_set :: "string \<Rightarrow> 's sql_engine \<Rightarrow> 's \<Rightarrow> string \<Rightarrow> string \<Rightarrow> doc \<Rightarrow> bool \<Rightarrow> doc app_result \<times> 's" where
  "sqlite_set fresh E s coll i d merge =
     (let table = flat_table_name coll; body = inject_path coll (d_data d) in
      if merge then
        (case sqlite_get E s coll i of
           Inl e \<Rightarrow> (Inl e, s)
         | Inr old \<Rightarrow>
            (let row = dextend (case old of None \<Rightarrow> [] | Some x \<Rightarrow> d_data x) body in
             case sq_update E s table i (path_of coll) row of
               (Inl e, s') \<Rightarrow> (Inl (db_error e), s')
             | (Inr changed, s') \<Rightarrow>
                 if \<not> changed then sqlite_insert db_error fresh E s' coll \<lparr>d_id = i, d_data = row\<rparr>
                 else (Inr (to_doc i row), s')))
      else (case sq_upsert E s table i body of
          (Inl e, s') \<Rightarrow> (Inl (db_error e), s')
        | (Inr _, s') \<Rightarrow> (Inr (to_doc i body), s')))"

definition sqlite_delete :: "'s sql_engine \<Rightarrow> 's \<Rightarrow> string \<Rightarrow> string \<Rightarrow> doc option app_result \<times> 's" where
  "sqlite_delete E s coll i = (case sqlite_get E s coll i of
     Inl e \<Rightarrow> (Inl e, s)
   | Inr None \<Rightarrow> (Inr None, s)
   | Inr (Some d) \<Rightarrow> (case sq_delete E s (flat_table_name coll) i (path_of coll) of
       (Inl e, s') \<Rightarrow> (Inl (db_error e), s')
     | (Inr _, s') \<Rightarrow> (Inr (Some d), s')))"

text \<open>Inside a transaction; the result says whether the document existed.\<close>

definition sqlite_set_tx :: "string \<Rightarrow> 's sql_engine \<Rightarrow> 's \<Rightarrow> string \<Rightarrow> string \<Rightarrow> (string, json) dict \<Rightarrow> bool \<Rightarrow> bool \<Rightarrow>
    (doc \<times> bool) app_result \<times> 's" where
  "sqlite_set_tx fresh E s coll i body merge must_exist = (case sqlite_get E s coll i of
     Inl e \<Rightarrow> (Inl e, s)
   | Inr old \<Rightarrow>
       if must_exist \<and> old = None then (Inl NotFound, s)
       else
         (let table = flat_table_name coll;
              row = inject_path coll (dextend (case old of Some x \<Rightarrow> if merge then d_data x else [] | None \<Rightarrow> []) body) in
          if merge then
            (case sq_update E s table i (path_of coll) row of
               (Inl e, s') \<Rightarrow> (Inl (constraint_err e), s')
             | (Inr changed, s') \<Rightarrow>
                 if \<not> changed then
                   (case sqlite_insert constraint_err fresh E s' coll \<lparr>d_id = i, d_data = row\<rparr> of
                      (Inl e, s'') \<Rightarrow> (Inl e, s'')
                    | (Inr x, s'') \<Rightarrow> (Inr (x, old \<noteq> None), s''))
                 else (Inr (to_doc i row, old \<noteq> None), s'))
          else (case sq_upsert E s table i row of
              (Inl e, s') \<Rightarrow> (Inl (constraint_err e), s')
            | (Inr _, s') \<Rightarrow> (Inr (to_doc i row, old \<noteq> None), s'))))"

definition sqlite_tx_op :: "string \<Rightarrow> 's sql_engine \<Rightarrow> 's \<Rightarrow> tx_op \<Rightarrow> tx_out app_result \<times> 's" where
  "sqlite_tx_op fresh E s p = (case t_kind p of
     TxRead \<Rightarrow> (case sqlite_get E s (t_collection p) (t_id p) of
         Inl e \<Rightarrow> (Inl e, s)
       | Inr d \<Rightarrow> (Inr \<lparr>x_doc = d, x_existed = d \<noteq> None\<rparr>, s))
   | TxPut merge must_exist \<Rightarrow>
       (case sqlite_set_tx fresh E s (t_collection p) (t_id p) (case t_doc p of None \<Rightarrow> [] | Some d \<Rightarrow> d_data d) merge must_exist of
          (Inl e, s') \<Rightarrow> (Inl e, s')
        | (Inr (d, existed), s') \<Rightarrow> (Inr \<lparr>x_doc = Some d, x_existed = existed\<rparr>, s'))
   | TxDelete \<Rightarrow> (case sqlite_delete E s (t_collection p) (t_id p) of
         (Inl e, s') \<Rightarrow> (Inl e, s')
       | (Inr d, s') \<Rightarrow> (Inr \<lparr>x_doc = d, x_existed = d \<noteq> None\<rparr>, s')))"

fun sqlite_tx_ops :: "string \<Rightarrow> 's sql_engine \<Rightarrow> 's \<Rightarrow> tx_op list \<Rightarrow> tx_out list app_result \<times> 's" where
  "sqlite_tx_ops fresh E s [] = (Inr [], s)"
| "sqlite_tx_ops fresh E s (p # ops) = (case sqlite_tx_op fresh E s p of
     (Inl e, s') \<Rightarrow> (Inl e, s')
   | (Inr x, s') \<Rightarrow> (case sqlite_tx_ops fresh E s' ops of
       (Inl e, s'') \<Rightarrow> (Inl e, s'')
     | (Inr xs, s'') \<Rightarrow> (Inr (x # xs), s'')))"

text \<open>The engine undoes an uncommitted transaction.\<close>

definition sqlite_run_transaction :: "string \<Rightarrow> 's sql_engine \<Rightarrow> 's \<Rightarrow> tx_op list \<Rightarrow> tx_out list app_result \<times> 's" where
  "sqlite_run_transaction fresh E s ops = (case sqlite_tx_ops fresh E s ops of
     (Inl e, s') \<Rightarrow> (Inl e, s)
   | (Inr xs, s') \<Rightarrow> (Inr xs, s'))"

section \<open>What the engine promises\<close>

definition visible :: "string option \<Rightarrow> (string, json) dict option \<Rightarrow> (string, json) dict option" where
  "visible p r = (case r of
     None \<Rightarrow> None
   | Some m \<Rightarrow> (case p of None \<Rightarrow> Some m | Some c \<Rightarrow> if dget m PATH_FIELD = Some (JStr c) then Some m else None))"

type_synonym rows = "string \<times> string \<Rightarrow> (string, json) dict option"

text \<open>The documents the rows stand for.\<close>

definition doc_view :: "rows \<Rightarrow> docs" where
  "doc_view rs = (\<lambda>(c, i). map_option (to_doc i) (visible (path_of c) (rs (flat_table_name c, i))))"

definition rows_ok :: "rows \<Rightarrow> bool" where
  "rows_ok rs \<longleftrightarrow> (\<forall>k m. rs k = Some m \<longrightarrow> dict_ok m)"

text \<open>Collections no two of which share a table, and the documents in them.\<close>

definition separate :: "string set \<Rightarrow> bool" where
  "separate C \<longleftrightarrow> inj_on flat_table_name C"

definition docs_in :: "string set \<Rightarrow> docs \<Rightarrow> docs" where
  "docs_in C v = (\<lambda>(c, i). if c \<in> C then v (c, i) else None)"

definition plain_data :: "(string, json) dict \<Rightarrow> bool" where
  "plain_data m \<longleftrightarrow> dict_ok m \<and> dget m PATH_FIELD = None"

lemma inject_path_ok [simp]: "dict_ok m \<Longrightarrow> dict_ok (inject_path c m)"
  by (simp add: inject_path_def)

lemma inject_twice: "dict_ok m \<Longrightarrow> inject_path c (inject_path c m) = inject_path c m"
  by (rule dict_ext) (auto simp: inject_path_def)

lemma to_doc_inject: "plain_data m \<Longrightarrow> to_doc i (inject_path c m) = \<lparr>d_id = i, d_data = m\<rparr>"
  by (auto simp: to_doc_def plain_data_def inject_path_def intro!: dict_ext)

lemma visible_inject: "visible (path_of c) (Some (inject_path c m)) = Some (inject_path c m)"
  by (simp add: visible_def path_of_def inject_path_def)

lemma visible_Some: "visible p r = Some m \<Longrightarrow> r = Some m"
  by (auto simp: visible_def split: option.splits if_splits)

lemma view_plain: "rows_ok rs \<Longrightarrow> doc_view rs (c, i) = Some x \<Longrightarrow> plain_data (d_data x)"
  by (auto simp: doc_view_def rows_ok_def plain_data_def to_doc_def dest!: visible_Some)

lemma plain_extend: "plain_data a \<Longrightarrow> plain_data b \<Longrightarrow> plain_data (dextend a b)"
  by (simp add: plain_data_def dget_dextend_dict)

text \<open>Writing one row changes one document of a separate family.\<close>

lemma view_put:
  assumes "separate C" "c \<in> C" "plain_data m"
  shows "docs_in C (doc_view (rs((flat_table_name c, i) := Some (inject_path c m))))
    = (docs_in C (doc_view rs))((c, i) := Some \<lparr>d_id = i, d_data = m\<rparr>)"
  using assms
  by (auto simp: fun_eq_iff docs_in_def doc_view_def separate_def visible_inject to_doc_inject dest: inj_onD)

lemma view_del:
  assumes "separate C" "c \<in> C"
  shows "docs_in C (doc_view (rs((flat_table_name c, i) := None))) = (docs_in C (doc_view rs))((c, i) := None)"
  using assms by (auto simp: fun_eq_iff docs_in_def doc_view_def separate_def visible_def dest: inj_onD)

locale sql_store =
  fixes E :: "'s sql_engine"
    and rows :: "'s \<Rightarrow> rows"
    and I :: "'s \<Rightarrow> bool"
  assumes select_row: "I s \<Longrightarrow> sq_select E s t i p = Inr r \<Longrightarrow> r = visible p (rows s (t, i))"
    and insert_row: "I s \<Longrightarrow> sq_insert E s t i m = (rb, s') \<Longrightarrow> I s' \<and>
      (case rb of Inl e \<Rightarrow> rows s' = rows s
       | Inr b \<Rightarrow> b = (rows s (t, i) = None) \<and> rows s' = (if b then (rows s)((t, i) := Some m) else rows s))"
    and update_row: "I s \<Longrightarrow> sq_update E s t i p m = (rb, s') \<Longrightarrow> I s' \<and>
      (case rb of Inl e \<Rightarrow> rows s' = rows s
       | Inr b \<Rightarrow> b = (visible p (rows s (t, i)) \<noteq> None) \<and> rows s' = (if b then (rows s)((t, i) := Some m) else rows s))"
    and upsert_row: "I s \<Longrightarrow> sq_upsert E s t i m = (ru, s') \<Longrightarrow> I s' \<and>
      (case ru of Inl e \<Rightarrow> rows s' = rows s | Inr _ \<Rightarrow> rows s' = (rows s)((t, i) := Some m))"
    and delete_row: "I s \<Longrightarrow> sq_delete E s t i p = (ru, s') \<Longrightarrow> I s' \<and>
      (case ru of Inl e \<Rightarrow> rows s' = rows s
       | Inr _ \<Rightarrow> rows s' = (if visible p (rows s (t, i)) = None then rows s else (rows s)((t, i) := None)))"
begin

lemma get_row: "I s \<Longrightarrow> sqlite_get E s c i = Inr r \<Longrightarrow> r = doc_view (rows s) (c, i)"
  using select_row by (auto simp: sqlite_get_def doc_view_def split: sum.splits)

end

text \<open>What one operation of a transaction does to the documents of a separate family.\<close>

definition tx_op_ok :: "string set \<Rightarrow> tx_op \<Rightarrow> bool" where
  "tx_op_ok C p \<longleftrightarrow> t_collection p \<in> C \<and> t_id p \<noteq> [] \<and> (case t_doc p of None \<Rightarrow> True | Some d \<Rightarrow> plain_data (d_data d))"

context sql_store
begin

lemma docs_in_at: "c \<in> C \<Longrightarrow> docs_in C v (c, i) = v (c, i)"
  by (simp add: docs_in_def)

lemma write_row:
  assumes "rows_ok (rows s)" "separate C" "c \<in> C" "plain_data m" "rows s' = (rows s)((flat_table_name c, i) := Some (inject_path c m))"
  shows "rows_ok (rows s') \<and> docs_in C (doc_view (rows s')) = (docs_in C (doc_view (rows s)))((c, i) := Some \<lparr>d_id = i, d_data = m\<rparr>)"
  using assms view_put [OF assms(2-4)] by (auto simp: rows_ok_def plain_data_def)

lemma set_tx_spec:
  assumes "I s" "rows_ok (rows s)" "separate C" "c \<in> C" "i \<noteq> []" "plain_data body"
    "sqlite_set_tx fresh E s c i body merge must_exist = (Inr (x, existed), s')"
  shows "I s' \<and> rows_ok (rows s') \<and> (must_exist \<longrightarrow> doc_view (rows s) (c, i) \<noteq> None)
    \<and> existed = (doc_view (rows s) (c, i) \<noteq> None) \<and> x = spec_put (doc_view (rows s)) c i body merge
    \<and> docs_in C (doc_view (rows s')) = (docs_in C (doc_view (rows s)))((c, i) := Some x)"
proof -
  obtain old where g: "sqlite_get E s c i = Inr old" using assms(7) by (auto simp: sqlite_set_tx_def split: sum.splits)
  then have old: "old = doc_view (rows s) (c, i)" using assms(1) by (simp add: get_row)
  define m where "m = dextend (case old of Some x \<Rightarrow> if merge then d_data x else [] | None \<Rightarrow> []) body"
  have m: "plain_data m"
    using view_plain [OF assms(2)] old assms(6) plain_extend by (auto simp: m_def plain_data_def dget_dextend_dict split: option.split)
  have sp: "spec_put (doc_view (rows s)) c i body merge = \<lparr>d_id = i, d_data = m\<rparr>"
    by (auto simp: spec_put_def m_def old split: option.split)
  note w = write_row [OF assms(2,3,4) m]
  have td: "to_doc i (inject_path c m) = \<lparr>d_id = i, d_data = m\<rparr>" using m by (rule to_doc_inject)
  have tw: "inject_path c (inject_path c m) = inject_path c m" using m by (simp add: inject_twice plain_data_def)
  have me: "must_exist \<longrightarrow> doc_view (rows s) (c, i) \<noteq> None"
    using assms(7) old by (auto simp: sqlite_set_tx_def g split: if_splits)
  note r = assms(7) [unfolded sqlite_set_tx_def g sum.case Let_def m_def [symmetric]]
  have "I s' \<and> rows s' = (rows s)((flat_table_name c, i) := Some (inject_path c m))
      \<and> x = \<lparr>d_id = i, d_data = m\<rparr> \<and> existed = (old \<noteq> None)"
  proof (cases merge)
    case False
    then show ?thesis using r upsert_row [OF assms(1), of "flat_table_name c" i "inject_path c m"]
      by (auto simp: td split: if_splits prod.splits sum.splits)
  next
    case True
    show ?thesis
    proof (cases "sq_update E s (flat_table_name c) i (path_of c) (inject_path c m)")
      case (Pair ur s1)
      note u = update_row [OF assms(1) Pair]
      show ?thesis
      proof (cases ur)
        case (Inr b)
        then show ?thesis
        proof (cases b)
          case True
          then show ?thesis using r u \<open>merge\<close> Inr Pair by (auto simp: td split: if_splits)
        next
          case False
          then have s1: "I s1" "rows s1 = rows s" using u Inr by auto
          obtain ir s2 where ins: "sq_insert E s1 (flat_table_name c) i (inject_path c m) = (ir, s2)" by fastforce
          show ?thesis using r insert_row [OF s1(1) ins] s1 \<open>merge\<close> Inr Pair False assms(5)
            by (auto simp: sqlite_insert_def Let_def ins tw td split: if_splits sum.splits)
        qed
      qed (use r True Pair in \<open>auto split: if_splits\<close>)
    qed
  qed
  then show ?thesis using w me by (auto simp: sp old)
qed

lemma delete_spec:
  assumes "I s" "rows_ok (rows s)" "separate C" "c \<in> C" "sqlite_delete E s c i = (Inr d, s')"
  shows "I s' \<and> rows_ok (rows s') \<and> d = doc_view (rows s) (c, i)
    \<and> docs_in C (doc_view (rows s')) = (docs_in C (doc_view (rows s)))((c, i) := None)"
proof -
  obtain old where g: "sqlite_get E s c i = Inr old" using assms(5) by (auto simp: sqlite_delete_def split: sum.splits)
  then have old: "old = doc_view (rows s) (c, i)" using assms(1) by (simp add: get_row)
  show ?thesis
  proof (cases old)
    case None
    then have "docs_in C (doc_view (rows s)) = (docs_in C (doc_view (rows s)))((c, i) := None)"
      using old assms(4) by (auto simp: fun_eq_iff docs_in_def)
    then show ?thesis using assms None old g by (auto simp: sqlite_delete_def)
  next
    case (Some x)
    obtain dr s1 where d: "sq_delete E s (flat_table_name c) i (path_of c) = (dr, s1)" by fastforce
    have "visible (path_of c) (rows s (flat_table_name c, i)) \<noteq> None" using Some old by (auto simp: doc_view_def)
    then show ?thesis
      using assms(5) g Some old delete_row [OF assms(1) d] assms(2) view_del [OF assms(3,4), of "rows s" i]
      by (auto simp: sqlite_delete_def d rows_ok_def split: sum.splits)
  qed
qed

lemma tx_op_spec:
  assumes "I s" "rows_ok (rows s)" "separate C" "tx_op_ok C p" "sqlite_tx_op fresh E s p = (Inr x, s')"
  shows "I s' \<and> rows_ok (rows s') \<and> spec_tx_op (docs_in C (doc_view (rows s))) p = Some (x, docs_in C (doc_view (rows s')))"
proof -
  have c: "t_collection p \<in> C" "t_id p \<noteq> []" using assms(4) by (auto simp: tx_op_ok_def)
  show ?thesis
  proof (cases "t_kind p")
    case TxRead
    then show ?thesis using assms(1,2,5) get_row [OF assms(1)] c
      by (auto simp: sqlite_tx_op_def spec_tx_op_def Let_def docs_in_at split: sum.splits)
  next
    case TxDelete
    then show ?thesis using assms(5) delete_spec [OF assms(1-3) c(1)] c
      by (fastforce simp: sqlite_tx_op_def spec_tx_op_def Let_def docs_in_at split: prod.splits sum.splits)
  next
    case (TxPut merge must_exist)
    let ?body = "case t_doc p of None \<Rightarrow> [] | Some d \<Rightarrow> d_data d"
    have b: "plain_data ?body" using assms(4) by (auto simp: tx_op_ok_def plain_data_def split: option.splits)
    obtain y ex where st: "sqlite_set_tx fresh E s (t_collection p) (t_id p) ?body merge must_exist = (Inr (y, ex), s')"
      and x: "x = \<lparr>x_doc = Some y, x_existed = ex\<rparr>"
      using assms(5) TxPut by (auto simp: sqlite_tx_op_def split: prod.splits sum.splits)
    have "spec_put (docs_in C (doc_view (rows s))) (t_collection p) (t_id p) ?body merge
        = spec_put (doc_view (rows s)) (t_collection p) (t_id p) ?body merge"
      using c by (simp add: spec_put_def docs_in_at)
    then show ?thesis using set_tx_spec [OF assms(1-3) c b st] TxPut c
      by (auto simp: spec_tx_op_def Let_def docs_in_at x)
  qed
qed

lemma tx_ops_spec:
  assumes "I s" "rows_ok (rows s)" "separate C" "\<forall>p \<in> set ops. tx_op_ok C p" "sqlite_tx_ops fresh E s ops = (Inr xs, s')"
  shows "I s' \<and> rows_ok (rows s') \<and> spec_tx (docs_in C (doc_view (rows s))) ops = Some (xs, docs_in C (doc_view (rows s')))"
  using assms
proof (induction ops arbitrary: s xs)
  case (Cons p ops)
  obtain x s1 ys where o: "sqlite_tx_op fresh E s p = (Inr x, s1)" "sqlite_tx_ops fresh E s1 ops = (Inr ys, s')" "xs = x # ys"
    using Cons.prems(5) by (auto split: prod.splits sum.splits)
  have p: "tx_op_ok C p" "\<forall>p \<in> set ops. tx_op_ok C p" using Cons.prems(4) by auto
  note one = tx_op_spec [OF Cons.prems(1-3) p(1) o(1)]
  show ?case using one Cons.IH [OF _ _ Cons.prems(3) p(2) o(2)] o(3) by simp
qed simp

end

text \<open>A table store as a function of table and id, the engine used in the examples.\<close>

definition row_engine :: "rows sql_engine" where
  "row_engine = \<lparr>
     sq_select = (\<lambda>s t i p. Inr (visible p (s (t, i)))),
     sq_insert = (\<lambda>s t i m. if s (t, i) = None then (Inr True, s((t, i) := Some m)) else (Inr False, s)),
     sq_update = (\<lambda>s t i p m. if visible p (s (t, i)) = None then (Inr False, s) else (Inr True, s((t, i) := Some m))),
     sq_upsert = (\<lambda>s t i m. (Inr (), s((t, i) := Some m))),
     sq_delete = (\<lambda>s t i p. (Inr (), if visible p (s (t, i)) = None then s else s((t, i) := None)))\<rparr>"

interpretation rowdb: sql_store row_engine "\<lambda>s. s" "\<lambda>s. True"
  by unfold_locales (auto simp: row_engine_def split: if_splits)


text \<open>
  The reserved session table is written through an ordinary subcollection path, and read back as a
  session: the read of a top-level name has no path condition.
\<close>

lemma session_row_forged:
  "\<exists>s x. sqlite_set [] row_engine (\<lambda>_. None) ''_/x/sessions'' ''s1'' \<lparr>d_id = ''s1'', d_data = [(''uid'', JStr ''admin'')]\<rparr> False = (Inr x, s)
     \<and> sqlite_get row_engine s ''__sessions'' ''s1'' = Inr (Some \<lparr>d_id = ''s1'', d_data = [(''uid'', JStr ''admin'')]\<rparr>)"
proof -
  have f: "flat_table_name ''_/x/sessions'' = ''__sessions''" "flat_table_name ''__sessions'' = ''__sessions''"
    by code_simp+
  have o: "(''uid'' < ''_collectionPath'') = False" by code_simp
  show ?thesis
    by (simp add: sqlite_set_def sqlite_get_def row_engine_def f inject_path_def path_of_def visible_def to_doc_def ddel_def
        PATH_FIELD_def o)
qed

section \<open>Properties\<close>

text \<open>
  C29. The list statement is well formed whatever the values of the query are: read as SQL, every
  string literal and quoted name in it is closed, and the placeholders outside of them are exactly
  as many as the parameters bound to them, as long as no field name that goes into the text contains
  a single quote.
\<close>

theorem list_sql_bound:
  assumes "list_sql coll q = Inr (sql, ps)" "\<forall>f \<in> set (text_fields q). CHR 39 \<notin> set f"
  shows "sql_end Outside sql = Outside
    \<and> length (filter (\<lambda>c. c = CHR ''?'') (sql_code Outside sql)) = length ps"
proof -
  obtain w wp where w: "build_where coll q = Inr (w, wp)" using assms(1) by (auto simp: list_sql_def split: sum.splits)
  note wb = where_bound [OF w assms(2)] and ord = order_plain [OF assms(2)] and tab = qi_plain [of "flat_table_name coll"]
  obtain page pp where pg: "build_page q = (page, pp)" by fastforce
  then have "closed_sql page \<and> holes page = length pp" by (auto simp: build_page_def split: option.splits)
  moreover have "sql = ''SELECT id, data FROM '' @ qi (flat_table_name coll) @ w @ build_order q @ page" "ps = wp @ pp"
    using assms(1) by (simp_all add: list_sql_def w pg)
  ultimately have "closed_sql sql" "holes sql = length ps" using wb ord tab by simp_all
  then show ?thesis by (simp add: closed_sql_def holes_def)
qed

definition age_query :: query_options where
  "age_query = default_query\<lparr>q_filters := [\<lparr>f_field = ''o?'', f_op = Gt, f_value = jint 3\<rparr>], q_limit := Some 5\<rparr>"

lemma list_sql_bound_witness:
  "\<exists>sql ps. list_sql ''posts'' age_query = Inr (sql, ps) \<and> sql_end Outside sql = Outside \<and> length ps = 2"
proof -
  obtain sql ps where r: "list_sql ''posts'' age_query = Inr (sql, ps)" "length ps = 2"
    by (simp add: list_sql_def build_where_def push_filter_def compare_frag_def to_param_def age_query_def default_query_def
        path_frag_def push_cursor_def build_page_def Let_def)
  have "\<forall>f \<in> set (text_fields age_query). CHR 39 \<notin> set f"
    by (simp add: text_fields_def age_query_def default_query_def array_op_def cursor_field_def)
  with list_sql_bound [OF r(1)] r show ?thesis by blast
qed

text \<open>
  A field name with a single quote ends the literal it is put into: part of the name is then
  read as SQL code, so a client who chooses field names writes the condition of the query.
\<close>

lemma field_name_injects:
  "\<exists>field. push_filter \<lparr>f_field = field, f_op = Eq, f_value = JStr ''x''\<rparr> = Inr (jpath field @ '' = ?'', [PT ''x''])
     \<and> contains_str '' OR 1=1 --'' (sql_code Outside (jpath field @ '' = ?''))"
proof (intro exI conjI)
  let ?f = "''a'' @ [CHR 34, CHR 39] @ '') OR 1=1 --''"
  show "push_filter \<lparr>f_field = ?f, f_op = Eq, f_value = JStr ''x''\<rparr> = Inr (jpath ?f @ '' = ?'', [PT ''x''])"
    by (simp add: push_filter_def to_param_def Let_def)
  show "contains_str '' OR 1=1 --'' (sql_code Outside (jpath ?f @ '' = ?''))" by code_simp
qed

text \<open>
  C28. A transaction of the driver, over any engine that keeps its laws, refines the sequential
  specification of the document store on every family of collections no two of which share a table:
  a failed one leaves the rows alone, and a successful one returns and stores what the operations do
  one after the other.
\<close>

theorem sqlite_transaction_refines:
  assumes "sql_store E rows I" "I s" "rows_ok (rows s)" "separate C" "\<forall>p \<in> set ops. tx_op_ok C p"
    "sqlite_run_transaction fresh E s ops = (r, s')"
  shows "case r of Inl e \<Rightarrow> s' = s
    | Inr xs \<Rightarrow> rows_ok (rows s') \<and> spec_tx (docs_in C (doc_view (rows s))) ops = Some (xs, docs_in C (doc_view (rows s')))"
  using assms(6) sql_store.tx_ops_spec [OF assms(1-5)]
  by (auto simp: sqlite_run_transaction_def split: prod.splits sum.splits)

lemma sqlite_transaction_refines_witness:
  "case fst (sqlite_run_transaction [] row_engine (\<lambda>_. None) [demo_put ''a'' (jint 1), demo_put ''a'' (jint 2)]) of
     Inl e \<Rightarrow> False
   | Inr xs \<Rightarrow> \<exists>w. spec_tx (\<lambda>_. None) [demo_put ''a'' (jint 1), demo_put ''a'' (jint 2)] = Some (xs, w)"
proof -
  let ?run = "sqlite_run_transaction [] row_engine (\<lambda>_. None) [demo_put ''a'' (jint 1), demo_put ''a'' (jint 2)]"
  have n: "\<exists>xs. fst ?run = Inr xs"
    by (simp add: sqlite_run_transaction_def sqlite_tx_op_def sqlite_set_tx_def sqlite_get_def row_engine_def demo_put_def
        Let_def visible_def sqlite_insert_def path_of_def inject_path_def flat_table_name_def)
  have d: "docs_in {''posts''} (doc_view (\<lambda>_. None)) = (\<lambda>_. None)"
    by (auto simp: docs_in_def doc_view_def visible_def fun_eq_iff)
  have "case fst ?run of Inl e \<Rightarrow> snd ?run = (\<lambda>_. None)
    | Inr xs \<Rightarrow> rows_ok (snd ?run) \<and> spec_tx (docs_in {''posts''} (doc_view (\<lambda>_. None)))
        [demo_put ''a'' (jint 1), demo_put ''a'' (jint 2)] = Some (xs, docs_in {''posts''} (doc_view (snd ?run)))"
    by (rule sqlite_transaction_refines [OF rowdb.sql_store_axioms, of _ _ _ "[]"])
      (simp_all add: rows_ok_def separate_def tx_op_ok_def demo_put_def plain_data_def PATH_FIELD_def dict_ok_def)
  then show ?thesis using n unfolding d by (auto split: sum.splits)
qed

text \<open>
  Rows of subcollections under different parents share a table whose key is the id alone: a PUT
  below one parent makes the document of the same id below another parent disappear.
\<close>

lemma sibling_put_erases:
  "\<exists>s1 s2 x y. sqlite_set [] row_engine (\<lambda>_. None) ''posts/1/revisions'' ''r'' \<lparr>d_id = ''r'', d_data = []\<rparr> False = (Inr x, s1)
     \<and> sqlite_get row_engine s1 ''posts/1/revisions'' ''r'' = Inr (Some x)
     \<and> sqlite_set [] row_engine s1 ''posts/2/revisions'' ''r'' \<lparr>d_id = ''r'', d_data = []\<rparr> False = (Inr y, s2)
     \<and> sqlite_get row_engine s2 ''posts/1/revisions'' ''r'' = Inr None"
proof -
  have f: "flat_table_name ''posts/1/revisions'' = ''posts_revisions''" "flat_table_name ''posts/2/revisions'' = ''posts_revisions''"
    by code_simp+
  show ?thesis
    by (simp add: sqlite_set_def sqlite_get_def row_engine_def f inject_path_def path_of_def visible_def to_doc_def ddel_def)
qed

end
