(* ===== verification/Throttle.thy ===== *)
theory Throttle
  imports Json "HOL-Library.Word"
begin

text \<open>
  Admission control: the token bucket of the rate limiter (\<open>hakobackend-ratelimit\<close>), the login
  lockout (\<open>loginguard.rs\<close>) and the middleware that puts a limiter in front of the routes. Both
  keep their entries in hash maps, here dictionaries by key. An \<open>Instant\<close> is a number of
  nanoseconds, read once per call; \<open>duration_since\<close> saturates at zero, as subtraction on
  \<^typ>\<open>nat\<close> does. Locks are not modelled: a call is one step.
\<close>

unbundle bit_operations_syntax

type_synonym instant = nat

abbreviation nanos :: nat where
  "nanos \<equiv> 1000000000"

text \<open>\<open>Duration::as_secs_f64\<close>.\<close>

definition as_secs_f64 :: "nat \<Rightarrow> f64" where
  "as_secs_f64 d = f64_add (f64_of_int (int (d div nanos))) (f64_div (f64_of_int (int (d mod nanos))) (f64_of_int (int nanos)))"

subsection \<open>Token bucket\<close>

record quota =
  rate_per_sec :: f64
  burst :: f64

definition per_minute :: "nat \<Rightarrow> nat \<Rightarrow> quota" where
  "per_minute n b = \<lparr>rate_per_sec = f64_div (f64_of_int (int n)) 60, burst = f64_of_int (int (max b 1))\<rparr>"

record bucket =
  tokens :: f64
  bk_last :: instant

definition SHARDS :: nat where
  "SHARDS = 16"

record limiter =
  lm_quota :: quota
  lm_shards :: "(string, bucket) dict list"
  lm_cap :: nat

definition fnv1a :: "string \<Rightarrow> 64 word" where
  "fnv1a key = foldl (\<lambda>h b. (h XOR word_of_nat (ch b)) * 0x100000001b3) 0xcbf29ce484222325 key"

definition rl_shard :: "string \<Rightarrow> nat" where
  "rl_shard key = unat (fnv1a key) mod SHARDS"

definition limiter_new :: "quota \<Rightarrow> limiter" where
  "limiter_new q = \<lparr>lm_quota = q, lm_shards = replicate SHARDS [], lm_cap = 50000\<rparr>"

definition set_quota :: "quota \<Rightarrow> limiter \<Rightarrow> limiter" where
  "set_quota q l = l\<lparr>lm_quota := q\<rparr>"

definition limiter_off :: "limiter \<Rightarrow> bool" where
  "limiter_off l \<longleftrightarrow> rate_per_sec (lm_quota l) \<le> 0"

text \<open>
  \<open>((1.0 - tokens) / rate).ceil().max(1.0) as u64\<close>: a zero rate gives infinity, which the cast
  turns into \<open>u64::MAX\<close>.
\<close>

definition retry_after :: "quota \<Rightarrow> f64 \<Rightarrow> nat" where
  "retry_after q t = (if rate_per_sec q = 0 then 2 ^ 64 - 1
     else nat (min (2 ^ 64 - 1) (max \<lceil>f64_div (f64_sub 1 t) (rate_per_sec q)\<rceil> 1)))"

definition evict_idle :: "instant \<Rightarrow> nat \<Rightarrow> string \<Rightarrow> (string, bucket) dict \<Rightarrow> (string, bucket) dict" where
  "evict_idle now cap key g =
     (if dget g key = None \<and> max (cap div SHARDS) 1 \<le> length g
      then dretain (\<lambda>_ b. now - bk_last b < 600 * nanos) g else g)"

definition refill :: "quota \<Rightarrow> instant \<Rightarrow> bucket \<Rightarrow> f64" where
  "refill q now b = min (f64_add (tokens b) (f64_mul (max (as_secs_f64 (now - bk_last b)) 0) (rate_per_sec q))) (burst q)"

definition take_token :: "quota \<Rightarrow> instant \<Rightarrow> bucket \<Rightarrow> (nat, unit) result \<times> bucket" where
  "take_token q now b = (let t = refill q now b in
     if 1 \<le> t then (Inr (), \<lparr>tokens = f64_sub t 1, bk_last = now\<rparr>)
     else (Inl (retry_after q t), \<lparr>tokens = t, bk_last = now\<rparr>))"

definition limiter_check :: "instant \<Rightarrow> string \<Rightarrow> limiter \<Rightarrow> (nat, unit) result \<times> limiter" where
  "limiter_check now key l =
     (let q = lm_quota l; i = rl_shard key;
          g = evict_idle now (lm_cap l) key (lm_shards l ! i);
          b = (case dget g key of Some b \<Rightarrow> b | None \<Rightarrow> \<lparr>tokens = burst q, bk_last = now\<rparr>);
          (r, b') = take_token q now b
      in (r, l\<lparr>lm_shards := (lm_shards l)[i := dput key b' g]\<rparr>))"

definition bucket_of :: "limiter \<Rightarrow> string \<Rightarrow> bucket option" where
  "bucket_of l key = dget (lm_shards l ! rl_shard key) key"

subsection \<open>The middleware\<close>

text \<open>
  The key is the peer's address, or the first entry of \<open>x-forwarded-for\<close> behind a trusted proxy,
  or \<open>unix\<close> for a socket that has no peer address.
\<close>

definition client_key :: "string option \<Rightarrow> string \<Rightarrow> bool \<Rightarrow> string" where
  "client_key xff peer trust_proxy =
     (if trust_proxy then
        (case xff of
           Some v \<Rightarrow> (let s = trim (hd (split_on (CHR '','') v)) in if s \<noteq> [] then s else peer)
         | None \<Rightarrow> peer)
      else peer)"

definition limit_key :: "string option \<Rightarrow> string option \<Rightarrow> bool \<Rightarrow> string" where
  "limit_key xff peer trust_proxy = (case peer of Some p \<Rightarrow> client_key xff p trust_proxy | None \<Rightarrow> ''unix'')"

datatype 'r limited = Passed 'r | TooMany nat

definition limit_mw :: "instant \<Rightarrow> string \<Rightarrow> limiter \<Rightarrow> 'r \<Rightarrow> 'r limited \<times> limiter" where
  "limit_mw now key l next =
     (if limiter_off l then (Passed next, l)
      else case limiter_check now key l of
             (Inr _, l') \<Rightarrow> (Passed next, l')
           | (Inl s, l') \<Rightarrow> (TooMany s, l'))"

subsection \<open>Login lockout\<close>

record lg_entry =
  fails :: nat
  lg_last :: instant
  locked_until :: "instant option"

record login_guard =
  max_attempts :: nat
  lg_window :: nat
  lg_entries :: "(string, lg_entry) dict"

definition CAP :: nat where
  "CAP = 50000"

definition guard_new :: "nat \<Rightarrow> nat \<Rightarrow> login_guard" where
  "guard_new m secs = \<lparr>max_attempts = m, lg_window = max secs 1 * nanos, lg_entries = []\<rparr>"

definition guard_off :: "login_guard \<Rightarrow> bool" where
  "guard_off g \<longleftrightarrow> max_attempts g = 0"

definition window_secs :: "login_guard \<Rightarrow> nat" where
  "window_secs g = lg_window g div nanos"

definition locked_secs :: "instant \<Rightarrow> string \<Rightarrow> login_guard \<Rightarrow> nat option" where
  "locked_secs now login g =
     (if guard_off g then None
      else case Option.bind (dget (lg_entries g) login) locked_until of
             Some u \<Rightarrow> if now < u then Some (max ((u - now) div nanos) 1) else None
           | None \<Rightarrow> None)"

definition still_locked :: "instant \<Rightarrow> lg_entry \<Rightarrow> bool" where
  "still_locked now e \<longleftrightarrow> (case locked_until e of Some u \<Rightarrow> now < u | None \<Rightarrow> False)"

definition strike :: "login_guard \<Rightarrow> instant \<Rightarrow> lg_entry \<Rightarrow> lg_entry" where
  "strike g now e =
     (let e1 = (if lg_window g \<le> now - lg_last e then e\<lparr>fails := 0, locked_until := None\<rparr> else e);
          e2 = e1\<lparr>fails := (fails e1 + 1) mod 2 ^ 32, lg_last := now\<rparr>
      in if max (max_attempts g) 1 \<le> fails e2 then e2\<lparr>locked_until := Some (now + lg_window g)\<rparr> else e2)"

definition guard_evict :: "instant \<Rightarrow> string \<Rightarrow> login_guard \<Rightarrow> (string, lg_entry) dict" where
  "guard_evict now login g =
     (if dget (lg_entries g) login = None \<and> CAP \<le> length (lg_entries g)
      then dretain (\<lambda>_ e. now - lg_last e < lg_window g) (lg_entries g) else lg_entries g)"

definition guard_entry :: "instant \<Rightarrow> string \<Rightarrow> (string, lg_entry) dict \<Rightarrow> lg_entry" where
  "guard_entry now login d =
     (case dget d login of Some e \<Rightarrow> e | None \<Rightarrow> \<lparr>fails = 0, lg_last = now, locked_until = None\<rparr>)"

definition guard_fail :: "instant \<Rightarrow> string \<Rightarrow> login_guard \<Rightarrow> nat option \<times> login_guard" where
  "guard_fail now login g =
     (if guard_off g then (None, g)
      else let d = guard_evict now login g;
               e = guard_entry now login d;
               was = still_locked now (if lg_window g \<le> now - lg_last e then e\<lparr>fails := 0, locked_until := None\<rparr> else e);
               e' = strike g now e
           in (if \<not> was \<and> still_locked now e' then Some (window_secs g) else None,
               g\<lparr>lg_entries := dput login e' d\<rparr>))"

definition guard_clear :: "string \<Rightarrow> login_guard \<Rightarrow> login_guard" where
  "guard_clear login g = (if guard_off g then g else g\<lparr>lg_entries := ddel login (lg_entries g)\<rparr>)"

subsection \<open>Rounding errors\<close>

lemma rne_error: "\<bar>of_int (rne x) - x\<bar> \<le> 1 / 2"
proof -
  have "of_int \<lfloor>x\<rfloor> \<le> x" "x < of_int \<lfloor>x\<rfloor> + 1" by linarith+
  then show ?thesis by (auto simp: rne_def Let_def abs_le_iff)
qed

lemma f64_round_error:
  assumes "0 \<le> x"
  shows "\<bar>f64_round x - x\<bar> \<le> x / 2 ^ 53 + 1 / 2 ^ 60"
proof (cases "x = 0")
  case False
  with assms have x: "0 < x" by simp
  let ?q = "f64_ulp_exp x"
  have "\<bar>of_int (rne (x / pow2 ?q)) - x / pow2 ?q\<bar> * pow2 ?q \<le> 1 / 2 * pow2 ?q"
    by (intro mult_right_mono rne_error) (simp add: less_imp_le)
  then have "\<bar>(of_int (rne (x / pow2 ?q)) - x / pow2 ?q) * pow2 ?q\<bar> \<le> pow2 ?q / 2"
    by (simp add: abs_mult [of _ "pow2 ?q"] abs_of_pos [OF pow2_pos])
  then have A: "\<bar>f64_round x - x\<bar> \<le> pow2 ?q / 2"
    using x by (simp add: f64_round_pos left_diff_distrib)
  have B: "pow2 ?q \<le> pow2 (flog2 x - 52) + pow2 (- 1074)"
    using pow2_pos [of "flog2 x - 52"] pow2_pos [of "- 1074"]
    unfolding f64_ulp_exp_def max_def by (simp del: pow2_pos)
  have "pow2 (flog2 x - 52) = pow2 (flog2 x) / 2 ^ 52"
    using pow2_diff [of "flog2 x" 52] by (simp add: pow2_nat)
  with flog2_bounds [OF x] have C: "pow2 (flog2 x - 52) \<le> x / 2 ^ 52"
    by (simp add: divide_right_mono)
  have "pow2 (- 1074) \<le> pow2 (- 59)" by (rule pow2_mono) simp
  then have D: "pow2 (- 1074) \<le> 1 / 2 ^ 59" by (simp add: pow2_def)
  from A B C D show ?thesis by simp
qed simp

lemma f64_round_upper: "0 \<le> x \<Longrightarrow> f64_round x \<le> x + x / 2 ^ 53 + 1 / 2 ^ 60"
  and f64_round_lower: "0 \<le> x \<Longrightarrow> x - x / 2 ^ 53 - 1 / 2 ^ 60 \<le> f64_round x"
  using f64_round_error [of x] by linarith+

lemma f64_round_le_one: "0 \<le> x \<Longrightarrow> x \<le> 1 \<Longrightarrow> f64_round x \<le> 1"
  and f64_round_ge_one: "1 \<le> x \<Longrightarrow> 1 \<le> f64_round x"
  using f64_round_mono [of x 1] f64_round_mono [of 1 x] f64_round_exact [of 1 0]
  by (auto simp: pow2_def)

lemma as_secs_f64_nonneg [simp]: "0 \<le> as_secs_f64 d"
  by (simp add: as_secs_f64_def f64_add_def f64_div_def f64_of_int_def f64_round_nonneg)

lemma as_secs_f64_0 [simp]: "as_secs_f64 0 = 0"
  by (simp add: as_secs_f64_def f64_add_def f64_div_def f64_of_int_def)

lemma nanos_f64 [simp]: "f64_of_int 1000000000 = 1000000000"
  using f64_of_int_exact [of 1000000000] by simp

text \<open>More than \<open>s\<close> seconds read back as at least \<open>s + 2\<^sup>-\<^sup>3\<^sup>0\<close>.\<close>

lemma as_secs_f64_gt:
  assumes d: "s * nanos < d" and s: "s \<le> 64"
  shows "of_nat s + 1 / 2 ^ 30 \<le> as_secs_f64 d"
proof -
  let ?a = "f64_of_int (int (d div nanos))" and ?b = "f64_div (f64_of_int (int (d mod nanos))) 1000000000"
  have ex: "f64_round (of_int n) = of_int n" if "0 \<le> n" "n \<le> 64 + 1" for n
    using f64_of_int_exact [of n] that by (simp add: f64_of_int_def)
  have b0: "0 \<le> ?b" by (simp add: f64_div_def f64_of_int_def f64_round_nonneg)
  have "of_nat s + 1 / 2 ^ 30 \<le> ?a + ?b"
  proof (cases "s < d div nanos")
    case True
    then have "f64_round (of_int (int (s + 1))) \<le> ?a"
      unfolding f64_of_int_def by (intro f64_round_mono) (auto simp: of_nat_le_iff [symmetric] simp del: of_nat_le_iff of_nat_Suc)
    with ex [of "int (s + 1)"] s have "of_nat s + 1 \<le> ?a" by simp
    with b0 show ?thesis by simp
  next
    case False
    from d have "s \<le> d div nanos" by (simp add: less_eq_div_iff_mult_less_eq)
    with False have e: "d div nanos = s" by simp
    with d have m: "1 \<le> d mod nanos" using div_mult_mod_eq [of d nanos] by linarith
    have "f64_of_int (int (d mod nanos)) = of_nat (d mod nanos)"
      using f64_of_int_exact [of "int (d mod nanos)"] mod_less_divisor [of nanos d] by simp
    with m have "pow2 (- 30) \<le> f64_of_int (int (d mod nanos)) / 1000000000"
      by (simp add: pow2_def)
    then have "f64_round (pow2 (- 30)) \<le> ?b"
      unfolding f64_div_def by (intro f64_round_mono) (auto simp: less_imp_le)
    with f64_round_exact [of 1 "- 30"] have "1 / 2 ^ 30 \<le> ?b" by (simp add: pow2_def)
    moreover have "?a = of_nat s" using e ex [of "int s"] s by (simp add: f64_of_int_def)
    ultimately show ?thesis by simp
  qed
  then have "f64_round (of_nat s + 1 / 2 ^ 30) \<le> f64_round (?a + ?b)"
    by (intro f64_round_mono) auto
  moreover have "f64_round (of_nat s + 1 / 2 ^ 30) = of_nat s + 1 / 2 ^ 30"
    using f64_round_exact [of "int s * 2 ^ 30 + 1" "- 30"] s
    by (simp add: pow2_def add_divide_distrib)
  ultimately show ?thesis by (simp add: as_secs_f64_def f64_add_def)
qed

lemma rounding_sum:
  fixes s n :: rat
  assumes "0 \<le> s" "0 \<le> n" "a \<le> s + s / 2 ^ 53 + 1 / 2 ^ 60" "b \<le> n + n / 2 ^ 53 + 1 / 2 ^ 60"
    and "x \<le> (a + b) + (a + b) / 2 ^ 53 + 1 / 2 ^ 60"
  shows "x \<le> (s + n) * (1 + 1 / 2 ^ 51) + 1 / 2 ^ 57"
  using assms by (simp add: field_simps)

lemma rounding_product:
  fixes d r :: rat
  assumes "x \<le> d * (1 + 1 / 2 ^ 51) + r / 2 ^ 57" "y \<le> x + x / 2 ^ 53 + 1 / 2 ^ 60" "0 \<le> d" "0 \<le> r"
  shows "y \<le> d * (1 + 1 / 2 ^ 50) + r / 2 ^ 56 + 1 / 2 ^ 60"
  using assms by (simp add: field_simps)

text \<open>And the time read is the time that passed, up to the rounding of three operations.\<close>

lemma as_secs_f64_le: "as_secs_f64 d \<le> of_nat d / 1000000000 * (1 + 1 / 2 ^ 51) + 1 / 2 ^ 57"
proof -
  let ?a = "f64_of_int (int (d div nanos))" and ?b = "f64_div (f64_of_int (int (d mod nanos))) 1000000000"
  let ?s = "of_nat (d div nanos) :: rat" and ?n = "of_nat (d mod nanos) :: rat"
  have a: "?a \<le> ?s + ?s / 2 ^ 53 + 1 / 2 ^ 60" "0 \<le> ?a"
    using f64_round_upper [of ?s] by (simp_all add: f64_of_int_def f64_round_nonneg)
  have "f64_of_int (int (d mod nanos)) = ?n"
    using f64_of_int_exact [of "int (d mod nanos)"] mod_less_divisor [of nanos d] by simp
  then have b: "?b \<le> ?n / 1000000000 + ?n / 1000000000 / 2 ^ 53 + 1 / 2 ^ 60" "0 \<le> ?b"
    using f64_round_upper [of "?n / 1000000000"] by (simp_all add: f64_div_def f64_round_nonneg)
  have "of_nat d = ?s * 1000000000 + ?n"
    using div_mult_mod_eq [of d nanos] by (metis of_nat_add of_nat_mult of_nat_numeral)
  then have D: "of_nat d / 1000000000 = ?s + ?n / 1000000000" by simp
  have "as_secs_f64 d \<le> (?a + ?b) + (?a + ?b) / 2 ^ 53 + 1 / 2 ^ 60"
    using f64_round_upper [of "?a + ?b"] a b by (simp add: as_secs_f64_def f64_add_def)
  moreover have "0 \<le> ?s" "0 \<le> ?n" by simp_all
  ultimately show ?thesis using a b unfolding D by (intro rounding_sum [of ?s "?n / 1000000000" ?a ?b]) simp_all
qed

subsection \<open>What a limiter keeps\<close>

definition quota_ok :: "quota \<Rightarrow> bool" where
  "quota_ok q \<longleftrightarrow> 1 / 64 \<le> rate_per_sec q \<and> 1 \<le> burst q"

definition shard_ok :: "(string, bucket) dict \<Rightarrow> bool" where
  "shard_ok d \<longleftrightarrow> dict_ok d \<and> (\<forall>b \<in> snd ` set d. 0 \<le> tokens b)"

definition limiter_ok :: "limiter \<Rightarrow> bool" where
  "limiter_ok l \<longleftrightarrow> quota_ok (lm_quota l) \<and> length (lm_shards l) = SHARDS \<and> (\<forall>d \<in> set (lm_shards l). shard_ok d)"

lemma rl_shard_less [simp]: "rl_shard key < SHARDS"
  by (simp add: rl_shard_def SHARDS_def)

lemma per_minute_ok: "0 < n \<Longrightarrow> n < 2 ^ 32 \<Longrightarrow> b < 2 ^ 32 \<Longrightarrow> quota_ok (per_minute n b)"
proof -
  assume n: "0 < n" "n < 2 ^ 32" and b: "b < 2 ^ 32"
  have "f64_of_int (int n) = of_nat n" using f64_of_int_exact [of "int n"] n by simp
  moreover have "pow2 (- 6) \<le> of_nat n / 60" using n by (simp add: pow2_def)
  then have "f64_round (pow2 (- 6)) \<le> f64_round (of_nat n / 60)"
    by (intro f64_round_mono) (auto simp: less_imp_le)
  moreover have "f64_round (pow2 (- 6)) = 1 / 64" using f64_round_exact [of 1 "- 6"] by (simp add: pow2_def)
  moreover have "f64_of_int (int (max b 1)) = of_nat (max b 1)"
    using f64_of_int_exact [of "int (max b 1)"] b by (simp add: max_def)
  ultimately show ?thesis by (simp add: quota_ok_def per_minute_def f64_div_def)
qed

lemma limiter_new_ok: "quota_ok q \<Longrightarrow> limiter_ok (limiter_new q)"
  by (auto simp: limiter_ok_def limiter_new_def shard_ok_def)

lemma refill_nonneg: "0 \<le> tokens b \<Longrightarrow> quota_ok q \<Longrightarrow> 0 \<le> refill q now b"
  unfolding refill_def quota_ok_def f64_add_def f64_mul_def
  by (simp add: f64_round_nonneg)

lemma take_token_nonneg: "0 \<le> tokens b \<Longrightarrow> quota_ok q \<Longrightarrow> 0 \<le> tokens (snd (take_token q now b))"
  by (simp add: take_token_def Let_def refill_nonneg f64_sub_def f64_round_nonneg)

lemma take_token_last [simp]: "bk_last (snd (take_token q now b)) = now"
  by (simp add: take_token_def Let_def)

lemma shard_ok_evict: "shard_ok d \<Longrightarrow> shard_ok (evict_idle now cap key d)"
  by (auto simp: shard_ok_def evict_idle_def dretain_def)

lemma set_dput_snd: "snd ` set (dput k v d) \<subseteq> insert v (snd ` set d)"
  by (induction k v d rule: dput.induct) auto

lemma shard_ok_get: "shard_ok d \<Longrightarrow> dget d k = Some b \<Longrightarrow> 0 \<le> tokens b"
  by (force simp: shard_ok_def dest: map_of_SomeD)

lemma shard_ok_dput: "shard_ok d \<Longrightarrow> 0 \<le> tokens b \<Longrightarrow> shard_ok (dput k b d)"
  unfolding shard_ok_def
  by (intro conjI ballI) (simp, drule subsetD [OF set_dput_snd], auto)

lemma limiter_ok_shard: "limiter_ok l \<Longrightarrow> shard_ok (lm_shards l ! rl_shard k)"
  by (simp add: limiter_ok_def)

lemma limiter_check_eq:
  "limiter_check now key l =
     (let g = evict_idle now (lm_cap l) key (lm_shards l ! rl_shard key);
          tb = take_token (lm_quota l) now
                 (case dget g key of Some b \<Rightarrow> b | None \<Rightarrow> \<lparr>tokens = burst (lm_quota l), bk_last = now\<rparr>)
      in (fst tb, l\<lparr>lm_shards := (lm_shards l)[rl_shard key := dput key (snd tb) g]\<rparr>))"
  by (simp add: limiter_check_def Let_def case_prod_unfold)

lemma limiter_check_quota [simp]: "lm_quota (snd (limiter_check now key l)) = lm_quota l"
  by (simp add: limiter_check_eq Let_def)

lemma limiter_check_ok: "limiter_ok l \<Longrightarrow> limiter_ok (snd (limiter_check now key l))"
proof -
  assume l: "limiter_ok l"
  let ?g = "evict_idle now (lm_cap l) key (lm_shards l ! rl_shard key)"
  have g: "shard_ok ?g" using l by (intro shard_ok_evict limiter_ok_shard)
  have q: "quota_ok (lm_quota l)" using l by (simp add: limiter_ok_def)
  have "0 \<le> tokens (snd (take_token (lm_quota l) now
      (case dget ?g key of Some b \<Rightarrow> b | None \<Rightarrow> \<lparr>tokens = burst (lm_quota l), bk_last = now\<rparr>)))"
    using q g by (intro take_token_nonneg) (auto split: option.splits dest: shard_ok_get simp: quota_ok_def)
  with g have "shard_ok (dput key (snd (take_token (lm_quota l) now
      (case dget ?g key of Some b \<Rightarrow> b | None \<Rightarrow> \<lparr>tokens = burst (lm_quota l), bk_last = now\<rparr>))) ?g)"
    by (rule shard_ok_dput)
  with l show ?thesis
    by (auto simp: limiter_check_eq Let_def limiter_ok_def dest!: set_update_subset_insert [THEN subsetD])
qed

lemma set_quota_ok: "limiter_ok l \<Longrightarrow> quota_ok q \<Longrightarrow> limiter_ok (set_quota q l)"
  by (simp add: limiter_ok_def set_quota_def)

lemma evict_get:
  "shard_ok d \<Longrightarrow> dget (evict_idle now cap key d) k =
     (if dget d key = None \<and> max (cap div SHARDS) 1 \<le> length d then
        (case dget d k of Some b \<Rightarrow> if now - bk_last b < 600 * nanos then Some b else None | None \<Rightarrow> None)
      else dget d k)"
  by (simp add: evict_idle_def dget_dretain shard_ok_def split: option.splits)

lemma evict_get_own [simp]: "shard_ok d \<Longrightarrow> dget (evict_idle now cap key d) key = dget d key"
  by (simp add: evict_get split: option.splits)

text \<open>The bucket of the key itself, and of any other key: kept, or forgotten when it is idle.\<close>

lemma check_own:
  fixes key :: string and now :: instant
  assumes "limiter_ok l"
  defines "b \<equiv> (case bucket_of l key of Some b \<Rightarrow> b | None \<Rightarrow> \<lparr>tokens = burst (lm_quota l), bk_last = now\<rparr>)"
  shows "fst (limiter_check now key l) = fst (take_token (lm_quota l) now b)"
    and "bucket_of (snd (limiter_check now key l)) key = Some (snd (take_token (lm_quota l) now b))"
  using limiter_ok_shard [OF assms(1), of key] assms(1)
  by (simp_all add: limiter_check_eq Let_def b_def bucket_of_def limiter_ok_def)

lemma check_other:
  assumes "limiter_ok l" "k \<noteq> key"
  shows "bucket_of (snd (limiter_check now key l)) k = bucket_of l k \<or>
    bucket_of (snd (limiter_check now key l)) k = None"
  using limiter_ok_shard [OF assms(1), of key] assms
  by (auto simp: limiter_check_eq Let_def bucket_of_def limiter_ok_def evict_get nth_list_update split: option.splits)

definition run_checks :: "(instant \<times> string) list \<Rightarrow> limiter \<Rightarrow> limiter" where
  "run_checks evs l = foldl (\<lambda>l e. snd (limiter_check (fst e) (snd e) l)) l evs"

lemma run_checks_simps [simp]:
  "run_checks [] l = l"
  "run_checks (e # evs) l = run_checks evs (snd (limiter_check (fst e) (snd e) l))"
  by (simp_all add: run_checks_def)

lemma run_checks_ok: "limiter_ok l \<Longrightarrow> limiter_ok (run_checks evs l)"
  by (induction evs arbitrary: l) (simp_all add: limiter_check_ok)

lemma run_checks_quota [simp]: "lm_quota (run_checks evs l) = lm_quota l"
  by (induction evs arbitrary: l) simp_all

lemma run_checks_others:
  assumes "limiter_ok l" "key \<notin> snd ` set evs"
  shows "bucket_of (run_checks evs l) key = bucket_of l key \<or> bucket_of (run_checks evs l) key = None"
  using assms
proof (induction evs arbitrary: l)
  case (Cons e evs)
  let ?l = "snd (limiter_check (fst e) (snd e) l)"
  have "bucket_of ?l key = bucket_of l key \<or> bucket_of ?l key = None"
    using Cons.prems by (intro check_other) auto
  moreover have "limiter_ok ?l" using Cons.prems by (simp add: limiter_check_ok)
  ultimately show ?case using Cons.IH [of ?l] Cons.prems by auto
qed simp

subsection \<open>The time a rejection announces is enough\<close>

lemma retry_after_covers:
  assumes "0 \<le> t" "t < 1" "quota_ok q"
  shows "f64_div (f64_sub 1 t) (rate_per_sec q) \<le> of_nat (retry_after q t)" "retry_after q t \<le> 64" "1 \<le> retry_after q t"
proof -
  let ?r = "rate_per_sec q" and ?u = "f64_sub 1 t"
  let ?v = "f64_div ?u ?r"
  have r: "1 / 64 \<le> ?r" using assms by (simp add: quota_ok_def)
  have u: "0 \<le> ?u" "?u \<le> 1" using assms by (simp_all add: f64_sub_def f64_round_nonneg f64_round_le_one)
  have "?u / ?r \<le> 1 / (1 / 64)" using u r by (intro frac_le) auto
  then have "?v \<le> f64_round 64" unfolding f64_div_def using u r by (intro f64_round_mono) auto
  moreover have "f64_round 64 = 64" using f64_round_exact [of 64 0] by (simp add: pow2_def)
  ultimately have c: "\<lceil>?v\<rceil> \<le> 64" by (simp add: ceiling_le_iff)
  then have e: "retry_after q t = nat (max \<lceil>?v\<rceil> 1)" using r by (simp add: retry_after_def)
  then have "of_nat (retry_after q t) = (of_int (max \<lceil>?v\<rceil> 1) :: rat)" by simp
  also have "of_int \<lceil>?v\<rceil> \<le> \<dots>" by simp
  finally show "?v \<le> of_nat (retry_after q t)" using le_of_int_ceiling [of ?v] by linarith
  show "retry_after q t \<le> 64" "1 \<le> retry_after q t" using e c by (simp_all add: nat_le_iff ceiling_le_iff)
qed

lemma wait_fills:
  assumes t: "0 \<le> t" "t < 1" and q: "quota_ok q" and d: "retry_after q t * nanos < d"
  shows "1 \<le> f64_add t (f64_mul (max (as_secs_f64 d) 0) (rate_per_sec q))"
proof -
  let ?r = "rate_per_sec q" and ?u = "f64_sub 1 t" and ?s = "of_nat (retry_after q t) :: rat"
  let ?X = "as_secs_f64 d"
  have r: "1 / 64 \<le> ?r" using q by (simp add: quota_ok_def)
  have u: "0 \<le> ?u" "?u \<le> 1" using t by (simp_all add: f64_sub_def f64_round_nonneg f64_round_le_one)
  have ul: "1 - t - (1 - t) / 2 ^ 53 - 1 / 2 ^ 60 \<le> ?u"
    unfolding f64_sub_def using t by (intro f64_round_lower) simp
  have "?u / ?r \<le> 1 / (1 / 64)" using u r by (intro frac_le) auto
  then have v: "?u / ?r - 64 / 2 ^ 53 - 1 / 2 ^ 60 \<le> f64_div ?u ?r"
    using f64_round_lower [of "?u / ?r"] u r by (simp add: f64_div_def)
  have "64 / 2 ^ 53 + 1 / 2 ^ 60 \<le> (1 / 2 ^ 46 :: rat)" by simp
  then have "?u / ?r - 1 / 2 ^ 46 \<le> ?s"
    using v retry_after_covers(1) [OF t q] by linarith
  then have "(?u / ?r - 1 / 2 ^ 46) * ?r \<le> ?s * ?r" using r by (intro mult_right_mono) auto
  then have s: "?u - ?r / 2 ^ 46 \<le> ?s * ?r" using r by (simp add: left_diff_distrib)
  have "?s + 1 / 2 ^ 30 \<le> ?X" using as_secs_f64_gt [OF d] retry_after_covers(2) [OF t q] by simp
  then have "(?s + 1 / 2 ^ 30) * ?r \<le> ?X * ?r" using r by (intro mult_right_mono) auto
  then have "?s * ?r + ?r / 2 ^ 30 \<le> ?X * ?r" by (simp add: distrib_right)
  moreover have "(1 - t) / 2 ^ 53 + 1 / 2 ^ 60 + 1 / 2 ^ 38 + ?r / 2 ^ 46 \<le> ?r / 2 ^ 30"
    using t r by (simp add: field_simps)
  ultimately have X: "1 - t + 1 / 2 ^ 38 \<le> ?X * ?r" using s ul by linarith
  let ?z = "1 - t + 1 / 2 ^ 38"
  have "f64_round ?z \<le> f64_mul ?X ?r" unfolding f64_mul_def using X t by (intro f64_round_mono) auto
  moreover have "?z - ?z / 2 ^ 53 - 1 / 2 ^ 60 \<le> f64_round ?z" using t by (intro f64_round_lower) simp
  moreover have "?z / 2 ^ 53 + 1 / 2 ^ 60 \<le> 1 / 2 ^ 38" using t by (simp add: field_simps)
  ultimately have "1 - t \<le> f64_mul ?X ?r" by linarith
  then have "1 \<le> f64_round (t + f64_mul ?X ?r)" by (intro f64_round_ge_one) simp
  then show ?thesis by (simp add: f64_add_def)
qed

text \<open>
  C32. A rejection's Retry-After is honest: whatever other clients do in the meantime, a request of
  the same key more than that many seconds later passes. (Floating-point rounding included: the
  extra instant is what absorbs it.)
\<close>

theorem retry_after_honest:
  assumes "limiter_ok l" "limiter_check now key l = (Inl s, l1)"
    and "key \<notin> snd ` set evs" "now + s * nanos < later"
  shows "1 \<le> s \<and> s \<le> 64 \<and> fst (limiter_check later key (run_checks evs l1)) = Inr ()"
proof -
  let ?q = "lm_quota l"
  let ?b = "case bucket_of l key of Some b \<Rightarrow> b | None \<Rightarrow> \<lparr>tokens = burst ?q, bk_last = now\<rparr>"
  let ?t = "refill ?q now ?b"
  have q: "quota_ok ?q" using assms(1) by (simp add: limiter_ok_def)
  have b: "0 \<le> tokens ?b"
    using q limiter_ok_shard [OF assms(1), of key]
    by (auto simp: bucket_of_def quota_ok_def dest: shard_ok_get split: option.splits)
  then have t0: "0 \<le> ?t" using q by (rule refill_nonneg)
  have fs: "fst (take_token ?q now ?b) = Inl s" "bucket_of l1 key = Some (snd (take_token ?q now ?b))"
    using check_own [OF assms(1), of now key] assms(2) by simp_all
  then have t1: "?t < 1" and s: "s = retry_after ?q ?t" and nb: "bucket_of l1 key = Some \<lparr>tokens = ?t, bk_last = now\<rparr>"
    by (auto simp: take_token_def Let_def split: if_splits)
  have l1: "limiter_ok l1" "lm_quota l1 = ?q"
    using limiter_check_ok [OF assms(1), of now key] limiter_check_quota [of now key l] assms(2) by simp_all
  let ?l2 = "run_checks evs l1"
  have l2: "limiter_ok ?l2" "lm_quota ?l2 = ?q" using l1 by (simp_all add: run_checks_ok)
  have "fst (limiter_check later key ?l2) = Inr ()"
    using run_checks_others [OF l1(1) assms(3)]
  proof
    assume "bucket_of ?l2 key = None"
    moreover have "1 \<le> f64_round (burst ?q)" using q by (intro f64_round_ge_one) (simp add: quota_ok_def)
    ultimately show ?thesis
      using q l2 by (simp add: check_own take_token_def refill_def f64_add_def f64_mul_def quota_ok_def Let_def)
  next
    assume "bucket_of ?l2 key = bucket_of l1 key"
    moreover have "1 \<le> refill ?q later \<lparr>tokens = ?t, bk_last = now\<rparr>"
      using wait_fills [OF t0 t1 q, of "later - now"] assms(4) s q
      by (simp add: quota_ok_def refill_def [of _ later])
    ultimately show ?thesis using nb l2 by (simp add: check_own take_token_def Let_def)
  qed
  then show ?thesis using retry_after_covers(2,3) [OF t0 t1 q] s by simp
qed

subsection \<open>How many requests pass\<close>

fun passes :: "quota \<Rightarrow> bucket \<Rightarrow> instant list \<Rightarrow> nat" where
  "passes q b [] = 0"
| "passes q b (t # ts) = (if is_ok (fst (take_token q t b)) then 1 else 0) + passes q (snd (take_token q t b)) ts"

definition slack :: "quota \<Rightarrow> rat" where
  "slack q = (burst q + rate_per_sec q + 1) / 2 ^ 50"

lemma refill_le:
  assumes q: "quota_ok q" and b: "0 \<le> tokens b"
  shows "refill q t b \<le> tokens b + of_nat (t - bk_last b) / 1000000000 * rate_per_sec q * (1 + 1 / 2 ^ 50)
    + rate_per_sec q / 2 ^ 56 + burst q / 2 ^ 53 + 1 / 2 ^ 58"
proof -
  let ?r = "rate_per_sec q" and ?X = "as_secs_f64 (t - bk_last b)" and ?D = "of_nat (t - bk_last b) / 1000000000 :: rat"
  let ?m = "f64_mul ?X ?r" and ?s = "tokens b + f64_mul ?X ?r"
  have r: "0 \<le> ?r" "0 \<le> burst q" using q by (auto simp: quota_ok_def)
  have "?X * ?r \<le> (?D * (1 + 1 / 2 ^ 51) + 1 / 2 ^ 57) * ?r"
    using r by (intro mult_right_mono as_secs_f64_le)
  then have X: "?X * ?r \<le> ?D * ?r * (1 + 1 / 2 ^ 51) + ?r / 2 ^ 57" by (simp add: algebra_simps)
  have m0: "0 \<le> ?m" using r by (simp add: f64_mul_def f64_round_nonneg)
  have m: "?m \<le> ?X * ?r + ?X * ?r / 2 ^ 53 + 1 / 2 ^ 60"
    unfolding f64_mul_def using r by (intro f64_round_upper) simp
  have Dr: "0 \<le> ?D * ?r" using r by simp
  have m': "?m \<le> ?D * ?r * (1 + 1 / 2 ^ 50) + ?r / 2 ^ 56 + 1 / 2 ^ 60"
    using X m Dr r(1) by (rule rounding_product)
  have "refill q t b \<le> ?s + burst q / 2 ^ 53 + 1 / 2 ^ 60"
  proof (cases "?s \<le> burst q")
    case True
    have "f64_round ?s \<le> ?s + ?s / 2 ^ 53 + 1 / 2 ^ 60" using b m0 by (intro f64_round_upper) simp
    moreover have "?s / 2 ^ 53 \<le> burst q / 2 ^ 53" using True by (simp add: divide_right_mono)
    moreover have "refill q t b \<le> f64_round ?s" by (simp add: refill_def f64_add_def)
    ultimately show ?thesis by linarith
  next
    case False
    then have "refill q t b \<le> ?s" by (simp add: refill_def)
    then show ?thesis using r by (simp add: add_increasing2)
  qed
  moreover have "1 / 2 ^ 60 + 1 / 2 ^ 60 \<le> (1 / 2 ^ 58 :: rat)" by simp
  ultimately show ?thesis using m' by linarith
qed

lemma take_token_le:
  assumes q: "quota_ok q" and b: "0 \<le> tokens b"
  shows "(if is_ok (fst (take_token q t b)) then 1 else 0) + tokens (snd (take_token q t b))
    \<le> tokens b + of_nat (t - bk_last b) / 1000000000 * rate_per_sec q * (1 + 1 / 2 ^ 50) + slack q"
proof -
  let ?f = "refill q t b"
  have r: "0 \<le> rate_per_sec q" "1 \<le> burst q" using q by (auto simp: quota_ok_def)
  have f: "?f \<le> burst q" by (simp add: refill_def)
  have "(if is_ok (fst (take_token q t b)) then 1 else 0) + tokens (snd (take_token q t b)) \<le> ?f + burst q / 2 ^ 53 + 1 / 2 ^ 60"
  proof (cases "1 \<le> ?f")
    case True
    then have "f64_round (?f - 1) \<le> (?f - 1) + (?f - 1) / 2 ^ 53 + 1 / 2 ^ 60"
      by (intro f64_round_upper) simp
    moreover have "(?f - 1) / 2 ^ 53 \<le> burst q / 2 ^ 53" using f by (simp add: divide_right_mono)
    ultimately have "f64_round (?f - 1) + 1 \<le> ?f + burst q / 2 ^ 53 + 1 / 2 ^ 60" by linarith
    with True show ?thesis by (simp add: take_token_def f64_sub_def)
  next
    case False
    then show ?thesis using r by (simp add: take_token_def Let_def add_increasing2)
  qed
  moreover have "rate_per_sec q / 2 ^ 56 + burst q / 2 ^ 53 + 1 / 2 ^ 58 + (burst q / 2 ^ 53 + 1 / 2 ^ 60) \<le> slack q"
    using r by (simp add: slack_def field_simps)
  ultimately show ?thesis using refill_le [OF q b, of t] by linarith
qed

definition accrued :: "quota \<Rightarrow> nat \<Rightarrow> rat" where
  "accrued q d = of_nat d / 1000000000 * rate_per_sec q * (1 + 1 / 2 ^ 50)"

lemma accrued_add: "accrued q (c + d) = accrued q c + accrued q d"
  by (simp only: accrued_def of_nat_add add_divide_distrib distrib_right)

lemma passes_le:
  assumes "quota_ok q" "0 \<le> tokens b" "sorted (bk_last b # ts)"
  shows "of_nat (passes q b ts) \<le> tokens b + accrued q (last (bk_last b # ts) - bk_last b) + of_nat (length ts) * slack q"
  using assms(2,3)
proof (induction ts arbitrary: b)
  case Nil
  then show ?case by (simp add: accrued_def)
next
  case (Cons t ts)
  let ?b = "snd (take_token q t b)" and ?p = "if is_ok (fst (take_token q t b)) then 1 else 0 :: rat"
  have b: "0 \<le> tokens ?b" using Cons.prems assms(1) by (simp add: take_token_nonneg)
  have "t \<le> last (t # ts)" "bk_last b \<le> t" using Cons.prems by auto
  then have "accrued q (last (t # ts) - bk_last b) = accrued q (last (t # ts) - t) + accrued q (t - bk_last b)"
    by (simp add: accrued_add [symmetric] del: last.simps)
  moreover have "of_nat (passes q ?b ts) \<le> tokens ?b + accrued q (last (t # ts) - t) + of_nat (length ts) * slack q"
    using Cons.IH [of ?b] b Cons.prems(2) by simp
  moreover have "?p + tokens ?b \<le> tokens b + accrued q (t - bk_last b) + slack q"
    using take_token_le [OF assms(1) Cons.prems(1), of t] by (simp only: accrued_def)
  moreover have "of_nat (passes q b (t # ts)) = ?p + of_nat (passes q ?b ts)" by simp
  moreover have "of_nat (length (t # ts)) * slack q = slack q + of_nat (length ts) * slack q"
    by (simp add: distrib_right)
  moreover have "accrued q (last (bk_last b # t # ts) - bk_last b) = accrued q (last (t # ts) - bk_last b)" by simp
  ultimately show ?case by linarith
qed

text \<open>The results of a client's requests, as the limiter answers them.\<close>

fun answers :: "string \<Rightarrow> instant list \<Rightarrow> limiter \<Rightarrow> bool list" where
  "answers key [] l = []"
| "answers key (t # ts) l = is_ok (fst (limiter_check t key l)) # answers key ts (snd (limiter_check t key l))"

lemma answers_passes:
  "limiter_ok l \<Longrightarrow> bucket_of l key = Some b \<Longrightarrow>
    length (filter (\<lambda>x. x) (answers key ts l)) = passes (lm_quota l) b ts"
proof (induction ts arbitrary: l b)
  case (Cons t ts)
  then show ?case
    using Cons.IH [OF limiter_check_ok check_own(2), of l t] by (simp add: check_own)
qed simp


text \<open>Concrete limiters: one token a second and a burst of two.\<close>

definition two_burst :: limiter where
  "two_burst = limiter_new (per_minute 60 2)"

text \<open>Whole seconds and whole tokens are exact, which is enough to run these.\<close>

lemma f64_round_one [simp]: "f64_round 1 = 1"
  using f64_of_int_exact [of 1] by (simp add: f64_of_int_def)

lemma f64_round_numeral: "(numeral n :: int) \<le> 2 ^ 53 \<Longrightarrow> f64_round (numeral n) = numeral n"
  using f64_of_int_exact [of "numeral n"] by (simp add: f64_of_int_def)

lemmas run_defs = limiter_check_def evict_idle_def take_token_def refill_def retry_after_def as_secs_f64_def
  f64_add_def f64_sub_def f64_mul_def f64_div_def f64_of_int_def f64_round_numeral
  rl_shard_def fnv1a_def ch_def SHARDS_def bucket_of_def dretain_def Let_def

lemma two_burst_eq: "two_burst = \<lparr>lm_quota = \<lparr>rate_per_sec = 1, burst = 2\<rparr>, lm_shards = replicate 16 [], lm_cap = 50000\<rparr>"
  by (simp add: two_burst_def limiter_new_def per_minute_def run_defs)

lemma two_burst_ok: "limiter_ok two_burst"
  unfolding two_burst_def by (intro limiter_new_ok per_minute_ok) simp_all


lemma retry_after_honest_witness:
  "fst (limiter_check 5000000001 ''a''
     (run_checks [(4000000001, ''b'')] (snd (limiter_check 4000000000 ''a'' (run_checks [(4000000000, ''a''), (4000000000, ''a'')] two_burst)))))
   = Inr ()"
proof -
  let ?l = "run_checks [(4000000000, ''a''), (4000000000, ''a'')] two_burst"
  have l: "?l = two_burst\<lparr>lm_shards := (replicate 16 [])[12 := [(''a'', \<lparr>tokens = 0, bk_last = 4000000000\<rparr>)]]\<rparr>"
    by (simp add: two_burst_eq run_defs)
  have "fst (limiter_check 4000000000 ''a'' ?l) = Inl 1"
    unfolding l by (simp add: two_burst_eq run_defs)
  then have "limiter_check 4000000000 ''a'' ?l = (Inl 1, snd (limiter_check 4000000000 ''a'' ?l))"
    by (metis prod.collapse)
  from retry_after_honest [OF run_checks_ok [OF two_burst_ok] this, of "[(4000000001, ''b'')]" 5000000001]
  show ?thesis by simp
qed

subsection \<open>Forgotten buckets\<close>

text \<open>
  The cap on a shard is only a reason to look for idle keys: when none is idle, a newcomer is
  stored all the same, so the number of keys has no bound.
\<close>

lemma length_dput: "dget d k = None \<Longrightarrow> length (dput k v d) = Suc (length d)"
  by (induction k v d rule: dput.induct) (auto split: if_splits)

lemma dretain_id: "list_all (\<lambda>e. p (fst e) (snd e)) d \<Longrightarrow> dretain p d = d"
  by (induction d) (auto simp: dretain_def)

lemma cap_not_enforced:
  assumes "limiter_ok l" "bucket_of l key = None"
    and "\<forall>b \<in> snd ` set (lm_shards l ! rl_shard key). now - bk_last b < 600 * nanos"
  shows "length (lm_shards (snd (limiter_check now key l)) ! rl_shard key) = Suc (length (lm_shards l ! rl_shard key))"
proof -
  have "evict_idle now (lm_cap l) key (lm_shards l ! rl_shard key) = lm_shards l ! rl_shard key"
    using assms(3) by (auto simp: evict_idle_def list_all_iff intro!: dretain_id)
  then show ?thesis
    using assms(1,2) by (simp add: limiter_check_eq Let_def limiter_ok_def bucket_of_def length_dput)
qed

text \<open>
  A key forgotten under pressure comes back with the whole burst, more than its rate would have
  given it: here one token a second and a burst of 1000, ten minutes after the bucket was empty.
\<close>

definition slow_limiter :: limiter where
  "slow_limiter = (limiter_new (per_minute 60 1000))\<lparr>lm_cap := 0,
     lm_shards := (replicate SHARDS [])[rl_shard ''a'' := [(''a'', \<lparr>tokens = 0, bk_last = 0\<rparr>)]]\<rparr>"

lemma eviction_refills:
  "map_option tokens (bucket_of (snd (limiter_check 600000000000 ''a'' slow_limiter)) ''a'') = Some 599
   \<and> map_option tokens (bucket_of (snd (limiter_check 600000000000 ''a''
       (snd (limiter_check 600000000000 ''q'' slow_limiter)))) ''a'') = Some 999"
  by (simp add: slow_limiter_def limiter_new_def per_minute_def run_defs)

end
