(* ===== verification/Lockout.thy ===== *)
theory Lockout
  imports Throttle
begin

text \<open>
  What the login lockout promises: a login is locked by consecutive failures, nothing but a
  success or the end of the window frees it, and the end of the window always does.
\<close>

datatype guard_event = Failed instant string | Cleared string

fun guard_step :: "login_guard \<Rightarrow> guard_event \<Rightarrow> login_guard" where
  "guard_step g (Failed t l) = snd (guard_fail t l g)"
| "guard_step g (Cleared l) = guard_clear l g"

definition guard_run :: "guard_event list \<Rightarrow> login_guard \<Rightarrow> login_guard" where
  "guard_run evs g = foldl guard_step g evs"

text \<open>The clock only moves forward along a run.\<close>

fun run_times :: "instant \<Rightarrow> guard_event list \<Rightarrow> instant \<Rightarrow> bool" where
  "run_times t [] now \<longleftrightarrow> t \<le> now"
| "run_times t (Failed u l # evs) now \<longleftrightarrow> t \<le> u \<and> run_times u evs now"
| "run_times t (Cleared l # evs) now \<longleftrightarrow> run_times t evs now"

definition entry_ok :: "nat \<Rightarrow> instant \<Rightarrow> lg_entry \<Rightarrow> bool" where
  "entry_ok w t e \<longleftrightarrow> lg_last e \<le> t \<and> (\<forall>u. locked_until e = Some u \<longrightarrow> u \<le> lg_last e + w)"

definition guard_ok :: "instant \<Rightarrow> login_guard \<Rightarrow> bool" where
  "guard_ok t g \<longleftrightarrow> 0 < lg_window g \<and> dict_ok (lg_entries g) \<and>
     (\<forall>l e. dget (lg_entries g) l = Some e \<longrightarrow> entry_ok (lg_window g) t e)"

lemma guard_new_ok: "guard_ok t (guard_new m secs)"
  by (simp add: guard_ok_def guard_new_def)

lemma entry_ok_later: "entry_ok w t e \<Longrightarrow> t \<le> u \<Longrightarrow> entry_ok w u e"
  by (simp add: entry_ok_def)

lemma guard_ok_later: "guard_ok t g \<Longrightarrow> t \<le> u \<Longrightarrow> guard_ok u g"
  by (auto simp: guard_ok_def intro: entry_ok_later)

lemma strike_ok: "entry_ok (lg_window g) t e \<Longrightarrow> t \<le> now \<Longrightarrow> entry_ok (lg_window g) now (strike g now e)"
  by (auto simp: entry_ok_def strike_def Let_def)

lemma strike_last [simp]: "lg_last (strike g now e) = now"
  by (simp add: strike_def Let_def)

lemma guard_evict_get:
  "dict_ok (lg_entries g) \<Longrightarrow> dget (guard_evict now login g) l = Some e \<Longrightarrow> dget (lg_entries g) l = Some e"
  by (auto simp: guard_evict_def dget_dretain split: if_splits option.splits)

lemma guard_evict_dict [simp]: "dict_ok (lg_entries g) \<Longrightarrow> dict_ok (guard_evict now login g)"
  by (simp add: guard_evict_def)

lemma guard_entry_ok:
  assumes "guard_ok t g" "t \<le> now"
  shows "entry_ok (lg_window g) now (guard_entry now login (guard_evict now login g))"
  using assms
  by (auto simp: guard_entry_def guard_ok_def entry_ok_def split: option.splits dest!: guard_evict_get intro: le_trans)

lemma guard_fail_window [simp]: "lg_window (snd (guard_fail now login g)) = lg_window g"
  and guard_fail_max [simp]: "max_attempts (snd (guard_fail now login g)) = max_attempts g"
  by (simp_all add: guard_fail_def Let_def)

lemma guard_fail_ok:
  assumes g: "guard_ok t g" and t: "t \<le> now"
  shows "guard_ok now (snd (guard_fail now login g))"
proof (cases "guard_off g")
  case True
  then show ?thesis using guard_ok_later [OF g t] by (simp add: guard_fail_def)
next
  case False
  have d: "dict_ok (lg_entries g)" using g by (simp add: guard_ok_def)
  have "entry_ok (lg_window g) now (strike g now (guard_entry now login (guard_evict now login g)))"
    by (rule strike_ok [OF guard_entry_ok [OF g t]]) simp
  moreover have "entry_ok (lg_window g) now e" if "dget (guard_evict now login g) l = Some e" for l e
    using guard_evict_get [OF d that] guard_ok_later [OF g t] by (simp add: guard_ok_def)
  ultimately show ?thesis using False g d by (auto simp: guard_fail_def Let_def guard_ok_def)
qed

lemma guard_clear_ok: "guard_ok t g \<Longrightarrow> guard_ok t (guard_clear login g)"
  by (auto simp: guard_clear_def guard_ok_def)

lemma guard_clear_params [simp]: "lg_window (guard_clear login g) = lg_window g" "max_attempts (guard_clear login g) = max_attempts g"
  by (simp_all add: guard_clear_def)

lemma guard_run_Nil [simp]: "guard_run [] g = g"
  and guard_run_Cons [simp]: "guard_run (e # evs) g = guard_run evs (guard_step g e)"
  by (simp_all add: guard_run_def)

lemma guard_run_params [simp]: "lg_window (guard_run evs g) = lg_window g" "max_attempts (guard_run evs g) = max_attempts g"
proof (induction evs arbitrary: g)
  case (Cons e evs)
  {
    case 1
    show ?case using Cons.IH [of "guard_step g e"] by (cases e) simp_all
  next
    case 2
    show ?case using Cons.IH [of "guard_step g e"] by (cases e) simp_all
  }
qed simp_all

lemma guard_run_ok: "guard_ok t g \<Longrightarrow> run_times t evs now \<Longrightarrow> guard_ok now (guard_run evs g)"
proof (induction t evs now arbitrary: g rule: run_times.induct)
  case (1 t now)
  then show ?case by (simp add: guard_ok_later)
next
  case (2 t u l evs now)
  then show ?case using guard_fail_ok [of t g u l] by simp
next
  case (3 t l evs now)
  then show ?case by (simp add: guard_clear_ok)
qed

text \<open>The instant until which a login is locked.\<close>

definition lock_of :: "login_guard \<Rightarrow> string \<Rightarrow> instant option" where
  "lock_of g login = Option.bind (dget (lg_entries g) login) locked_until"

lemma locked_secs_lock_of:
  "locked_secs now login g = (if guard_off g then None else
     case lock_of g login of Some u \<Rightarrow> if now < u then Some (max ((u - now) div nanos) 1) else None | None \<Rightarrow> None)"
  by (simp add: locked_secs_def lock_of_def)

lemma lock_of_bound: "guard_ok t g \<Longrightarrow> lock_of g login = Some u \<Longrightarrow> u \<le> t + lg_window g"
  by (fastforce simp: lock_of_def guard_ok_def entry_ok_def bind_eq_Some_conv)

text \<open>A failure never shortens a lock that is still running, its own or another login's.\<close>

lemma guard_fail_keeps:
  assumes g: "guard_ok t g" and t: "t \<le> now" and u: "lock_of g login = Some u" and run: "now < u"
  shows "\<exists>v. lock_of (snd (guard_fail now l g)) login = Some v \<and> u \<le> v"
proof (cases "guard_off g")
  case True
  with u show ?thesis by (simp add: guard_fail_def)
next
  case False
  from u obtain e where e: "dget (lg_entries g) login = Some e" "locked_until e = Some u"
    by (auto simp: lock_of_def bind_eq_Some_conv)
  have d: "dict_ok (lg_entries g)" using g by (simp add: guard_ok_def)
  have ub: "u \<le> lg_last e + lg_window g" using g e by (auto simp: guard_ok_def entry_ok_def)
  moreover have "0 < lg_window g" using g by (simp add: guard_ok_def)
  ultimately have recent: "now - lg_last e < lg_window g" using run by linarith
  have kept: "dget (guard_evict now l g) login = Some e"
    using e recent d by (simp add: guard_evict_def dget_dretain)
  show ?thesis
  proof (cases "login = l")
    case True
    have le: "lg_last e \<le> t" using g e by (auto simp: guard_ok_def entry_ok_def)
    have s: "locked_until (strike g now e) = (if max (max_attempts g) 1 \<le> (fails e + 1) mod 2 ^ 32 then Some (now + lg_window g) else Some u)"
      using recent e by (simp add: strike_def Let_def)
    have "u \<le> now + lg_window g" using ub le t by linarith
    with s False kept True show ?thesis
      by (simp add: guard_fail_def Let_def lock_of_def guard_entry_def)
  next
    case other: False
    with kept e False show ?thesis by (simp add: guard_fail_def Let_def lock_of_def)
  qed
qed

text \<open>
  A lock holds: once a login is locked until \<open>u\<close>, no sequence of failed attempts, on this login
  or on any others (evictions under memory pressure included), and no success of another login
  frees it before \<open>u\<close>.
\<close>

theorem lockout_holds:
  assumes "guard_ok t g" "\<not> guard_off g" "lock_of g login = Some u"
    and "run_times t evs now" "Cleared login \<notin> set evs" "now < u"
  shows "\<exists>s. locked_secs now login (guard_run evs g) = Some s \<and> 1 \<le> s"
proof -
  have "\<exists>v. lock_of (guard_run evs g) login = Some v \<and> u \<le> v"
    using assms(1,3-6)
  proof (induction t evs now arbitrary: g u rule: run_times.induct)
    case (2 t w l evs now)
    have "w \<le> now" using "2.prems"(3) by (induction w evs now rule: run_times.induct) auto
    then have w: "w < u" using "2.prems" by simp
    from guard_fail_keeps [OF "2.prems"(1) _ "2.prems"(2) w, of l] "2.prems"(3)
    obtain v where v: "lock_of (snd (guard_fail w l g)) login = Some v" "u \<le> v" by auto
    with "2.IH" [of "snd (guard_fail w l g)" v] "2.prems" guard_fail_ok [OF "2.prems"(1), of w l]
    show ?case by fastforce
  next
    case (3 t l evs now)
    then have "lock_of (guard_clear l g) login = Some u" by (auto simp: guard_clear_def lock_of_def)
    with 3 guard_clear_ok [of t g l] show ?case by simp
  qed simp
  with assms(2,6) show ?thesis
    by (auto simp: locked_secs_lock_of guard_off_def)
qed

text \<open>
  A lock ends: whatever happened before, a login is free again one window after the last
  attempt that any login made.
\<close>

lemma lockout_expires:
  assumes "guard_ok t g" "run_times t evs now"
  shows "locked_secs (now + lg_window g) login (guard_run evs g) = None"
  using lock_of_bound [OF guard_run_ok [OF assms], of login] by (auto simp: locked_secs_lock_of split: option.splits)

subsection \<open>How a login gets locked\<close>

fun fail_all :: "string \<Rightarrow> instant list \<Rightarrow> login_guard \<Rightarrow> nat option list \<times> login_guard" where
  "fail_all l [] g = ([], g)"
| "fail_all l (t # ts) g = (let (r, g') = guard_fail t l g; (rs, h) = fail_all l ts g' in (r # rs, h))"

fun gaps_below :: "nat \<Rightarrow> instant list \<Rightarrow> bool" where
  "gaps_below w (t # u # ts) \<longleftrightarrow> t \<le> u \<and> u - t < w \<and> gaps_below w (u # ts)"
| "gaps_below w _ \<longleftrightarrow> True"

definition counting :: "login_guard \<Rightarrow> string \<Rightarrow> nat \<Rightarrow> instant \<Rightarrow> bool" where
  "counting g login k t \<longleftrightarrow> dict_ok (lg_entries g) \<and> 0 < lg_window g \<and> max_attempts g < 2 ^ 32 \<and> k < max_attempts g \<and>
     (case dget (lg_entries g) login of
        None \<Rightarrow> k = 0
      | Some e \<Rightarrow> e = \<lparr>fails = k, lg_last = t, locked_until = None\<rparr>)"

lemma counting_fail:
  assumes c: "counting g login k t" and t: "now - t < lg_window g"
  shows "guard_fail now login g =
    (if Suc k = max_attempts g then Some (window_secs g) else None,
     snd (guard_fail now login g)) \<and>
    (if Suc k = max_attempts g then lock_of (snd (guard_fail now login g)) login = Some (now + lg_window g)
     else counting (snd (guard_fail now login g)) login (Suc k) now)"
proof -
  let ?e = "guard_entry now login (guard_evict now login g)"
  let ?l = "if Suc k = max_attempts g then Some (now + lg_window g) else None"
  have off: "\<not> guard_off g" using c by (auto simp: counting_def guard_off_def)
  have e: "fails ?e = k" "now - lg_last ?e < lg_window g" "locked_until ?e = None"
    using c t by (auto simp: counting_def guard_entry_def guard_evict_def dget_dretain split: option.splits)
  have k: "Suc k < 2 ^ 32" "Suc k \<le> max_attempts g" "0 < max_attempts g" using c by (auto simp: counting_def)
  have s: "strike g now ?e = \<lparr>fails = Suc k, lg_last = now, locked_until = ?l\<rparr>"
    using e k by (cases ?e) (auto simp: strike_def Let_def)
  have "lg_window g \<noteq> 0" "dict_ok (guard_evict now login g)" "max_attempts g < 2 ^ 32" using c by (auto simp: counting_def)
  with off e s k show ?thesis
    by (auto simp: guard_fail_def Let_def still_locked_def lock_of_def counting_def window_secs_def guard_off_def)
qed

lemma counting_fail_all:
  assumes "counting g login k t" "gaps_below (lg_window g) (t # ts)" "k + length ts = max_attempts g" "ts \<noteq> []"
  shows "fst (fail_all login ts g) = replicate (length ts - 1) None @ [Some (window_secs g)]
    \<and> lock_of (snd (fail_all login ts g)) login = Some (last ts + lg_window g)"
  using assms
proof (induction ts arbitrary: g k t)
  case (Cons u ts)
  let ?g = "snd (guard_fail u login g)"
  have u: "u - t < lg_window g" using Cons.prems by simp
  note f = counting_fail [OF Cons.prems(1) u]
  show ?case
  proof (cases ts)
    case Nil
    then have "Suc k = max_attempts g" using Cons.prems by simp
    with f Nil show ?thesis by (auto simp: Let_def split: prod.splits)
  next
    case c: (Cons v vs)
    then have k: "Suc k \<noteq> max_attempts g" using Cons.prems by auto
    with f have "counting ?g login (Suc k) u" "fst (guard_fail u login g) = None" by (metis fst_conv)+
    moreover have "window_secs ?g = window_secs g" by (simp add: window_secs_def)
    ultimately show ?thesis
      using Cons.IH [of ?g "Suc k" u] Cons.prems c by (auto simp: Let_def split: prod.splits)
  qed
qed simp

text \<open>
  The lock: a login without recorded failures is locked by exactly \<open>max_attempts\<close> failures in
  a row, each within the window of the one before, until one window after the last. Only the last
  of them reports the transition.
\<close>

theorem lockout_after_max_attempts:
  assumes "dict_ok (lg_entries g)" "0 < lg_window g" "max_attempts g < 2 ^ 32"
    and "dget (lg_entries g) login = None"
    and "length ts = max_attempts g" "ts \<noteq> []" "gaps_below (lg_window g) ts"
  shows "fst (fail_all login ts g) = replicate (length ts - 1) None @ [Some (window_secs g)]
    \<and> lock_of (snd (fail_all login ts g)) login = Some (last ts + lg_window g)"
proof -
  obtain u us where ts: "ts = u # us" using assms(6) by (cases ts) auto
  have "0 < max_attempts g" using assms(5) ts by (metis length_greater_0_conv list.distinct(1))
  then have "counting g login 0 u" using assms by (auto simp: counting_def)
  moreover have "gaps_below (lg_window g) (u # ts)" using assms(2,7) ts by (cases us) auto
  ultimately show ?thesis using assms(5,6) by (intro counting_fail_all) auto
qed

subsection \<open>Concrete guards\<close>

definition three_strikes :: login_guard where
  "three_strikes = guard_new 3 60"

lemma three_strikes_eq: "three_strikes = \<lparr>max_attempts = 3, lg_window = 60000000000, lg_entries = []\<rparr>"
  by (simp add: three_strikes_def guard_new_def)

lemma lockout_after_max_attempts_witness:
  "fst (fail_all ''u'' [0, 1000000000, 2000000000] three_strikes) = [None, None, Some 60]"
  using lockout_after_max_attempts [of three_strikes "''u''" "[0, 1000000000, 2000000000]"]
  by (simp add: three_strikes_eq window_secs_def)

definition locked_guard :: login_guard where
  "locked_guard = three_strikes\<lparr>lg_entries := [(''u'', \<lparr>fails = 3, lg_last = 0, locked_until = Some 60000000000\<rparr>)]\<rparr>"

lemma locked_guard_ok: "guard_ok 0 locked_guard"
  by (simp add: guard_ok_def locked_guard_def three_strikes_eq entry_ok_def dict_ok_def)

lemma lockout_holds_witness:
  "locked_secs 59000000000 ''u'' (guard_run [Failed 1000000000 ''u'', Cleared ''v''] locked_guard) \<noteq> None"
  using lockout_holds [OF locked_guard_ok, of "''u''" 60000000000 "[Failed 1000000000 ''u'', Cleared ''v'']" 59000000000]
  by (auto simp: locked_guard_def three_strikes_eq guard_off_def lock_of_def simp del: guard_run_Cons)

lemma lockout_expires_witness:
  "locked_secs (2000000000 + 60000000000) ''u'' (guard_run [Failed 1000000000 ''u''] locked_guard) = None"
  using lockout_expires [OF locked_guard_ok, of "[Failed 1000000000 ''u'']" 2000000000 "''u''"]
  by (simp add: locked_guard_def three_strikes_eq)

text \<open>
  The seconds a locked login is told to wait are rounded down, so a client that waits exactly that
  long is still locked out: 59.9 seconds before the end it is told 59.
\<close>

lemma lockout_under_reports:
  "locked_secs 100000000 ''u'' locked_guard = Some 59 \<and>
   locked_secs (100000000 + 59 * nanos) ''u'' locked_guard = Some 1"
  by (simp add: locked_guard_def three_strikes_eq locked_secs_def guard_off_def)

end
