(* ===== verification/TokenCache.thy ===== *)
theory TokenCache
  imports Throttle Core
begin

text \<open>
  The cache in front of the provider chain (\<open>tokcache.rs\<close>) and \<open>resolve_token\<close>, which uses it. The
  digest of a token (\<open>sha\<close>), the JSON parser (\<open>from_slice\<close>) and the chain itself (\<open>resolve\<close>) are
  parameters. A call reads the monotonic clock (\<open>now\<close>, nanoseconds) and, to clamp a token's own
  expiry, the wall clock (\<open>unix\<close>, seconds).
\<close>

subsection \<open>base64url\<close>

definition b64val :: "char \<Rightarrow> nat option" where
  "b64val c = (let n = ch c in
     if 65 \<le> n \<and> n \<le> 90 then Some (n - 65)
     else if 97 \<le> n \<and> n \<le> 122 then Some (n - 97 + 26)
     else if 48 \<le> n \<and> n \<le> 57 then Some (n - 48 + 52)
     else if n = 45 then Some 62
     else if n = 95 then Some 63
     else None)"

text \<open>The accumulator holds fewer than six pending bits, so the \<open>u32\<close> never overflows.\<close>

fun b64_loop :: "nat \<Rightarrow> nat \<Rightarrow> string \<Rightarrow> string option" where
  "b64_loop buf nbits [] = Some []"
| "b64_loop buf nbits (c # cs) =
     (if c = CHR ''='' then Some []
      else case b64val c of
        None \<Rightarrow> None
      | Some v \<Rightarrow>
          (let b = buf * 64 + v; n = nbits + 6 in
           if 8 \<le> n then
             map_option (Cons (char_of (b div 2 ^ (n - 8) mod 256))) (b64_loop (b mod 2 ^ (n - 8)) (n - 8) cs)
           else b64_loop b n cs))"

definition b64url_decode :: "string \<Rightarrow> string option" where
  "b64url_decode s = (if s = [] \<or> length s mod 4 = 1 then None else b64_loop 0 0 s)"

definition jwt_exp :: "(string \<Rightarrow> json option) \<Rightarrow> string \<Rightarrow> nat option" where
  "jwt_exp from_slice token = (case split_on (CHR ''.'') token of
     _ # payload # _ \<Rightarrow>
       (case b64url_decode payload of
          None \<Rightarrow> None
        | Some raw \<Rightarrow>
            (case from_slice raw of
               None \<Rightarrow> None
             | Some v \<Rightarrow> Option.bind (jget v ''exp'') (\<lambda>e. map_option nat (as_u64 e))))
   | _ \<Rightarrow> None)"

subsection \<open>The cache\<close>

definition MAX_TTL :: nat where "MAX_TTL = 3600 * nanos"
definition FIXED_TTL :: nat where "FIXED_TTL = 60 * nanos"
definition NEG_TTL :: nat where "NEG_TTL = 30 * nanos"
definition IDLE :: nat where "IDLE = 300 * nanos"

record tc_entry =
  tc_ctx :: "auth_context option"
  exp_at :: instant
  tc_last :: instant

type_synonym token_cache = "(string, tc_entry) dict list"

definition token_cache_new :: token_cache where
  "token_cache_new = replicate SHARDS []"

text \<open>The shard is the first byte of the digest, which is never empty.\<close>

definition tc_shard :: "string \<Rightarrow> nat" where
  "tc_shard key = (case key of [] \<Rightarrow> 0 | c # _ \<Rightarrow> ch c mod SHARDS)"

definition tc_get :: "instant \<Rightarrow> string \<Rightarrow> token_cache \<Rightarrow> auth_context option option \<times> token_cache" where
  "tc_get now key c =
     (let i = tc_shard key; g = c ! i in
      case dget g key of
        None \<Rightarrow> (None, c)
      | Some e \<Rightarrow>
          if exp_at e \<le> now \<or> IDLE \<le> now - tc_last e then (None, c[i := ddel key g])
          else (Some (tc_ctx e), c[i := dput key (e\<lparr>tc_last := now\<rparr>) g]))"

definition tc_ttl :: "(string \<Rightarrow> json option) \<Rightarrow> nat \<Rightarrow> string \<Rightarrow> auth_context option \<Rightarrow> nat option" where
  "tc_ttl from_slice unix token ctx = (case ctx of
     None \<Rightarrow> Some NEG_TTL
   | Some _ \<Rightarrow>
       (case jwt_exp from_slice token of
          None \<Rightarrow> Some FIXED_TTL
        | Some e \<Rightarrow> if e \<le> unix then None else Some (min ((e - unix) * nanos) MAX_TTL)))"

definition tc_put :: "instant \<Rightarrow> string \<Rightarrow> nat \<Rightarrow> auth_context option \<Rightarrow> token_cache \<Rightarrow> token_cache" where
  "tc_put now key ttl ctx c =
     (let i = tc_shard key; g = c ! i;
          g' = (if dget g key = None \<and> max (CAP div SHARDS) 1 \<le> length g
                then dretain (\<lambda>_ e. now - tc_last e < 600 * nanos) g else g)
      in c[i := dput key \<lparr>tc_ctx = ctx, exp_at = now + ttl, tc_last = now\<rparr> g'])"

definition tc_store :: "(string \<Rightarrow> json option) \<Rightarrow> (string \<Rightarrow> string) \<Rightarrow> nat \<Rightarrow> instant \<Rightarrow> string \<Rightarrow>
    auth_context option \<Rightarrow> token_cache \<Rightarrow> token_cache" where
  "tc_store from_slice sha unix now token ctx c = (case tc_ttl from_slice unix token ctx of
     None \<Rightarrow> c
   | Some ttl \<Rightarrow> tc_put now (sha token) ttl ctx c)"

definition tc_remove :: "string \<Rightarrow> token_cache \<Rightarrow> token_cache" where
  "tc_remove key c = c[tc_shard key := ddel key (c ! tc_shard key)]"

definition tc_clear :: "token_cache \<Rightarrow> token_cache" where
  "tc_clear c = map (\<lambda>_. []) c"

definition resolve_token :: "(string \<Rightarrow> json option) \<Rightarrow> (string \<Rightarrow> string) \<Rightarrow> nat \<Rightarrow> instant \<Rightarrow>
    (string \<Rightarrow> auth_context option) \<Rightarrow> string \<Rightarrow> token_cache \<Rightarrow> auth_context option \<times> token_cache" where
  "resolve_token from_slice sha unix now resolve token c =
     (case tc_get now (sha token) c of
        (Some hit, c') \<Rightarrow> (hit, c')
      | (None, c') \<Rightarrow> (let ctx = resolve token in (ctx, tc_store from_slice sha unix now token ctx c')))"

subsection \<open>What a hit rests on\<close>

datatype tc_event = TGet instant string | TPut nat instant string "auth_context option"
  | TRemove string | TClear

text \<open>
  The specification reads the history, latest event first: the outcome last stored for a token and
  the instant at which it dies, unless it was revoked since.
\<close>

fun granted :: "(string \<Rightarrow> json option) \<Rightarrow> (string \<Rightarrow> string) \<Rightarrow> tc_event list \<Rightarrow> string \<Rightarrow>
    (auth_context option \<times> instant) option" where
  "granted fs sha [] k = None"
| "granted fs sha (TGet t tok # h) k = granted fs sha h k"
| "granted fs sha (TPut u t tok x # h) k =
     (case tc_ttl fs u tok x of
        Some ttl \<Rightarrow> if sha tok = k then Some (x, t + ttl) else granted fs sha h k
      | None \<Rightarrow> granted fs sha h k)"
| "granted fs sha (TRemove tok # h) k = (if sha tok = k then None else granted fs sha h k)"
| "granted fs sha (TClear # h) k = None"

fun tc_step :: "(string \<Rightarrow> json option) \<Rightarrow> (string \<Rightarrow> string) \<Rightarrow> tc_event \<Rightarrow> token_cache \<Rightarrow> token_cache" where
  "tc_step fs sha (TGet t tok) c = snd (tc_get t (sha tok) c)"
| "tc_step fs sha (TPut u t tok x) c = tc_store fs sha u t tok x c"
| "tc_step fs sha (TRemove tok) c = tc_remove (sha tok) c"
| "tc_step fs sha TClear c = tc_clear c"

fun tc_run :: "(string \<Rightarrow> json option) \<Rightarrow> (string \<Rightarrow> string) \<Rightarrow> tc_event list \<Rightarrow> token_cache" where
  "tc_run fs sha [] = token_cache_new"
| "tc_run fs sha (e # h) = tc_step fs sha e (tc_run fs sha h)"

definition tc_entry_of :: "token_cache \<Rightarrow> string \<Rightarrow> tc_entry option" where
  "tc_entry_of c k = dget (c ! tc_shard k) k"

definition cache_ok :: "token_cache \<Rightarrow> bool" where
  "cache_ok c \<longleftrightarrow> length c = SHARDS \<and> list_all dict_ok c"

lemma tc_shard_less [simp]: "tc_shard k < SHARDS"
  by (simp add: tc_shard_def SHARDS_def split: list.split)

lemma cache_ok_shard: "cache_ok c \<Longrightarrow> dict_ok (c ! tc_shard k)"
  by (simp add: cache_ok_def list_all_length)

lemma cache_ok_update: "cache_ok c \<Longrightarrow> dict_ok d \<Longrightarrow> cache_ok (c[i := d])"
  by (auto simp: cache_ok_def list_all_iff dest!: set_update_subset_insert [THEN subsetD])

lemma entry_of_update: "cache_ok c \<Longrightarrow>
    tc_entry_of (c[tc_shard k := d]) j = (if tc_shard j = tc_shard k then dget d j else tc_entry_of c j)"
  by (auto simp: tc_entry_of_def cache_ok_def)

lemmas cache_simps = entry_of_update cache_ok_update cache_ok_shard

lemma tc_get_ok: "cache_ok c \<Longrightarrow> cache_ok (snd (tc_get now k c))"
  by (auto simp: tc_get_def Let_def cache_simps split: option.splits)

lemma tc_put_ok: "cache_ok c \<Longrightarrow> cache_ok (tc_put now k ttl x c)"
  by (auto simp: tc_put_def Let_def cache_simps)

lemma tc_clear_ok: "cache_ok c \<Longrightarrow> cache_ok (tc_clear c)"
  by (auto simp: tc_clear_def cache_ok_def list_all_iff)

lemma tc_step_ok: "cache_ok c \<Longrightarrow> cache_ok (tc_step fs sha e c)"
  by (cases e) (auto simp: tc_get_ok tc_store_def tc_put_ok tc_remove_def cache_simps tc_clear_ok split: option.splits)

lemma token_cache_new_ok [simp]: "cache_ok token_cache_new"
  by (simp add: cache_ok_def token_cache_new_def list_all_length)

lemma tc_run_ok: "cache_ok (tc_run fs sha h)"
  by (induction h) (simp_all add: tc_step_ok)

lemma tc_get_entry: "cache_ok c \<Longrightarrow> tc_entry_of (snd (tc_get now k c)) j = Some e \<Longrightarrow>
    \<exists>e'. tc_entry_of c j = Some e' \<and> tc_ctx e' = tc_ctx e \<and> exp_at e' = exp_at e"
  by (auto simp: tc_get_def Let_def cache_simps split: option.splits if_splits) (auto simp: tc_entry_of_def)

lemma tc_put_entry: "cache_ok c \<Longrightarrow> tc_entry_of (tc_put now k ttl x c) j = Some e \<Longrightarrow>
    (if j = k then tc_ctx e = x \<and> exp_at e = now + ttl else tc_entry_of c j = Some e)"
  by (auto simp: tc_put_def Let_def cache_simps dget_dretain split: option.splits if_splits)
    (auto simp: tc_entry_of_def)

lemma tc_run_granted: "tc_entry_of (tc_run fs sha h) k = Some e \<Longrightarrow> granted fs sha h k = Some (tc_ctx e, exp_at e)"
proof (induction h arbitrary: e)
  case Nil
  then show ?case by (simp add: tc_entry_of_def token_cache_new_def)
next
  case (Cons ev h)
  note ok = tc_run_ok [of fs sha h]
  show ?case
  proof (cases ev)
    case (TGet t tok)
    with Cons show ?thesis by (auto dest!: tc_get_entry [OF ok])
  next
    case (TPut u t tok x)
    with Cons show ?thesis
      by (auto simp: tc_store_def split: option.splits dest!: tc_put_entry [OF ok] split: if_splits)
  next
    case (TRemove tok)
    with Cons show ?thesis
      by (auto simp: tc_remove_def cache_simps [OF ok] split: if_splits) (auto simp: tc_entry_of_def)
  next
    case TClear
    with Cons.prems ok show ?thesis by (simp add: tc_clear_def tc_entry_of_def cache_ok_def)
  qed
qed

lemma tc_ttl_le: "tc_ttl fs u tok x = Some ttl \<Longrightarrow> ttl \<le> MAX_TTL"
  by (auto simp: tc_ttl_def MAX_TTL_def FIXED_TTL_def NEG_TTL_def split: option.splits if_splits)

text \<open>
  C33. Whatever was looked up, stored, revoked and flushed before: a hit returns the outcome that was
  last stored for that token, it was not revoked or flushed since, and its lifetime (clamped to the
  token's own expiry and to one hour) is not over.
\<close>

theorem cache_hit_is_granted:
  assumes "fst (tc_get now (sha tok) (tc_run fs sha h)) = Some x"
  shows "\<exists>dies. granted fs sha h (sha tok) = Some (x, dies) \<and> now < dies"
proof -
  obtain e where e: "tc_entry_of (tc_run fs sha h) (sha tok) = Some e" "x = tc_ctx e" "now < exp_at e"
    using assms by (auto simp: tc_get_def Let_def tc_entry_of_def split: option.splits if_splits)
  with tc_run_granted [OF e(1)] show ?thesis by blast
qed

lemma granted_put: "granted fs sha h k = Some (x, dies) \<Longrightarrow>
    \<exists>u t tok ttl. TPut u t tok x \<in> set h \<and> sha tok = k \<and> tc_ttl fs u tok x = Some ttl \<and> dies = t + ttl \<and> ttl \<le> MAX_TTL"
proof (induction h)
  case (Cons e h)
  then show ?case
    by (cases e) (simp_all split: option.splits if_splits, (blast dest: tc_ttl_le)+)
qed simp

lemma revoked_never_hits: "fst (tc_get now (sha tok) (tc_run fs sha (TRemove tok # h))) = None"
proof -
  have "tc_entry_of (tc_run fs sha (TRemove tok # h)) (sha tok) = None"
    using tc_run_granted [of fs sha "TRemove tok # h" "sha tok"] by fastforce
  then show ?thesis by (simp add: tc_get_def tc_entry_of_def Let_def)
qed

text \<open>
  Logging out drops the access token from the cache; the next request asks the chain again, which
  keeps accepting the token until it expires by itself.
\<close>

lemma logout_keeps_access:
  assumes "cache_ok c" "resolve token = Some ctx"
  shows "fst (resolve_token fs sha unix now resolve token (tc_remove (sha token) c)) = Some ctx"
proof -
  have "tc_entry_of (tc_remove (sha token) c) (sha token) = None"
    using assms(1) by (simp add: tc_remove_def cache_simps)
  then show ?thesis using assms(2) by (simp add: resolve_token_def tc_get_def tc_entry_of_def Let_def)
qed

lemma cache_hit_is_granted_witness:
  "granted (\<lambda>_. None) (\<lambda>t. t) [TPut 7 1000 ''tok'' (Some \<lparr>uid = ''u'', extra = []\<rparr>)] ''tok''
     = Some (Some \<lparr>uid = ''u'', extra = []\<rparr>, 60000001000)"
proof -
  let ?h = "[TPut 7 1000 ''tok'' (Some \<lparr>uid = ''u'', extra = []\<rparr>)]"
  have "fst (tc_get 2000 ''tok'' (tc_run (\<lambda>_. None) (\<lambda>t. t) ?h)) = Some (Some \<lparr>uid = ''u'', extra = []\<rparr>)"
    by (simp add: tc_get_def token_cache_new_def tc_store_def tc_put_def tc_ttl_def jwt_exp_def Let_def
        tc_shard_def SHARDS_def ch_def CAP_def FIXED_TTL_def IDLE_def)
  with cache_hit_is_granted [of 2000 "\<lambda>t. t" "''tok''" "\<lambda>_. None" ?h]
  show ?thesis by (simp add: tc_ttl_def jwt_exp_def FIXED_TTL_def)
qed

subsection \<open>Round trip with the standard encoding\<close>

text \<open>The unpadded base64url encoding of RFC 4648, as the reference.\<close>

definition b64char :: "nat \<Rightarrow> char" where
  "b64char v = char_of (if v < 26 then v + 65 else if v < 52 then v - 26 + 97 else if v < 62 then v - 52 + 48
     else if v = 62 then 45 else 95)"

fun b64url_encode :: "string \<Rightarrow> string" where
  "b64url_encode (a # b # c # bs) =
     [b64char (ch a div 4), b64char (ch a mod 4 * 16 + ch b div 16),
      b64char (ch b mod 16 * 4 + ch c div 64), b64char (ch c mod 64)] @ b64url_encode bs"
| "b64url_encode [a, b] = [b64char (ch a div 4), b64char (ch a mod 4 * 16 + ch b div 16), b64char (ch b mod 16 * 4)]"
| "b64url_encode [a] = [b64char (ch a div 4), b64char (ch a mod 4 * 16)]"
| "b64url_encode [] = []"

lemma ch_of: "n < 256 \<Longrightarrow> ch (char_of n) = n"
  by (simp add: ch_def)

lemma b64val_char [simp]: "v < 64 \<Longrightarrow> b64val (b64char v) = Some v"
  by (auto simp: b64val_def b64char_def ch_of Let_def)

lemma b64char_no_pad [simp]: "v < 64 \<Longrightarrow> b64char v \<noteq> CHR ''=''"
proof
  assume v: "v < 64" and e: "b64char v = CHR ''=''"
  have "b64val (CHR ''='') = None" by (simp add: b64val_def ch_def)
  with b64val_char [OF v] e show False by simp
qed

lemma b64_step:
  "v < 64 \<Longrightarrow> b64_loop buf nbits (b64char v # cs) =
     (let b = buf * 64 + v; n = nbits + 6 in
      if 8 \<le> n then map_option (Cons (char_of (b div 2 ^ (n - 8) mod 256))) (b64_loop (b mod 2 ^ (n - 8)) (n - 8) cs)
      else b64_loop b n cs)"
  by simp

text \<open>Cutting and pasting bits: \<open>q\<close>, \<open>r\<close> and \<open>s\<close> are adjacent fields.\<close>

lemma cut_16:
  assumes "(s::nat) < 16"
  shows "(q * 64 + (r * 16 + s)) div 16 = q * 4 + r" "(q * 64 + (r * 16 + s)) mod 16 = s"
proof -
  have e: "q * 64 + (r * 16 + s) = s + (q * 4 + r) * 16" by simp
  show "(q * 64 + (r * 16 + s)) div 16 = q * 4 + r" "(q * 64 + (r * 16 + s)) mod 16 = s"
    unfolding e using assms by (simp_all only: div_mult_self1 mod_mult_self1) simp_all
qed

lemma cut_4:
  assumes "(s::nat) < 4"
  shows "(q * 64 + (r * 4 + s)) div 4 = q * 16 + r" "(q * 64 + (r * 4 + s)) mod 4 = s"
proof -
  have e: "q * 64 + (r * 4 + s) = s + (q * 16 + r) * 4" by simp
  show "(q * 64 + (r * 4 + s)) div 4 = q * 16 + r" "(q * 64 + (r * 4 + s)) mod 4 = s"
    unfolding e using assms by (simp_all only: div_mult_self1 mod_mult_self1) simp_all
qed

lemma field_small: "(x::nat) < 256 \<Longrightarrow> x div 4 < 64" "(x::nat) < 256 \<Longrightarrow> x div 16 < 16" "(x::nat) < 256 \<Longrightarrow> x div 64 < 4"
  by (simp_all add: less_mult_imp_div_less)

lemma b64_bits:
  fixes a b c :: nat
  assumes "a < 256" "b < 256" "c < 256"
  shows "(a div 4 * 64 + (a mod 4 * 16 + b div 16)) div 16 = a"
    and "(a div 4 * 64 + (a mod 4 * 16 + b div 16)) mod 16 = b div 16"
    and "(b div 16 * 64 + (b mod 16 * 4 + c div 64)) div 4 = b"
    and "(b div 16 * 64 + (b mod 16 * 4 + c div 64)) mod 4 = c div 64"
    and "c div 64 * 64 + c mod 64 = c"
    and "a div 4 < 64" "a mod 4 * 16 + b div 16 < 64" "b mod 16 * 4 + c div 64 < 64"
proof -
  have "a mod 4 < 4" "b mod 16 < 16" by simp_all
  with field_small [OF assms(1)] field_small [OF assms(2)] field_small [OF assms(3)]
  show "a div 4 < 64" "a mod 4 * 16 + b div 16 < 64" "b mod 16 * 4 + c div 64 < 64" by linarith+
qed (use field_small [OF assms(2)] field_small [OF assms(3)] in \<open>simp_all add: cut_16 cut_4\<close>)

lemmas b64_eval = b64_step Let_def

lemma b64_loop_encode: "b64_loop 0 0 (b64url_encode bs) = Some bs"
proof (induction bs rule: b64url_encode.induct)
  case (1 a b c bs)
  note bits = b64_bits [OF ch_less [of a] ch_less [of b] ch_less [of c]]
  show ?case using 1 by (simp add: b64_eval bits del: b64_loop.simps(2))
next
  case (2 a b)
  note bits = b64_bits [OF ch_less [of a] ch_less [of b], of 0, simplified]
  show ?case by (simp add: b64_eval bits del: b64_loop.simps(2))
next
  case (3 a)
  note bits = b64_bits [OF ch_less [of a], of 0 0, simplified]
  show ?case by (simp add: b64_eval bits del: b64_loop.simps(2))
qed simp

lemma b64url_encode_length: "length (b64url_encode bs) mod 4 \<noteq> 1"
proof (induction bs rule: b64url_encode.induct)
  case (1 a b c bs)
  have "length (b64url_encode (a # b # c # bs)) = length (b64url_encode bs) + 4" by simp
  with 1 show ?case by presburger
qed simp_all

lemma b64url_encode_Nil: "b64url_encode bs = [] \<longleftrightarrow> bs = []"
  by (cases bs rule: b64url_encode.cases) simp_all

text \<open>
  The hand-written base64url decoder inverts the standard encoding on every byte string but the
  empty one, which it rejects.
\<close>

theorem b64url_roundtrip: "b64url_decode (b64url_encode bs) = (if bs = [] then None else Some bs)"
  by (simp add: b64url_decode_def b64url_encode_Nil b64url_encode_length [simplified] b64_loop_encode)

end
