(* ===== verification/Dpop.thy ===== *)
theory Dpop
  imports Throttle Core
begin

text \<open>
  Proof of possession (crates/hakobackend-auth-local/src/dpop.rs): the checks on a proof, the
  replay cache, and the decision of the gateway which requests must carry one. Base64, the JSON
  parser, the signature check and SHA-256 are parameters.
\<close>

datatype dpop_mode = DpopOff | DpopAccept | DpopRequire

definition dpop_mode_parse :: "string \<Rightarrow> (string, dpop_mode) result" where
  "dpop_mode_parse s = (if s = ''off'' then Inr DpopOff else if s = ''accept'' then Inr DpopAccept
     else if s = ''require'' then Inr DpopRequire
     else Inl (''dpop `'' @ s @ ''` unknown (off|accept|require)''))"

definition IAT_PAST_SECS :: nat where "IAT_PAST_SECS = 300"
definition IAT_FUTURE_SECS :: nat where "IAT_FUTURE_SECS = 30"
definition REPLAY_TTL :: nat where "REPLAY_TTL = (IAT_PAST_SECS + 60) * nanos"
definition REPLAY_CAP :: nat where "REPLAY_CAP = 10000"

record proof_header =
  ph_alg :: string
  ph_typ :: "string option"
  ph_kid :: "string option"
  ph_jwk :: json

record proof_claims =
  pc_jti :: string
  pc_htm :: string
  pc_htu :: string
  pc_iat :: nat
  pc_ath :: "string option"

datatype jwt_alg = RS256 | ES256 | ES384

text \<open>
  \<open>pl_decode alg jwk proof\<close> is \<open>jsonwebtoken::decode\<close>: the claims of a proof whose signature
  verifies under that key. \<open>pl_key_ok\<close> is the construction of the key from its components.
\<close>

record proof_lib =
  pl_b64d :: "string \<Rightarrow> string option"
  pl_header :: "string \<Rightarrow> proof_header option"
  pl_key_ok :: "json \<Rightarrow> bool"
  pl_decode :: "jwt_alg \<Rightarrow> json \<Rightarrow> string \<Rightarrow> proof_claims option"
  pl_sha_b64 :: "string \<Rightarrow> string"

definition jwk_field :: "json \<Rightarrow> string \<Rightarrow> (string, string) result" where
  "jwk_field jwk k = (case Option.bind (jget jwk k) as_str of
     Some s \<Rightarrow> Inr s | None \<Rightarrow> Inl (''dpop jwk missing `'' @ k @ ''`''))"

definition quoted :: "string \<Rightarrow> string" where
  "quoted s = [CHR 34] @ s @ [CHR 34]"

definition thumbprint :: "(string \<Rightarrow> string) \<Rightarrow> json \<Rightarrow> (string, string) result" where
  "thumbprint sha jwk = (case jwk_field jwk ''kty'' of
     Inl e \<Rightarrow> Inl e
   | Inr kty \<Rightarrow>
       if kty = ''RSA'' then
         (case jwk_field jwk ''e'' of Inl e \<Rightarrow> Inl e | Inr e \<Rightarrow>
          (case jwk_field jwk ''n'' of Inl x \<Rightarrow> Inl x | Inr n \<Rightarrow>
             Inr (sha (''{'' @ quoted ''e'' @ '':'' @ quoted e @ '','' @ quoted ''kty'' @ '':'' @ quoted ''RSA'' @ '','' @
               quoted ''n'' @ '':'' @ quoted n @ ''}''))))
       else if kty = ''EC'' then
         (case jwk_field jwk ''crv'' of Inl e \<Rightarrow> Inl e | Inr c \<Rightarrow>
          (case jwk_field jwk ''x'' of Inl e \<Rightarrow> Inl e | Inr x \<Rightarrow>
           (case jwk_field jwk ''y'' of Inl e \<Rightarrow> Inl e | Inr y \<Rightarrow>
             Inr (sha (''{'' @ quoted ''crv'' @ '':'' @ quoted c @ '','' @ quoted ''kty'' @ '':'' @ quoted ''EC'' @ '','' @
               quoted ''x'' @ '':'' @ quoted x @ '','' @ quoted ''y'' @ '':'' @ quoted y @ ''}'')))))
       else Inl (''dpop kty `'' @ kty @ ''` not supported (RSA/EC)''))"

definition dpop_algorithm :: "string \<Rightarrow> string \<Rightarrow> (string, jwt_alg) result" where
  "dpop_algorithm alg kty =
     (if alg = ''RS256'' \<and> kty = ''RSA'' then Inr RS256
      else if alg = ''ES256'' \<and> kty = ''EC'' then Inr ES256
      else if alg = ''ES384'' \<and> kty = ''EC'' then Inr ES384
      else Inl (''dpop combination alg `'' @ alg @ ''` + kty `'' @ kty @ ''` rejected''))"

text \<open>The URI without query and fragment, and without the default port of its scheme.\<close>

definition drop_port :: "string \<Rightarrow> string \<Rightarrow> string \<Rightarrow> string option" where
  "drop_port scheme port rest = (case split_once (CHR ''/'') rest of
     None \<Rightarrow> None
   | Some (host, path) \<Rightarrow> map_option (\<lambda>h. scheme @ h @ ''/'' @ path) (strip_suffix port host))"

definition normalize_htu :: "string \<Rightarrow> string" where
  "normalize_htu htu =
     (let bare = takeWhile (\<lambda>c. c \<noteq> CHR ''?'' \<and> c \<noteq> CHR ''#'') htu;
          plain = (case strip_prefix ''http://'' bare of
             None \<Rightarrow> None
           | Some rest \<Rightarrow> (case strip_suffix '':80'' rest of
                Some h \<Rightarrow> Some (''http://'' @ h)
              | None \<Rightarrow> drop_port ''http://'' '':80'' rest))
      in case plain of
           Some u \<Rightarrow> u
         | None \<Rightarrow> (case strip_prefix ''https://'' bare of
               None \<Rightarrow> bare
             | Some rest \<Rightarrow> unwrap_or bare (drop_port ''https://'' '':443'' rest)))"

definition upper_char :: "char \<Rightarrow> char" where
  "upper_char c = (if 97 \<le> ch c \<and> ch c \<le> 122 then char_of (ch c - 32) else c)"

definition iat_ok :: "nat \<Rightarrow> nat \<Rightarrow> bool" where
  "iat_ok unix iat \<longleftrightarrow> \<not> (min (unix + IAT_FUTURE_SECS) (2 ^ 64 - 1) < iat \<or> min (iat + IAT_PAST_SECS) (2 ^ 64 - 1) < unix)"

record verified_proof =
  vp_jkt :: string
  vp_jti :: string

definition check_claims :: "proof_lib \<Rightarrow> nat \<Rightarrow> json \<Rightarrow> string \<Rightarrow> string \<Rightarrow> string option \<Rightarrow> proof_claims \<Rightarrow> (string, verified_proof) result" where
  "check_claims lib unix jwk method expected_htu access_token c =
     (if map upper_char (pc_htm c) \<noteq> map upper_char method then Inl ''dpop htm mismatch''
      else if normalize_htu (pc_htu c) \<noteq> normalize_htu expected_htu then Inl ''dpop htu mismatch''
      else if \<not> iat_ok unix (pc_iat c) then Inl ''dpop iat expired''
      else if (case access_token of Some tok \<Rightarrow> pc_ath c \<noteq> Some (pl_sha_b64 lib tok) | None \<Rightarrow> False) then Inl ''dpop ath mismatch''
      else (case thumbprint (pl_sha_b64 lib) jwk of
              Inl e \<Rightarrow> Inl e | Inr jkt \<Rightarrow> Inr \<lparr>vp_jkt = jkt, vp_jti = pc_jti c\<rparr>))"

definition verify_proof :: "proof_lib \<Rightarrow> nat \<Rightarrow> string \<Rightarrow> string \<Rightarrow> string \<Rightarrow> string option \<Rightarrow> (string, verified_proof) result" where
  "verify_proof lib unix proof method expected_htu access_token =
     (case split_on (CHR ''.'') proof of
        [h, p, sig] \<Rightarrow>
          (case Option.bind (pl_b64d lib h) (pl_header lib) of
             None \<Rightarrow> Inl ''dpop header is not JSON''
           | Some header \<Rightarrow>
               if ph_typ header \<noteq> Some ''dpop+jwt'' then Inl ''dpop typ must be dpop+jwt''
               else if ph_kid header \<noteq> None then Inl ''dpop kid not allowed''
               else (case jwk_field (ph_jwk header) ''kty'' of
                  Inl e \<Rightarrow> Inl e
                | Inr kty \<Rightarrow>
                    (case dpop_algorithm (ph_alg header) kty of
                       Inl e \<Rightarrow> Inl e
                     | Inr alg \<Rightarrow>
                         if \<not> pl_key_ok lib (ph_jwk header) then Inl ''dpop key''
                         else (case pl_decode lib alg (ph_jwk header) proof of
                            None \<Rightarrow> Inl ''dpop signature''
                          | Some c \<Rightarrow> check_claims lib unix (ph_jwk header) method expected_htu access_token c))))
      | _ \<Rightarrow> Inl ''dpop malformed'')"

type_synonym replay_cache = "(string, instant) dict"

definition replay_check :: "instant \<Rightarrow> string \<Rightarrow> replay_cache \<Rightarrow> (string, unit) result \<times> replay_cache" where
  "replay_check now jti seen =
     (let g = dretain (\<lambda>_ t. now < t) seen in
      if REPLAY_CAP \<le> length g then (Inl ''dpop replay cache full'', g)
      else (if dget g jti \<noteq> None then Inl ''dpop jti reused (replay)'' else Inr (),
            dput jti (now + REPLAY_TTL) g))"

text \<open>\<open>LocalAuth::check_dpop\<close>, for a request to a resource; every failure is \<open>PermissionDenied\<close>.\<close>

definition check_dpop :: "proof_lib \<Rightarrow> dpop_mode \<Rightarrow> nat \<Rightarrow> instant \<Rightarrow> string \<Rightarrow> string \<Rightarrow> string \<Rightarrow> string \<Rightarrow>
    string option \<Rightarrow> replay_cache \<Rightarrow> unit app_result \<times> replay_cache" where
  "check_dpop lib mode unix now proof method uri access_token expected_jkt seen =
     (if mode = DpopOff then (Inr (), seen)
      else case verify_proof lib unix proof method uri (Some access_token) of
        Inl _ \<Rightarrow> (Inl PermissionDenied, seen)
      | Inr v \<Rightarrow>
          if (case expected_jkt of Some e \<Rightarrow> vp_jkt v \<noteq> e | None \<Rightarrow> False) then (Inl PermissionDenied, seen)
          else (case replay_check now (vp_jti v) seen of
                  (Inl _, seen') \<Rightarrow> (Inl PermissionDenied, seen')
                | (Inr _, seen') \<Rightarrow> (Inr (), seen')))"

text \<open>\<open>LocalAuth::bind_dpop\<close>, when a session is issued: the thumbprint to bind the token to.\<close>

definition bind_dpop :: "proof_lib \<Rightarrow> nat \<Rightarrow> instant \<Rightarrow> (string \<times> string \<times> string) option \<Rightarrow> replay_cache \<Rightarrow>
    string option app_result \<times> replay_cache" where
  "bind_dpop lib unix now req seen = (case req of
     None \<Rightarrow> (Inr None, seen)
   | Some (proof, method, uri) \<Rightarrow>
       (case verify_proof lib unix proof method uri None of
          Inl _ \<Rightarrow> (Inl PermissionDenied, seen)
        | Inr v \<Rightarrow> (case replay_check now (vp_jti v) seen of
             (Inl _, seen') \<Rightarrow> (Inl PermissionDenied, seen')
           | (Inr _, seen') \<Rightarrow> (Inr (Some (vp_jkt v)), seen'))))"

subsection \<open>The gateway's decision\<close>

datatype dpop_verdict = Keep | Strip | MustVerify

fun dpop_action :: "dpop_mode \<Rightarrow> bool \<Rightarrow> bool \<Rightarrow> dpop_verdict" where
  "dpop_action DpopOff _ _ = Keep"
| "dpop_action _ False _ = Keep"
| "dpop_action DpopRequire True False = Strip"
| "dpop_action _ True True = MustVerify"
| "dpop_action DpopAccept True False = Keep"

text \<open>
  \<open>enforce_dpop\<close> of the gateway. \<open>bound\<close> is \<open>LocalAuth::bound_jkt\<close>: an error (\<open>Inl\<close>) and a token
  without a binding both count as \<open>None\<close>.
\<close>

definition is_local_ctx :: "auth_context option \<Rightarrow> bool" where
  "is_local_ctx ctx \<longleftrightarrow> Option.bind ctx (\<lambda>c. Option.bind (dget (extra c) ''provider'') as_str) = Some ''local''"

definition enforce_dpop :: "proof_lib \<Rightarrow> dpop_mode option \<Rightarrow> (string \<Rightarrow> string option app_result) \<Rightarrow> nat \<Rightarrow> instant \<Rightarrow>
    string option \<Rightarrow> string \<Rightarrow> string \<Rightarrow> string option \<Rightarrow> auth_context option \<Rightarrow> replay_cache \<Rightarrow>
    auth_context option \<times> replay_cache" where
  "enforce_dpop lib local_mode bound unix now proof method uri token ctx seen = (case (token, local_mode) of
     (Some tok, Some mode) \<Rightarrow>
       if mode = DpopOff then (ctx, seen)
       else (case dpop_action mode (is_local_ctx ctx) (proof \<noteq> None) of
          Keep \<Rightarrow> (ctx, seen)
        | Strip \<Rightarrow> (None, seen)
        | MustVerify \<Rightarrow>
            (let binding = (case bound tok of Inr b \<Rightarrow> b | Inl _ \<Rightarrow> None) in
             case proof of
               None \<Rightarrow> (None, seen)
             | Some p \<Rightarrow> (case check_dpop lib mode unix now p method uri tok binding seen of
                  (Inr _, seen') \<Rightarrow> (ctx, seen')
                | (Inl _, seen') \<Rightarrow> (None, seen'))))
   | _ \<Rightarrow> (ctx, seen))"

subsection \<open>A proof is good for one request\<close>

record dpop_request =
  rq_unix :: nat
  rq_now :: instant
  rq_proof :: string
  rq_method :: string
  rq_uri :: string
  rq_token :: string
  rq_jkt :: "string option"

definition dpop_step :: "proof_lib \<Rightarrow> dpop_mode \<Rightarrow> dpop_request \<Rightarrow> replay_cache \<Rightarrow> unit app_result \<times> replay_cache" where
  "dpop_step lib mode r seen =
     check_dpop lib mode (rq_unix r) (rq_now r) (rq_proof r) (rq_method r) (rq_uri r) (rq_token r) (rq_jkt r) seen"

text \<open>The requests among \<open>rs\<close> that are let through.\<close>

fun accepted :: "proof_lib \<Rightarrow> dpop_mode \<Rightarrow> dpop_request list \<Rightarrow> replay_cache \<Rightarrow> dpop_request list" where
  "accepted lib mode [] seen = []"
| "accepted lib mode (r # rs) seen =
     (if is_ok (fst (dpop_step lib mode r seen)) then [r] else []) @ accepted lib mode rs (snd (dpop_step lib mode r seen))"

text \<open>What the signature of a proof fixes.\<close>

definition proof_claims_of :: "proof_lib \<Rightarrow> string \<Rightarrow> proof_claims option" where
  "proof_claims_of lib proof = (case split_on (CHR ''.'') proof of
      [h, p, sig] \<Rightarrow> (case Option.bind (pl_b64d lib h) (pl_header lib) of None \<Rightarrow> None | Some header \<Rightarrow>
        case jwk_field (ph_jwk header) ''kty'' of Inl _ \<Rightarrow> None
        | Inr kty \<Rightarrow> (case dpop_algorithm (ph_alg header) kty of Inl _ \<Rightarrow> None
            | Inr alg \<Rightarrow> pl_decode lib alg (ph_jwk header) proof))
    | _ \<Rightarrow> None)"

lemma check_claims_ok:
  "check_claims lib unix jwk m u tok c = Inr v \<Longrightarrow> iat_ok unix (pc_iat c) \<and> vp_jti v = pc_jti c"
  by (auto simp: check_claims_def split: if_splits sum.splits)

lemma verify_proof_ok:
  "verify_proof lib unix proof m u tok = Inr v \<Longrightarrow>
   \<exists>c. proof_claims_of lib proof = Some c \<and> iat_ok unix (pc_iat c) \<and> vp_jti v = pc_jti c"
  unfolding verify_proof_def proof_claims_of_def
  by (auto split: list.splits option.splits sum.splits if_splits dest!: check_claims_ok)

lemma dpop_step_ok:
  assumes "mode \<noteq> DpopOff" "is_ok (fst (dpop_step lib mode r seen))"
  shows "\<exists>c. proof_claims_of lib (rq_proof r) = Some c \<and> iat_ok (rq_unix r) (pc_iat c)
    \<and> fst (replay_check (rq_now r) (pc_jti c) seen) = Inr ()
    \<and> snd (dpop_step lib mode r seen) = snd (replay_check (rq_now r) (pc_jti c) seen)"
  using assms unfolding dpop_step_def check_dpop_def
  by (fastforce split: sum.splits if_splits prod.splits option.splits dest: verify_proof_ok)

lemma dpop_step_cache:
  "snd (dpop_step lib mode r seen) = seen \<or> (\<exists>jti. snd (dpop_step lib mode r seen) = snd (replay_check (rq_now r) jti seen))"
  unfolding dpop_step_def check_dpop_def by (auto split: sum.splits if_splits prod.splits option.splits) (metis snd_conv)+

definition replay_ok :: "instant \<Rightarrow> replay_cache \<Rightarrow> bool" where
  "replay_ok t seen \<longleftrightarrow> dict_ok seen \<and> (\<forall>j x. dget seen j = Some x \<longrightarrow> x \<le> t + REPLAY_TTL)"

lemma replay_check_get:
  "dict_ok seen \<Longrightarrow> dget (snd (replay_check now jti seen)) j =
     (if j = jti \<and> length (dretain (\<lambda>_ t. now < t) seen) < REPLAY_CAP then Some (now + REPLAY_TTL)
      else case dget seen j of Some x \<Rightarrow> if now < x then Some x else None | None \<Rightarrow> None)"
  by (auto simp: replay_check_def Let_def dget_dretain split: option.splits)

lemma replay_check_ok:
  "replay_ok t seen \<Longrightarrow> t \<le> now \<Longrightarrow> replay_ok now (snd (replay_check now jti seen))"
  by (auto simp: replay_ok_def replay_check_get split: if_splits option.splits)
    (auto simp: replay_check_def Let_def, (meson add_le_mono1 le_trans)+)

lemma dpop_step_replay_ok:
  assumes "replay_ok t seen" "t \<le> rq_now r"
  shows "replay_ok (rq_now r) (snd (dpop_step lib mode r seen))"
  using dpop_step_cache [of lib mode r seen]
proof
  assume "snd (dpop_step lib mode r seen) = seen"
  with assms show ?thesis unfolding replay_ok_def by (metis add_le_mono1 le_trans)
qed (use assms replay_check_ok in metis)

text \<open>
  A proof is spent from \<open>t\<close> on when at every later instant at which its \<open>iat\<close> is still in the window,
  its \<open>jti\<close> is remembered.
\<close>

definition unix_at :: "nat \<Rightarrow> instant \<Rightarrow> nat" where
  "unix_at off t = (off + t) div nanos"

definition spent :: "nat \<Rightarrow> proof_claims \<Rightarrow> instant \<Rightarrow> replay_cache \<Rightarrow> bool" where
  "spent off c t seen \<longleftrightarrow> (\<forall>u \<ge> t. iat_ok (unix_at off u) (pc_iat c) \<longrightarrow> (\<exists>x. dget seen (pc_jti c) = Some x \<and> u < x))"

lemma spent_check:
  assumes "replay_ok t seen" "spent off c t seen" "t \<le> now"
  shows "spent off c now (snd (replay_check now jti seen))"
  unfolding spent_def
proof (intro allI impI)
  fix u
  assume u: "now \<le> u" "iat_ok (unix_at off u) (pc_iat c)"
  with assms obtain x where x: "dget seen (pc_jti c) = Some x" "u < x" unfolding spent_def by (meson le_trans)
  moreover have "x \<le> now + REPLAY_TTL" using assms(1,3) x unfolding replay_ok_def by (metis add_le_mono1 le_trans)
  ultimately show "\<exists>x. dget (snd (replay_check now jti seen)) (pc_jti c) = Some x \<and> u < x"
    using assms u by (auto simp: replay_check_get replay_ok_def)
qed

lemma spent_step:
  assumes "replay_ok t seen" "spent off c t seen" "t \<le> rq_now r"
  shows "spent off c (rq_now r) (snd (dpop_step lib mode r seen))"
  using dpop_step_cache [of lib mode r seen]
proof
  assume "snd (dpop_step lib mode r seen) = seen"
  with assms show ?thesis by (auto simp: spent_def)
qed (use assms spent_check in metis)

lemma spent_rejects:
  assumes "mode \<noteq> DpopOff" "dict_ok seen" "spent off c t seen" "t \<le> rq_now r"
    and "rq_unix r = unix_at off (rq_now r)" "proof_claims_of lib (rq_proof r) = Some c"
  shows "\<not> is_ok (fst (dpop_step lib mode r seen))"
proof
  assume "is_ok (fst (dpop_step lib mode r seen))"
  from dpop_step_ok [OF assms(1) this] assms(6)
  have iat: "iat_ok (rq_unix r) (pc_iat c)" and ok: "fst (replay_check (rq_now r) (pc_jti c) seen) = Inr ()" by auto
  from assms(3,4,5) iat obtain x where "dget seen (pc_jti c) = Some x" "rq_now r < x" by (auto simp: spent_def)
  with ok assms(2) show False by (auto simp: replay_check_def Let_def dget_dretain split: if_splits)
qed

lemma accept_spends:
  assumes "mode \<noteq> DpopOff" "replay_ok t seen" "t \<le> rq_now r" "rq_unix r = unix_at off (rq_now r)"
    and "proof_claims_of lib (rq_proof r) = Some c" "is_ok (fst (dpop_step lib mode r seen))"
  shows "spent off c (rq_now r) (snd (dpop_step lib mode r seen))"
  unfolding spent_def
proof (intro allI impI)
  fix u
  assume u: "rq_now r \<le> u" "iat_ok (unix_at off u) (pc_iat c)"
  from dpop_step_ok [OF assms(1,6)] assms(5)
  have iat: "iat_ok (rq_unix r) (pc_iat c)" and ok: "fst (replay_check (rq_now r) (pc_jti c) seen) = Inr ()"
    and s: "snd (dpop_step lib mode r seen) = snd (replay_check (rq_now r) (pc_jti c) seen)" by auto
  have "dget (snd (replay_check (rq_now r) (pc_jti c) seen)) (pc_jti c) = Some (rq_now r + REPLAY_TTL)"
    using ok assms(2) by (auto simp: replay_check_get replay_ok_def) (auto simp: replay_check_def Let_def split: if_splits)
  moreover have "unix_at off u \<le> rq_unix r + 330"
    using iat u(2) by (auto simp: iat_ok_def IAT_PAST_SECS_def IAT_FUTURE_SECS_def)
  then have "(off + u) div nanos < (off + rq_now r) div nanos + 331" by (simp add: assms(4) unix_at_def)
  then have "off + u < ((off + rq_now r) div nanos + 331) * nanos" by (simp add: div_less_iff_less_mult)
  then have "u < rq_now r + REPLAY_TTL"
    using div_times_less_eq_dividend [of "off + rq_now r" nanos] by (simp add: REPLAY_TTL_def IAT_PAST_SECS_def)
  ultimately show "\<exists>x. dget (snd (dpop_step lib mode r seen)) (pc_jti c) = Some x \<and> u < x" using s by auto
qed

lemma accepted_proofs: "mode \<noteq> DpopOff \<Longrightarrow> r \<in> set (accepted lib mode rs seen) \<Longrightarrow> proof_claims_of lib (rq_proof r) \<noteq> None"
  by (induction rs arbitrary: seen) (auto split: if_splits dest: dpop_step_ok)

lemma spent_never_accepted:
  assumes "mode \<noteq> DpopOff" "replay_ok t seen" "spent off c t seen" "sorted (t # map rq_now rs)"
    and "\<forall>r \<in> set rs. rq_unix r = unix_at off (rq_now r)" "proof_claims_of lib p = Some c"
  shows "filter (\<lambda>r. rq_proof r = p) (accepted lib mode rs seen) = []"
  using assms
proof (induction rs arbitrary: t seen)
  case (Cons r rs)
  have le: "t \<le> rq_now r" "sorted (rq_now r # map rq_now rs)" using Cons.prems(4) by auto
  let ?s = "snd (dpop_step lib mode r seen)"
  have "replay_ok (rq_now r) ?s" "spent off c (rq_now r) ?s"
    using Cons.prems le by (auto intro: dpop_step_replay_ok spent_step)
  then have "filter (\<lambda>r. rq_proof r = p) (accepted lib mode rs ?s) = []"
    using Cons.IH [of "rq_now r" ?s] Cons.prems le by simp
  moreover have "rq_proof r = p \<Longrightarrow> \<not> is_ok (fst (dpop_step lib mode r seen))"
    using spent_rejects [of mode seen off c t r lib] Cons.prems le by (auto simp: replay_ok_def)
  ultimately show ?case by auto
qed simp

text \<open>
  C21. Replay protection: along any sequence of requests, whatever else is presented in between and
  however often entries of the replay cache expire, a DPoP proof is accepted at most once. The
  monotonic and the wall clock are taken to run alike.
\<close>

theorem dpop_proof_once:
  assumes "mode \<noteq> DpopOff" "sorted (map rq_now rs)" "\<forall>r \<in> set rs. rq_unix r = unix_at off (rq_now r)"
  shows "length (filter (\<lambda>r. rq_proof r = p) (accepted lib mode rs [])) \<le> 1"
proof -
  have "length (filter (\<lambda>r. rq_proof r = p) (accepted lib mode rs seen)) \<le> 1"
    if "replay_ok t seen" "sorted (t # map rq_now rs)" for t seen
    using that assms(3)
  proof (induction rs arbitrary: t seen)
    case (Cons r rs)
    have le: "t \<le> rq_now r" "sorted (rq_now r # map rq_now rs)" using Cons.prems(2) by auto
    let ?s = "snd (dpop_step lib mode r seen)"
    have ok: "replay_ok (rq_now r) ?s" using Cons.prems le by (auto intro: dpop_step_replay_ok)
    show ?case
    proof (cases "is_ok (fst (dpop_step lib mode r seen)) \<and> rq_proof r = p")
      case True
      with dpop_step_ok [OF assms(1)] obtain c where c: "proof_claims_of lib p = Some c" by blast
      with True have "spent off c (rq_now r) ?s"
        using accept_spends [OF assms(1) Cons.prems(1) le(1)] Cons.prems(3) by simp
      with spent_never_accepted [OF assms(1) ok _ le(2) _ c] Cons.prems(3) True show ?thesis by simp
    next
      case False
      then show ?thesis using Cons.IH [OF ok le(2)] Cons.prems(3) by auto
    qed
  qed simp
  from this [of "0" "[]"] assms(2) show ?thesis by (simp add: replay_ok_def)
qed

definition demo_proofs :: proof_lib where
  "demo_proofs = \<lparr>pl_b64d = Some,
     pl_header = (\<lambda>_. Some \<lparr>ph_alg = ''ES256'', ph_typ = Some ''dpop+jwt'', ph_kid = None,
       ph_jwk = JObj [(''crv'', JStr ''P-256''), (''kty'', JStr ''EC''), (''x'', JStr ''1''), (''y'', JStr ''2'')]\<rparr>),
     pl_key_ok = (\<lambda>_. True),
     pl_decode = (\<lambda>_ _ _. Some \<lparr>pc_jti = ''j'', pc_htm = ''GET'', pc_htu = ''https://h/a'', pc_iat = 100, pc_ath = Some ''tok''\<rparr>),
     pl_sha_b64 = (\<lambda>s. s)\<rparr>"

definition demo_request :: "nat \<Rightarrow> dpop_request" where
  "demo_request t = \<lparr>rq_unix = t, rq_now = t * nanos, rq_proof = ''h.p.s'', rq_method = ''GET'',
     rq_uri = ''https://h:443/a?q'', rq_token = ''tok'', rq_jkt = None\<rparr>"

lemma demo_request_ok: "is_ok (fst (dpop_step demo_proofs DpopRequire (demo_request 110) []))"
  by (simp add: demo_request_def demo_proofs_def dpop_step_def check_dpop_def verify_proof_def jwk_field_def jget_def
      dpop_algorithm_def check_claims_def normalize_htu_def drop_port_def strip_suffix_def iat_ok_def IAT_PAST_SECS_def
      IAT_FUTURE_SECS_def thumbprint_def replay_check_def REPLAY_CAP_def dretain_def Let_def)

lemma dpop_proof_once_witness:
  "length (filter (\<lambda>r. rq_proof r = ''h.p.s'') (accepted demo_proofs DpopRequire [demo_request 110, demo_request 120] [])) = 1"
proof -
  let ?a = "accepted demo_proofs DpopRequire [demo_request 110, demo_request 120] []"
  have "length (filter (\<lambda>r. rq_proof r = ''h.p.s'') ?a) \<le> 1"
    by (rule dpop_proof_once [where off = 0]) (simp_all add: demo_request_def unix_at_def)
  moreover have "demo_request 110 \<in> set (filter (\<lambda>r. rq_proof r = ''h.p.s'') ?a)"
    using demo_request_ok by (simp add: demo_request_def)
  then have "1 \<le> length (filter (\<lambda>r. rq_proof r = ''h.p.s'') ?a)"
    by (metis One_nat_def Suc_leI length_pos_if_in_set)
  ultimately show ?thesis by (rule le_antisym)
qed

subsection \<open>What the gateway enforces\<close>

text \<open>
  A local identity passes a gateway that requires proofs only with a verified one, under the key the
  token is bound to.
\<close>

lemma require_needs_proof:
  assumes "enforce_dpop lib (Some DpopRequire) bound unix now proof method uri (Some tok) ctx seen = (Some c, seen')"
    and "is_local_ctx ctx"
  shows "\<exists>p v. proof = Some p \<and> verify_proof lib unix p method uri (Some tok) = Inr v
    \<and> (\<forall>k. bound tok = Inr (Some k) \<longrightarrow> vp_jkt v = k)"
  using assms
  by (cases "proof") (auto simp: enforce_dpop_def check_dpop_def split: sum.splits prod.splits option.splits if_splits)

text \<open>
  But a token that was issued without a proof carries no binding, and then any key will do: the
  mode \<open>require\<close> asks for a proof, not for the owner's.
\<close>

lemma unbound_token_any_key:
  assumes "bound tok = Inr None" "is_local_ctx ctx"
    and "verify_proof lib unix p method uri (Some tok) = Inr v" "replay_check now (vp_jti v) seen = (Inr u, seen')"
  shows "enforce_dpop lib (Some DpopRequire) bound unix now (Some p) method uri (Some tok) ctx seen = (ctx, seen')"
  using assms by (simp add: enforce_dpop_def check_dpop_def Let_def)

end
