(* ===== verification/Sessions.thy ===== *)
theory Sessions
  imports Dpop Policy Database
begin

text \<open>
  The local issuer (crates/hakobackend-auth-local/src/lib.rs): registration, login, the rotation of
  refresh tokens and logout, over any driver. SHA-256, Argon2 and the JWT library are parameters,
  and so is randomness: an operation that draws a refresh token and a session id takes them as an
  argument.
\<close>

record access_claims =
  ac_sub :: string
  ac_email :: "string option"
  ac_exp :: nat
  ac_iat :: nat
  ac_cnf :: "string option"
  ac_attrs :: "(string, json) dict option"

record 's local_auth =
  la_db :: "'s driver"
  la_identity :: identity
  la_access_ttl :: nat
  la_refresh_ttl :: nat
  la_password_min :: nat
  la_sha :: "string \<Rightarrow> string"
  la_hash_password :: "string \<Rightarrow> string app_result"
  la_verify_password :: "string \<Rightarrow> string \<Rightarrow> bool"
  la_encode :: "access_claims \<Rightarrow> string app_result"
  la_decode :: "string \<Rightarrow> access_claims option"
  la_proofs :: proof_lib

record local_state =
  ls_unix :: nat
  ls_now :: instant
  ls_replay :: replay_cache

record session_tokens =
  access_jwt :: string
  refresh_opaque :: string

definition SESSIONS_COLLECTION :: string where
  "SESSIONS_COLLECTION = ''__sessions''"

definition PASSWORD_FIELD :: string where
  "PASSWORD_FIELD = ''password_hash''"

definition internal_err :: app_error where
  "internal_err = Internal ''auth store error''"

definition users_of :: "'s local_auth \<Rightarrow> string" where
  "users_of la = users_collection (la_identity la)"

text \<open>\<open>map_err(internal)\<close>.\<close>

definition stored_res :: "'a app_result \<Rightarrow> 'a app_result" where
  "stored_res r = map_err (\<lambda>_. internal_err) r"

definition eq_query :: "string \<Rightarrow> string \<Rightarrow> nat option \<Rightarrow> query_options" where
  "eq_query field v limit = default_query\<lparr>q_filters := [\<lparr>f_field = field, f_op = Eq, f_value = JStr v\<rparr>], q_limit := limit\<rparr>"

definition find_user :: "'s local_auth \<Rightarrow> 's \<Rightarrow> string \<Rightarrow> doc app_result" where
  "find_user la s login = (case db_get (la_db la) s (users_of la) login of
     Inl _ \<Rightarrow> Inl internal_err
   | Inr (Some d) \<Rightarrow> Inr d
   | Inr None \<Rightarrow>
       (case db_list (la_db la) s (users_of la) (eq_query ''email'' login (Some 2)) of
          Inl _ \<Rightarrow> Inl internal_err
        | Inr [d] \<Rightarrow> Inr d
        | Inr _ \<Rightarrow> Inl PermissionDenied))"

definition attrs_of :: "identity \<Rightarrow> doc \<Rightarrow> (string, json) dict" where
  "attrs_of i d = foldl (\<lambda>m f. case dget (d_data d) f of Some v \<Rightarrow> dput f v m | None \<Rightarrow> m) [] (attrs i)"

definition email_of :: "doc \<Rightarrow> string option" where
  "email_of d = Option.bind (dget (d_data d) ''email'') as_str"

definition ctx_of :: "'s local_auth \<Rightarrow> string \<Rightarrow> doc \<Rightarrow> auth_context" where
  "ctx_of la u d = (let m = attrs_of (la_identity la) d in
     \<lparr>uid = u, extra = (case email_of d of Some e \<Rightarrow> dput ''email'' (JStr e) m | None \<Rightarrow> m)\<rparr>)"

text \<open>Times are \<open>u64\<close> seconds.\<close>

definition plus_u64 :: "nat \<Rightarrow> nat \<Rightarrow> nat" where
  "plus_u64 a b = nat ((int a + int b) mod 2 ^ 64)"

definition mint_access :: "'s local_auth \<Rightarrow> nat \<Rightarrow> string \<Rightarrow> string option \<Rightarrow> string option \<Rightarrow> (string, json) dict \<Rightarrow> string app_result" where
  "mint_access la unix u email cnf ats =
     stored_res (la_encode la \<lparr>ac_sub = u, ac_email = email, ac_exp = plus_u64 unix (la_access_ttl la), ac_iat = unix,
       ac_cnf = cnf, ac_attrs = (if ats = [] then None else Some ats)\<rparr>)"

definition session_doc :: "'s local_auth \<Rightarrow> nat \<Rightarrow> string \<Rightarrow> string \<Rightarrow> string \<Rightarrow> string \<Rightarrow> doc" where
  "session_doc la unix sid u ctx_uid refresh = \<lparr>d_id = sid, d_data = dict_of
     [(''uid'', JStr u), (''ctx_uid'', JStr ctx_uid), (''refresh_hash'', JStr (la_sha la refresh)),
      (''created_at'', jint (int unix)), (''expires_at'', jint (int (plus_u64 unix (la_refresh_ttl la))))]\<rparr>"

text \<open>\<open>rnd\<close> is the refresh token and the session id that the call draws.\<close>

definition mint :: "'s local_auth \<Rightarrow> nat \<Rightarrow> string \<times> string \<Rightarrow> 's \<Rightarrow> string \<Rightarrow> string \<Rightarrow> string option \<Rightarrow> string option \<Rightarrow>
    (string, json) dict \<Rightarrow> session_tokens app_result \<times> 's" where
  "mint la unix rnd s u ctx_uid email cnf ats = (case mint_access la unix u email cnf ats of
     Inl e \<Rightarrow> (Inl e, s)
   | Inr jwt \<Rightarrow>
       (case db_insert (la_db la) s SESSIONS_COLLECTION (session_doc la unix (snd rnd) u ctx_uid (fst rnd)) of
          (Inl _, s') \<Rightarrow> (Inl internal_err, s')
        | (Inr _, s') \<Rightarrow> (Inr \<lparr>access_jwt = jwt, refresh_opaque = fst rnd\<rparr>, s')))"

text \<open>
  The hash is computed after all checks; its failure is the last way to fail before the insert.
\<close>

definition email_clash :: "'s local_auth \<Rightarrow> 's \<Rightarrow> string \<Rightarrow> string option \<Rightarrow> bool app_result" where
  "email_clash la s i email = (case email of
     None \<Rightarrow> Inr False
   | Some e \<Rightarrow> if e = [] then Inr False
       else (case db_list (la_db la) s (users_of la) (eq_query ''email'' e None) of
               Inl _ \<Rightarrow> Inl internal_err
             | Inr ds \<Rightarrow> Inr (list_ex (\<lambda>d. d_id d \<noteq> i) ds)))"

definition user_data :: "'s local_auth \<Rightarrow> (string, json) dict \<Rightarrow> string \<Rightarrow> string option \<Rightarrow> (string, json) dict" where
  "user_data la profile hash email =
     (let d0 = ddel PASSWORD_FIELD profile;
          d1 = foldl (\<lambda>m f. ddel f m) d0 (attrs (la_identity la));
          d2 = dput PASSWORD_FIELD (JStr hash) d1
      in case email of Some e \<Rightarrow> dput ''email'' (JStr e) d2 | None \<Rightarrow> d2)"

definition register :: "'s local_auth \<Rightarrow> 's \<Rightarrow> string option \<Rightarrow> string option \<Rightarrow> string \<Rightarrow> (string, json) dict \<Rightarrow> doc app_result \<times> 's" where
  "register la s i email password profile =
     (case (case i of Some x \<Rightarrow> Some x | None \<Rightarrow> email) of
        None \<Rightarrow> (Inl (BadRequest ''id/email required''), s)
      | Some i \<Rightarrow>
          if i = [] then (Inl (BadRequest ''id/email required''), s)
          else if length password < la_password_min la then
            (Inl (BadRequest (''password must be at least '' @ show_nat (la_password_min la) @ '' characters'')), s)
          else (case db_get (la_db la) s (users_of la) i of
             Inl _ \<Rightarrow> (Inl internal_err, s)
           | Inr (Some _) \<Rightarrow> (Inl AlreadyExists, s)
           | Inr None \<Rightarrow>
               (case email_clash la s i email of
                  Inl e \<Rightarrow> (Inl e, s)
                | Inr True \<Rightarrow> (Inl AlreadyExists, s)
                | Inr False \<Rightarrow>
                    (case la_hash_password la password of
                       Inl e \<Rightarrow> (Inl e, s)
                     | Inr hash \<Rightarrow>
                         (case db_insert (la_db la) s (users_of la) \<lparr>d_id = i, d_data = user_data la profile hash email\<rparr> of
                            (r, s') \<Rightarrow> (stored_res r, s'))))))"

definition login :: "'s local_auth \<Rightarrow> local_state \<Rightarrow> string \<times> string \<Rightarrow> 's \<Rightarrow> string \<Rightarrow> string \<Rightarrow> (string \<times> string \<times> string) option \<Rightarrow>
    (auth_context \<times> session_tokens) app_result \<times> 's \<times> replay_cache" where
  "login la ls rnd s name password dpop = (case find_user la s name of
     Inl e \<Rightarrow> (Inl e, s, ls_replay ls)
   | Inr d \<Rightarrow>
       (case Option.bind (dget (d_data d) PASSWORD_FIELD) as_str of
          None \<Rightarrow> (Inl PermissionDenied, s, ls_replay ls)
        | Some stored \<Rightarrow>
            if \<not> la_verify_password la password stored then (Inl PermissionDenied, s, ls_replay ls)
            else (let ctx_uid = ''local:'' @ d_id d in
              case bind_dpop (la_proofs la) (ls_unix ls) (ls_now ls) dpop (ls_replay ls) of
                (Inl e, rc) \<Rightarrow> (Inl e, s, rc)
              | (Inr cnf, rc) \<Rightarrow>
                  (case mint la (ls_unix ls) rnd s (d_id d) ctx_uid (email_of d) cnf (attrs_of (la_identity la) d) of
                     (Inl e, s') \<Rightarrow> (Inl e, s', rc)
                   | (Inr t, s') \<Rightarrow> (Inr (ctx_of la ctx_uid d, t), s', rc)))))"

definition session_by :: "'s local_auth \<Rightarrow> 's \<Rightarrow> string \<Rightarrow> string \<Rightarrow> doc option app_result" where
  "session_by la s field hash = (case db_list (la_db la) s SESSIONS_COLLECTION (eq_query field hash (Some 1)) of
     Inl _ \<Rightarrow> Inl internal_err
   | Inr ds \<Rightarrow> Inr (case ds of [] \<Rightarrow> None | d # _ \<Rightarrow> Some d))"

definition expired :: "doc \<Rightarrow> nat \<Rightarrow> bool" where
  "expired d unix \<longleftrightarrow> (case Option.bind (dget (d_data d) ''expires_at'') as_u64 of Some e \<Rightarrow> nat e \<le> unix | None \<Rightarrow> False)"

text \<open>The loop stops at the first failing delete; what it deleted stays deleted.\<close>

fun delete_sessions :: "'s local_auth \<Rightarrow> 's \<Rightarrow> doc list \<Rightarrow> unit app_result \<times> 's" where
  "delete_sessions la s [] = (Inr (), s)"
| "delete_sessions la s (d # ds) = (case db_delete (la_db la) s SESSIONS_COLLECTION (d_id d) of
     (Inl _, s') \<Rightarrow> (Inl internal_err, s')
   | (Inr _, s') \<Rightarrow> delete_sessions la s' ds)"

definition revoke_user :: "'s local_auth \<Rightarrow> 's \<Rightarrow> string \<Rightarrow> unit app_result \<times> 's" where
  "revoke_user la s u = (case db_list (la_db la) s SESSIONS_COLLECTION (eq_query ''uid'' u None) of
     Inl _ \<Rightarrow> (Inl internal_err, s)
   | Inr ds \<Rightarrow> delete_sessions la s ds)"

datatype refresh_deny = ReuseRevoked | Gone

text \<open>The tail of a refresh, once the rotated session is stored.\<close>

definition refresh_issue :: "'s local_auth \<Rightarrow> local_state \<Rightarrow> string \<Rightarrow> 's \<Rightarrow> string \<Rightarrow> doc \<Rightarrow> (string \<times> string \<times> string) option \<Rightarrow>
    (refresh_deny, auth_context \<times> session_tokens) result \<times> replay_cache" where
  "refresh_issue la ls new_refresh s u sess dpop = (case db_get (la_db la) s (users_of la) u of
     Inr (Some d) \<Rightarrow>
       (case bind_dpop (la_proofs la) (ls_unix ls) (ls_now ls) dpop (ls_replay ls) of
          (Inl _, rc) \<Rightarrow> (Inl Gone, rc)
        | (Inr cnf, rc) \<Rightarrow>
            (case mint_access la (ls_unix ls) u (email_of d) cnf (attrs_of (la_identity la) d) of
               Inl _ \<Rightarrow> (Inl Gone, rc)
             | Inr jwt \<Rightarrow>
                 (Inr (ctx_of la (unwrap_or u (Option.bind (dget (d_data sess) ''ctx_uid'') as_str)) d,
                   \<lparr>access_jwt = jwt, refresh_opaque = new_refresh\<rparr>), rc)))
   | _ \<Rightarrow> (Inl Gone, ls_replay ls))"

definition rotated :: "'s local_auth \<Rightarrow> doc \<Rightarrow> string \<Rightarrow> string \<Rightarrow> doc" where
  "rotated la sess h new_refresh = \<lparr>d_id = d_id sess,
     d_data = dput ''refresh_hash'' (JStr (la_sha la new_refresh)) (dput ''prev_hash'' (JStr h) (d_data sess))\<rparr>"

definition refresh_classified :: "'s local_auth \<Rightarrow> local_state \<Rightarrow> string \<Rightarrow> 's \<Rightarrow> string \<Rightarrow> (string \<times> string \<times> string) option \<Rightarrow>
    (refresh_deny, auth_context \<times> session_tokens) result \<times> 's \<times> replay_cache" where
  "refresh_classified la ls new_refresh s presented dpop =
     (let h = la_sha la presented in
      case session_by la s ''refresh_hash'' h of
        Inr (Some sess) \<Rightarrow>
          if expired sess (ls_unix ls) then
            (Inl Gone, snd (db_delete (la_db la) s SESSIONS_COLLECTION (d_id sess)), ls_replay ls)
          else (case Option.bind (dget (d_data sess) ''uid'') as_str of
             None \<Rightarrow> (Inl Gone, s, ls_replay ls)
           | Some u \<Rightarrow>
               (case db_set (la_db la) s SESSIONS_COLLECTION (d_id sess) (rotated la sess h new_refresh) True of
                  (Inl _, s') \<Rightarrow> (Inl Gone, s', ls_replay ls)
                | (Inr _, s') \<Rightarrow> (let (r, rc) = refresh_issue la ls new_refresh s' u sess dpop in (r, s', rc))))
      | _ \<Rightarrow>
          (case session_by la s ''prev_hash'' h of
             Inr (Some sess) \<Rightarrow>
               (Inl ReuseRevoked, snd (revoke_user la s (unwrap_or [] (Option.bind (dget (d_data sess) ''uid'') as_str))), ls_replay ls)
           | _ \<Rightarrow> (Inl Gone, s, ls_replay ls)))"

definition logout :: "'s local_auth \<Rightarrow> 's \<Rightarrow> string \<Rightarrow> unit app_result \<times> 's" where
  "logout la s presented = (case session_by la s ''refresh_hash'' (la_sha la presented) of
     Inl e \<Rightarrow> (Inl e, s)
   | Inr None \<Rightarrow> (Inr (), s)
   | Inr (Some sess) \<Rightarrow>
       (case db_delete (la_db la) s SESSIONS_COLLECTION (d_id sess) of
          (Inl _, s') \<Rightarrow> (Inl internal_err, s')
        | (Inr _, s') \<Rightarrow> (Inr (), s')))"

definition external_user :: "'s local_auth \<Rightarrow> 's \<Rightarrow> string \<Rightarrow> string option \<Rightarrow> (string, json) dict \<Rightarrow> doc app_result \<times> 's" where
  "external_user la s provider_uid email profile = (case db_get (la_db la) s (users_of la) provider_uid of
     Inl _ \<Rightarrow> (Inl internal_err, s)
   | Inr (Some d) \<Rightarrow> (Inr d, s)
   | Inr None \<Rightarrow>
       (let data = ddel PASSWORD_FIELD profile;
            data' = (case email of Some e \<Rightarrow> dput ''email'' (JStr e) data | None \<Rightarrow> data);
            (r, s') = db_insert (la_db la) s (users_of la) \<lparr>d_id = provider_uid, d_data = data'\<rparr>
        in (stored_res r, s')))"

definition login_external :: "'s local_auth \<Rightarrow> nat \<Rightarrow> string \<times> string \<Rightarrow> 's \<Rightarrow> string \<Rightarrow> string option \<Rightarrow> (string, json) dict \<Rightarrow>
    (auth_context \<times> session_tokens) app_result \<times> 's" where
  "login_external la unix rnd s provider_uid email profile = (case external_user la s provider_uid email profile of
     (Inl e, s1) \<Rightarrow> (Inl e, s1)
   | (Inr d, s1) \<Rightarrow>
       (let email' = (case email of Some e \<Rightarrow> Some e | None \<Rightarrow> email_of d) in
        case mint la unix rnd s1 (d_id d) (d_id d) email' None (attrs_of (la_identity la) d) of
          (Inl e, s2) \<Rightarrow> (Inl e, s2)
        | (Inr t, s2) \<Rightarrow> (Inr (ctx_of la (d_id d) d, t), s2)))"

text \<open>\<open>AuthProvider::verify\<close> and \<open>bound_jkt\<close>.\<close>

definition local_verify :: "'s local_auth \<Rightarrow> string \<Rightarrow> claims app_result" where
  "local_verify la token = (case la_decode la token of
     None \<Rightarrow> Inl PermissionDenied
   | Some c \<Rightarrow> Inr \<lparr>c_provider = ''local'', c_uid = ac_sub c, c_email = ac_email c, c_extra = unwrap_or [] (ac_attrs c)\<rparr>)"

definition bound_jkt :: "'s local_auth \<Rightarrow> string \<Rightarrow> string option app_result" where
  "bound_jkt la token = (case la_decode la token of None \<Rightarrow> Inl PermissionDenied | Some c \<Rightarrow> Inr (ac_cnf c))"

end
