(* ===== verification/Rotation.thy ===== *)
theory Rotation
  imports Sessions
begin

text \<open>
  What the session operations promise over a store that keeps its word: a refresh token works once,
  and presenting it again ends every session of its user.
\<close>

text \<open>
  The store the issuer relies on: besides reads, writes and exact queries, a query with a limit finds
  something when there is something, documents are well formed and filed under their own id, and
  the session collection takes every write.
\<close>

locale session_store = queryable_store +
  assumes limited_view: "inv s \<Longrightarrow> q_offset q = None \<Longrightarrow> q_limit q \<noteq> Some 0 \<Longrightarrow>
      \<exists>rows. db_list db s c q = Inr rows \<and> set rows \<subseteq> matching (view s) c q \<and> (rows = [] \<longrightarrow> matching (view s) c q = {})"
    and docs_ok: "inv s \<Longrightarrow> view s (c, i) = Some d \<Longrightarrow> d_id d = i \<and> dict_ok (d_data d)"
    and set_ok: "inv s \<Longrightarrow> is_ok (fst (db_set db s c i d m))"
    and delete_ok: "inv s \<Longrightarrow> is_ok (fst (db_delete db s c i))"
begin

lemma set_effect:
  assumes "inv s"
  obtains s' where "db_set db s c i d m = (Inr (spec_put (view s) c i (d_data d) m), s')" "inv s'"
    "view s' = (view s)((c, i) := Some (spec_put (view s) c i (d_data d) m))"
proof -
  obtain r s' where e: "db_set db s c i d m = (r, s')" by (cases "db_set db s c i d m")
  moreover obtain x where "r = Inr x" using set_ok [OF assms, of c i d m] e by (cases r) auto
  ultimately show ?thesis using that set_view [OF assms e] by auto
qed

lemma delete_effect:
  assumes "inv s"
  obtains s' x where "db_delete db s c i = (Inr x, s')" "inv s'" "view s' = (view s)((c, i) := None)"
proof -
  obtain r s' where e: "db_delete db s c i = (r, s')" by (cases "db_delete db s c i")
  moreover obtain x where "r = Inr x" using delete_ok [OF assms, of c i] e by (cases r) auto
  ultimately show ?thesis using that delete_view [OF assms e] by auto
qed

end

definition session_field :: "string \<Rightarrow> bool" where
  "session_field f \<longleftrightarrow> CHR ''.'' \<notin> set f"

lemma eq_query_matching:
  assumes "session_field f"
  shows "matching v c (eq_query f h mx) = {d. v (c, d_id d) = Some d \<and> dget (d_data d) f = Some (JStr h)}"
  using assms
  by (auto simp: matching_def eq_query_def default_query_def doc_matches_def filter_matches_def nested_def
      session_field_def split_on_no_sep matches_cursor_def)

lemma session_fields [simp]: "session_field ''refresh_hash''" "session_field ''prev_hash''" "session_field ''uid''"
  by (simp_all add: session_field_def)

context session_store
begin

lemma session_by_cases:
  assumes "inv s" "la_db la = db" "session_field f"
  obtains (none) "session_by la s f h = Inr None" "\<And>d. view s (SESSIONS_COLLECTION, d_id d) = Some d \<Longrightarrow> dget (d_data d) f \<noteq> Some (JStr h)"
    | (found) d where "session_by la s f h = Inr (Some d)" "view s (SESSIONS_COLLECTION, d_id d) = Some d" "dget (d_data d) f = Some (JStr h)"
proof -
  have "q_offset (eq_query f h (Some 1)) = None" "q_limit (eq_query f h (Some 1)) \<noteq> Some 0"
    by (simp_all add: eq_query_def default_query_def)
  from limited_view [OF assms(1) this, of SESSIONS_COLLECTION] obtain rows where
    rows: "db_list db s SESSIONS_COLLECTION (eq_query f h (Some 1)) = Inr rows"
    "set rows \<subseteq> matching (view s) SESSIONS_COLLECTION (eq_query f h (Some 1))"
    "rows = [] \<longrightarrow> matching (view s) SESSIONS_COLLECTION (eq_query f h (Some 1)) = {}" by blast
  note m = eq_query_matching [OF assms(3), of "view s" SESSIONS_COLLECTION h "Some 1"]
  show ?thesis
  proof (cases rows)
    case Nil
    with rows m show ?thesis by (intro none) (auto simp: session_by_def assms(2))
  next
    case (Cons d ds)
    with rows m show ?thesis by (intro found) (auto simp: session_by_def assms(2))
  qed
qed

lemma delete_sessions_view:
  assumes "inv s" "la_db la = db"
  shows "inv (snd (delete_sessions la s ds)) \<and>
    view (snd (delete_sessions la s ds)) = (\<lambda>k. if k \<in> (\<lambda>d. (SESSIONS_COLLECTION, d_id d)) ` set ds then None else view s k)"
  using assms
proof (induction ds arbitrary: s)
  case (Cons d ds)
  from delete_effect [OF Cons.prems(1), of SESSIONS_COLLECTION "d_id d"] obtain s' x where
    s': "db_delete db s SESSIONS_COLLECTION (d_id d) = (Inr x, s')" "inv s'"
    "view s' = (view s)((SESSIONS_COLLECTION, d_id d) := None)" by blast
  with Cons.IH [OF s'(2) Cons.prems(2)] Cons.prems(2) show ?case by (auto simp: fun_eq_iff)
qed simp

lemma revoke_user_clears:
  assumes "inv s" "la_db la = db"
  shows "inv (snd (revoke_user la s u))
    \<and> (\<forall>d. view (snd (revoke_user la s u)) (SESSIONS_COLLECTION, d_id d) = Some d \<longrightarrow> dget (d_data d) ''uid'' \<noteq> Some (JStr u))
    \<and> (\<forall>k d. view (snd (revoke_user la s u)) k = Some d \<longrightarrow> view s k = Some d)"
proof -
  have "unpaged_query (eq_query ''uid'' u None)" by (simp add: unpaged_query_def eq_query_def default_query_def)
  then obtain rows where rows: "db_list db s SESSIONS_COLLECTION (eq_query ''uid'' u None) = Inr rows"
    "set rows = matching (view s) SESSIONS_COLLECTION (eq_query ''uid'' u None)"
    using list_rows [OF assms(1)] by metis
  then have r: "revoke_user la s u = delete_sessions la s rows" by (simp add: revoke_user_def assms(2))
  show ?thesis
    using delete_sessions_view [OF assms, of rows] rows(2)
    by (auto simp: r eq_query_matching image_iff split: if_splits)
qed

text \<open>
  The state a refresh leaves behind, successful or not, is a trap: the presented token now stands in
  \<open>prev_hash\<close>, and presenting it again revokes.
\<close>

lemma trap_revokes:
  assumes "inv s" "la_db la = db"
    and sess: "view s (SESSIONS_COLLECTION, d_id x) = Some x"
    and x: "dget (d_data x) ''prev_hash'' = Some (JStr (la_sha la t))" "dget (d_data x) ''uid'' = Some (JStr u)"
    and none: "\<And>d. view s (SESSIONS_COLLECTION, d_id d) = Some d \<Longrightarrow> dget (d_data d) ''refresh_hash'' \<noteq> Some (JStr (la_sha la t))"
    and only: "\<And>d. view s (SESSIONS_COLLECTION, d_id d) = Some d \<Longrightarrow> dget (d_data d) ''prev_hash'' = Some (JStr (la_sha la t)) \<Longrightarrow> d = x"
  shows "fst (refresh_classified la ls n s t dpop) = Inl ReuseRevoked
    \<and> inv (fst (snd (refresh_classified la ls n s t dpop)))
    \<and> (\<forall>d. view (fst (snd (refresh_classified la ls n s t dpop))) (SESSIONS_COLLECTION, d_id d) = Some d
          \<longrightarrow> dget (d_data d) ''uid'' \<noteq> Some (JStr u))"
proof -
  have "session_by la s ''refresh_hash'' (la_sha la t) = Inr None"
    using session_by_cases [OF assms(1,2), of "''refresh_hash''" "la_sha la t"] none by (metis session_fields(1))
  moreover have "session_by la s ''prev_hash'' (la_sha la t) = Inr (Some x)"
    using session_by_cases [OF assms(1,2), of "''prev_hash''" "la_sha la t"] sess x only by (metis session_fields(2))
  ultimately have "refresh_classified la ls n s t dpop = (Inl ReuseRevoked, snd (revoke_user la s u), ls_replay ls)"
    by (simp add: refresh_classified_def Let_def x)
  with revoke_user_clears [OF assms(1,2), of u] show ?thesis by simp
qed

text \<open>A refresh that finds a live session rotates it, whatever becomes of the rest of the call.\<close>

lemma refresh_rotates:
  assumes "inv s" "la_db la = db"
    and sess: "session_by la s ''refresh_hash'' (la_sha la t) = Inr (Some sess)"
      "view s (SESSIONS_COLLECTION, d_id sess) = Some sess"
    and live: "\<not> expired sess (ls_unix ls)" "dget (d_data sess) ''uid'' = Some (JStr u)"
  shows "inv (fst (snd (refresh_classified la ls n s t dpop))) \<and>
    (\<exists>x. view (fst (snd (refresh_classified la ls n s t dpop))) = (view s)((SESSIONS_COLLECTION, d_id sess) := Some x)
       \<and> d_id x = d_id sess \<and> (\<forall>k. dget (d_data x) k = (if k = ''refresh_hash'' then Some (JStr (la_sha la n))
            else if k = ''prev_hash'' then Some (JStr (la_sha la t)) else dget (d_data sess) k)))
    \<and> fst (refresh_classified la ls n s t dpop) =
        fst (refresh_issue la ls n (fst (snd (refresh_classified la ls n s t dpop))) u sess dpop)"
proof -
  let ?h = "la_sha la t" and ?c = SESSIONS_COLLECTION
  let ?r = "rotated la sess ?h n"
  let ?x = "spec_put (view s) ?c (d_id sess) (d_data ?r) True"
  have d: "dict_ok (d_data sess)" using docs_ok [OF assms(1) sess(2)] by simp
  from set_effect [OF assms(1), of ?c "d_id sess" ?r True] obtain s' where
    s': "db_set db s ?c (d_id sess) ?r True = (Inr ?x, s')" "inv s'" "view s' = (view s)((?c, d_id sess) := Some ?x)" by blast
  have e: "refresh_classified la ls n s t dpop =
      (fst (refresh_issue la ls n s' u sess dpop), s', snd (refresh_issue la ls n s' u sess dpop))"
    using sess live s'(1) by (simp add: refresh_classified_def Let_def assms(2) case_prod_unfold)
  have x: "d_id ?x = d_id sess" "dget (d_data ?x) k = (if k = ''refresh_hash'' then Some (JStr (la_sha la n))
      else if k = ''prev_hash'' then Some (JStr ?h) else dget (d_data sess) k)" for k
    using d sess(2) by (auto simp: spec_put_def rotated_def dget_dextend_dict split: option.splits)
  show ?thesis unfolding e using s' x by auto
qed

end

text \<open>The sessions of a user, and those that hold a hash in a field.\<close>

definition user_sessions :: "docs \<Rightarrow> string \<Rightarrow> doc set" where
  "user_sessions v u = {d. v (SESSIONS_COLLECTION, d_id d) = Some d \<and> dget (d_data d) ''uid'' = Some (JStr u)}"

definition holders :: "string \<Rightarrow> docs \<Rightarrow> string \<Rightarrow> doc set" where
  "holders f v h = {d. v (SESSIONS_COLLECTION, d_id d) = Some d \<and> dget (d_data d) f = Some (JStr h)}"

definition token_unique :: "docs \<Rightarrow> string \<Rightarrow> bool" where
  "token_unique v h \<longleftrightarrow> holders ''prev_hash'' v h = {} \<and> (\<forall>d \<in> holders ''refresh_hash'' v h. \<forall>e \<in> holders ''refresh_hash'' v h. d = e)"

context session_store
begin

lemma burnt_token:
  assumes s: "inv s" "la_db la = db"
    and sess: "session_by la s ''refresh_hash'' (la_sha la t) = Inr (Some sess)"
    and live: "\<not> expired sess (ls_unix ls)" "dget (d_data sess) ''uid'' = Some (JStr u)"
    and uniq: "token_unique (view s) (la_sha la t)" "la_sha la n \<noteq> la_sha la t"
    and s1: "s1 = fst (snd (refresh_classified la ls n s t dpop))"
  shows "fst (refresh_classified la ls' n' s1 t dpop') = Inl ReuseRevoked
    \<and> user_sessions (view (fst (snd (refresh_classified la ls' n' s1 t dpop')))) u = {}"
proof -
  let ?c = SESSIONS_COLLECTION and ?h = "la_sha la t"
  have v: "view s (?c, d_id sess) = Some sess" "dget (d_data sess) ''refresh_hash'' = Some (JStr ?h)"
    using session_by_cases [OF s, of "''refresh_hash''" ?h] sess by (metis Inr_inject option.distinct(1) option.inject session_fields(1))+
  from refresh_rotates [OF s sess v(1) live, of n dpop, folded s1] obtain x where
    i: "inv s1" and vx: "view s1 = (view s)((?c, d_id sess) := Some x)" "d_id x = d_id sess"
    and x: "\<And>k. dget (d_data x) k = (if k = ''refresh_hash'' then Some (JStr (la_sha la n))
            else if k = ''prev_hash'' then Some (JStr ?h) else dget (d_data sess) k)" by blast
  have none: "dget (d_data d) ''refresh_hash'' \<noteq> Some (JStr ?h)" if d: "view s1 (?c, d_id d) = Some d" for d
  proof (cases "d_id d = d_id sess")
    case True
    with d vx have "d = x" by simp
    with x uniq(2) show ?thesis by simp
  next
    case False
    with d vx have "view s (?c, d_id d) = Some d" by simp
    with False v uniq(1) show ?thesis unfolding token_unique_def holders_def by auto
  qed
  have only: "d = x" if d: "view s1 (?c, d_id d) = Some d" "dget (d_data d) ''prev_hash'' = Some (JStr ?h)" for d
  proof (rule ccontr)
    assume "d \<noteq> x"
    with d vx have "view s (?c, d_id d) = Some d" by (auto split: if_splits)
    with d(2) uniq(1) show False unfolding token_unique_def holders_def by auto
  qed
  have "view s1 (?c, d_id x) = Some x" using vx by simp
  from trap_revokes [where t = t and u = u and ls = ls' and n = n' and dpop = dpop', OF i s(2) this] x live(2) none only show ?thesis
    by (auto simp: user_sessions_def)
qed

text \<open>A refresh that succeeds did find such a session.\<close>

lemma refresh_found:
  assumes "refresh_classified la ls n s t dpop = (Inr out, s1, rc)"
  obtains sess u where "session_by la s ''refresh_hash'' (la_sha la t) = Inr (Some sess)"
    "\<not> expired sess (ls_unix ls)" "dget (d_data sess) ''uid'' = Some (JStr u)"
  using assms that
  by (auto simp: refresh_classified_def Let_def bind_eq_Some_conv split: sum.splits option.splits if_splits)

end

subsection \<open>The in-memory driver is such a store\<close>

lemma mem_docs_ok: "mem_ok s \<Longrightarrow> view_of (store s) (c, i) = Some d \<Longrightarrow> d_id d = i \<and> dict_ok (d_data d)"
  using table_ok_get [of "mem_table (store s) c" i d] by (auto simp: view_of_table mem_ok_def)

lemma cursor_limit [simp]: "matches_cursor d (q\<lparr>q_limit := n\<rparr>) = matches_cursor d q"
  by (simp add: matches_cursor_def cursor_value_def cursor_field_def)

lemma mem_list_limited:
  assumes "mem_ok s" "q_offset q = None" "q_limit q \<noteq> Some 0"
  shows "\<exists>rows. mem_list s c q = Inr rows \<and> set rows \<subseteq> matching (view_of (store s)) c q
    \<and> (rows = [] \<longrightarrow> matching (view_of (store s)) c q = {})"
proof -
  let ?q = "q\<lparr>q_limit := None\<rparr>"
  have "unpaged_query ?q" using assms(2) by (simp add: unpaged_query_def)
  from mem_list_matching [OF assms(1) this, of c] obtain all where
    all: "mem_list s c ?q = Inr all" "set all = matching (view_of (store s)) c ?q" by blast
  have m: "matching (view_of (store s)) c ?q = matching (view_of (store s)) c q"
    by (simp add: matching_def)
  have l: "mem_list s c q = Inr (case q_limit q of None \<Rightarrow> all | Some n \<Rightarrow> take n all)"
    using all(1) assms(2)
    by (auto simp: mem_list_def sort_and_limit_def apply_offset_limit_def apply_cursor_def Let_def split: option.splits)
  show ?thesis
  proof (cases "q_limit q")
    case None
    with l all m show ?thesis by force
  next
    case (Some n)
    with assms(3) l all m show ?thesis by (auto dest: in_set_takeD simp: take_eq_Nil)
  qed
qed

interpretation mems: session_store "mem_driver nanos" "\<lambda>s. view_of (store s)" mem_ok for nanos
proof (intro session_store.intro session_store_axioms.intro)
  show "queryable_store (mem_driver nanos) (\<lambda>s. view_of (store s)) mem_ok" by (rule mem_queryable)
next
  fix s :: mem_db and q :: query_options and c
  assume "mem_ok s" "q_offset q = None" "q_limit q \<noteq> Some 0"
  from mem_list_limited [OF this]
  show "\<exists>rows. db_list (mem_driver nanos) s c q = Inr rows \<and> set rows \<subseteq> matching (view_of (store s)) c q
      \<and> (rows = [] \<longrightarrow> matching (view_of (store s)) c q = {})"
    by (simp add: mem_driver_def Let_def)
next
  fix s c i d
  assume "mem_ok s" "view_of (store s) (c, i) = Some d"
  then show "d_id d = i \<and> dict_ok (d_data d)" by (rule mem_docs_ok)
qed (auto simp: mem_driver_def Let_def mem_set_spec mem_delete_def split: option.splits)

subsection \<open>Reuse of a refresh token\<close>


text \<open>
  The rotation is stored before the proof of possession is checked, so a refresh refused for its
  proof has used the token up all the same: nobody was told its successor, and trying again with a
  good proof is the reuse that ends all sessions.
\<close>

lemma bad_proof_burns_session:
  assumes "session_store (la_db la) view I" "I s"
    and "session_by la s ''refresh_hash'' (la_sha la t) = Inr (Some sess)" "\<not> expired sess (ls_unix ls)"
    and "dget (d_data sess) ''uid'' = Some (JStr u)"
    and "token_unique (view s) (la_sha la t)" "la_sha la n \<noteq> la_sha la t"
    and bad: "fst (bind_dpop (la_proofs la) (ls_unix ls) (ls_now ls) dpop (ls_replay ls)) = Inl e"
  shows "fst (refresh_classified la ls n s t dpop) = Inl Gone
    \<and> fst (refresh_classified la ls' n' (fst (snd (refresh_classified la ls n s t dpop))) t good) = Inl ReuseRevoked"
proof -
  have v: "view s (SESSIONS_COLLECTION, d_id sess) = Some sess"
    using session_store.session_by_cases [OF assms(1,2) refl session_fields(1), of "la_sha la t"] assms(3)
    by (metis Inr_inject option.distinct(1) option.inject)
  have "fst (refresh_issue la ls n s' u sess dpop) = Inl Gone" for s'
    using bad by (auto simp: refresh_issue_def split: sum.splits option.splits prod.splits)
  with session_store.refresh_rotates [OF assms(1,2) refl assms(3) v assms(4,5), of n dpop]
  have "fst (refresh_classified la ls n s t dpop) = Inl Gone" by simp
  with session_store.burnt_token [OF assms(1,2) refl assms(3-7) refl] show ?thesis by simp
qed

subsection \<open>A concrete issuer\<close>

definition demo_la :: "mem_db local_auth" where
  "demo_la = \<lparr>la_db = mem_driver 0, la_identity = \<lparr>users_collection = ''users'', attrs = [''role'']\<rparr>,
     la_access_ttl = 10, la_refresh_ttl = 20, la_password_min = 4, la_sha = Cons (CHR ''h''),
     la_hash_password = (\<lambda>p. Inr (CHR ''#'' # p)), la_verify_password = (\<lambda>p h. h = CHR ''#'' # p),
     la_encode = (\<lambda>c. Inr (ac_sub c)), la_decode = (\<lambda>_. None), la_proofs = demo_proofs\<rparr>"

definition demo_clock :: local_state where
  "demo_clock = \<lparr>ls_unix = 5, ls_now = 0, ls_replay = []\<rparr>"

definition demo_session :: "string \<Rightarrow> doc" where
  "demo_session h = \<lparr>d_id = ''s1'', d_data = [(''expires_at'', jint 25), (''refresh_hash'', JStr h), (''uid'', JStr ''u1'')]\<rparr>"

definition demo_users :: mem_db where
  "demo_users = \<lparr>store = [(''__sessions'', [(''s1'', demo_session ''hT'')]),
     (''users'', [(''u1'', \<lparr>d_id = ''u1'', d_data = [(''email'', JStr ''v@x''), (''password_hash'', JStr ''#pass'')]\<rparr>)])], indexes = []\<rparr>"

lemma demo_users_ok: "mem_ok demo_users"
  by (simp add: mem_ok_def demo_users_def demo_session_def store_ok_def table_ok_def dict_ok_def)

lemma demo_refresh:
  "is_ok (fst (refresh_classified demo_la demo_clock ''N'' demo_users ''T'' None))"
  by code_simp

lemma demo_unique: "token_unique (view_of (store demo_users)) ''hT''"
  by (auto simp: token_unique_def holders_def view_of_def demo_users_def SESSIONS_COLLECTION_def demo_session_def
      split: if_splits)


text \<open>
  Only the last token is remembered: after two refreshes, the first token is merely gone, and
  nothing is revoked.
\<close>

lemma older_reuse_unnoticed:
  "let s1 = fst (snd (refresh_classified demo_la demo_clock ''N'' demo_users ''T'' None));
       s2 = fst (snd (refresh_classified demo_la demo_clock ''M'' s1 ''N'' None));
       (r, s3, _) = refresh_classified demo_la demo_clock ''K'' s2 ''T'' None
   in r = Inl Gone \<and> s3 = s2 \<and> is_ok (fst (refresh_classified demo_la demo_clock ''K'' s3 ''M'' None))"
  by code_simp

text \<open>
  An account whose id is the email of another takes over that email's logins: the id is looked up
  first, and registration compares emails with emails only.
\<close>

lemma id_shadows_email:
  "let (r0, _) = login demo_la demo_clock (''R'', ''s2'') demo_users ''v@x'' ''pass'' None;
       (r1, s1) = register demo_la demo_users (Some ''v@x'') None ''evil'' [];
       (r2, _) = login demo_la demo_clock (''R'', ''s2'') s1 ''v@x'' ''pass'' None;
       (r3, _) = login demo_la demo_clock (''R'', ''s2'') s1 ''v@x'' ''evil'' None
   in is_ok r0 \<and> is_ok r1 \<and> r2 = Inl PermissionDenied \<and> is_ok r3"
  by code_simp

text \<open>
  An external account can be registered before its owner first logs in: the external login adopts
  whatever document has its id, so both log in to the same account, with the same token subject.
\<close>

lemma external_adopts_registered:
  "let (r1, s1) = register demo_la demo_users (Some ''github:7'') None ''evil'' [];
       (r2, s2) = login_external demo_la 5 (''R'', ''s2'') s1 ''github:7'' None [];
       (r3, _) = login demo_la demo_clock (''Q'', ''s3'') s2 ''github:7'' ''evil'' None
   in case (r2, r3) of (Inr (c2, t2), Inr (c3, t3)) \<Rightarrow> access_jwt t2 = access_jwt t3 | _ \<Rightarrow> False"
  by code_simp

subsection \<open>Registration\<close>

lemma dget_strip: "dget (foldl (\<lambda>m f. ddel f m) m fs) k = (if k \<in> set fs then None else dget m k)"
  by (induction fs arbitrary: m) auto

lemma dict_ok_strip: "dict_ok m \<Longrightarrow> dict_ok (foldl (\<lambda>m f. ddel f m) m fs)"
  by (induction fs arbitrary: m) auto

lemma user_data_get:
  "dget (user_data la profile hash email) k =
     (if k = ''email'' \<and> email \<noteq> None then map_option JStr email
      else if k = PASSWORD_FIELD then Some (JStr hash)
      else if k \<in> set (attrs (la_identity la)) then None else dget profile k)"
  by (auto simp: user_data_def Let_def dget_strip split: option.splits)

lemma user_data_ok: "dict_ok profile \<Longrightarrow> dict_ok (user_data la profile hash email)"
  by (auto simp: user_data_def Let_def dict_ok_strip split: option.splits)

text \<open>
  Nobody registers with privileges, and nobody overwrites an account: a successful registration
  stores a new user under the id given (or the email), whose password is the hash of the one given,
  whatever the profile says, and which has none of the fields that the identity configuration turns
  into claims, the email apart.
\<close>

theorem register_strips_claims:
  assumes st: "gateway_store (la_db la) view I" and s: "I s" and p: "dict_ok profile"
    and r: "register la s i email password profile = (Inr d, s')"
  shows "view s (users_of la, d_id d) = None \<and> view s' = (view s)((users_of la, d_id d) := Some d)
    \<and> (\<exists>h. la_hash_password la password = Inr h \<and> dget (d_data d) PASSWORD_FIELD = Some (JStr h))
    \<and> la_password_min la \<le> length password
    \<and> (\<forall>f \<in> set (attrs (la_identity la)). f = PASSWORD_FIELD \<or> f = ''email'' \<or> dget (d_data d) f = None)"
proof -
  have ne: "PASSWORD_FIELD \<noteq> ''email''" by (simp add: PASSWORD_FIELD_def)
  from r obtain j h x where
    j: "j \<noteq> []" "la_password_min la \<le> length password" "db_get (la_db la) s (users_of la) j = Inr None"
      "la_hash_password la password = Inr h"
      "db_insert (la_db la) s (users_of la) \<lparr>d_id = j, d_data = user_data la profile h email\<rparr> = (x, s')"
      "stored_res x = Inr d"
    by (auto simp: register_def split: option.splits if_splits sum.splits bool.splits prod.splits)
  then obtain y where y: "x = Inr y" "y = d" by (cases x) (auto simp: stored_res_def)
  have ds: "document_store (la_db la) view I" using st by (simp add: gateway_store_def)
  from gateway_store.insert_view [OF st s j(5)] y j(1)
  have d: "d_data d = user_data la profile h email" "d_id d = j" "view s' = (view s)((users_of la, j) := Some d)"
    using dextend_empty [OF user_data_ok [OF p]] by auto
  have "view s (users_of la, j) = None" using document_store.get_view [OF ds s] j(3) by simp
  with d j ne show ?thesis by (auto simp: user_data_get)
qed

lemma register_strips_claims_witness:
  "case register demo_la demo_users (Some ''u2'') None ''pass'' [(''nick'', JStr ''n''), (''role'', JStr ''admin'')] of
     (Inr d, s') \<Rightarrow> dget (d_data d) ''role'' = None | _ \<Rightarrow> False"
proof -
  let ?r = "register demo_la demo_users (Some ''u2'') None ''pass'' [(''nick'', JStr ''n''), (''role'', JStr ''admin'')]"
  have ok: "is_ok (fst ?r)" by code_simp
  then obtain d s' where e: "?r = (Inr d, s')" by (cases "fst ?r") (auto simp: prod_eq_iff)
  have "gateway_store (la_db demo_la) (\<lambda>s. view_of (store s)) mem_ok"
    using mem_gateway_store by (simp add: demo_la_def)
  from register_strips_claims [OF this demo_users_ok _ e]
  have "dget (d_data d) ''role'' = None"
    by (auto simp: demo_la_def PASSWORD_FIELD_def dict_ok_def)
  with e show ?thesis by simp
qed

subsection \<open>Login\<close>

text \<open>A login that succeeds is one with the password of the account it names.\<close>

lemma login_needs_password:
  assumes "login la ls rnd s name password dpop = (Inr (c, t), s', rc)"
  shows "\<exists>d h. find_user la s name = Inr d \<and> uid c = ''local:'' @ d_id d
    \<and> dget (d_data d) PASSWORD_FIELD = Some (JStr h) \<and> la_verify_password la password h"
  using assms
  by (auto simp: login_def Let_def ctx_of_def bind_eq_Some_conv split: sum.splits option.splits if_splits prod.splits)

end
