(* ===== verification/Bytes.thy ===== *)
theory Bytes
  imports Prelude "HOL-Library.Word"
begin

unbundle bit_operations_syntax

text \<open>
  Bytes as the components share them: hexadecimal text, comparison without an early exit, and the
  facts that make printing a number and writing bytes in hexadecimal injective.
\<close>

text \<open>The fold over the differences of two byte strings (\<open>svc_key_match\<close>, \<open>verify_sig\<close>).\<close>

definition byte_diff :: "string \<Rightarrow> string \<Rightarrow> nat" where
  "byte_diff a b = foldl (\<lambda>d (x, y). d OR (ch x XOR ch y)) 0 (zip a b)"

definition hex_nibble :: "nat \<Rightarrow> char" where
  "hex_nibble n = (if n < 10 then char_of (48 + n) else char_of (87 + n))"

definition hex :: "string \<Rightarrow> string" where
  "hex b = concat (map (\<lambda>x. [hex_nibble (ch x div 16), hex_nibble (ch x mod 16)]) b)"

lemma xor_zero: "(x::nat) XOR y = 0 \<longleftrightarrow> x = y"
  by (auto simp: bit_eq_iff bit_xor_iff)

lemma or_zero: "(x::nat) OR y = 0 \<longleftrightarrow> x = 0 \<and> y = 0"
  by (auto simp: bit_eq_iff bit_or_iff)

lemma byte_diff_from: "length a = length b \<Longrightarrow>
    foldl (\<lambda>d (x, y). d OR (ch x XOR ch y)) n (zip a b) = 0 \<longleftrightarrow> n = 0 \<and> a = b"
proof (induction a b arbitrary: n rule: list_induct2)
  case (Cons x xs y ys)
  with Cons.IH show ?case by (auto simp: or_zero xor_zero ch_inject)
qed simp

lemma byte_diff_zero: "length a = length b \<Longrightarrow> byte_diff a b = 0 \<longleftrightarrow> a = b"
  by (simp add: byte_diff_def byte_diff_from)

subsection \<open>Hexadecimal\<close>

lemma ch_hex_nibble: "n < 16 \<Longrightarrow> ch (hex_nibble n) = (if n < 10 then 48 + n else 87 + n)"
  by (simp add: hex_nibble_def ch_char_of)

lemma hex_nibble_inject: "m < 16 \<Longrightarrow> n < 16 \<Longrightarrow> hex_nibble m = hex_nibble n \<longleftrightarrow> m = n"
  by (subst ch_inject [symmetric]) (auto simp: ch_hex_nibble)

lemma byte_halves: "ch a div 16 = ch b div 16 \<Longrightarrow> ch a mod 16 = ch b mod 16 \<Longrightarrow> a = b"
  by (metis ch_inject div_mult_mod_eq)

lemma length_hex [simp]: "length (hex b) = 2 * length b"
  by (induction b) (simp_all add: hex_def)

lemma hex_inject [simp]: "hex a = hex b \<longleftrightarrow> a = b"
proof (induction a arbitrary: b)
  case Nil
  then show ?case by (cases b) (simp_all add: hex_def)
next
  case (Cons x xs)
  then show ?case
    by (cases b) (auto simp: hex_def hex_nibble_inject intro: byte_halves)
qed

subsection \<open>Printed numbers\<close>

lemma show_nat_digits: "c \<in> set (show_nat n) \<Longrightarrow> is_digit c"
proof (induction n rule: show_nat.induct)
  case (1 n)
  have "n mod 10 < 10" by simp
  then have "is_digit (char_of (48 + n mod 10))" "n < 10 \<Longrightarrow> is_digit (char_of (48 + n))"
    by (simp_all add: is_digit_def ch_char_of)
  with 1 show ?case by (subst (asm) (2) show_nat.simps) (auto split: if_splits)
qed

lemma digits_show_nat: "digits_val (show_nat n) = n"
proof (induction n rule: show_nat.induct)
  case (1 n)
  show ?case
  proof (cases "n < 10")
    case True
    then show ?thesis by (subst show_nat.simps) (simp add: digits_val_def ch_char_of)
  next
    case False
    have "n mod 10 < 10" by simp
    then have "ch (char_of (48 + n mod 10)) = 48 + n mod 10" by (intro ch_char_of) linarith
    then show ?thesis using 1 False
      by (subst show_nat.simps) (simp add: digits_val_def)
  qed
qed

lemma show_nat_inject [simp]: "show_nat m = show_nat n \<longleftrightarrow> m = n"
  by (metis digits_show_nat)

end
