(* ===== verification/Edge.thy ===== *)
theory Edge
  imports TokenCache Dpop Policy Bytes
begin

text \<open>
  What happens to a request before its handler: the host allowlist, CORS, and the middleware that
  turns credentials into an identity (service key, provider chain behind the token cache, proof of
  possession, CSRF). Header values are the strings that \<open>to_str\<close> yields; the peer's address is
  represented by whether it is a loopback (or unix socket) peer.
\<close>

unbundle bit_operations_syntax

subsection \<open>Hosts\<close>

definition rsplit_once :: "char \<Rightarrow> string \<Rightarrow> (string \<times> string) option" where
  "rsplit_once c s = map_option (\<lambda>(a, b). (rev b, rev a)) (split_once c (rev s))"

definition strip_host_port :: "string \<Rightarrow> string" where
  "strip_host_port h = (case strip_prefix ''['' h of
     Some rest \<Rightarrow> (case split_once (CHR '']'') rest of Some (a, _) \<Rightarrow> a | None \<Rightarrow> h)
   | None \<Rightarrow> (case rsplit_once (CHR '':'') h of
        Some (host, _) \<Rightarrow> if CHR '':'' \<in> set host then h else host
      | None \<Rightarrow> h))"

definition host_allowed :: "string list \<Rightarrow> string option \<Rightarrow> bool" where
  "host_allowed allowed host \<longleftrightarrow> allowed = [] \<or>
     (case host of
        Some h \<Rightarrow> (let bare = strip_host_port h in
          bare = ''localhost'' \<or> bare = ''127.0.0.1'' \<or> bare = ''::1'' \<or> list_ex (\<lambda>a. eq_ignore_case a bare) allowed)
      | None \<Rightarrow> False)"

definition request_host :: "string option \<Rightarrow> string option \<Rightarrow> string option" where
  "request_host header authority = (case header of Some h \<Rightarrow> Some h | None \<Rightarrow> authority)"

datatype 'r hosted = Served 'r | Misdirected

definition host_mw :: "string list \<Rightarrow> string option \<Rightarrow> string option \<Rightarrow> 'r \<Rightarrow> 'r hosted" where
  "host_mw allowed header authority next =
     (if host_allowed allowed (request_host header authority) then Served next else Misdirected)"

text \<open>Listen hosts, and the plain-text companion of a TLS listener.\<close>

definition split_hosts :: "string \<Rightarrow> string list" where
  "split_hosts host = filter (\<lambda>s. s \<noteq> []) (map trim (split_on (CHR '','') host))"

definition plain_companion_for :: "bool \<Rightarrow> bool \<Rightarrow> ('ip \<Rightarrow> bool) \<Rightarrow> 'ip list \<Rightarrow> nat \<Rightarrow> string option" where
  "plain_companion_for tls plain_loopback covers_loopback bind_ips port =
     (if \<not> tls \<or> \<not> plain_loopback then None
      else if list_ex covers_loopback bind_ips then None
      else Some (''127.0.0.1:'' @ show_nat port))"

subsection \<open>CORS\<close>

definition cors_headers :: "string option \<Rightarrow> string list \<Rightarrow> (string \<times> string) list option" where
  "cors_headers origin allowed = (case origin of
     None \<Rightarrow> None
   | Some o' \<Rightarrow>
       if \<not> (starts_with ''http://'' o' \<or> starts_with ''https://'' o') then None
       else if allowed \<noteq> [] \<and> o' \<notin> set allowed then None
       else Some [(''access-control-allow-origin'', o'),
         (''access-control-allow-methods'', ''GET, POST, PUT, DELETE, OPTIONS, PATCH''),
         (''access-control-allow-headers'', ''Authorization, Content-Type, Accept, Origin, X-Requested-With''),
         (''access-control-allow-credentials'', ''true''), (''vary'', ''Origin'')])"

datatype 'r answered = NoContent | Handled 'r

definition cors_mw :: "string list \<Rightarrow> string option \<Rightarrow> string \<Rightarrow> 'r \<Rightarrow> 'r answered \<times> (string \<times> string) list" where
  "cors_mw allowed origin method next =
     (if method = ''OPTIONS'' then NoContent else Handled next, unwrap_or [] (cors_headers origin allowed))"

subsection \<open>Credentials\<close>

definition bearer :: "string option \<Rightarrow> string option" where
  "bearer authorization = Option.bind authorization (strip_prefix ''Bearer '')"

fun find_cookie :: "string \<Rightarrow> string list \<Rightarrow> string option" where
  "find_cookie name [] = None"
| "find_cookie name (p # ps) = (case split_once (CHR ''='') p of
     Some (k, v) \<Rightarrow> if trim k = name then Some (trim v) else find_cookie name ps
   | None \<Rightarrow> find_cookie name ps)"

definition read_cookie :: "string option \<Rightarrow> string \<Rightarrow> string option" where
  "read_cookie cookie name = Option.bind cookie (\<lambda>c. find_cookie name (split_on (CHR '';'') c))"

definition ACCESS_COOKIE :: string where "ACCESS_COOKIE = ''__Host-ub_at''"

definition base_uri :: "bool \<Rightarrow> string option \<Rightarrow> string \<Rightarrow> string" where
  "base_uri tls host path = (if tls then ''https'' else ''http'') @ ''://'' @ unwrap_or ''unknown'' host @ path"

definition query_token_allowed :: "bool \<Rightarrow> string option \<Rightarrow> bool" where
  "query_token_allowed tls host \<longleftrightarrow> tls \<or>
     (case host of
        Some h \<Rightarrow> (let bare = hd (split_on (CHR '':'') h) in bare = ''localhost'' \<or> bare = ''127.0.0.1'' \<or> bare = ''[::1]'')
      | None \<Rightarrow> False)"

subsection \<open>Service keys\<close>

definition hash_key :: "(string \<Rightarrow> string) \<Rightarrow> string \<Rightarrow> string" where
  "hash_key sha k = sha (trim k)"

text \<open>The comparison folds the differences of all bytes and of all keys, without an early exit.\<close>

definition svc_key_match :: "(string \<Rightarrow> string) \<Rightarrow> string list \<Rightarrow> string \<Rightarrow> bool" where
  "svc_key_match sha hashes token =
     (let cand = hash_key sha token in foldl (\<lambda>hit h. hit \<or> byte_diff h cand = 0) False hashes)"

definition svc_context :: "string list \<Rightarrow> auth_context" where
  "svc_context scopes = \<lparr>uid = ''svc:loopback'', extra = [(SVC_SCOPE, JArr (map JStr scopes))]\<rparr>"

subsection \<open>CSRF\<close>

fun trim_start_str :: "nat \<Rightarrow> string \<Rightarrow> string \<Rightarrow> string" where
  "trim_start_str 0 p s = s"
| "trim_start_str (Suc n) p s = (case strip_prefix p s of Some r \<Rightarrow> trim_start_str n p r | None \<Rightarrow> s)"

text \<open>\<open>trim_start_matches(p)\<close>: every round shortens the text, so its length bounds the rounds.\<close>

definition trim_start_matches :: "string \<Rightarrow> string \<Rightarrow> string" where
  "trim_start_matches p s = trim_start_str (length s) p s"

definition strip_port :: "string \<Rightarrow> string" where
  "strip_port h = (case strip_prefix ''['' h of
     Some rest \<Rightarrow> (case split_once (CHR '']'') rest of Some (a, _) \<Rightarrow> CHR ''['' # a | None \<Rightarrow> h)
   | None \<Rightarrow> if length (filter (\<lambda>c. c = CHR '':'') h) = 1 then hd (split_on (CHR '':'') h) else h)"

definition csrf_origin_ok :: "string option \<Rightarrow> string option \<Rightarrow> string list \<Rightarrow> bool" where
  "csrf_origin_ok host origin trusted = (case origin of
     None \<Rightarrow> True
   | Some o' \<Rightarrow> o' \<in> set trusted \<or>
       (let p = trim_start_matches ''http://'' (trim_start_matches ''https://'' o');
            o_host = hd (split_on (CHR ''/'') p)
        in eq_ignore_case (strip_port o_host) (strip_port (unwrap_or [] host))))"

subsection \<open>The provider chain\<close>

text \<open>
  crates/hakobackend-auth-core/src/lib.rs. A provider is its \<open>verify\<close>; opening one by name
  (\<open>open_builtin\<close>) reads the environment and is a parameter of \<open>open_chain\<close>.
\<close>

datatype auth_spec = SpecOff | SpecNamed "string list" | SpecFile string

definition auth_spec_parse :: "string \<Rightarrow> auth_spec" where
  "auth_spec_parse value = (let v = trim value in
     if v = [] \<or> v = ''off'' \<or> v = ''none'' then SpecOff
     else case strip_prefix ''chain:'' v of
       Some rest \<Rightarrow> SpecNamed (filter (\<lambda>s. s \<noteq> []) (map trim (split_on (CHR '','') rest)))
     | None \<Rightarrow> if ends_with ''.toml'' v then SpecFile v else SpecNamed [v])"

record claim_mapping =
  uid_field :: "string option"
  email_field :: "string option"

type_synonym provider = "string \<Rightarrow> claims app_result"

definition claim_field :: "(string, json) dict \<Rightarrow> string option \<Rightarrow> string option" where
  "claim_field ex name = Option.bind name (\<lambda>n. Option.bind (dget ex n) as_str)"

definition to_context :: "claim_mapping \<Rightarrow> claims \<Rightarrow> auth_context" where
  "to_context m c =
     (let u = (case claim_field (c_extra c) (uid_field m) of Some v \<Rightarrow> c_provider c @ '':'' @ v | None \<Rightarrow> namespaced c);
          email = (case claim_field (c_extra c) (email_field m) of Some e \<Rightarrow> Some e | None \<Rightarrow> c_email c);
          ex = dput ''provider'' (JStr (c_provider c)) (ddel ''email'' (ddel ''provider'' (c_extra c)))
      in \<lparr>uid = u, extra = (case email of Some e \<Rightarrow> dput ''email'' (JStr e) ex | None \<Rightarrow> ex)\<rparr>)"

fun chain_resolve :: "claim_mapping \<Rightarrow> provider list \<Rightarrow> string \<Rightarrow> auth_context option" where
  "chain_resolve m [] token = None"
| "chain_resolve m (p # ps) token = (case p token of
     Inr c \<Rightarrow> Some (to_context m c)
   | Inl _ \<Rightarrow> chain_resolve m ps token)"

definition open_chain :: "(string \<Rightarrow> (string, provider) result) \<Rightarrow> auth_spec \<Rightarrow> (string list \<times> claim_mapping) option \<Rightarrow>
    provider option \<Rightarrow> (string, provider list \<times> claim_mapping) result" where
  "open_chain open_builtin spec custom local_p =
     (let plain = \<lparr>uid_field = None, email_field = None\<rparr>;
          build = (\<lambda>names m.
            if ''off'' \<in> set names \<or> ''none'' \<in> set names \<or> names = [] then
              Inl ''empty chain - use explicit `off` for no auth''
            else case collect_res (map (\<lambda>n. if n = ''local'' then
                (case local_p of Some p \<Rightarrow> Inr p
                 | None \<Rightarrow> Inl ''provider `local` requires db handle - only the server can open it'')
                else open_builtin n) names) of
              Inl e \<Rightarrow> Inl e | Inr ps \<Rightarrow> Inr (ps, m))
      in case spec of
           SpecOff \<Rightarrow> Inr ([], plain)
         | SpecNamed names \<Rightarrow> build names plain
         | SpecFile _ \<Rightarrow> (case custom of None \<Rightarrow> Inl ''File spec requires loaded CustomAuth'' | Some (names, m) \<Rightarrow> build names m))"

subsection \<open>The middleware\<close>

record edge_request =
  er_authorization :: "string option"
  er_cookie :: "string option"
  er_host :: "string option"
  er_origin :: "string option"
  er_dpop :: "string option"
  er_method :: string
  er_path :: string
  er_loopback :: bool

record edge =
  ed_hashes :: "string list"
  ed_scopes :: "string list"
  ed_tls :: bool
  ed_csrf_check :: bool
  ed_cors_allowed :: "string list"
  ed_local_mode :: "dpop_mode option"
  ed_bound_jkt :: "string \<Rightarrow> string option app_result"
  ed_resolve :: "string \<Rightarrow> auth_context option"
  ed_sha :: "string \<Rightarrow> string"
  ed_from_slice :: "string \<Rightarrow> json option"
  ed_proofs :: proof_lib

record edge_state =
  es_cache :: token_cache
  es_replay :: replay_cache

definition state_changing :: "string \<Rightarrow> bool" where
  "state_changing m \<longleftrightarrow> m \<in> {''POST'', ''PUT'', ''PATCH'', ''DELETE''}"

definition request_token :: "edge_request \<Rightarrow> string option" where
  "request_token r = (case bearer (er_authorization r) of
     Some t \<Rightarrow> Some t | None \<Rightarrow> read_cookie (er_cookie r) ACCESS_COOKIE)"

definition service_call :: "edge \<Rightarrow> edge_request \<Rightarrow> bool" where
  "service_call e r \<longleftrightarrow> (case request_token r of
     Some t \<Rightarrow> ed_hashes e \<noteq> [] \<and> er_loopback r \<and> svc_key_match (ed_sha e) (ed_hashes e) t
   | None \<Rightarrow> False)"

definition csrf_gate :: "edge \<Rightarrow> edge_request \<Rightarrow> auth_context option \<Rightarrow> auth_context option" where
  "csrf_gate e r ctx =
     (if ed_csrf_check e \<and> read_cookie (er_cookie r) ACCESS_COOKIE \<noteq> None \<and> ctx \<noteq> None \<and> state_changing (er_method r)
         \<and> \<not> csrf_origin_ok (er_host r) (er_origin r) (ed_cors_allowed e)
      then None else ctx)"

definition auth_mw :: "edge \<Rightarrow> nat \<Rightarrow> instant \<Rightarrow> edge_request \<Rightarrow> edge_state \<Rightarrow> auth_context option \<times> edge_state" where
  "auth_mw e unix now r st =
     (let token = request_token r in
      if service_call e r then (Some (svc_context (ed_scopes e)), st)
      else case token of
        None \<Rightarrow> (None, st)
      | Some t \<Rightarrow>
          (let (ctx, c') = resolve_token (ed_from_slice e) (ed_sha e) unix now (ed_resolve e) t (es_cache st);
               (ctx', rp') = enforce_dpop (ed_proofs e) (ed_local_mode e) (ed_bound_jkt e) unix now (er_dpop r)
                 (er_method r) (base_uri (ed_tls e) (er_host r) (er_path r)) (Some t) ctx (es_replay st)
           in (csrf_gate e r ctx', \<lparr>es_cache = c', es_replay = rp'\<rparr>)))"

subsection \<open>Who gets which identity\<close>

definition ctx_ok :: "auth_context \<Rightarrow> bool" where
  "ctx_ok c \<longleftrightarrow> \<not> starts_with SVC_UID_PREFIX (uid c)"

definition cached_ok :: "token_cache \<Rightarrow> bool" where
  "cached_ok c \<longleftrightarrow> cache_ok c \<and> (\<forall>k e x. tc_entry_of c k = Some e \<longrightarrow> tc_ctx e = Some x \<longrightarrow> ctx_ok x)"

lemma cached_ok_new: "cached_ok token_cache_new"
  by (simp add: cached_ok_def tc_entry_of_def) (simp add: token_cache_new_def)

lemma tc_get_cached: "cached_ok c \<Longrightarrow> cached_ok (snd (tc_get now k c))"
  by (auto simp: cached_ok_def tc_get_ok dest!: tc_get_entry)

lemma tc_get_hit: "cached_ok c \<Longrightarrow> fst (tc_get now k c) = Some (Some x) \<Longrightarrow> ctx_ok x"
  by (auto simp: cached_ok_def tc_get_def Let_def tc_entry_of_def split: option.splits if_splits)

lemma tc_store_cached:
  "cached_ok c \<Longrightarrow> (\<And>x. ctx = Some x \<Longrightarrow> ctx_ok x) \<Longrightarrow> cached_ok (tc_store fs sha unix now tok ctx c)"
  unfolding cached_ok_def tc_store_def
  by (auto simp: tc_put_ok split: option.splits dest!: tc_put_entry split: if_splits)

lemma resolve_token_ok:
  assumes "cached_ok c" "\<And>x. resolve tok = Some x \<Longrightarrow> ctx_ok x"
  shows "cached_ok (snd (resolve_token fs sha unix now resolve tok c))"
    and "fst (resolve_token fs sha unix now resolve tok c) = Some x \<Longrightarrow> ctx_ok x"
proof -
  obtain h c' where g: "tc_get now (sha tok) c = (h, c')" by (cases "tc_get now (sha tok) c")
  have c': "cached_ok c'" using tc_get_cached [OF assms(1), of now "sha tok"] g by simp
  show "cached_ok (snd (resolve_token fs sha unix now resolve tok c))"
    using c' assms(2) g by (cases h) (simp_all add: resolve_token_def Let_def tc_store_cached)
  show "fst (resolve_token fs sha unix now resolve tok c) = Some x \<Longrightarrow> ctx_ok x"
    using tc_get_hit [OF assms(1), of now "sha tok" x] assms(2) [of x] g
    by (cases h) (simp_all add: resolve_token_def Let_def)
qed

lemma starts_with_colon:
  assumes "CHR '':'' \<notin> set p" "starts_with ''svc:'' (p @ '':'' @ v)"
  shows "p = ''svc''"
proof -
  from assms(2) obtain r where "p @ CHR '':'' # v = ''svc'' @ CHR '':'' # r" by (auto simp: starts_with_iff)
  then have "split_once (CHR '':'') (p @ CHR '':'' # v) = Some (''svc'', r)"
    by (simp only: split_once_Some) simp
  moreover have "split_once (CHR '':'') (p @ CHR '':'' # v) = Some (p, v)" using assms(1) by (simp only: split_once_Some) simp
  ultimately show ?thesis by simp
qed

text \<open>The providers name themselves with a fixed word, never \<open>svc\<close>.\<close>

definition provider_ok :: "provider \<Rightarrow> bool" where
  "provider_ok p \<longleftrightarrow> (\<forall>t c. p t = Inr c \<longrightarrow> c_provider c \<in> {''local'', ''github'', ''firebase'', ''oidc''})"

lemma to_context_ok: "c_provider c \<in> {''local'', ''github'', ''firebase'', ''oidc''} \<Longrightarrow> ctx_ok (to_context m c)"
  by (auto simp: ctx_ok_def to_context_def Let_def namespaced_def SVC_UID_PREFIX_def starts_with_def split: option.splits)

lemma chain_resolve_ok: "list_all provider_ok ps \<Longrightarrow> chain_resolve m ps tok = Some x \<Longrightarrow> ctx_ok x"
proof (induction ps)
  case (Cons p ps)
  show ?case
  proof (cases "p tok")
    case (Inl e)
    with Cons show ?thesis by simp
  next
    case (Inr c)
    with Cons.prems have "c_provider c \<in> {''local'', ''github'', ''firebase'', ''oidc''}" "x = to_context m c"
      by (auto simp: provider_ok_def)
    then show ?thesis using to_context_ok by blast
  qed
qed simp

lemma enforce_dpop_keeps:
  "fst (enforce_dpop lib mode bound unix now p m u tok ctx seen) = Some x \<Longrightarrow> ctx = Some x"
  by (auto simp: enforce_dpop_def Let_def split: option.splits if_splits dpop_verdict.splits prod.splits sum.splits)

lemma csrf_gate_keeps: "csrf_gate e r ctx = Some x \<Longrightarrow> ctx = Some x"
  by (auto simp: csrf_gate_def split: if_splits)

fun edge_run :: "edge \<Rightarrow> (nat \<times> instant \<times> edge_request) list \<Rightarrow> edge_state \<Rightarrow> edge_state" where
  "edge_run e [] st = st"
| "edge_run e ((unix, now, r) # rs) st = edge_run e rs (snd (auth_mw e unix now r st))"

definition edge_start :: edge_state where
  "edge_start = \<lparr>es_cache = token_cache_new, es_replay = []\<rparr>"

lemma auth_mw_cached:
  assumes "cached_ok (es_cache st)" "\<And>t x. ed_resolve e t = Some x \<Longrightarrow> ctx_ok x"
  shows "cached_ok (es_cache (snd (auth_mw e unix now r st)))"
  using assms resolve_token_ok(1) [OF assms(1), of "ed_resolve e"]
  by (auto simp: auth_mw_def Let_def case_prod_unfold split: option.splits)

lemma edge_run_cached:
  assumes "cached_ok (es_cache st)" "\<And>t x. ed_resolve e t = Some x \<Longrightarrow> ctx_ok x"
  shows "cached_ok (es_cache (edge_run e rs st))"
  using assms by (induction e rs st rule: edge_run.induct) (auto intro: auth_mw_cached)

lemma auth_mw_identity:
  assumes "cached_ok (es_cache st)" "\<And>t x. ed_resolve e t = Some x \<Longrightarrow> ctx_ok x"
    and "fst (auth_mw e unix now r st) = Some c" "\<not> service_call e r"
  shows "ctx_ok c"
  using assms(3,4) resolve_token_ok(2) [OF assms(1), of "ed_resolve e"] assms(2)
  by (auto simp: auth_mw_def Let_def case_prod_unfold split: option.splits dest!: csrf_gate_keeps enforce_dpop_keeps)

text \<open>The comparison of digests is equality, for digests of one length.\<close>

lemma svc_key_match_iff:
  assumes "\<And>x. length (sha x) = 32" "\<forall>h \<in> set hashes. length h = 32"
  shows "svc_key_match sha hashes t \<longleftrightarrow> sha (trim t) \<in> set hashes"
proof -
  have "byte_diff h (sha (trim t)) = 0 \<longleftrightarrow> h = sha (trim t)" if "h \<in> set hashes" for h
    using assms that by (simp add: byte_diff_zero)
  moreover have "foldl (\<lambda>hit h. hit \<or> P h) b hs \<longleftrightarrow> b \<or> (\<exists>h \<in> set hs. P h)" for b hs and P :: "string \<Rightarrow> bool"
    by (induction hs arbitrary: b) auto
  ultimately show ?thesis by (auto simp: svc_key_match_def hash_key_def Let_def)
qed

text \<open>
  C20. Service identities cannot be forged: after any sequence of requests, whatever they presented
  and whatever the token cache remembers of them, the middleware gives an identity of the service
  namespace only to a local peer that presents one of the configured keys.
\<close>

theorem service_identity_needs_key:
  assumes "list_all provider_ok ps" "ed_resolve e = chain_resolve m ps"
    and "\<forall>x. length (ed_sha e x) = 32" "\<forall>h \<in> set (ed_hashes e). length h = 32"
    and "fst (auth_mw e unix now r (edge_run e rs edge_start)) = Some c" "starts_with SVC_UID_PREFIX (uid c)"
  shows "er_loopback r \<and> (\<exists>t. request_token r = Some t \<and> ed_sha e (trim t) \<in> set (ed_hashes e))"
proof -
  have ok: "ctx_ok x" if "ed_resolve e t = Some x" for t x using chain_resolve_ok [OF assms(1)] assms(2) that by simp
  have "cached_ok (es_cache (edge_run e rs edge_start))"
    by (rule edge_run_cached) (auto simp: edge_start_def cached_ok_new intro: ok)
  then have "\<not> service_call e r \<Longrightarrow> ctx_ok c" by (rule auth_mw_identity [OF _ _ assms(5)]) (auto intro: ok)
  with assms(6) have "service_call e r" by (auto simp: ctx_ok_def)
  then show ?thesis using svc_key_match_iff [of "ed_sha e" "ed_hashes e"] assms(3,4)
    by (auto simp: service_call_def split: option.splits)
qed

subsection \<open>Cross-site requests\<close>

lemma strip_prefix_missing: "c \<in> set p \<Longrightarrow> c \<notin> set s \<Longrightarrow> strip_prefix p s = None"
  by (induction p s rule: strip_prefix.induct) auto

lemma trim_start_none: "strip_prefix p s = None \<Longrightarrow> trim_start_matches p s = s"
  unfolding trim_start_matches_def by (cases "length s") simp_all

lemma trim_start_once: "p \<noteq> [] \<Longrightarrow> strip_prefix p r = None \<Longrightarrow> trim_start_matches p (p @ r) = r"
proof -
  assume p: "p \<noteq> []" "strip_prefix p r = None"
  then obtain n where n: "length (p @ r) = Suc n" by (cases p) auto
  have "trim_start_str n p r = r" using p by (cases n) simp_all
  then show ?thesis unfolding trim_start_matches_def n by simp
qed

text \<open>A host name or IPv4 address, and what may follow it: nothing, or a port.\<close>

definition plain_host :: "string \<Rightarrow> bool" where
  "plain_host h \<longleftrightarrow> h \<noteq> [] \<and> list_all (\<lambda>c. is_alnum c \<or> c = CHR ''-'' \<or> c = CHR ''.'') h"

definition port_suffix :: "string \<Rightarrow> bool" where
  "port_suffix p \<longleftrightarrow> (case p of [] \<Rightarrow> True | c # ds \<Rightarrow> c = CHR '':'' \<and> list_all is_digit ds)"

lemma plain_host_chars: "plain_host h \<Longrightarrow> c \<in> {CHR '':'', CHR ''/'', CHR ''[''} \<Longrightarrow> c \<notin> set h"
  by (auto simp: plain_host_def list_all_iff is_alnum_def is_digit_def ch_def)

lemma port_chars: "port_suffix p \<Longrightarrow> CHR ''/'' \<notin> set p"
  "port_suffix p \<Longrightarrow> p = [] \<or> (\<exists>ds. p = CHR '':'' # ds \<and> CHR '':'' \<notin> set ds)"
  by (auto simp: port_suffix_def list_all_iff is_digit_def ch_def split: list.splits)

lemma strip_port_plain:
  assumes "plain_host h" "port_suffix p"
  shows "strip_port (h @ p) = h"
proof -
  obtain c t where h: "h = c # t" using assms(1) by (cases h) (auto simp: plain_host_def)
  have n: "CHR '':'' \<notin> set h" "c \<noteq> CHR ''[''" using plain_host_chars [OF assms(1)] h by auto
  have none: "strip_prefix ''['' (h @ p) = None" using h n by simp
  have f: "filter (\<lambda>c. c = CHR '':'') h = []" using n by (auto simp: filter_empty_conv)
  from port_chars(2) [OF assms(2)] show ?thesis
  proof (elim disjE exE conjE)
    assume "p = []"
    then show ?thesis using none f by (simp add: strip_port_def)
  next
    fix ds
    assume ds: "p = CHR '':'' # ds" "CHR '':'' \<notin> set ds"
    then have "filter (\<lambda>c. c = CHR '':'') (h @ p) = [CHR '':'']" using f by (auto simp: filter_empty_conv)
    moreover have "hd (split_on (CHR '':'') (h @ p)) = h" using split_on_append_sep [OF n(1)] ds(1) by simp
    ultimately show ?thesis unfolding strip_port_def none by simp
  qed
qed

lemma csrf_origin_plain:
  assumes "plain_host a" "port_suffix pa" "plain_host b" "port_suffix pb" "scheme \<in> {''http://'', ''https://''}"
    and "scheme @ b @ pb \<notin> set trusted"
  shows "csrf_origin_ok (Some (a @ pa)) (Some (scheme @ b @ pb)) trusted \<longleftrightarrow> eq_ignore_case b a"
proof -
  let ?r = "b @ pb"
  have slash: "CHR ''/'' \<notin> set ?r" using plain_host_chars [OF assms(3)] port_chars(1) [OF assms(4)] by auto
  then have none: "strip_prefix ''http://'' ?r = None" "strip_prefix ''https://'' ?r = None"
    by (auto intro!: strip_prefix_missing [of "CHR ''/''"])
  have "trim_start_matches ''http://'' (trim_start_matches ''https://'' (scheme @ ?r)) = ?r"
  proof (cases "scheme = ''https://''")
    case True
    then show ?thesis using trim_start_once [OF _ none(2)] trim_start_none [OF none(1)] by simp
  next
    case False
    then have "scheme = ''http://''" using assms(5) by simp
    moreover have "strip_prefix ''https://'' (''http://'' @ ?r) = None" by simp
    ultimately show ?thesis using trim_start_none trim_start_once [OF _ none(1)] by simp
  qed
  moreover have "hd (split_on (CHR ''/'') ?r) = ?r" using split_on_no_sep [OF slash] by simp
  ultimately show ?thesis
    using assms strip_port_plain [OF assms(1,2)] strip_port_plain [OF assms(3,4)]
    by (simp add: csrf_origin_ok_def Let_def del: append_assoc)
qed

text \<open>
  C34. A page of another site cannot act through the access cookie: a state-changing request that
  carries the cookie and names an origin whose host differs from the request's, whatever the
  schemes and ports, is anonymous, unless that origin is allowlisted or it is a service call.
\<close>

theorem cross_site_is_anonymous:
  assumes "ed_csrf_check e" "read_cookie (er_cookie r) ACCESS_COOKIE = Some t" "state_changing (er_method r)"
    and "er_host r = Some (a @ pa)" "er_origin r = Some (scheme @ b @ pb)"
    and "plain_host a" "port_suffix pa" "plain_host b" "port_suffix pb" "scheme \<in> {''http://'', ''https://''}"
    and "\<not> eq_ignore_case b a" "scheme @ b @ pb \<notin> set (ed_cors_allowed e)" "\<not> service_call e r"
  shows "fst (auth_mw e unix now r st) = None"
proof -
  have "\<not> csrf_origin_ok (er_host r) (er_origin r) (ed_cors_allowed e)"
    using csrf_origin_plain [OF assms(6-10,12)] assms(4,5,11) by simp
  then have "csrf_gate e r ctx = None" for ctx using assms(1-3) by (simp add: csrf_gate_def)
  with assms(13) show ?thesis by (auto simp: auth_mw_def Let_def case_prod_unfold split: option.splits)
qed

subsection \<open>Concrete requests\<close>

definition demo_edge :: edge where
  "demo_edge = \<lparr>ed_hashes = [replicate 32 (CHR ''a'')], ed_scopes = [''posts''], ed_tls = True, ed_csrf_check = True,
     ed_cors_allowed = [], ed_local_mode = None, ed_bound_jkt = (\<lambda>_. Inr None),
     ed_resolve = chain_resolve \<lparr>uid_field = None, email_field = None\<rparr> [], ed_sha = (\<lambda>_. replicate 32 (CHR ''a'')),
     ed_from_slice = (\<lambda>_. None), ed_proofs = demo_proofs\<rparr>"

definition demo_call :: edge_request where
  "demo_call = \<lparr>er_authorization = Some ''Bearer key'', er_cookie = None, er_host = Some ''api.example:3000'',
     er_origin = None, er_dpop = None, er_method = ''GET'', er_path = ''/'', er_loopback = True\<rparr>"

definition cross_call :: edge_request where
  "cross_call = demo_call\<lparr>er_authorization := None, er_cookie := Some ''__Host-ub_at=t'',
     er_origin := Some ''https://evil.example'', er_method := ''POST'', er_loopback := False\<rparr>"

lemma service_identity_needs_key_witness:
  "er_loopback demo_call \<and> fst (auth_mw demo_edge 0 0 demo_call (edge_run demo_edge [(0, 0, cross_call)] edge_start)) = Some (svc_context [''posts''])"
proof -
  let ?st = "edge_run demo_edge [(0, 0, cross_call)] edge_start"
  have "svc_key_match (ed_sha demo_edge) (ed_hashes demo_edge) ''key''"
    by (subst svc_key_match_iff) (simp_all add: demo_edge_def)
  then have k: "service_call demo_edge demo_call"
    by (simp add: service_call_def request_token_def bearer_def demo_call_def) (simp add: demo_edge_def)
  then have e: "fst (auth_mw demo_edge 0 0 demo_call ?st) = Some (svc_context [''posts''])"
    by (simp add: auth_mw_def Let_def) (simp add: demo_edge_def)
  from service_identity_needs_key [of "[]" demo_edge "\<lparr>uid_field = None, email_field = None\<rparr>", OF _ _ _ _ this]
  show ?thesis using e by (simp add: demo_edge_def svc_context_def SVC_UID_PREFIX_def starts_with_def)
qed

lemma cross_site_is_anonymous_witness:
  "fst (auth_mw demo_edge 0 0 cross_call edge_start) = None"
proof (rule cross_site_is_anonymous [where t = "''t''" and a = "''api.example''" and pa = "'':3000''"
      and scheme = "''https://''" and b = "''evil.example''" and pb = "[]"])
  show "read_cookie (er_cookie cross_call) ACCESS_COOKIE = Some ''t''" by code_simp
  show "plain_host ''api.example''" "plain_host ''evil.example''" "port_suffix '':3000''" by code_simp+
  show "\<not> service_call demo_edge cross_call"
    by (simp add: service_call_def cross_call_def split: option.split)
  show "\<not> eq_ignore_case ''evil.example'' ''api.example''" by code_simp
qed (simp_all add: demo_edge_def cross_call_def demo_call_def state_changing_def port_suffix_def)

subsection \<open>Addresses in brackets\<close>

text \<open>
  The IPv6 loopback is listed for \<open>?token=\<close>, but the host is cut at its first colon, which leaves
  a bracket: the alternative never matches.
\<close>

lemma query_token_v6: "\<not> query_token_allowed False (Some (''[::1]'' @ rest))"
  by (simp add: query_token_allowed_def)

text \<open>And the CSRF comparison drops the closing bracket it is documented to keep.\<close>

lemma strip_port_bracket: "strip_port ''[::1]:3000'' = ''[::1''"
  by (simp add: strip_port_def)

end
