(* ===== verification/Realtime.thy ===== *)
theory Realtime
  imports Gateway Throttle
begin

text \<open>
  Subscriptions (\<open>realtime.rs\<close>): the gate and the initial snapshot, and what a subscription does
  with a change from the gateway's bus or a driver feed, a tick of the shared poller, or a lagged
  lane. Tasks and channels are not modelled: a step is one message of one lane, with the state the
  driver has when it is handled, and the receiver of the events is still there.
\<close>

record rt_caps =
  snapshot_docs :: nat
  events_per_sec :: nat
  poll_secs :: nat
  max_conn_docs :: nat

definition MAX_AGG_SCAN_DOCS :: nat where
  "MAX_AGG_SCAN_DOCS = 50000"

definition default_caps :: rt_caps where
  "default_caps = \<lparr>snapshot_docs = 5000, events_per_sec = 200, poll_secs = 2, max_conn_docs = 20000\<rparr>"

record sub_spec =
  sp_collection :: string
  sp_options :: query_options
  sp_group :: bool
  sp_db :: string

record out_event =
  ev_kind :: change_kind
  ev_doc :: "doc option"

fun wire_kind :: "change_kind \<Rightarrow> string" where
  "wire_kind Added = ''add''"
| "wire_kind Changed = ''change''"
| "wire_kind Removed = ''remove''"

definition matches_group :: "string \<Rightarrow> string \<Rightarrow> bool" where
  "matches_group table target \<longleftrightarrow> table = target \<or> ends_with (''/'' @ target) table \<or> ends_with (''_'' @ target) table"

definition matches_full :: "doc \<Rightarrow> query_options \<Rightarrow> bool" where
  "matches_full d q \<longleftrightarrow> doc_matches d (q_filters q) \<and> matches_cursor d q"

definition snapshot_options :: "query_options \<Rightarrow> query_options" where
  "snapshot_options q = default_query\<lparr>q_filters := q_filters q\<rparr>"

subsection \<open>Flood guard\<close>

record rate_gate =
  rg_window :: instant
  rg_count :: nat
  rg_cap :: nat

definition gate_new :: "instant \<Rightarrow> nat \<Rightarrow> rate_gate" where
  "gate_new now cap = \<lparr>rg_window = now, rg_count = 0, rg_cap = cap\<rparr>"

definition gate_observe :: "instant \<Rightarrow> nat \<Rightarrow> rate_gate \<Rightarrow> bool \<times> rate_gate" where
  "gate_observe now n g =
     (let g1 = (if nanos \<le> now - rg_window g then g\<lparr>rg_window := now, rg_count := 0\<rparr> else g);
          g2 = g1\<lparr>rg_count := rg_count g1 + n\<rparr>
      in (rg_cap g2 < rg_count g2, g2))"

subsection \<open>Snapshots and deliveries\<close>

type_synonym snapshot = "(string, doc) dict"

definition NUL :: char where "NUL = CHR 0x00"

definition snap_key :: "string \<Rightarrow> string \<Rightarrow> string" where
  "snap_key coll i = coll @ NUL # i"

definition key_coll :: "string \<Rightarrow> string" where
  "key_coll key = hd (split_on NUL key)"

definition key_id :: "string \<Rightarrow> string" where
  "key_id key = (case split_on NUL key of _ # i # _ \<Rightarrow> i | _ \<Rightarrow> [])"

definition snap_insert :: "string \<Rightarrow> snapshot \<Rightarrow> doc list \<Rightarrow> snapshot" where
  "snap_insert coll snap docs = dextend snap (map (\<lambda>d. (snap_key coll (d_id d), d)) docs)"

definition resync_collection :: "'s driver \<Rightarrow> 's \<Rightarrow> query_options \<Rightarrow> string \<Rightarrow> string \<Rightarrow> snapshot \<Rightarrow> snapshot" where
  "resync_collection db s snap_q bus stored snap = (case db_list db s stored snap_q of
     Inl _ \<Rightarrow> snap
   | Inr docs \<Rightarrow> snap_insert bus (dretain (\<lambda>k _. \<not> starts_with (bus @ [NUL]) k) snap) docs)"

fun transition :: "bool \<Rightarrow> bool \<Rightarrow> change_kind option" where
  "transition False True = Some Added"
| "transition True False = Some Removed"
| "transition True True = Some Changed"
| "transition False False = None"

definition logical_name :: "(string, string) dict \<Rightarrow> string \<Rightarrow> string" where
  "logical_name m stored = unwrap_or stored (dget m stored)"

text \<open>\<open>deliver_in\<close>: the event that is sent, if any.\<close>

definition deliver_in :: "policy_file \<Rightarrow> auth_context option \<Rightarrow> string \<Rightarrow> doc option \<Rightarrow> doc option \<Rightarrow> bool \<Rightarrow> bool \<Rightarrow> out_event list" where
  "deliver_in p auth coll old new old_match new_match = (case transition old_match new_match of
     None \<Rightarrow> []
   | Some kind \<Rightarrow>
       (let d = (if kind = Removed then old else new) in
        if policy_allow p auth coll Get d then [\<lparr>ev_kind = kind, ev_doc = d\<rparr>] else []))"

definition old_matches :: "query_options \<Rightarrow> doc option \<Rightarrow> bool" where
  "old_matches q old \<longleftrightarrow> (case old of Some d \<Rightarrow> matches_full d q | None \<Rightarrow> False)"

definition ingest_change :: "policy_file \<Rightarrow> auth_context option \<Rightarrow> query_options \<Rightarrow> string \<Rightarrow> string \<Rightarrow> change \<Rightarrow> snapshot \<Rightarrow>
    out_event list \<times> snapshot" where
  "ingest_change p auth q coll policy_coll c snap =
     (let key = snap_key coll (ch_id c); old = dget snap key in
      if ch_kind c = Removed then
        (case old of
           Some d \<Rightarrow> (if matches_full d q then deliver_in p auth policy_coll (Some d) None True False else [], ddel key snap)
         | None \<Rightarrow> ([], ddel key snap))
      else
        (case ch_new c of
           None \<Rightarrow> ([], snap)
         | Some d \<Rightarrow>
             (let om = old_matches q old; nm = matches_full d q in
              if map_option d_data old = Some (d_data d) \<and> om = nm then ([], snap)
              else (deliver_in p auth policy_coll old (Some d) om nm, dput key d snap))))"

text \<open>A tick: first what is new or different, then what is missing from it.\<close>

definition diff_entry :: "policy_file \<Rightarrow> auth_context option \<Rightarrow> query_options \<Rightarrow> (string, string) dict \<Rightarrow> snapshot \<Rightarrow>
    string \<times> doc \<Rightarrow> out_event list" where
  "diff_entry p auth q logical_of snap kd =
     (let key = fst kd; d = snd kd; old = dget snap key; om = old_matches q old; nm = matches_full d q in
      if map_option d_data old \<noteq> Some (d_data d) \<or> \<not> om \<or> \<not> nm then
        deliver_in p auth (logical_name logical_of (key_coll key)) old (Some d) om nm
      else [])"

fun diff_missing :: "'s driver \<Rightarrow> 's \<Rightarrow> policy_file \<Rightarrow> auth_context option \<Rightarrow> query_options \<Rightarrow> (string, string) dict \<Rightarrow>
    (string, string) dict \<Rightarrow> (string \<times> doc) list \<Rightarrow> snapshot \<Rightarrow> out_event list \<times> snapshot" where
  "diff_missing db s p auth q logical_of stored_of [] snap = ([], snap)"
| "diff_missing db s p auth q logical_of stored_of ((key, old) # rest) snap =
     (case db_get db s (unwrap_or [] (dget stored_of (key_coll key))) (key_id key) of
        Inr (Some current) \<Rightarrow> diff_missing db s p auth q logical_of stored_of rest (dput key current snap)
      | Inl _ \<Rightarrow> diff_missing db s p auth q logical_of stored_of rest snap
      | Inr None \<Rightarrow>
          (let evs = (if matches_full old q
                then deliver_in p auth (logical_name logical_of (key_coll key)) (Some old) None True False else []);
               (more, snap') = diff_missing db s p auth q logical_of stored_of rest (ddel key snap)
           in (evs @ more, snap')))"

definition apply_diff :: "'s driver \<Rightarrow> 's \<Rightarrow> policy_file \<Rightarrow> auth_context option \<Rightarrow> query_options \<Rightarrow> (string, string) dict \<Rightarrow>
    (string, string) dict \<Rightarrow> (string, doc) dict \<Rightarrow> snapshot \<Rightarrow> out_event list \<times> snapshot" where
  "apply_diff db s p auth q logical_of stored_of fresh snap =
     (let evs = concat (map (diff_entry p auth q logical_of snap) fresh);
          missing = filter (\<lambda>e. dget fresh (fst e) = None) snap;
          (more, snap') = diff_missing db s p auth q logical_of stored_of missing snap
      in (evs @ more, dextend snap' fresh))"

subsection \<open>A subscription\<close>

record subscription =
  sb_policy :: policy_file
  sb_auth :: "auth_context option"
  sb_options :: query_options
  sb_collections :: "string list"
  sb_stored_of :: "(string, string) dict"
  sb_logical_of :: "(string, string) dict"
  sb_caps :: rt_caps
  sb_watch :: bool
  sb_snapshot :: snapshot
  sb_gate :: rate_gate

fun load_snapshot :: "'s driver \<Rightarrow> (string, string) dict \<Rightarrow> query_options \<Rightarrow> string list \<Rightarrow> 's \<Rightarrow> snapshot \<Rightarrow> snapshot app_result \<times> 's" where
  "load_snapshot db stored_of q [] s snap = (Inr snap, s)"
| "load_snapshot db stored_of q (coll # colls) s snap =
     (let st = unwrap_or coll (dget stored_of coll); s1 = snd (db_ensure_collection db s st) in
      case db_list db s1 st q of
        Inl e \<Rightarrow> (Inl e, s1)
      | Inr docs \<Rightarrow> load_snapshot db stored_of q colls s1 (snap_insert coll snap docs))"

definition sub_pairs :: "'s driver \<Rightarrow> 's \<Rightarrow> string \<Rightarrow> sub_spec \<Rightarrow> (string \<times> string) list app_result" where
  "sub_pairs db s dbname sp =
     (let dot = (\<lambda>c. if dbname = ''default'' then c else dbname @ ''.'' @ c) in
      if sp_group sp then
        (case db_list_collections db s of
           Inl e \<Rightarrow> Inl e
         | Inr cs \<Rightarrow> Inr (map (\<lambda>c. (dot c, c)) (filter (\<lambda>c. matches_group c (sp_collection sp)) cs)))
      else Inr [(dot (sp_collection sp), sp_collection sp)])"

definition subscribe :: "'s driver \<Rightarrow> policy_file \<Rightarrow> auth_context option \<Rightarrow> sub_spec \<Rightarrow> rt_caps \<Rightarrow> instant \<Rightarrow> 's \<Rightarrow>
    subscription app_result \<times> 's" where
  "subscribe db p auth sp caps now s =
     (if \<not> valid_collection_path (sp_collection sp) then (Inl (BadRequest ''invalid collection name''), s)
      else let dbname = (if sp_db sp = [] then ''default'' else sp_db sp) in
      if \<not> valid_db_name dbname then (Inl (BadRequest ''invalid db name''), s)
      else let pol = (if dbname = ''default'' then sp_collection sp else dbname @ ''.'' @ sp_collection sp) in
      if \<not> policy_allow p auth pol ListM None then (Inl PermissionDenied, s)
      else case sub_pairs db s dbname sp of
        Inl e \<Rightarrow> (Inl e, s)
      | Inr pairs \<Rightarrow>
          (let pairs' = (if pairs = [] then [(pol, sp_collection sp)] else pairs);
               collections = map fst pairs';
               stored_of = dict_of pairs';
               logical_of = dict_of (map (\<lambda>(b, _). (b, b)) pairs')
           in case load_snapshot db stored_of (snapshot_options (sp_options sp)) collections s [] of
                (Inl e, s') \<Rightarrow> (Inl e, s')
              | (Inr snap, s') \<Rightarrow>
                  if snapshot_docs caps < length snap then
                    (Inl (BadRequest ''collection too large for realtime: narrow with filters''), s')
                  else (Inr \<lparr>sb_policy = p, sb_auth = auth, sb_options = sp_options sp, sb_collections = collections,
                    sb_stored_of = stored_of, sb_logical_of = logical_of, sb_caps = caps,
                    sb_watch = supports_watch (db_capabilities db), sb_snapshot = snap,
                    sb_gate = gate_new now (events_per_sec caps)\<rparr>, s')))"

text \<open>
  The messages of \<open>run_source\<close>: a change on the bus or on a driver feed of a collection, a tick of
  its poller, and the notice that a stream dropped messages. With driver feeds that notice carries
  the key of the stream: the collection, or \<open>bus\0\<close> and the collection for the gateway's bus; with
  pollers nothing is done for it.
\<close>

datatype lane = LaneChange string change | LaneTick string "doc list" | FeedLagged string | PollLagged string

definition sub_stored :: "subscription \<Rightarrow> string \<Rightarrow> string" where
  "sub_stored sb coll = unwrap_or coll (dget (sb_stored_of sb) coll)"

definition sub_resync :: "'s driver \<Rightarrow> 's \<Rightarrow> string \<Rightarrow> subscription \<Rightarrow> subscription" where
  "sub_resync db s coll sb = sb\<lparr>sb_snapshot :=
     resync_collection db s (snapshot_options (sb_options sb)) coll (sub_stored sb coll) (sb_snapshot sb)\<rparr>"

fun sub_step :: "'s driver \<Rightarrow> instant \<Rightarrow> 's \<Rightarrow> lane \<Rightarrow> subscription \<Rightarrow> out_event list \<times> subscription" where
  "sub_step db now s (LaneChange coll c) sb =
     (let (evs, snap) = ingest_change (sb_policy sb) (sb_auth sb) (sb_options sb) coll
            (logical_name (sb_logical_of sb) coll) c (sb_snapshot sb);
          sb1 = sb\<lparr>sb_snapshot := snap\<rparr>
      in if evs = [] then ([], sb1)
         else (let (flood, g) = gate_observe now 1 (sb_gate sb1); sb2 = sb1\<lparr>sb_gate := g\<rparr>
               in (evs, if flood then sub_resync db s coll sb2 else sb2)))"
| "sub_step db now s (LaneTick coll docs) sb =
     (let (evs, snap) = apply_diff db s (sb_policy sb) (sb_auth sb) (sb_options sb) (sb_logical_of sb) (sb_stored_of sb)
            (snap_insert coll [] docs) (sb_snapshot sb);
          (flood, g) = gate_observe now (length evs) (sb_gate sb)
      in (evs, sb\<lparr>sb_snapshot := snap, sb_gate := (if flood then gate_new now (events_per_sec (sb_caps sb)) else g)\<rparr>))"
| "sub_step db now s (FeedLagged coll) sb = ([], sub_resync db s coll sb)"
| "sub_step db now s (PollLagged coll) sb = ([], sb)"

fun sub_feed :: "'s driver \<Rightarrow> (instant \<times> 's \<times> lane) list \<Rightarrow> subscription \<Rightarrow> out_event list \<times> subscription" where
  "sub_feed db [] sb = ([], sb)"
| "sub_feed db ((now, s, l) # ls) sb =
     (let (evs, sb1) = sub_step db now s l sb; (more, sb2) = sub_feed db ls sb1 in (evs @ more, sb2))"

section \<open>What is delivered\<close>

text \<open>The streams of a subscription are those of its collections.\<close>

fun lane_of :: "subscription \<Rightarrow> lane \<Rightarrow> bool" where
  "lane_of sb (LaneChange coll c) \<longleftrightarrow> coll \<in> set (sb_collections sb)"
| "lane_of sb (LaneTick coll docs) \<longleftrightarrow> \<not> sb_watch sb \<and> coll \<in> set (sb_collections sb)"
| "lane_of sb (FeedLagged key) \<longleftrightarrow> sb_watch sb \<and>
     (key \<in> set (sb_collections sb) \<or> key \<in> (\<lambda>c. ''bus'' @ NUL # c) ` set (sb_collections sb))"
| "lane_of sb (PollLagged coll) \<longleftrightarrow> \<not> sb_watch sb"

definition same_source :: "subscription \<Rightarrow> subscription \<Rightarrow> bool" where
  "same_source sb sb' \<longleftrightarrow> sb_policy sb' = sb_policy sb \<and> sb_auth sb' = sb_auth sb \<and> sb_options sb' = sb_options sb
     \<and> sb_collections sb' = sb_collections sb \<and> sb_stored_of sb' = sb_stored_of sb
     \<and> sb_logical_of sb' = sb_logical_of sb \<and> sb_caps sb' = sb_caps sb \<and> sb_watch sb' = sb_watch sb"

lemma sub_step_same: "sub_step db now s l sb = (evs, sb') \<Longrightarrow> same_source sb sb'"
  by (cases l) (auto simp: same_source_def sub_resync_def Let_def split: prod.splits if_splits)

lemma lane_of_same: "same_source sb sb' \<Longrightarrow> lane_of sb' l = lane_of sb l"
  by (cases l) (auto simp: same_source_def)

text \<open>An event may be shown: the policy lets this caller get the document, which matches.\<close>

definition showable :: "policy_file \<Rightarrow> auth_context option \<Rightarrow> query_options \<Rightarrow> string set \<Rightarrow> out_event \<Rightarrow> bool" where
  "showable p auth q colls e \<longleftrightarrow> (\<exists>c d. c \<in> colls \<and> ev_doc e = Some d \<and> matches_full d q \<and> policy_allow p auth c Get (Some d))"

lemma deliver_in_showable:
  assumes "e \<in> set (deliver_in p auth c old new om nm)" "om = old_matches q old" "nm \<longleftrightarrow> (\<exists>d. new = Some d \<and> matches_full d q)" "c \<in> C"
  shows "showable p auth q C e"
  using assms by (auto simp: deliver_in_def showable_def old_matches_def Let_def
      split: option.splits if_splits elim!: transition.elims)

lemma logical_of_pairs: "c \<in> fst ` set ps \<Longrightarrow> logical_name (dict_of (map (\<lambda>(b, _). (b, b)) ps)) c = c"
proof -
  assume "c \<in> fst ` set ps"
  then have "c \<in> fst ` set (rev (map (\<lambda>(b, _). (b, b)) ps))" by force
  then obtain v where v: "map_of (rev (map (\<lambda>(b, _). (b, b)) ps)) c = Some v"
    by (metis (no_types, lifting) map_of_eq_None_iff not_Some_eq)
  then have "(c, v) \<in> set (rev (map (\<lambda>(b, _). (b, b)) ps))" by (rule map_of_SomeD)
  then have "v = c" by auto
  with v show ?thesis by (simp add: logical_name_def dict_of_def dget_dextend)
qed

text \<open>The invariant of a subscription: its names resolve to themselves; a poller's keys are of its collections.\<close>

definition keys_in :: "string set \<Rightarrow> snapshot \<Rightarrow> bool" where
  "keys_in C m \<longleftrightarrow> key_coll ` fst ` set m \<subseteq> C"

definition sub_ok :: "subscription \<Rightarrow> bool" where
  "sub_ok sb \<longleftrightarrow> (\<forall>c \<in> set (sb_collections sb). logical_name (sb_logical_of sb) c = c \<and> NUL \<notin> set c)
     \<and> (sb_watch sb \<or> keys_in (set (sb_collections sb)) (sb_snapshot sb))"

lemma key_coll_snap_key [simp]: "NUL \<notin> set c \<Longrightarrow> key_coll (snap_key c i) = c"
  by (simp add: key_coll_def snap_key_def split_on_append_sep)

lemma key_id_snap_key [simp]: "NUL \<notin> set c \<Longrightarrow> NUL \<notin> set i \<Longrightarrow> key_id (snap_key c i) = i"
  by (simp add: key_id_def snap_key_def split_on_append_sep split_on_no_sep)

lemma keys_in_dput: "keys_in C m \<Longrightarrow> key_coll k \<in> C \<Longrightarrow> keys_in C (dput k d m)"
  by (simp add: keys_in_def fst_set_dput)

lemma keys_in_filter: "keys_in C m \<Longrightarrow> keys_in C (filter P m)"
  by (auto simp: keys_in_def)

lemma keys_in_dextend: "keys_in C m \<Longrightarrow> keys_in C kvs \<Longrightarrow> keys_in C (dextend m kvs)"
proof (induction kvs arbitrary: m)
  case (Cons kv kvs)
  then show ?case by (cases kv) (auto simp: dextend_Cons keys_in_def fst_set_dput)
qed simp

lemma keys_in_snap_insert:
  "keys_in C m \<Longrightarrow> c \<in> C \<Longrightarrow> NUL \<notin> set c \<Longrightarrow> keys_in C (snap_insert c m docs)"
  unfolding snap_insert_def by (rule keys_in_dextend) (auto simp: keys_in_def)

lemmas keys_in_intros = keys_in_dput keys_in_filter keys_in_dextend keys_in_snap_insert

lemma ingest_showable:
  assumes "ingest_change p auth q coll c chg snap = (evs, snap')" "c \<in> C" "e \<in> set evs"
  shows "showable p auth q C e"
proof -
  have d: "\<And>old new om nm. evs = deliver_in p auth c old new om nm \<Longrightarrow> om = old_matches q old \<Longrightarrow>
      nm = (\<exists>d. new = Some d \<and> matches_full d q) \<Longrightarrow> ?thesis"
    using deliver_in_showable assms(2,3) by blast
  show ?thesis
    using assms(1,3)
    by (auto simp: ingest_change_def Let_def old_matches_def split: if_splits option.splits intro!: d)
qed

lemma ingest_keys:
  assumes "ingest_change p auth q coll c chg snap = (evs, snap')" "keys_in C snap" "coll \<in> C" "NUL \<notin> set coll"
  shows "keys_in C snap'"
  using assms by (auto simp: ingest_change_def Let_def ddel_def split: if_splits option.splits
      intro!: keys_in_intros)

lemma diff_entry_showable:
  assumes "e \<in> set (diff_entry p auth q lo snap (k, d))" "logical_name lo (key_coll k) \<in> C"
  shows "showable p auth q C e"
  using assms by (auto simp: diff_entry_def Let_def split: if_splits intro: deliver_in_showable)

lemma diff_missing_showable:
  assumes "diff_missing db s p auth q lo st ms snap = (evs, snap')" "\<forall>c \<in> C. logical_name lo c = c" "keys_in C ms"
  shows "(keys_in C snap \<longrightarrow> keys_in C snap') \<and> (\<forall>e \<in> set evs. showable p auth q C e)"
  using assms
proof (induction db s p auth q lo st ms snap arbitrary: evs snap' rule: diff_missing.induct)
  case (2 db s p auth q lo st key old rest snap)
  have k: "key_coll key \<in> C" "keys_in C rest" using "2.prems"(3) by (auto simp: keys_in_def)
  show ?case
    using "2.IH" "2.prems"(1,2) k
    by (auto 4 3 simp: ddel_def Let_def old_matches_def keys_in_dput split: sum.splits option.splits prod.splits if_splits
        intro: keys_in_intros dest: deliver_in_showable)
qed simp

lemma apply_diff_showable:
  assumes "apply_diff db s p auth q lo st fresh snap = (evs, snap')" "\<forall>c \<in> C. logical_name lo c = c"
    "keys_in C snap" "keys_in C fresh"
  shows "keys_in C snap'" "\<forall>e \<in> set evs. showable p auth q C e"
proof -
  obtain more m where m: "diff_missing db s p auth q lo st (filter (\<lambda>e. dget fresh (fst e) = None) snap) snap = (more, m)"
    by force
  have *: "keys_in C m" "\<forall>e \<in> set more. showable p auth q C e"
    using diff_missing_showable [OF m assms(2)] assms(3) by (auto intro: keys_in_intros)
  have e: "showable p auth q C e" if "e \<in> set (diff_entry p auth q lo snap x)" "x \<in> set fresh" for e x
    using diff_entry_showable [of e p auth q lo snap "fst x" "snd x" C] that assms(2,4)
    by (force simp: keys_in_def)
  show "keys_in C snap'" using assms(1,4) * m by (auto simp: apply_diff_def Let_def intro: keys_in_intros)
  show "\<forall>e \<in> set evs. showable p auth q C e" using assms(1) * m e by (auto simp: apply_diff_def Let_def)
qed

lemma sub_step_showable:
  assumes "sub_step db now s l sb = (evs, sb')" "sub_ok sb" "lane_of sb l"
  shows "sub_ok sb' \<and> (\<forall>e \<in> set evs. showable (sb_policy sb) (sb_auth sb) (sb_options sb) (set (sb_collections sb)) e)"
proof -
  have C: "\<forall>c \<in> set (sb_collections sb). logical_name (sb_logical_of sb) c = c \<and> NUL \<notin> set c"
    and K: "sb_watch sb \<or> keys_in (set (sb_collections sb)) (sb_snapshot sb)"
    using assms(2) by (auto simp: sub_ok_def)
  have R: "keys_in (set (sb_collections sb)) (sb_snapshot (sub_resync db s c sb1))"
    if "keys_in (set (sb_collections sb)) (sb_snapshot sb1)" "c \<in> set (sb_collections sb)" for c sb1
    using that C by (auto simp: sub_resync_def resync_collection_def dretain_def split: sum.split intro!: keys_in_intros)
  show ?thesis
  proof (cases l)
    case (LaneChange coll c)
    then have c: "coll \<in> set (sb_collections sb)" using assms(3) by simp
    obtain e1 m where i: "ingest_change (sb_policy sb) (sb_auth sb) (sb_options sb) coll
        (logical_name (sb_logical_of sb) coll) c (sb_snapshot sb) = (e1, m)" by force
    have E: "\<forall>e \<in> set e1. showable (sb_policy sb) (sb_auth sb) (sb_options sb) (set (sb_collections sb)) e"
      using ingest_showable [OF i, of "set (sb_collections sb)"] C c by auto
    have M: "sb_watch sb \<or> keys_in (set (sb_collections sb)) m" using ingest_keys [OF i _ c] C c K by auto
    have S: "same_source sb sb'" by (rule sub_step_same [OF assms(1)])
    have "sb_watch sb \<or> keys_in (set (sb_collections sb)) (sb_snapshot sb')"
      using assms(1) M R [OF _ c] LaneChange i by (auto simp: Let_def split: if_splits prod.splits)
    moreover have "evs = e1" using assms(1) LaneChange i by (auto simp: Let_def split: if_splits prod.splits)
    ultimately show ?thesis using E S C by (auto simp: sub_ok_def same_source_def)
  next
    case (LaneTick coll docs)
    then have c: "coll \<in> set (sb_collections sb)" "\<not> sb_watch sb" using assms(3) by auto
    have f: "keys_in (set (sb_collections sb)) (snap_insert coll [] docs)"
      using C c by (intro keys_in_snap_insert) (auto simp: keys_in_def)
    obtain e1 m where d: "apply_diff db s (sb_policy sb) (sb_auth sb) (sb_options sb) (sb_logical_of sb) (sb_stored_of sb)
        (snap_insert coll [] docs) (sb_snapshot sb) = (e1, m)" by force
    have "evs = e1" "sb_snapshot sb' = m"
      using assms(1) LaneTick d by (auto simp: Let_def split: prod.splits)
    then show ?thesis
      using apply_diff_showable [OF d _ _ f] C K c sub_step_same [OF assms(1)]
      by (auto simp: sub_ok_def same_source_def)
  next
    case (FeedLagged key)
    then show ?thesis using assms by (auto simp: sub_ok_def sub_resync_def)
  next
    case (PollLagged coll)
    then show ?thesis using assms by auto
  qed
qed

lemma sub_feed_showable:
  assumes "sub_feed db ls sb = (evs, sb')" "sub_ok sb" "\<forall>(now, s, l) \<in> set ls. lane_of sb l"
  shows "\<forall>e \<in> set evs. showable (sb_policy sb) (sb_auth sb) (sb_options sb) (set (sb_collections sb)) e"
  using assms
proof (induction db ls sb arbitrary: evs sb' rule: sub_feed.induct)
  case (2 db now s l ls sb)
  obtain e1 sb1 e2 where s: "sub_step db now s l sb = (e1, sb1)" "sub_feed db ls sb1 = (e2, sb')" "evs = e1 @ e2"
    using "2.prems"(1) by (auto simp: Let_def split: prod.splits)
  have S: "same_source sb sb1" by (rule sub_step_same [OF s(1)])
  have ok: "sub_ok sb1" "\<forall>e \<in> set e1. showable (sb_policy sb) (sb_auth sb) (sb_options sb) (set (sb_collections sb)) e"
    using sub_step_showable [OF s(1) "2.prems"(2)] "2.prems"(3) by auto
  have "\<forall>e \<in> set e2. showable (sb_policy sb1) (sb_auth sb1) (sb_options sb1) (set (sb_collections sb1)) e"
    using "2.prems"(3) lane_of_same [OF S] by (intro "2.IH" [OF s(1) [symmetric] refl s(2) ok(1)]) auto
  then show ?case using ok(2) S s(3) by (auto simp: same_source_def)
qed simp

lemma load_snapshot_keys:
  assumes "load_snapshot db st q colls s snap = (Inr m, s')" "keys_in C snap" "set colls \<subseteq> C" "\<forall>c \<in> C. NUL \<notin> set c"
  shows "keys_in C m"
  using assms
proof (induction db st q colls s snap arbitrary: m s' rule: load_snapshot.induct)
  case (2 db st q coll colls s snap)
  have "keys_in C (snap_insert coll snap docs)" for docs
    using "2.prems"(2-4) by (intro keys_in_snap_insert) auto
  then show ?case
    using "2.IH" [OF refl refl] "2.prems" by (auto simp: Let_def split: sum.splits)
qed simp

lemma name_char_NUL: "\<not> name_char NUL"
  using name_char_code [of NUL] by (auto simp: NUL_def ch_def)

lemma valid_path_NUL: "valid_collection_path c \<Longrightarrow> NUL \<notin> set c"
  using valid_path_chars [of c NUL] name_char_NUL by (auto simp: NUL_def)

lemma valid_db_NUL: "valid_db_name n \<Longrightarrow> NUL \<notin> set n"
  using valid_db_chars name_char_NUL by blast

lemma dotted_NUL: "NUL \<notin> set n \<Longrightarrow> NUL \<notin> set c \<Longrightarrow> NUL \<notin> set (dotted n c)"
  by (simp add: dotted_def NUL_def)

definition sub_db :: "sub_spec \<Rightarrow> string" where
  "sub_db sp = (if sp_db sp = [] then ''default'' else sp_db sp)"

lemma sub_pairs_fst:
  "sub_pairs db s n sp = Inr ps \<Longrightarrow> \<forall>c \<in> fst ` set ps. \<exists>x. c = dotted n x \<and> (if sp_group sp
     then matches_group x (sp_collection sp) \<and> (\<exists>cs. db_list_collections db s = Inr cs \<and> x \<in> set cs) else x = sp_collection sp)"
  by (auto simp: sub_pairs_def dotted_def split: sum.splits if_splits)

lemma subscribe_ok:
  assumes "subscribe db p auth sp caps now s = (Inr sb, s')"
    "\<forall>cs. db_list_collections db s = Inr cs \<longrightarrow> (\<forall>c \<in> set cs. NUL \<notin> set c)"
  shows "sub_ok sb" "sb_policy sb = p" "sb_auth sb = auth" "sb_options sb = sp_options sp"
    "policy_allow p auth (dotted (sub_db sp) (sp_collection sp)) ListM None"
    "length (sb_snapshot sb) \<le> snapshot_docs caps"
    "\<forall>c \<in> set (sb_collections sb). c = dotted (sub_db sp) (sp_collection sp) \<or>
       sp_group sp \<and> (\<exists>x. c = dotted (sub_db sp) x \<and> matches_group x (sp_collection sp))"
proof -
  let ?n = "sub_db sp" let ?pol = "dotted ?n (sp_collection sp)"
  obtain ps where v: "valid_collection_path (sp_collection sp)" "valid_db_name ?n" "policy_allow p auth ?pol ListM None"
    and ps: "sub_pairs db s ?n sp = Inr ps"
    using assms(1) by (auto simp: subscribe_def sub_db_def dotted_def Let_def split: if_splits sum.splits)
  define ps' where "ps' = (if ps = [] then [(?pol, sp_collection sp)] else ps)"
  obtain m where m: "load_snapshot db (dict_of ps') (snapshot_options (sp_options sp)) (map fst ps') s [] = (Inr m, s')"
    and l: "\<not> snapshot_docs caps < length m"
    and sb: "sb = \<lparr>sb_policy = p, sb_auth = auth, sb_options = sp_options sp, sb_collections = map fst ps',
        sb_stored_of = dict_of ps', sb_logical_of = dict_of (map (\<lambda>(b, _). (b, b)) ps'), sb_caps = caps,
        sb_watch = supports_watch (db_capabilities db), sb_snapshot = m, sb_gate = gate_new now (events_per_sec caps)\<rparr>"
    using assms(1) v ps
    by (auto simp: subscribe_def sub_db_def dotted_def Let_def ps'_def split: if_splits sum.splits prod.splits)
  have cs: "\<forall>c \<in> fst ` set ps'. c = ?pol \<or> sp_group sp \<and> (\<exists>x. c = dotted ?n x \<and> matches_group x (sp_collection sp)
      \<and> (\<exists>cs. db_list_collections db s = Inr cs \<and> x \<in> set cs))"
    using sub_pairs_fst [OF ps] by (cases "ps = []"; cases "sp_group sp") (fastforce simp: ps'_def)+
  have N: "\<forall>c \<in> fst ` set ps'. NUL \<notin> set c"
    using bspec [OF cs] valid_path_NUL [OF v(1)] valid_db_NUL [OF v(2)] assms(2) by (metis dotted_NUL)
  have "keys_in (fst ` set ps') m"
    using N by (intro load_snapshot_keys [OF m]) (auto simp: keys_in_def)
  then show "sub_ok sb" using N logical_of_pairs [of _ ps'] by (auto simp: sb sub_ok_def)
  show "\<forall>c \<in> set (sb_collections sb). c = ?pol \<or> sp_group sp \<and> (\<exists>x. c = dotted ?n x \<and> matches_group x (sp_collection sp))"
    using cs by (auto simp: sb)
  show "policy_allow p auth ?pol ListM None" by (rule v)
qed (use assms(1) in \<open>auto simp: subscribe_def Let_def split: if_splits sum.splits prod.splits\<close>)

text \<open>
  C4. What a subscriber is sent. A subscription opens only if the policy lets the caller list the
  name it asks for, and its snapshot fits the cap. Whatever its lanes deliver later, in any order and
  over any states of the driver, every event shows a document that matches the whole query, of one
  of the collections of the subscription (the one asked for, or one its group stands for), and that
  the policy lets this caller get.
\<close>

theorem deliveries_are_permitted:
  assumes sub: "subscribe db p auth sp caps now s = (Inr sb, s')"
    and names: "\<forall>cs. db_list_collections db s = Inr cs \<longrightarrow> (\<forall>c \<in> set cs. NUL \<notin> set c)"
    and ls: "\<forall>(t, st, l) \<in> set ls. lane_of sb l"
  shows "policy_allow p auth (dotted (sub_db sp) (sp_collection sp)) ListM None
    \<and> length (sb_snapshot sb) \<le> snapshot_docs caps
    \<and> (\<forall>e \<in> set (fst (sub_feed db ls sb)). \<exists>x d. (x = sp_collection sp \<or> sp_group sp \<and> matches_group x (sp_collection sp))
        \<and> ev_doc e = Some d \<and> matches_full d (sp_options sp)
        \<and> policy_allow p auth (dotted (sub_db sp) x) Get (Some d))"
proof -
  note o = subscribe_ok [OF sub names]
  have "\<forall>e \<in> set (fst (sub_feed db ls sb)). showable p auth (sp_options sp) (set (sb_collections sb)) e"
    using sub_feed_showable [OF prod.collapse [symmetric] o(1) ls] o(2-4) by simp
  then have "\<exists>x d. (x = sp_collection sp \<or> sp_group sp \<and> matches_group x (sp_collection sp))
        \<and> ev_doc e = Some d \<and> matches_full d (sp_options sp) \<and> policy_allow p auth (dotted (sub_db sp) x) Get (Some d)"
    if "e \<in> set (fst (sub_feed db ls sb))" for e
    using that bspec [OF o(7)] unfolding showable_def by metis
  with o(5,6) show ?thesis by blast
qed

definition demo_sub :: "bool \<Rightarrow> sub_spec" where
  "demo_sub g = \<lparr>sp_collection = ''ev'', sp_options = default_query, sp_group = g, sp_db = []\<rparr>"

definition demo_event :: "string \<Rightarrow> json \<Rightarrow> doc" where
  "demo_event i n = \<lparr>d_id = i, d_data = [(''n'', n)]\<rparr>"

definition demo_change :: "string \<Rightarrow> json \<Rightarrow> change" where
  "demo_change i n = \<lparr>ch_collection = ''ev'', ch_id = i, ch_kind = Changed, ch_old = None, ch_new = Some (demo_event i n)\<rparr>"

definition demo_caps :: rt_caps where
  "demo_caps = \<lparr>snapshot_docs = 5, events_per_sec = 9, poll_secs = 2, max_conn_docs = 5\<rparr>"

definition demo_sb :: "bool \<Rightarrow> snapshot \<Rightarrow> subscription" where
  "demo_sb g snap = \<lparr>sb_policy = policy_open, sb_auth = None, sb_options = default_query, sb_collections = [''ev''],
     sb_stored_of = [(''ev'', ''ev'')], sb_logical_of = [(''ev'', ''ev'')], sb_caps = demo_caps, sb_watch = False,
     sb_snapshot = snap, sb_gate = gate_new 0 9\<rparr>"

lemma demo_subscribe: "subscribe (mem_driver 1) policy_open None (demo_sub False) demo_caps 0 mem_new = (Inr (demo_sb False []), mem_new)"
  by code_simp

lemma demo_ingest: "ingest_change policy_open None default_query ''ev'' ''ev'' (demo_change ''a'' (JBool True)) [] =
    ([\<lparr>ev_kind = Added, ev_doc = Some (demo_event ''a'' (JBool True))\<rparr>], [(snap_key ''ev'' ''a'', demo_event ''a'' (JBool True))])"
  by code_simp

lemma demo_logical: "logical_name [(''ev'', ''ev'')] ''ev'' = ''ev''"
  by (simp add: logical_name_def)

lemma deliveries_are_permitted_witness:
  "\<exists>e. fst (sub_feed (mem_driver 1) [(0, mem_new, LaneChange ''ev'' (demo_change ''a'' (JBool True)))] (demo_sb False [])) = [e]
    \<and> (\<exists>d. ev_doc e = Some d \<and> policy_allow policy_open None ''ev'' Get (Some d))"
  using deliveries_are_permitted [OF demo_subscribe, of "[(0, mem_new, LaneChange ''ev'' (demo_change ''a'' (JBool True)))]"]
  by (auto simp: demo_sb_def demo_ingest demo_logical gate_observe_def gate_new_def Let_def demo_sub_def dotted_def sub_db_def
      mem_driver_def mem_list_collections_def mem_new_def dkeys_def)

section \<open>The client's copy of a collection\<close>

text \<open>A client keeps the documents it was shown: the specification a subscription is held to.\<close>

definition client_apply :: "out_event \<Rightarrow> (string \<Rightarrow> doc option) \<Rightarrow> string \<Rightarrow> doc option" where
  "client_apply e v = (case ev_doc e of None \<Rightarrow> v | Some d \<Rightarrow> v(d_id d := if ev_kind e = Removed then None else Some d))"

definition matched :: "query_options \<Rightarrow> doc option \<Rightarrow> doc option" where
  "matched q x = (case x of None \<Rightarrow> None | Some d \<Rightarrow> if matches_full d q then Some d else None)"

definition shown :: "query_options \<Rightarrow> string \<Rightarrow> snapshot \<Rightarrow> string \<Rightarrow> doc option" where
  "shown q coll snap i = matched q (dget snap (snap_key coll i))"

definition snap_ok :: "string \<Rightarrow> snapshot \<Rightarrow> bool" where
  "snap_ok coll snap \<longleftrightarrow> dict_ok snap
     \<and> (\<forall>k d. dget snap k = Some d \<longrightarrow> k = snap_key coll (d_id d) \<and> NUL \<notin> set (d_id d))"

definition may_get :: "policy_file \<Rightarrow> auth_context option \<Rightarrow> string \<Rightarrow> bool" where
  "may_get p auth coll \<longleftrightarrow> (\<forall>d. policy_allow p auth coll Get (Some d))"

lemma snap_key_inj [simp]: "snap_key c i = snap_key c j \<longleftrightarrow> i = j"
  by (simp add: snap_key_def)

lemma snap_ok_id: "snap_ok coll snap \<Longrightarrow> dget snap (snap_key coll i) = Some d \<Longrightarrow> d_id d = i"
  unfolding snap_ok_def by (metis snap_key_inj)

lemma snap_ok_dput: "snap_ok coll snap \<Longrightarrow> NUL \<notin> set (d_id d) \<Longrightarrow> snap_ok coll (dput (snap_key coll (d_id d)) d snap)"
  by (auto simp: snap_ok_def)

lemma snap_ok_ddel: "snap_ok coll snap \<Longrightarrow> snap_ok coll (ddel k snap)"
  by (auto simp: snap_ok_def)

lemma deliver_in_shown:
  assumes "may_get p auth coll" "om = old_matches q old" "nm = old_matches q new"
    "\<And>d. new = Some d \<Longrightarrow> d_id d = i" "\<And>d. old = Some d \<Longrightarrow> d_id d = i"
    "v i = matched q old"
  shows "fold client_apply (deliver_in p auth coll old new om nm) v = v(i := matched q new)"
  using assms
  by (cases "old_matches q old"; cases "old_matches q new")
    (auto simp: deliver_in_def client_apply_def may_get_def old_matches_def matched_def fun_eq_iff split: option.splits)

lemma ingest_shown:
  assumes i: "ingest_change p auth q coll coll c snap = (evs, snap')" and g: "may_get p auth coll" and s: "snap_ok coll snap"
    and c: "\<And>d. ch_new c = Some d \<Longrightarrow> d_id d = ch_id c" "NUL \<notin> set (ch_id c)"
  shows "snap_ok coll snap' \<and> fold client_apply evs (shown q coll snap) = shown q coll snap'"
proof -
  let ?k = "snap_key coll (ch_id c)" let ?old = "dget snap ?k"
  have id: "d_id d = ch_id c" if "?old = Some d" for d using snap_ok_id [OF s that] .
  have d: "fold client_apply (deliver_in p auth coll ?old new om nm) (shown q coll snap) = (shown q coll snap)(ch_id c := matched q new)"
    if "om = old_matches q ?old" "nm = old_matches q new" "\<And>d. new = Some d \<Longrightarrow> d_id d = ch_id c" for new om nm
    using that id by (intro deliver_in_shown [OF g]) (auto simp: shown_def)
  show ?thesis
  proof (cases "ch_kind c = Removed")
    case True
    then show ?thesis using i s d [of True False None]
      by (auto simp: ingest_change_def Let_def old_matches_def shown_def matched_def fun_eq_iff snap_ok_ddel split: option.splits if_splits)
  next
    case False
    show ?thesis
    proof (cases "ch_new c")
      case None
      with False i s show ?thesis by (simp add: ingest_change_def Let_def)
    next
      case (Some x)
      then have x: "d_id x = ch_id c" using c by simp
      have k: "snap_ok coll (dput ?k x snap)" using snap_ok_dput [OF s, of x] x c by simp
      show ?thesis using False Some i s k x c d [of "old_matches q ?old" "matches_full x q" "Some x"]
        by (auto simp: ingest_change_def Let_def old_matches_def shown_def matched_def fun_eq_iff
            split: option.splits if_splits intro: doc.equality)
    qed
  qed
qed

lemma diff_entries_shown:
  assumes "may_get p auth coll" "logical_name lo coll = coll" "NUL \<notin> set coll" "distinct (map fst xs)" "snap_ok coll snap"
    "\<And>k d. (k, d) \<in> set xs \<Longrightarrow> k = snap_key coll (d_id d) \<and> v (d_id d) = shown q coll snap (d_id d)"
  shows "fold client_apply (concat (map (diff_entry p auth q lo snap) xs)) v =
    (\<lambda>i. if dget xs (snap_key coll i) = None then v i else matched q (dget xs (snap_key coll i)))"
  using assms(4,6)
proof (induction xs arbitrary: v)
  case (Cons x xs)
  obtain k d where x: "x = (k, d)" by (cases x)
  have k: "k = snap_key coll (d_id d)" "v (d_id d) = shown q coll snap (d_id d)" using Cons.prems(2) x by auto
  have one: "fold client_apply (diff_entry p auth q lo snap (k, d)) v = v(d_id d := matched q (Some d))"
  proof (cases "map_option d_data (dget snap k) \<noteq> Some (d_data d) \<or> \<not> old_matches q (dget snap k) \<or> \<not> matches_full d q")
    case True
    then show ?thesis using assms(1-3) k snap_ok_id [OF assms(5)]
      by (simp add: diff_entry_def Let_def, intro deliver_in_shown) (auto simp: shown_def old_matches_def)
  next
    case False
    then obtain y where y: "dget snap k = Some y" "d_data y = d_data d" "d_id y = d_id d"
      using k snap_ok_id [OF assms(5)] by auto
    then have "y = d" by (intro doc.equality) auto
    then show ?thesis using False k y(1) by (auto simp: diff_entry_def shown_def matched_def Let_def fun_eq_iff)
  qed
  have n: "dget xs k = None" using Cons.prems(1) x by (auto simp: map_of_eq_None_iff)
  have "j = snap_key coll (d_id e) \<and> (v(d_id d := matched q (Some d))) (d_id e) = shown q coll snap (d_id e)"
    if e: "(j, e) \<in> set xs" for j e
  proof -
    have j: "j = snap_key coll (d_id e)" "v (d_id e) = shown q coll snap (d_id e)" using Cons.prems(2) [of j e] e by auto
    have "j \<in> fst ` set xs" using e by force
    then have "j \<noteq> k" using n by (auto simp: map_of_eq_None_iff)
    with j k(1) show ?thesis by auto
  qed
  then have IH: "fold client_apply (concat (map (diff_entry p auth q lo snap) xs)) (v(d_id d := matched q (Some d))) =
      (\<lambda>i. if dget xs (snap_key coll i) = None then (v(d_id d := matched q (Some d))) i else matched q (dget xs (snap_key coll i)))"
    using Cons.prems(1) x by (intro Cons.IH) auto
  have "fold client_apply (concat (map (diff_entry p auth q lo snap) (x # xs))) v =
      fold client_apply (concat (map (diff_entry p auth q lo snap) xs)) (v(d_id d := matched q (Some d)))"
    by (simp add: x one)
  then show ?case unfolding IH using x k(1) n by (auto simp: fun_eq_iff)
qed simp

lemma diff_missing_shown:
  assumes "diff_missing db s p auth q lo st ms snap = (evs, snap')" "may_get p auth coll" "logical_name lo coll = coll"
    "NUL \<notin> set coll" "snap_ok coll snap" "distinct (map fst ms)"
    "\<forall>(k, d) \<in> set ms. dget snap k = Some d \<and> v (d_id d) = shown q coll snap (d_id d) \<and>
       (\<forall>x. db_get db s (unwrap_or [] (dget st coll)) (d_id d) \<noteq> Inr (Some x))"
  shows "snap_ok coll snap' \<and> (\<forall>i. if snap_key coll i \<in> fst ` set ms then fold client_apply evs v i = shown q coll snap' i
        \<and> (db_get db s (unwrap_or [] (dget st coll)) i = Inr None \<longrightarrow> dget snap' (snap_key coll i) = None)
      else fold client_apply evs v i = v i \<and> dget snap' (snap_key coll i) = dget snap (snap_key coll i))"
  using assms(1,5-)
proof (induction ms arbitrary: snap v evs)
  case (Cons m ms)
  obtain k d where m: "m = (k, d)" by (cases m)
  let ?get = "db_get db s (unwrap_or [] (dget st coll)) (d_id d)"
  have d: "dget snap k = Some d" "v (d_id d) = shown q coll snap (d_id d)" "\<forall>x. ?get \<noteq> Inr (Some x)"
    and rest: "distinct (map fst ms)" "k \<notin> fst ` set ms"
    using Cons.prems(3,4) m by auto
  have k: "k = snap_key coll (d_id d)" "NUL \<notin> set (d_id d)" using Cons.prems(2) d(1) by (auto simp: snap_ok_def)
  have kk: "key_coll k = coll" "key_id k = d_id d"
    using k assms(4) by simp_all
  have ne: "d_id e \<noteq> d_id d" "j \<noteq> k" if "(j, e) \<in> set ms" for j e
  proof -
    show "j \<noteq> k" using that rest(2) by force
    have "j = snap_key coll (d_id e)" using Cons.prems(2,4) that by (force simp: snap_ok_def)
    with \<open>j \<noteq> k\<close> k show "d_id e \<noteq> d_id d" by auto
  qed
  show ?case
  proof (cases ?get)
    case (Inl e)
    then have r: "diff_missing db s p auth q lo st ms snap = (evs, snap')" using Cons.prems(1) m kk by simp
    note IH = Cons.IH [OF r Cons.prems(2) rest(1)]
    show ?thesis
    proof (intro conjI allI, goal_cases)
      case 1
      show ?case using IH [of v] Cons.prems(4) m by simp
    next
      case (2 i)
      show ?case using IH [of v] Cons.prems(4) m k rest(2) Inl d(2) by (cases "i = d_id d") (simp_all add: shown_def)
    qed
  next
    case (Inr x)
    then have x: "?get = Inr None" using d(3) by (cases x) auto
    define ev where "ev = (if matches_full d q then deliver_in p auth coll (Some d) None True False else [])"
    obtain more where r: "diff_missing db s p auth q lo st ms (ddel k snap) = (more, snap')" "evs = ev @ more"
      using Cons.prems(1) m kk x assms(3) by (auto simp: Let_def ev_def split: prod.splits)
    have "fold client_apply ev v = v(d_id d := None)"
      using d k assms(2) by (auto simp: ev_def deliver_in_def may_get_def client_apply_def shown_def matched_def fun_eq_iff)
    moreover have "\<forall>(j, e) \<in> set ms. dget (ddel k snap) j = Some e \<and> (v(d_id d := None)) (d_id e) = shown q coll (ddel k snap) (d_id e) \<and>
       (\<forall>x. db_get db s (unwrap_or [] (dget st coll)) (d_id e) \<noteq> Inr (Some x))"
      using Cons.prems(4) m ne k by (fastforce simp: shown_def)
    ultimately have *: "snap_ok coll snap' \<and> (\<forall>i. if snap_key coll i \<in> fst ` set ms then fold client_apply evs v i = shown q coll snap' i
        \<and> (db_get db s (unwrap_or [] (dget st coll)) i = Inr None \<longrightarrow> dget snap' (snap_key coll i) = None)
      else fold client_apply evs v i = (v(d_id d := None)) i \<and> dget snap' (snap_key coll i) = dget (ddel k snap) (snap_key coll i))"
      using Cons.IH [OF r(1) snap_ok_ddel [OF Cons.prems(2)] rest(1), of "v(d_id d := None)"] r(2) by simp
    show ?thesis
    proof (intro conjI allI, goal_cases)
      case 1
      show ?case using * by blast
    next
      case (2 i)
      show ?case using * [THEN conjunct2, THEN spec, of i] m k rest(2) x
        by (cases "i = d_id d") (simp_all add: shown_def matched_def)
    qed
  qed
qed simp

lemma snap_insert_ok:
  "snap_ok coll m \<Longrightarrow> \<forall>d \<in> set docs. NUL \<notin> set (d_id d) \<Longrightarrow> snap_ok coll (snap_insert coll m docs)"
  unfolding snap_insert_def
  by (induction docs arbitrary: m) (auto simp: dextend_Cons snap_ok_dput)

text \<open>A tick is accurate if the documents it leaves out are gone, or could not be read.\<close>

definition accurate :: "'s driver \<Rightarrow> 's \<Rightarrow> string \<Rightarrow> doc list \<Rightarrow> bool" where
  "accurate db s stored docs \<longleftrightarrow> (\<forall>d \<in> set docs. NUL \<notin> set (d_id d))
     \<and> (\<forall>i x. i \<notin> d_id ` set docs \<longrightarrow> db_get db s stored i \<noteq> Inr (Some x))"

lemma fresh_get_None: "dget (snap_insert coll [] docs) (snap_key coll i) = None \<longleftrightarrow> i \<notin> d_id ` set docs"
proof -
  have "dget (snap_insert coll [] docs) k = map_of (rev (map (\<lambda>d. (snap_key coll (d_id d), d)) docs)) k" for k
    by (simp add: snap_insert_def dget_dextend split: option.split)
  then show ?thesis by (auto simp: map_of_eq_None_iff image_image)
qed

lemma tick_shown:
  assumes "apply_diff db s p auth q lo st (snap_insert coll [] docs) snap = (evs, snap')" "may_get p auth coll"
    "logical_name lo coll = coll" "NUL \<notin> set coll" "snap_ok coll snap" "accurate db s (unwrap_or [] (dget st coll)) docs"
  shows "snap_ok coll snap' \<and> fold client_apply evs (shown q coll snap) = shown q coll snap'
    \<and> ((\<forall>i. i \<notin> d_id ` set docs \<longrightarrow> db_get db s (unwrap_or [] (dget st coll)) i = Inr None) \<longrightarrow> snap' = snap_insert coll [] docs)"
proof -
  let ?fresh = "snap_insert coll [] docs" let ?ms = "filter (\<lambda>e. dget ?fresh (fst e) = None) snap"
  have f: "snap_ok coll ?fresh" using assms(6) by (intro snap_insert_ok) (auto simp: snap_ok_def accurate_def)
  have od: "dict_ok ?fresh" "dict_ok snap" using f assms(5) by (auto simp: snap_ok_def)
  obtain more m where m: "diff_missing db s p auth q lo st ?ms snap = (more, m)" by force
  have r: "evs = concat (map (diff_entry p auth q lo snap) ?fresh) @ more" "snap' = dextend m ?fresh"
    using assms(1) m by (auto simp: apply_diff_def Let_def)
  define v1 where "v1 = fold client_apply (concat (map (diff_entry p auth q lo snap) ?fresh)) (shown q coll snap)"
  have v1: "v1 = (\<lambda>i. if dget ?fresh (snap_key coll i) = None then shown q coll snap i else matched q (dget ?fresh (snap_key coll i)))"
    unfolding v1_def using f od dict_ok_distinct
    by (intro diff_entries_shown assms(2-5)) (auto simp: snap_ok_def dict_ok_snd)
  have ms: "\<forall>(k, d) \<in> set ?ms. dget snap k = Some d \<and> v1 (d_id d) = shown q coll snap (d_id d) \<and>
       (\<forall>x. db_get db s (unwrap_or [] (dget st coll)) (d_id d) \<noteq> Inr (Some x))"
  proof (clarify, intro conjI)
    fix k d assume kd: "(k, d) \<in> set ?ms"
    then show g: "dget snap k = Some d" using od by (simp add: dict_ok_snd)
    then have "k = snap_key coll (d_id d)" using assms(5) by (simp add: snap_ok_def)
    then have n: "dget ?fresh (snap_key coll (d_id d)) = None" using kd by simp
    then show "v1 (d_id d) = shown q coll snap (d_id d)" by (simp add: v1)
    show "\<forall>x. db_get db s (unwrap_or [] (dget st coll)) (d_id d) \<noteq> Inr (Some x)"
      using n assms(6) by (auto simp: fresh_get_None accurate_def)
  qed
  have D: "distinct (map fst ?ms)" using od(2) dict_ok_distinct dict_ok_filter by blast
  note M = diff_missing_shown [OF m assms(2-5) D ms]
  have in_ms: "snap_key coll i \<in> fst ` set ?ms \<longleftrightarrow> dget ?fresh (snap_key coll i) = None \<and> dget snap (snap_key coll i) \<noteq> None" for i
    by (force simp: map_of_eq_None_iff)
  have g': "dget snap' k = (case dget ?fresh k of None \<Rightarrow> dget m k | Some d \<Rightarrow> Some d)" for k
    unfolding r by (rule dget_dextend_dict [OF od(1)])
  have ok': "snap_ok coll snap'" using M f by (auto simp: snap_ok_def r dget_dextend_dict split: option.splits)
  have F: "fold client_apply evs (shown q coll snap) = fold client_apply more v1" by (simp add: r(1) v1_def)
  have "fold client_apply more v1 i = shown q coll snap' i" for i
  proof (cases "dget ?fresh (snap_key coll i)")
    case (Some d)
    then have "fold client_apply more v1 i = v1 i" using M [THEN conjunct2, THEN spec, of i] in_ms [of i] by (simp split: if_splits)
    then show ?thesis using Some by (simp add: v1 shown_def g')
  next
    case None
    then have s': "shown q coll snap' i = shown q coll m i" by (simp add: shown_def g')
    show ?thesis
    proof (cases "dget snap (snap_key coll i) = None")
      case True
      then have "fold client_apply more v1 i = v1 i \<and> dget m (snap_key coll i) = None"
        using M [THEN conjunct2, THEN spec, of i] in_ms [of i] by (simp split: if_splits)
      then show ?thesis using True None s' by (simp add: v1 shown_def)
    next
      case False
      then show ?thesis using M [THEN conjunct2, THEN spec, of i] in_ms [of i] None s' by (simp split: if_splits)
    qed
  qed
  then have "fold client_apply evs (shown q coll snap) = shown q coll snap'" unfolding F by blast
  moreover have Mnone: "dget m (snap_key coll i) = None"
    if "dget ?fresh (snap_key coll i) = None" "db_get db s (unwrap_or [] (dget st coll)) i = Inr None" for i
    using M [THEN conjunct2, THEN spec, of i] in_ms [of i] that
    by (cases "dget snap (snap_key coll i) = None") (simp_all split: if_splits)
  moreover have "snap' = ?fresh" if none: "\<forall>i. i \<notin> d_id ` set docs \<longrightarrow> db_get db s (unwrap_or [] (dget st coll)) i = Inr None"
  proof (rule dict_ext [OF _ od(1)])
    show "dict_ok snap'" using ok' by (simp add: snap_ok_def)
    have "dget m k = None" if k: "dget ?fresh k = None" for k
    proof (rule ccontr)
      assume "dget m k \<noteq> None"
      then obtain d where d: "dget m k = Some d" "k = snap_key coll (d_id d)" using M [THEN conjunct1] unfolding snap_ok_def by blast
      have "d_id d \<notin> d_id ` set docs" using k d(2) fresh_get_None by metis
      with none have "db_get db s (unwrap_or [] (dget st coll)) (d_id d) = Inr None" by blast
      from Mnone [OF k [unfolded d(2)] this] d show False by simp
    qed
    then show "dget snap' k = dget ?fresh k" for k by (simp add: g' split: option.split)
  qed
  ultimately show ?thesis using ok' by blast
qed

text \<open>The messages of a well-behaved source of one collection: nothing was dropped, ticks are accurate.\<close>

fun tracked :: "'s driver \<Rightarrow> string \<Rightarrow> string \<Rightarrow> instant \<times> 's \<times> lane \<Rightarrow> bool" where
  "tracked db coll stored (now, s, LaneChange c x) \<longleftrightarrow>
     c = coll \<and> NUL \<notin> set (ch_id x) \<and> (case ch_new x of None \<Rightarrow> True | Some d \<Rightarrow> d_id d = ch_id x)"
| "tracked db coll stored (now, s, LaneTick c docs) \<longleftrightarrow> c = coll \<and> accurate db s stored docs"
| "tracked db coll stored (now, s, FeedLagged c) \<longleftrightarrow> False"
| "tracked db coll stored (now, s, PollLagged c) \<longleftrightarrow> True"

definition tracks :: "string \<Rightarrow> string \<Rightarrow> subscription \<Rightarrow> bool" where
  "tracks coll stored sb \<longleftrightarrow> logical_name (sb_logical_of sb) coll = coll \<and> NUL \<notin> set coll \<and> dget (sb_stored_of sb) coll = Some stored
     \<and> may_get (sb_policy sb) (sb_auth sb) coll \<and> snap_ok coll (sb_snapshot sb)"

lemma gate_observe_bounds:
  "gate_observe now n g = (flood, g') \<Longrightarrow> rg_cap g' = rg_cap g \<and> rg_count g' \<le> rg_count g + n \<and> (rg_count g + n \<le> rg_cap g \<longrightarrow> \<not> flood)"
  by (auto simp: gate_observe_def Let_def split: if_splits)

lemma tracks_same:
  "same_source sb sb' \<Longrightarrow> tracks coll stored sb \<Longrightarrow> snap_ok coll (sb_snapshot sb') \<Longrightarrow> tracks coll stored sb'"
  by (simp add: tracks_def same_source_def)

lemma sub_step_tracks:
  assumes st: "sub_step db now s l sb = (evs, sb')" and t: "tracks coll stored sb" and l: "tracked db coll stored (now, s, l)"
    and g: "rg_count (sb_gate sb) + length evs \<le> rg_cap (sb_gate sb)"
  shows "tracks coll stored sb'" "rg_cap (sb_gate sb') = rg_cap (sb_gate sb)"
    "rg_count (sb_gate sb') \<le> rg_count (sb_gate sb) + length evs"
    "fold client_apply evs (shown (sb_options sb) coll (sb_snapshot sb)) = shown (sb_options sb) coll (sb_snapshot sb')"
proof -
  note T = t [unfolded tracks_def]
  have "snap_ok coll (sb_snapshot sb') \<and> rg_cap (sb_gate sb') = rg_cap (sb_gate sb)
    \<and> rg_count (sb_gate sb') \<le> rg_count (sb_gate sb) + length evs
    \<and> fold client_apply evs (shown (sb_options sb) coll (sb_snapshot sb)) = shown (sb_options sb) coll (sb_snapshot sb')"
  proof (cases l)
    case (LaneChange c x)
    then have c: "c = coll" "NUL \<notin> set (ch_id x)" "\<And>d. ch_new x = Some d \<Longrightarrow> d_id d = ch_id x" using l by auto
    obtain e m where i: "ingest_change (sb_policy sb) (sb_auth sb) (sb_options sb) coll coll x (sb_snapshot sb) = (e, m)" by force
    have e: "e = evs" using st LaneChange c T i by (auto simp: Let_def split: if_splits prod.splits)
    have s: "snap_ok coll m \<and> fold client_apply evs (shown (sb_options sb) coll (sb_snapshot sb)) = shown (sb_options sb) coll m"
      using ingest_shown [OF i _ _ c(3,2)] T e by blast
    obtain flood g' where o: "gate_observe now 1 (sb_gate sb) = (flood, g')" by force
    have "evs \<noteq> [] \<Longrightarrow> \<not> flood" using gate_observe_bounds [OF o] g by (cases evs) auto
    then have "sb_snapshot sb' = m \<and> sb_gate sb' = (if evs = [] then sb_gate sb else g')"
      using st LaneChange c T i e o by (auto simp: Let_def split: if_splits)
    then show ?thesis using s gate_observe_bounds [OF o] by (cases evs) auto
  next
    case (LaneTick c docs)
    then have c: "c = coll" "accurate db s stored docs" using l by auto
    obtain e m where d: "apply_diff db s (sb_policy sb) (sb_auth sb) (sb_options sb) (sb_logical_of sb) (sb_stored_of sb)
        (snap_insert coll [] docs) (sb_snapshot sb) = (e, m)" by force
    obtain flood g' where o: "gate_observe now (length e) (sb_gate sb) = (flood, g')" by force
    have r: "evs = e" "sb_snapshot sb' = m" "sb_gate sb' = (if flood then gate_new now (events_per_sec (sb_caps sb)) else g')"
      using st LaneTick c d o by (auto simp: Let_def)
    then show ?thesis using tick_shown [OF d] T c gate_observe_bounds [OF o] g by auto
  next
    case (FeedLagged key)
    then show ?thesis using l by simp
  next
    case (PollLagged c)
    then show ?thesis using st T by auto
  qed
  then show "tracks coll stored sb'" "rg_cap (sb_gate sb') = rg_cap (sb_gate sb)"
    "rg_count (sb_gate sb') \<le> rg_count (sb_gate sb) + length evs"
    "fold client_apply evs (shown (sb_options sb) coll (sb_snapshot sb)) = shown (sb_options sb) coll (sb_snapshot sb')"
    using tracks_same [OF sub_step_same [OF st] t] by blast+
qed

lemma sub_feed_tracks:
  assumes "sub_feed db ls sb = (evs, sb')" "tracks coll stored sb" "\<forall>m \<in> set ls. tracked db coll stored m"
    "rg_count (sb_gate sb) + length evs \<le> rg_cap (sb_gate sb)"
  shows "fold client_apply evs (shown (sb_options sb) coll (sb_snapshot sb)) = shown (sb_options sb) coll (sb_snapshot sb')"
  using assms
proof (induction db ls sb arbitrary: evs sb' rule: sub_feed.induct)
  case (2 db now s l ls sb)
  obtain e1 sb1 e2 where s: "sub_step db now s l sb = (e1, sb1)" "sub_feed db ls sb1 = (e2, sb')" "evs = e1 @ e2"
    using "2.prems"(1) by (auto simp: Let_def split: prod.splits)
  have q: "sb_options sb1 = sb_options sb" using sub_step_same [OF s(1)] by (simp add: same_source_def)
  have m: "tracked db coll stored (now, s, l)" and g: "rg_count (sb_gate sb) + length e1 \<le> rg_cap (sb_gate sb)"
    using "2.prems"(3,4) s(3) by auto
  note S = sub_step_tracks [OF s(1) "2.prems"(2) m g]
  have "fold client_apply e2 (shown (sb_options sb1) coll (sb_snapshot sb1)) = shown (sb_options sb1) coll (sb_snapshot sb')"
    using "2.prems"(3,4) S(2,3) s(3) by (intro "2.IH" [OF s(1) [symmetric] refl s(2) S(1)]) auto
  then show ?case using s(3) S(4) q by simp
qed simp

lemma sub_feed_snoc: "sub_feed db (ls @ [(now, s, l)]) sb =
    (let (evs, sb1) = sub_feed db ls sb; (more, sb2) = sub_step db now s l sb1 in (evs @ more, sb2))"
  by (induction db ls sb rule: sub_feed.induct) (auto simp: Let_def split: prod.splits)

lemma sub_feed_tracks_on:
  assumes "sub_feed db ls sb = (evs, sb')" "tracks coll stored sb" "\<forall>m \<in> set ls. tracked db coll stored m"
    "rg_count (sb_gate sb) + length evs \<le> rg_cap (sb_gate sb)"
  shows "tracks coll stored sb' \<and> same_source sb sb'"
  using assms
proof (induction db ls sb arbitrary: evs sb' rule: sub_feed.induct)
  case (1 db sb)
  then show ?case by (simp add: same_source_def)
next
  case (2 db now s l ls sb)
  obtain e1 sb1 e2 where s: "sub_step db now s l sb = (e1, sb1)" "sub_feed db ls sb1 = (e2, sb')" "evs = e1 @ e2"
    using "2.prems"(1) by (auto simp: Let_def split: prod.splits)
  have q: "same_source sb sb1" by (rule sub_step_same [OF s(1)])
  have m: "tracked db coll stored (now, s, l)" and g: "rg_count (sb_gate sb) + length e1 \<le> rg_cap (sb_gate sb)"
    using "2.prems"(3,4) s(3) by auto
  note S = sub_step_tracks [OF s(1) "2.prems"(2) m g]
  have "tracks coll stored sb' \<and> same_source sb1 sb'"
    using "2.prems"(3,4) S(2,3) s(3) by (intro "2.IH" [OF s(1) [symmetric] refl s(2) S(1)]) auto
  then show ?case using q by (simp add: same_source_def)
qed

lemma snap_insert_get:
  "dget (snap_insert coll [] docs) k = map_of (rev (map (\<lambda>d. (snap_key coll (d_id d), d)) docs)) k"
  by (simp add: snap_insert_def dget_dextend split: option.split)

lemma snap_insert_keys: "dget (snap_insert coll [] docs) k = Some d \<Longrightarrow> k = snap_key coll (d_id d) \<and> d \<in> set docs"
  unfolding snap_insert_get by (drule map_of_SomeD) auto

lemma snap_insert_in:
  assumes "distinct (map d_id docs)" "d \<in> set docs"
  shows "dget (snap_insert coll [] docs) (snap_key coll (d_id d)) = Some d"
proof -
  have "distinct (map fst (rev (map (\<lambda>d. (snap_key coll (d_id d), d)) docs)))"
    using assms(1) by (auto simp: rev_map [symmetric] o_def distinct_map inj_on_def)
  then show ?thesis unfolding snap_insert_get using assms(2) by (intro map_of_is_SomeI) auto
qed

lemma subscribe_single:
  assumes "subscribe db p auth sp caps now s = (Inr sb, s')" "\<not> sp_group sp"
  shows "\<exists>docs. sb = \<lparr>sb_policy = p, sb_auth = auth, sb_options = sp_options sp,
      sb_collections = [dotted (sub_db sp) (sp_collection sp)],
      sb_stored_of = [(dotted (sub_db sp) (sp_collection sp), sp_collection sp)],
      sb_logical_of = [(dotted (sub_db sp) (sp_collection sp), dotted (sub_db sp) (sp_collection sp))], sb_caps = caps,
      sb_watch = supports_watch (db_capabilities db),
      sb_snapshot = snap_insert (dotted (sub_db sp) (sp_collection sp)) [] docs, sb_gate = gate_new now (events_per_sec caps)\<rparr>
    \<and> NUL \<notin> set (dotted (sub_db sp) (sp_collection sp))"
  using assms valid_path_NUL [of "sp_collection sp"] valid_db_NUL [of "sub_db sp"] dotted_NUL [of "sub_db sp" "sp_collection sp"]
  by (auto simp: subscribe_def sub_pairs_def sub_db_def dotted_def Let_def dict_of_def dextend_Cons split: if_splits sum.splits prod.splits)

text \<open>
  C11. A subscriber who follows one collection sees what is stored. If the policy lets the caller get
  every document of the collection, the snapshot's copy at the client (the matching documents at
  subscription), updated with every delivered event, equals the matching documents of the last tick
  of the poller, once that tick lists what is stored. Before it, changes and ticks may come in any
  number and order, ticks may fail and repeat what the bus delivered; but no message is dropped, a
  document that an earlier tick left out is really gone, and no more events are delivered than the
  flood guard lets through.
\<close>

theorem client_converges:
  assumes sub: "subscribe db p auth sp caps now s = (Inr sb, s')" and one: "\<not> sp_group sp"
    and coll: "coll = dotted (sub_db sp) (sp_collection sp)" and get: "may_get p auth coll"
    and ids: "\<And>k d. dget (sb_snapshot sb) k = Some d \<Longrightarrow> NUL \<notin> set (d_id d)"
    and ls: "\<forall>m \<in> set ls. tracked db coll (sp_collection sp) m"
    and tick: "distinct (map d_id docs)" "\<forall>d \<in> set docs. NUL \<notin> set (d_id d)"
      "\<And>i. i \<notin> d_id ` set docs \<Longrightarrow> db_get db st (sp_collection sp) i = Inr None"
    and run: "sub_feed db (ls @ [(t, st, LaneTick coll docs)]) sb = (evs, sb')" and cap: "length evs \<le> events_per_sec caps"
  shows "fold client_apply evs (shown (sp_options sp) coll (sb_snapshot sb)) i = Some d
    \<longleftrightarrow> d \<in> set docs \<and> d_id d = i \<and> matches_full d (sp_options sp)"
proof -
  obtain docs0 where sb: "sb = \<lparr>sb_policy = p, sb_auth = auth, sb_options = sp_options sp, sb_collections = [coll],
      sb_stored_of = [(coll, sp_collection sp)], sb_logical_of = [(coll, coll)], sb_caps = caps,
      sb_watch = supports_watch (db_capabilities db), sb_snapshot = snap_insert coll [] docs0, sb_gate = gate_new now (events_per_sec caps)\<rparr>"
    and N: "NUL \<notin> set coll"
    using subscribe_single [OF sub one] unfolding coll by blast
  have "dict_ok (snap_insert coll [] docs0)" by (simp add: snap_insert_def)
  then have "snap_ok coll (sb_snapshot sb)"
    unfolding snap_ok_def sb using snap_insert_keys ids [unfolded sb] by fastforce
  then have T: "tracks coll (sp_collection sp) sb" using get N by (simp add: tracks_def sb logical_name_def)
  have A: "accurate db st (sp_collection sp) docs" using tick by (simp add: accurate_def)
  have ls': "\<forall>m \<in> set (ls @ [(t, st, LaneTick coll docs)]). tracked db coll (sp_collection sp) m" using ls A by simp
  have G: "rg_count (sb_gate sb) + length evs \<le> rg_cap (sb_gate sb)" using cap by (simp add: sb gate_new_def)
  have E: "fold client_apply evs (shown (sp_options sp) coll (sb_snapshot sb)) = shown (sp_options sp) coll (sb_snapshot sb')"
    using sub_feed_tracks [OF run T ls' G] by (simp add: sb)
  obtain e1 sb1 e2 where f: "sub_feed db ls sb = (e1, sb1)" "sub_step db t st (LaneTick coll docs) sb1 = (e2, sb')" "evs = e1 @ e2"
    using run by (auto simp: sub_feed_snoc Let_def split: prod.splits)
  have T1: "tracks coll (sp_collection sp) sb1" "same_source sb sb1"
    using sub_feed_tracks_on [OF f(1) T ls] G f(3) by auto
  obtain e m where d: "apply_diff db st (sb_policy sb1) (sb_auth sb1) (sb_options sb1) (sb_logical_of sb1) (sb_stored_of sb1)
        (snap_insert coll [] docs) (sb_snapshot sb1) = (e, m)" by force
  have "m = snap_insert coll [] docs"
    using tick_shown [OF d] T1(1) A tick(3) by (auto simp: tracks_def)
  then have "sb_snapshot sb' = snap_insert coll [] docs" using f(2) d by (auto simp: Let_def split: prod.splits)
  then have S: "fold client_apply evs (shown (sp_options sp) coll (sb_snapshot sb)) i =
      matched (sp_options sp) (dget (snap_insert coll [] docs) (snap_key coll i))"
    unfolding E shown_def by simp
  show ?thesis
  proof
    assume "fold client_apply evs (shown (sp_options sp) coll (sb_snapshot sb)) i = Some d"
    then have g: "dget (snap_insert coll [] docs) (snap_key coll i) = Some d" "matches_full d (sp_options sp)"
      unfolding S matched_def by (simp_all split: option.splits if_splits)
    from snap_insert_keys [OF g(1)] g(2) show "d \<in> set docs \<and> d_id d = i \<and> matches_full d (sp_options sp)" by simp
  next
    assume d: "d \<in> set docs \<and> d_id d = i \<and> matches_full d (sp_options sp)"
    then have "dget (snap_insert coll [] docs) (snap_key coll i) = Some d" using snap_insert_in [OF tick(1)] by blast
    with d show "fold client_apply evs (shown (sp_options sp) coll (sb_snapshot sb)) i = Some d" unfolding S matched_def by simp
  qed
qed

definition demo_state :: mem_db where
  "demo_state = \<lparr>store = [(''ev'', [(''b'', demo_event ''b'' (JBool True))])], indexes = []\<rparr>"

definition demo_one :: "string \<Rightarrow> string \<Rightarrow> snapshot" where
  "demo_one c i = [(snap_key c i, demo_event i (JBool True))]"

lemma demo_tick: "apply_diff (mem_driver 1) demo_state policy_open None default_query [(''ev'', ''ev'')] [(''ev'', ''ev'')]
    (snap_insert ''ev'' [] [demo_event ''b'' (JBool True)]) (demo_one ''ev'' ''a'') =
    ([\<lparr>ev_kind = Added, ev_doc = Some (demo_event ''b'' (JBool True))\<rparr>,
      \<lparr>ev_kind = Removed, ev_doc = Some (demo_event ''a'' (JBool True))\<rparr>], demo_one ''ev'' ''b'')"
  by code_simp

lemma demo_gone: "i \<noteq> ''b'' \<Longrightarrow> db_get (mem_driver 1) demo_state ''ev'' i = Inr None"
  by (simp add: mem_driver_def mem_get_def demo_state_def Let_def)

lemma policy_open_may_get: "may_get policy_open auth c"
  by (simp add: may_get_def policy_open_allows)

lemma client_converges_witness:
  "\<exists>evs. fst (sub_feed (mem_driver 1) [(0, mem_new, LaneChange ''ev'' (demo_change ''a'' (JBool True))),
      (0, demo_state, LaneTick ''ev'' [demo_event ''b'' (JBool True)])] (demo_sb False [])) = evs
    \<and> fold client_apply evs (shown default_query ''ev'' []) ''b'' = Some (demo_event ''b'' (JBool True))"
proof -
  let ?ls = "[(0, mem_new, LaneChange ''ev'' (demo_change ''a'' (JBool True)))]"
  let ?run = "sub_feed (mem_driver 1) (?ls @ [(0, demo_state, LaneTick ''ev'' [demo_event ''b'' (JBool True)])]) (demo_sb False [])"
  have l: "length (fst ?run) \<le> 9"
    using demo_ingest demo_tick by (simp add: demo_sb_def demo_one_def demo_logical gate_observe_def gate_new_def Let_def)
  have "fold client_apply (fst ?run) (shown (sp_options (demo_sub False)) ''ev'' (sb_snapshot (demo_sb False []))) ''b'' =
      Some (demo_event ''b'' (JBool True)) \<longleftrightarrow> True"
    by (subst client_converges [OF demo_subscribe _ _ policy_open_may_get _ _ _ _ _ prod.collapse [symmetric]])
      (use l demo_gone in \<open>simp_all add: demo_sub_def sub_db_def dotted_def demo_sb_def demo_caps_def demo_change_def demo_event_def
        NUL_def default_query_def matches_full_def doc_matches_def matches_cursor_def\<close>)
  then show ?thesis by (simp add: demo_sub_def demo_sb_def)
qed

section \<open>What is lost\<close>

text \<open>
  A resync replaces the snapshot and delivers nothing, and the next tick finds no difference: what a
  lagged feed dropped is never delivered.
\<close>

lemma resync_loses_changes:
  "let q = default_query; stored = mem_list demo_state ''ev'' q;
       snap = resync_collection (mem_driver 1) demo_state q ''ev'' ''ev'' [] in
   stored = Inr [demo_event ''b'' (JBool True)] \<and>
   fst (apply_diff (mem_driver 1) demo_state policy_open None q [(''ev'', ''ev'')] [(''ev'', ''ev'')]
     (snap_insert ''ev'' [] [demo_event ''b'' (JBool True)]) snap) = []"
  by code_simp

lemma lagged_feed_is_silent: "fst (sub_step db now s (FeedLagged key) sb) = []"
  by simp

text \<open>
  The notice that the gateway's bus lagged carries the stream's key, \<open>bus\0\<close> and the collection, and
  that name is resynced: nothing of the collection is.
\<close>

lemma bus_lag_resyncs_nothing:
  assumes "db_list db s (''bus'' @ NUL # c) (snapshot_options (sb_options sb)) = Inr []" "NUL \<notin> set c" "c \<noteq> ''bus''"
    "dget (sb_stored_of sb) (''bus'' @ NUL # c) = None" "dict_ok (sb_snapshot sb)"
  shows "dget (sb_snapshot (snd (sub_step db now s (FeedLagged (''bus'' @ NUL # c)) sb))) (snap_key c i) = dget (sb_snapshot sb) (snap_key c i)"
proof -
  have "\<not> starts_with (''bus'' @ NUL # c @ [NUL]) (snap_key c i)"
  proof
    assume "starts_with (''bus'' @ NUL # c @ [NUL]) (snap_key c i)"
    then obtain r where "snap_key c i = ''bus'' @ NUL # c @ NUL # r" by (auto simp: starts_with_def strip_prefix_Some)
    then have "key_coll (snap_key c i) = key_coll (''bus'' @ NUL # c @ NUL # r)" by simp
    moreover have "key_coll (''bus'' @ NUL # r') = ''bus''" for r' using key_coll_snap_key [of "''bus''" r'] by (simp add: snap_key_def NUL_def)
    ultimately show False using assms(2,3) by simp
  qed
  then show ?thesis using assms by (simp add: sub_resync_def sub_stored_def resync_collection_def snap_insert_def dget_dretain split: option.split)
qed

text \<open>
  A tick checks every snapshot document it does not list, those of the other collections of a group
  included, and takes over what is stored for them without an event: a change of one collection is
  lost when another collection's tick comes first.
\<close>

definition demo_other :: mem_db where
  "demo_other = \<lparr>store = [(''ev'', []), (''x_ev'', [(''b'', demo_event ''b'' (JBool False))])], indexes = []\<rparr>"

lemma group_tick_loses_changes:
  "let m = [(''ev'', ''ev''), (''x_ev'', ''x_ev'')]; q = default_query;
       tick = (\<lambda>c docs. apply_diff (mem_driver 1) demo_other policy_open None q m m (snap_insert c [] docs));
       own = tick ''x_ev'' [demo_event ''b'' (JBool False)] (demo_one ''x_ev'' ''b'');
       other = tick ''ev'' [] (demo_one ''x_ev'' ''b'') in
   map ev_kind (fst own) = [Changed] \<and> fst other = [] \<and> fst (tick ''x_ev'' [demo_event ''b'' (JBool False)] (snd other)) = []"
  by code_simp

text \<open>The flood guard delivers every event, over the cap or not.\<close>

lemma flood_guard_delivers: "fst (sub_step db now s l (sb\<lparr>sb_gate := g\<rparr>)) = fst (sub_step db now s l sb)"
  by (cases l) (auto simp: Let_def split: prod.splits)

text \<open>A subscription has no gate for the gateway's own collections.\<close>

lemma sessions_can_be_followed:
  "is_ok (fst (subscribe (mem_driver 1) policy_open None \<lparr>sp_collection = ''__sessions'', sp_options = default_query,
     sp_group = False, sp_db = []\<rparr> demo_caps 0 mem_new)) \<and> matches_group ''__sessions'' ''sessions''"
  by code_simp

end
