(* ===== verification/Alias.thy ===== *)
theory Alias
  imports Dict
begin

text \<open>
  Path aliases (\<open>alias.rs\<close>, and \<open>alias_dispatch\<close> and \<open>reencode_query\<close> of \<open>main.rs\<close>): compiling the
  declared table, matching a path, substituting captures, and merging the query strings. The
  dispatched request itself is served by the other routes.
\<close>

datatype seg = Exact string | Param string

record path_alias =
  al_pattern :: string
  al_target_path :: string
  al_target_query :: string
  al_segs :: "seg list"
  al_params :: "string list"

text \<open>The messages of a refused declaration, by their arguments.\<close>

datatype alias_error = PatternStart string | EmptyParam string | NoSegments string | NotAlias string
  | Chains string | OutsideApi string | RealtimeLane string
  | UnclosedString string | UnclosedIn string | UnclosedText string string | UnknownSlot string string "string list"
  | Duplicate string

section \<open>Compiling\<close>

definition parts :: "string \<Rightarrow> string list" where
  "parts s = filter (\<lambda>p. p \<noteq> []) (split_on (CHR ''/'') s)"

fun parse_segs :: "string \<Rightarrow> string list \<Rightarrow> (alias_error, seg list \<times> string list) result" where
  "parse_segs pattern [] = Inr ([], [])"
| "parse_segs pattern (part # ps) = (case strip_prefix '':'' part of
     Some name \<Rightarrow>
       if name = [] then Inl (EmptyParam pattern)
       else (case parse_segs pattern ps of Inl e \<Rightarrow> Inl e | Inr (segs, params) \<Rightarrow> Inr (Param name # segs, name # params))
   | None \<Rightarrow> (case parse_segs pattern ps of Inl e \<Rightarrow> Inl e | Inr (segs, params) \<Rightarrow> Inr (Exact part # segs, params)))"

definition parse_pattern :: "string \<Rightarrow> (alias_error, seg list \<times> string list) result" where
  "parse_pattern pattern =
     (if \<not> starts_with ''/'' pattern then Inl (PatternStart pattern)
      else case parse_segs pattern (parts pattern) of
        Inl e \<Rightarrow> Inl e
      | Inr (segs, params) \<Rightarrow> if segs = [] then Inl (NoSegments pattern) else Inr (segs, params))"

definition QUOTE :: char where "QUOTE = CHR 34"
definition BACKSLASH :: char where "BACKSLASH = CHR 92"

lemma quote_backslash [simp]: "QUOTE \<noteq> BACKSLASH" "BACKSLASH \<noteq> QUOTE" "CHR ''{'' \<noteq> QUOTE" "CHR ''{'' \<noteq> BACKSLASH"
  by (simp_all add: QUOTE_def BACKSLASH_def)

text \<open>The scan of \<open>balanced_braces\<close>, from its state; \<open>depth\<close> never falls below zero.\<close>

fun braces_from :: "nat \<Rightarrow> bool \<Rightarrow> bool \<Rightarrow> string \<Rightarrow> bool" where
  "braces_from depth instr esc [] \<longleftrightarrow> \<not> instr \<and> depth = 0"
| "braces_from depth instr esc (c # cs) =
     (if instr then
        (if esc then braces_from depth True False cs
         else if c = BACKSLASH then braces_from depth True True cs
         else braces_from depth (c \<noteq> QUOTE) False cs)
      else if c = QUOTE then braces_from depth True esc cs
      else if c = CHR ''{'' then braces_from (depth + 1) False esc cs
      else if c = CHR ''}'' then (if depth = 0 then False else braces_from (depth - 1) False esc cs)
      else braces_from depth False esc cs)"

definition balanced_braces :: "string \<Rightarrow> bool" where
  "balanced_braces s = braces_from 0 False False s"

text \<open>The slots of a text: every \<open>{\<close> opens one, up to the next \<open>}\<close>.\<close>

lemma split_once_shorter: "split_once c s = Some (a, b) \<Longrightarrow> length b < length s"
  by (simp add: split_once_Some)

function check_slots :: "string list \<Rightarrow> alias_error \<Rightarrow> string \<Rightarrow> string \<Rightarrow> (alias_error, unit) result" where
  "check_slots params unclosed what text = (case split_once (CHR ''{'') text of
     None \<Rightarrow> Inr ()
   | Some (_, r) \<Rightarrow> (case split_once (CHR ''}'') r of
       None \<Rightarrow> Inl unclosed
     | Some (name, rest) \<Rightarrow>
         if name \<notin> set params then Inl (UnknownSlot name what params)
         else check_slots params unclosed what rest))"
  by auto
termination
  by (relation "measure (\<lambda>(_, _, _, t). length t)") (auto dest!: split_once_shorter)

declare check_slots.simps [simp del]

fun take_literal :: "bool \<Rightarrow> string \<Rightarrow> (string \<times> string) option" where
  "take_literal esc [] = None"
| "take_literal esc (c # cs) =
     (if esc then map_option (\<lambda>(l, r). (c # l, r)) (take_literal False cs)
      else if c = BACKSLASH then map_option (\<lambda>(l, r). (c # l, r)) (take_literal True cs)
      else if c = QUOTE then Some ([], cs)
      else map_option (\<lambda>(l, r). (c # l, r)) (take_literal False cs))"

lemma take_literal_shorter: "take_literal esc s = Some (l, r) \<Longrightarrow> length r < length s"
  by (induction esc s arbitrary: l r rule: take_literal.induct) (auto split: if_splits simp: less_SucI)

function check_json_slots :: "string \<Rightarrow> string list \<Rightarrow> string \<Rightarrow> (alias_error, unit) result" where
  "check_json_slots [] params what = Inr ()"
| "check_json_slots (c # cs) params what =
     (if c \<noteq> QUOTE then check_json_slots cs params what
      else case take_literal False cs of
        None \<Rightarrow> Inl (UnclosedString what)
      | Some (lit, rest) \<Rightarrow> (case check_slots params (UnclosedIn what) what lit of
          Inl e \<Rightarrow> Inl e
        | Inr u \<Rightarrow> check_json_slots rest params what))"
  by pat_completeness auto
termination
  by (relation "measure (\<lambda>(t, _, _). length t)") (auto dest!: take_literal_shorter)

definition check_bare_slots :: "string \<Rightarrow> string list \<Rightarrow> string \<Rightarrow> (alias_error, unit) result" where
  "check_bare_slots text params what = check_slots params (UnclosedText what text) what text"

definition json_shape :: "string \<Rightarrow> bool" where
  "json_shape v \<longleftrightarrow> starts_with ''{'' v \<and> ends_with ''}'' v \<and> balanced_braces v"

definition check_template :: "string \<Rightarrow> string list \<Rightarrow> string \<Rightarrow> (alias_error, unit) result" where
  "check_template text params what = (case split_once (CHR ''='') text of
     Some (_, value) \<Rightarrow>
       if json_shape (trim value) then check_json_slots (trim value) params what else check_bare_slots text params what
   | None \<Rightarrow> check_bare_slots text params what)"

definition compile :: "string \<Rightarrow> string \<Rightarrow> string \<Rightarrow> (alias_error, path_alias) result" where
  "compile pattern target_path target_query = (case strip_prefix ''/api/alias/'' pattern of
     None \<Rightarrow> Inl (NotAlias pattern)
   | Some stripped \<Rightarrow> (case parse_pattern (CHR ''/'' # stripped) of
       Inl e \<Rightarrow> Inl e
     | Inr (segs, params) \<Rightarrow>
         if starts_with ''/api/alias/'' target_path then Inl (Chains target_path)
         else if \<not> starts_with ''/api/'' target_path then Inl (OutsideApi target_path)
         else if target_path = ''/ws'' \<or> starts_with ''/api/stream/'' target_path then Inl (RealtimeLane target_path)
         else case check_template target_path params ''target_path'' of
           Inl e \<Rightarrow> Inl e
         | Inr _ \<Rightarrow> (case check_template target_query params ''target_query'' of
             Inl e \<Rightarrow> Inl e
           | Inr _ \<Rightarrow> Inr \<lparr>al_pattern = pattern, al_target_path = target_path, al_target_query = target_query,
               al_segs = segs, al_params = params\<rparr>)))"

fun compile_from :: "path_alias list \<Rightarrow> (string \<times> string \<times> string) list \<Rightarrow> (alias_error, path_alias list) result" where
  "compile_from out [] = Inr out"
| "compile_from out ((p, tp, tq) # decls) =
     (if list_ex (\<lambda>a. al_pattern a = p) out then Inl (Duplicate p)
      else case compile p tp tq of Inl e \<Rightarrow> Inl e | Inr a \<Rightarrow> compile_from (out @ [a]) decls)"

definition compile_all :: "(string \<times> string \<times> string) list \<Rightarrow> (alias_error, path_alias list) result" where
  "compile_all decls = compile_from [] decls"

section \<open>Substituting\<close>

definition unreserved :: "char \<Rightarrow> bool" where
  "unreserved c \<longleftrightarrow> is_alnum c \<or> c = CHR ''-'' \<or> c = CHR ''_'' \<or> c = CHR ''.'' \<or> c = CHR ''~''"

definition hex_digit :: "nat \<Rightarrow> char" where
  "hex_digit n = (if n < 10 then char_of (48 + n) else char_of (55 + n))"

definition pct :: "char \<Rightarrow> string" where
  "pct b = [CHR ''%'', hex_digit (ch b div 16), hex_digit (ch b mod 16)]"

definition encode_into :: "string \<Rightarrow> string" where
  "encode_into value = concat (map (\<lambda>b. if unreserved b then [b] else pct b) value)"

text \<open>A byte pushed \<open>as char\<close>: above 127 it becomes the two bytes of that code point.\<close>

definition byte_as_char :: "char \<Rightarrow> string" where
  "byte_as_char b = (if ch b < 128 then [b] else [char_of (192 + ch b div 64), char_of (128 + ch b mod 64)])"

type_synonym captures = "(string, string) dict"

text \<open>\<open>substitute_json\<close>: \<open>instr\<close> tells whether the scan is inside a literal.\<close>

function subst_json :: "captures \<Rightarrow> bool \<Rightarrow> string \<Rightarrow> string" where
  "subst_json caps instr [] = []"
| "subst_json caps False (c # cs) =
     (if c \<noteq> QUOTE then byte_as_char c @ subst_json caps False cs else QUOTE # subst_json caps True cs)"
| "subst_json caps True (c # cs) =
     (if c = BACKSLASH \<and> cs \<noteq> [] then byte_as_char c @ byte_as_char (hd cs) @ subst_json caps True (tl cs)
      else if c = QUOTE then QUOTE # subst_json caps False cs
      else if c = CHR ''{'' then
        (case split_once (CHR ''}'') cs of
           Some (name, rest) \<Rightarrow>
             (case dget caps name of
                Some v \<Rightarrow> encode_into v @ subst_json caps True rest
              | None \<Rightarrow> byte_as_char c @ subst_json caps True cs)
         | None \<Rightarrow> byte_as_char c @ subst_json caps True cs)
      else byte_as_char c @ subst_json caps True cs)"
  by pat_completeness auto
termination
  by (relation "measure (\<lambda>(_, _, t). length t)") (auto dest!: split_once_shorter)

definition substitute_json :: "string \<Rightarrow> captures \<Rightarrow> string" where
  "substitute_json template caps = subst_json caps False template"

text \<open>\<open>None\<close> is the panic of \<open>expect("checked at load")\<close>.\<close>

function substitute_bare :: "captures \<Rightarrow> string \<Rightarrow> string option" where
  "substitute_bare caps template = (case split_once (CHR ''{'') template of
     None \<Rightarrow> Some template
   | Some (before, r) \<Rightarrow> (case split_once (CHR ''}'') r of
       None \<Rightarrow> None
     | Some (name, rest) \<Rightarrow>
         map_option (\<lambda>out. before @ encode_into (unwrap_or [] (dget caps name)) @ out) (substitute_bare caps rest)))"
  by auto
termination
  by (relation "measure (\<lambda>(_, t). length t)") (auto dest!: split_once_shorter)

declare substitute_bare.simps [simp del]

definition substitute :: "string \<Rightarrow> captures \<Rightarrow> string option" where
  "substitute template caps = (case split_once (CHR ''='') template of
     Some (head, value) \<Rightarrow>
       if json_shape (trim value) \<and> CHR ''{'' \<notin> set head
       then Some (head @ CHR ''='' # substitute_json value caps)
       else substitute_bare caps template
   | None \<Rightarrow> substitute_bare caps template)"

section \<open>Matching and dispatching\<close>

datatype 'a attempt = Panicked | NoMatch | Match 'a

fun capture :: "seg list \<Rightarrow> string list \<Rightarrow> captures \<Rightarrow> captures option" where
  "capture (Exact e # segs) (p # ps) caps = (if e = p then capture segs ps caps else None)"
| "capture (Param name # segs) (p # ps) caps = capture segs ps (dput name p caps)"
| "capture _ _ caps = Some caps"

definition try_match :: "path_alias \<Rightarrow> string \<Rightarrow> (string \<times> string) attempt" where
  "try_match a path =
     (if length (parts path) \<noteq> length (al_segs a) then NoMatch
      else case capture (al_segs a) (parts path) [] of
        None \<Rightarrow> NoMatch
      | Some caps \<Rightarrow> (case (substitute (al_target_path a) caps, substitute (al_target_query a) caps) of
          (Some tp, Some tq) \<Rightarrow> Match (tp, tq)
        | _ \<Rightarrow> Panicked))"

fun rewrite :: "path_alias list \<Rightarrow> string \<Rightarrow> (string \<times> string) attempt" where
  "rewrite [] path = NoMatch"
| "rewrite (a # as) path = (case try_match a path of NoMatch \<Rightarrow> rewrite as path | r \<Rightarrow> r)"

definition pair_key :: "string \<Rightarrow> string" where
  "pair_key p = hd (split_on (CHR ''='') p)"

definition merge_query :: "string \<Rightarrow> string option \<Rightarrow> string" where
  "merge_query alias_q req_q =
     (let req_q = unwrap_or [] req_q in
      if alias_q = [] then req_q
      else if req_q = [] then alias_q
      else
        (let req_keys = map pair_key (split_on (CHR ''&'') req_q);
             kept = filter (\<lambda>p. pair_key p = ''db'' \<or> pair_key p \<notin> set req_keys) (split_on (CHR ''&'') alias_q);
             alias_pins_db = list_ex (\<lambda>p. pair_key p = ''db'') (split_on (CHR ''&'') alias_q)
         in join ''&'' (kept @ filter (\<lambda>p. \<not> alias_pins_db \<or> pair_key p \<noteq> ''db'') (split_on (CHR ''&'') req_q))))"

definition query_char :: "char \<Rightarrow> bool" where
  "query_char c \<longleftrightarrow> is_alnum c \<or> c \<in> set ''-_.~!$&()*+,;=:@/?%'' \<or> ch c = 39"

definition reencode_bytes :: "string \<Rightarrow> string" where
  "reencode_bytes query = concat (map (\<lambda>b. if query_char b then [b] else pct b) query)"

definition reencode_query :: "string \<Rightarrow> string" where
  "reencode_query pq = (case split_once (CHR ''?'') pq of
     None \<Rightarrow> pq
   | Some (path, query) \<Rightarrow> path @ CHR ''?'' # reencode_bytes query)"

text \<open>\<open>alias_dispatch\<close>: the path and query the inner router is given; \<open>NoMatch\<close> is the empty 404.\<close>

definition alias_dispatch :: "path_alias list \<Rightarrow> string \<Rightarrow> string option \<Rightarrow> string attempt" where
  "alias_dispatch table path query =
     (let sub = unwrap_or path (strip_prefix ''/api/alias'' path) in
      if table = [] then NoMatch
      else case rewrite table sub of
        NoMatch \<Rightarrow> NoMatch
      | Panicked \<Rightarrow> Panicked
      | Match (target_path, target_q) \<Rightarrow>
          (let merged = merge_query target_q query
           in Match (reencode_query (if merged = [] then target_path else target_path @ CHR ''?'' # merged))))"

section \<open>A compiled table never panics\<close>

lemma check_slots_subst:
  "check_slots params u w t = Inr () \<Longrightarrow> \<exists>out. substitute_bare caps t = Some out"
proof (induction params u w t rule: check_slots.induct)
  case (1 params u w t)
  show ?case
  proof (cases "split_once (CHR ''{'') t")
    case None
    then show ?thesis by (simp add: substitute_bare.simps)
  next
    case (Some br)
    obtain b r where br: "br = (b, r)" by (cases br)
    show ?thesis
    proof (cases "split_once (CHR ''}'') r")
      case None
      then show ?thesis using "1.prems" Some br by (simp add: check_slots.simps)
    next
      case (Some nr)
      obtain n rest where nr: "nr = (n, rest)" by (cases nr)
      have c: "n \<in> set params" "check_slots params u w rest = Inr ()"
        using "1.prems" \<open>split_once (CHR ''{'') t = Some br\<close> br Some nr by (subst (asm) check_slots.simps, simp split: if_splits)+
      then have "\<exists>out. substitute_bare caps rest = Some out"
        using "1.IH" [OF \<open>split_once (CHR ''{'') t = Some br\<close> br [symmetric] Some nr [symmetric]] by simp
      then show ?thesis using \<open>split_once (CHR ''{'') t = Some br\<close> br Some nr by (subst substitute_bare.simps) auto
    qed
  qed
qed

lemma closing_brace_subst:
  assumes "CHR ''{'' \<notin> set ws"
  shows "t = a @ CHR ''}'' # ws \<Longrightarrow> \<exists>out. substitute_bare caps t = Some out"
proof (induction "length t" arbitrary: t a rule: less_induct)
  case less
  show ?case
  proof (cases "split_once (CHR ''{'') t")
    case None
    then show ?thesis by (simp add: substitute_bare.simps)
  next
    case (Some br)
    obtain b r where br: "br = (b, r)" by (cases br)
    then have s: "t = b @ CHR ''{'' # r" "CHR ''{'' \<notin> set b" using Some by (auto simp: split_once_Some)
    have in_a: "\<exists>a2. r = a2 @ CHR ''}'' # ws"
      using less.prems s assms by (auto simp: append_eq_append_conv2 append_eq_Cons_conv Cons_eq_append_conv)
    then obtain a2 where a2: "r = a2 @ CHR ''}'' # ws" by blast
    then obtain n rest where nr: "split_once (CHR ''}'') r = Some (n, rest)"
      by (cases "split_once (CHR ''}'') r") (auto simp: split_once_None)
    then have r: "r = n @ CHR ''}'' # rest" "CHR ''}'' \<notin> set n" by (auto simp: split_once_Some)
    have "rest = ws \<or> (\<exists>a3. rest = a3 @ CHR ''}'' # ws)"
      using r a2 by (auto simp: append_eq_append_conv2 append_eq_Cons_conv Cons_eq_append_conv)
    moreover have "\<exists>out. substitute_bare caps ws = Some out"
      using assms by (subst substitute_bare.simps) (simp add: split_once_None [THEN iffD2])
    moreover have "length rest < length t" using s(1) r(1) by simp
    ultimately have "\<exists>out. substitute_bare caps rest = Some out" using less.hyps by blast
    then show ?thesis using Some br nr by (subst substitute_bare.simps) auto
  qed
qed

lemma trim_ends: "\<exists>a w. s = a @ trim s @ w \<and> (\<forall>c \<in> set w. is_space c)"
proof -
  define d where "d = dropWhile is_space s"
  have s: "s = takeWhile is_space s @ d" by (simp add: d_def)
  have "d = rev (takeWhile is_space (rev d) @ dropWhile is_space (rev d))" by simp
  then have d: "d = rev (dropWhile is_space (rev d)) @ rev (takeWhile is_space (rev d))" by (simp only: rev_append)
  have t: "trim s = rev (dropWhile is_space (rev d))" by (simp add: trim_def trim_by_def d_def)
  have "s = takeWhile is_space s @ trim s @ rev (takeWhile is_space (rev d))" unfolding t d [symmetric] by (rule s)
  moreover have "\<forall>c \<in> set (rev (takeWhile is_space (rev d))). is_space c" by (auto dest: set_takeWhileD)
  ultimately show ?thesis by blast
qed

lemma check_template_subst:
  assumes "check_template t params w = Inr ()"
  shows "\<exists>out. substitute t caps = Some out"
proof (cases "split_once (CHR ''='') t")
  case None
  then show ?thesis using assms by (auto simp: check_template_def substitute_def check_bare_slots_def intro: check_slots_subst)
next
  case (Some hv)
  obtain h v where hv: "hv = (h, v)" by (cases hv)
  show ?thesis
  proof (cases "json_shape (trim v)")
    case False
    then show ?thesis using assms Some hv
      by (auto simp: check_template_def substitute_def check_bare_slots_def intro: check_slots_subst)
  next
    case True
    then obtain r where r: "trim v = r @ ''}''" by (auto simp: json_shape_def ends_with_iff)
    obtain a w where w: "v = a @ trim v @ w" "\<forall>c \<in> set w. is_space c" using trim_ends by blast
    have "CHR ''{'' \<notin> set w" using w(2) by (auto simp: is_space_def ch_def)
    moreover have "t = (h @ CHR ''='' # a @ r) @ CHR ''}'' # w" using Some hv w(1) r by (simp add: split_once_Some)
    ultimately have "\<exists>out. substitute_bare caps t = Some out" by (intro closing_brace_subst)
    then show ?thesis using Some hv True by (simp add: substitute_def)
  qed
qed

definition alias_ok :: "path_alias \<Rightarrow> bool" where
  "alias_ok a \<longleftrightarrow> (\<exists>w. check_template (al_target_path a) (al_params a) w = Inr ())
     \<and> (\<exists>w. check_template (al_target_query a) (al_params a) w = Inr ())"

lemma compile_ok: "compile p tp tq = Inr a \<Longrightarrow> alias_ok a"
  by (auto simp: compile_def alias_ok_def split: option.splits sum.splits prod.splits if_splits)

lemma compile_from_ok: "compile_from out decls = Inr as \<Longrightarrow> list_all alias_ok out \<Longrightarrow> list_all alias_ok as"
  by (induction out decls rule: compile_from.induct) (auto split: if_splits sum.splits dest: compile_ok)

lemma try_match_ok: "alias_ok a \<Longrightarrow> try_match a path \<noteq> Panicked"
proof -
  assume a: "alias_ok a"
  have s: "\<exists>x. substitute (al_target_path a) caps = Some x" "\<exists>x. substitute (al_target_query a) caps = Some x" for caps
    using a check_template_subst by (auto simp: alias_ok_def)
  show ?thesis
  proof (cases "capture (al_segs a) (parts path) []")
    case (Some caps)
    then show ?thesis using s [of caps] by (auto simp: try_match_def)
  qed (simp add: try_match_def)
qed

lemma rewrite_ok: "list_all alias_ok as \<Longrightarrow> rewrite as path \<noteq> Panicked"
  by (induction as path rule: rewrite.induct) (auto split: attempt.splits dest: try_match_ok)


text \<open>The table of the module's tests.\<close>

definition q_str :: "string \<Rightarrow> string" where
  "q_str s = QUOTE # s @ [QUOTE]"

definition demo_decl :: "string \<times> string \<times> string" where
  "demo_decl = (''/api/alias/students/:sid'', ''/api/collections/students'',
     ''options={'' @ q_str ''filters'' @ '':[{'' @ q_str ''value'' @ '':'' @ q_str ''{sid}'' @ ''}]}'')"


section \<open>Captures stay in their slot\<close>

definition delim :: "char \<Rightarrow> bool" where
  "delim c \<longleftrightarrow> \<not> unreserved c \<and> c \<noteq> CHR ''%''"

lemma hex_digit_in: "n < 16 \<Longrightarrow> hex_digit n \<in> set ''0123456789ABCDEF''"
proof -
  have "list_all (\<lambda>n. hex_digit n \<in> set ''0123456789ABCDEF'') [0..<16]" by code_simp
  then show "n < 16 \<Longrightarrow> ?thesis" by (auto simp only: list_all_iff set_upt atLeastLessThan_iff)
qed

lemma hex_digit_unreserved: "n < 16 \<Longrightarrow> unreserved (hex_digit n)"
proof -
  have "list_all unreserved ''0123456789ABCDEF''" by code_simp
  then show "n < 16 \<Longrightarrow> ?thesis" using hex_digit_in by (auto simp only: list_all_iff)
qed

lemma pct_no_delim: "c \<in> set (pct b) \<Longrightarrow> \<not> delim c"
  using hex_digit_unreserved [of "ch b div 16"] hex_digit_unreserved [of "ch b mod 16"]
  by (auto simp: pct_def delim_def)

lemma encode_no_delim [simp]: "filter delim (encode_into v) = []"
  by (auto simp: encode_into_def filter_empty_conv dest: pct_no_delim) (auto simp: delim_def split: if_splits dest: pct_no_delim)

definition same_keys :: "captures \<Rightarrow> captures \<Rightarrow> bool" where
  "same_keys c d \<longleftrightarrow> (\<forall>k. dget c k = None \<longleftrightarrow> dget d k = None)"

lemma subst_json_delims: "same_keys c d \<Longrightarrow> filter delim (subst_json c i t) = filter delim (subst_json d i t)"
proof (induction c i t rule: subst_json.induct)
  case (3 c x xs)
  have k: "dget c k = None \<longleftrightarrow> dget d k = None" for k using "3.prems" by (simp add: same_keys_def)
  consider "x = BACKSLASH \<and> xs \<noteq> []" | "\<not> (x = BACKSLASH \<and> xs \<noteq> [])" "x = QUOTE"
    | "\<not> (x = BACKSLASH \<and> xs \<noteq> [])" "x \<noteq> QUOTE" "x \<noteq> CHR ''{''"
    | "\<not> (x = BACKSLASH \<and> xs \<noteq> [])" "x \<noteq> QUOTE" "x = CHR ''{''" by blast
  then show ?case
  proof cases
    case 1
    then show ?thesis using "3.IH"(1) "3.prems" by simp
  next
    case 2
    then show ?thesis using "3.IH"(2) "3.prems" by simp
  next
    case 3
    then show ?thesis using "3.IH"(6) "3.prems" by auto
  next
    case 4
    show ?thesis
    proof (cases "split_once (CHR ''}'') xs")
      case None
      with 4 show ?thesis using "3.IH"(3) "3.prems" by simp
    next
      case (Some nr)
      obtain n r where n: "nr = (n, r)" by (cases nr)
      show ?thesis
      proof (cases "dget c n")
        case None
        with 4 Some n k [of n] show ?thesis using "3.IH"(4) [OF 4 Some n [symmetric] None "3.prems"] by simp
      next
        case (Some v)
        then obtain w where "dget d n = Some w" using k [of n] by auto
        with 4 Some \<open>split_once _ xs = Some nr\<close> n show ?thesis
          using "3.IH"(5) [OF 4 \<open>split_once _ xs = Some nr\<close> n [symmetric] Some "3.prems"] by simp
      qed
    qed
  qed
qed auto

lemma substitute_bare_delims:
  "substitute_bare c t = Some x \<Longrightarrow> substitute_bare d t = Some y \<Longrightarrow> filter delim x = filter delim y"
proof (induction c t arbitrary: x y rule: substitute_bare.induct)
  case (1 c t)
  then show ?case
    by (subst (asm) (2 3) substitute_bare.simps) (auto split: option.splits)
qed

lemma substitute_delims:
  assumes "substitute t c = Some x" "substitute t d = Some y" "same_keys c d"
  shows "filter delim x = filter delim y"
proof (cases "\<exists>h v. split_once (CHR ''='') t = Some (h, v) \<and> json_shape (trim v) \<and> CHR ''{'' \<notin> set h")
  case True
  then show ?thesis using assms subst_json_delims [OF assms(3)] by (auto simp: substitute_def substitute_json_def)
next
  case False
  then have "substitute_bare c t = Some x" "substitute_bare d t = Some y"
    using assms by (auto simp: substitute_def split: option.splits if_splits)
  then show ?thesis by (rule substitute_bare_delims)
qed

lemma capture_keys:
  "capture segs ps c = Some x \<Longrightarrow> capture segs qs d = Some y \<Longrightarrow> length ps = length segs \<Longrightarrow> length qs = length segs
    \<Longrightarrow> same_keys c d \<Longrightarrow> same_keys x y"
proof (induction segs ps c arbitrary: qs d rule: capture.induct)
  case (1 e segs p ps c)
  then show ?case by (cases qs) (auto split: if_splits)
next
  case (2 n segs p ps c)
  then show ?case by (cases qs) (auto simp: same_keys_def)
qed auto

text \<open>
  Captured values cannot change the shape of the request they are put into. Whatever two paths
  an alias matches, the target paths and the queries it produces have the same delimiters in the
  same order (everything but letters, digits, \<open>-_.~\<close> and the percent sign): before it is
  percent-decoded, no value adds a path segment or a query parameter.
\<close>

theorem captures_stay_in_slot:
  assumes "try_match a p = Match (tp, tq)" "try_match a p' = Match (tp', tq')"
  shows "filter delim tp = filter delim tp' \<and> filter delim tq = filter delim tq'"
proof -
  obtain c where c: "length (parts p) = length (al_segs a)" "capture (al_segs a) (parts p) [] = Some c"
      "substitute (al_target_path a) c = Some tp" "substitute (al_target_query a) c = Some tq"
    using assms(1) by (auto simp: try_match_def split: if_splits option.splits)
  obtain d where d: "length (parts p') = length (al_segs a)" "capture (al_segs a) (parts p') [] = Some d"
      "substitute (al_target_path a) d = Some tp'" "substitute (al_target_query a) d = Some tq'"
    using assms(2) by (auto simp: try_match_def split: if_splits option.splits)
  have "same_keys c d" using capture_keys [OF c(2) d(2) c(1) d(1)] by (simp add: same_keys_def)
  then show ?thesis using substitute_delims c(3,4) d(3,4) by blast
qed

definition demo_alias :: path_alias where
  "demo_alias = (case compile_all [demo_decl] of Inr [a] \<Rightarrow> a | _ \<Rightarrow> undefined)"

lemma demo_matches:
  "\<exists>q q'. try_match demo_alias ''/students/S1'' = Match (''/api/collections/students'', q)
     \<and> try_match demo_alias ''/students/a&b=c'' = Match (''/api/collections/students'', q')"
proof -
  have "(case try_match demo_alias ''/students/S1'' of Match (p, _) \<Rightarrow> p = ''/api/collections/students'' | _ \<Rightarrow> False)"
    "(case try_match demo_alias ''/students/a&b=c'' of Match (p, _) \<Rightarrow> p = ''/api/collections/students'' | _ \<Rightarrow> False)"
    by code_simp+
  then show ?thesis by (auto split: attempt.splits prod.splits)
qed

lemma captures_stay_in_slot_witness:
  "\<exists>q q'. try_match demo_alias ''/students/S1'' = Match (''/api/collections/students'', q)
     \<and> try_match demo_alias ''/students/a&b=c'' = Match (''/api/collections/students'', q')
     \<and> filter delim q = filter delim q'"
  using demo_matches captures_stay_in_slot by blast

section \<open>Merging the queries\<close>

text \<open>How a query is read: the last pair of a key.\<close>

definition qget :: "string \<Rightarrow> string \<Rightarrow> string option" where
  "qget q k = map_of (rev (map (\<lambda>p. (pair_key p, p)) (split_on (CHR ''&'') q))) k"

lemma qget_join:
  assumes "\<forall>p \<in> set ps. CHR ''&'' \<notin> set p" "k \<noteq> []"
  shows "qget (join ''&'' ps) k = map_of (rev (map (\<lambda>p. (pair_key p, p)) ps)) k"
  using assms split_on_join [of ps "CHR ''&''"] by (cases "ps = []") (auto simp: qget_def pair_key_def)

lemma map_of_filter_key:
  "map_of (rev (map (\<lambda>p. (pair_key p, p)) (filter (\<lambda>p. P (pair_key p)) ps))) k =
    (if P k then map_of (rev (map (\<lambda>p. (pair_key p, p)) ps)) k else None)"
proof (induction ps rule: rev_induct)
  case (snoc p ps)
  then show ?case by auto
qed simp

lemma qget_None: "qget q k = None \<longleftrightarrow> k \<notin> pair_key ` set (split_on (CHR ''&'') q)"
  by (auto simp: qget_def map_of_eq_None_iff image_image)

lemma qget_Nil: "k \<noteq> [] \<Longrightarrow> qget [] k = None"
  by (simp add: qget_def pair_key_def)

text \<open>
  Merging the query of an alias with that of the request: read with the last pair of a key
  winning, every parameter comes from the request if it has it and from the alias otherwise, except
  that a database the alias names stands whatever the request says.
\<close>

theorem merge_query_reads:
  assumes k: "k \<noteq> []"
  shows "qget (merge_query a r) k =
    (if k = ''db'' \<and> qget a k \<noteq> None then qget a k
     else case qget (unwrap_or [] r) k of Some p \<Rightarrow> Some p | None \<Rightarrow> qget a k)"
proof (cases "a = [] \<or> unwrap_or [] r = []")
  case True
  then show ?thesis using qget_Nil [OF k] by (auto simp: merge_query_def Let_def split: option.splits)
next
  case False
  let ?r = "split_on (CHR ''&'') (unwrap_or [] r)" let ?a = "split_on (CHR ''&'') a"
  let ?pins = "list_ex (\<lambda>p. pair_key p = ''db'') ?a"
  let ?keep = "\<lambda>x. x = ''db'' \<or> x \<notin> pair_key ` set ?r" let ?pass = "\<lambda>x. \<not> ?pins \<or> x \<noteq> ''db''"
  have m: "merge_query a r = join ''&'' (filter (\<lambda>p. ?keep (pair_key p)) ?a @ filter (\<lambda>p. ?pass (pair_key p)) ?r)"
    using False by (simp add: merge_query_def Let_def)
  have pins: "?pins \<longleftrightarrow> qget a ''db'' \<noteq> None" by (force simp: qget_None list_ex_iff)
  have "qget (merge_query a r) k = map_of (rev (map (\<lambda>p. (pair_key p, p))
      (filter (\<lambda>p. ?keep (pair_key p)) ?a @ filter (\<lambda>p. ?pass (pair_key p)) ?r))) k"
    unfolding m using k by (intro qget_join) (auto dest: split_on_pieces)
  also have "\<dots> = (case (if ?pass k then qget (unwrap_or [] r) k else None) of
      Some p \<Rightarrow> Some p | None \<Rightarrow> if ?keep k then qget a k else None)"
    using map_of_filter_key [of ?keep ?a k] map_of_filter_key [of ?pass ?r k]
    by (simp only: map_append rev_append map_of_append map_add_def qget_def)
  finally show ?thesis
    using pins qget_None [of "unwrap_or [] r" k] by (auto split: option.splits)
qed

lemma merge_query_reads_witness:
  "qget (merge_query ''db=a&x=1'' (Some ''x=2&db=b'')) ''db'' = Some ''db=a''"
  using merge_query_reads [of "''db''" "''db=a&x=1''" "Some ''x=2&db=b''"]
  by (simp add: qget_def pair_key_def)

section \<open>Percent encoding\<close>

text \<open>The decoding of a query value by the inner router's extractor; an ill-formed escape stands for itself.\<close>

definition hex_val :: "char \<Rightarrow> nat option" where
  "hex_val c = (if is_digit c then Some (ch c - 48)
     else if 65 \<le> ch c \<and> ch c \<le> 70 then Some (ch c - 55)
     else if 97 \<le> ch c \<and> ch c \<le> 102 then Some (ch c - 87) else None)"

fun pct_decode :: "string \<Rightarrow> string" where
  "pct_decode (c # a # b # s) =
     (case (c = CHR ''%'', hex_val a, hex_val b) of
        (True, Some x, Some y) \<Rightarrow> char_of (16 * x + y) # pct_decode s
      | _ \<Rightarrow> c # pct_decode (a # b # s))"
| "pct_decode s = s"

lemma hex_val_digit: "n < 16 \<Longrightarrow> hex_val (hex_digit n) = Some n"
  by (auto simp: hex_val_def hex_digit_def is_digit_def ch_char_of)

lemma pct_decode_pct: "pct_decode (pct c @ s) = c # pct_decode s"
proof -
  have "16 * (ch c div 16) + ch c mod 16 = ch c" by simp
  then show ?thesis by (simp add: pct_def hex_val_digit)
qed

lemma pct_decode_plain: "c \<noteq> CHR ''%'' \<Longrightarrow> pct_decode (c # s) = c # pct_decode s"
proof (cases s)
  case (Cons a t)
  then show "c \<noteq> CHR ''%'' \<Longrightarrow> ?thesis" by (cases t) simp_all
qed simp

text \<open>
  Reencoding keeps a percent sign and encodes no hexadecimal digit, so what follows a percent sign
  is an escape after it exactly if it was one before.
\<close>

lemma hex_query_char: "hex_val c \<noteq> None \<Longrightarrow> query_char c"
proof -
  have "hex_val c \<noteq> None \<Longrightarrow> is_alnum c" by (auto simp: hex_val_def is_alnum_def split: if_splits)
  then show "hex_val c \<noteq> None \<Longrightarrow> ?thesis" by (simp add: query_char_def)
qed

lemma reencode_Cons: "reencode_bytes (c # s) = (if query_char c then [c] else pct c) @ reencode_bytes s"
  by (simp add: reencode_bytes_def)

lemma reencode_Nil [simp]: "reencode_bytes [] = []"
  by (simp add: reencode_bytes_def)

fun escape_tail :: "string \<Rightarrow> bool" where
  "escape_tail (a # b # s) \<longleftrightarrow> hex_val a \<noteq> None \<and> hex_val b \<noteq> None"
| "escape_tail s \<longleftrightarrow> False"

lemma pct_decode_no_escape: "\<not> escape_tail s \<Longrightarrow> pct_decode (CHR ''%'' # s) = CHR ''%'' # pct_decode s"
  by (cases s rule: escape_tail.cases) (auto split: option.splits)

lemma hex_val_percent [simp]: "hex_val (CHR ''%'') = None"
  by code_simp

lemma escape_tail_reencode: "escape_tail (reencode_bytes s) \<longleftrightarrow> escape_tail s"
proof (cases s)
  case (Cons a r)
  then show ?thesis using hex_query_char [of a] hex_query_char [of "hd r"]
    by (cases r; cases "hex_val a"; cases "hex_val (hd r)") (auto simp: reencode_Cons pct_def)
qed simp

lemma pct_decode_reencode: "pct_decode (reencode_bytes q) = pct_decode q"
proof (induction "length q" arbitrary: q rule: less_induct)
  case less
  show ?case
  proof (cases q)
    case (Cons c s)
    have IH: "pct_decode (reencode_bytes s) = pct_decode s" using less Cons by simp
    have pc: "query_char (CHR ''%'')" by code_simp
    consider "c \<noteq> CHR ''%''" | "c = CHR ''%''" "\<not> escape_tail s" | "c = CHR ''%''" "escape_tail s" by blast
    then show ?thesis
    proof cases
      case 1
      then show ?thesis using Cons IH by (simp add: reencode_Cons pct_decode_plain pct_decode_pct)
    next
      case 2
      then show ?thesis using Cons IH pc by (simp add: reencode_Cons pct_decode_no_escape escape_tail_reencode)
    next
      case 3
      then obtain a b t where s: "s = a # b # t" by (cases s rule: escape_tail.cases) auto
      have "pct_decode (reencode_bytes t) = pct_decode t" using less Cons s by simp
      then show ?thesis using Cons s 3 pc hex_query_char [of a] hex_query_char [of b] by (auto simp: reencode_Cons)
    qed
  qed simp
qed

lemma query_char_hex: "n < 16 \<Longrightarrow> query_char (hex_digit n)"
  using hex_query_char hex_val_digit by simp

lemma reencode_query_chars: "list_all query_char (reencode_bytes q)"
proof (induction q)
  case (Cons c s)
  have "query_char (CHR ''%'')" by code_simp
  with Cons show ?case by (simp add: reencode_Cons pct_def query_char_hex)
qed simp

lemma pct_decode_encode: "pct_decode (encode_into v @ s) = v @ pct_decode s"
proof (induction v)
  case (Cons c v)
  have "\<not> unreserved (CHR ''%'')" by code_simp
  then have "unreserved c \<Longrightarrow> c \<noteq> CHR ''%''" by auto
  with Cons show ?case by (auto simp: encode_into_def pct_decode_plain pct_decode_pct)
qed (simp add: encode_into_def)

text \<open>
  What the aliases encode is decoded back: a captured value followed by anything reads as that
  value followed by what that reads as, and reencoding a query for the inner request leaves only
  characters a URI allows and changes nothing of what is read, whatever escapes (well-formed or not)
  the query already had.
\<close>

theorem encoding_reads_back:
  "pct_decode (encode_into v @ s) = v @ pct_decode s
    \<and> pct_decode (reencode_bytes q) = pct_decode q \<and> list_all query_char (reencode_bytes q)"
  using pct_decode_encode pct_decode_reencode reencode_query_chars by blast

section \<open>What the aliases do not hold\<close>

text \<open>
  The database an alias names is compared with the raw keys of the request. An escaped key passes,
  is decoded to \<open>db\<close> by the inner router, and wins there as the last one.
\<close>

lemma alias_db_escape:
  "alias_dispatch [\<lparr>al_pattern = ''/api/alias/a'', al_target_path = ''/api/collections/c'', al_target_query = ''db=tenant'',
      al_segs = [Exact ''a''], al_params = []\<rparr>] ''/api/alias/a'' (Some ''d%62=other'') =
    Match ''/api/collections/c?db=tenant&d%62=other'' \<and> pct_decode ''d%62'' = ''db''"
  by code_simp

text \<open>
  A capture is encoded for the URL, not for the JSON literal it is put into: a quote in the path ends
  the literal once the query is decoded.
\<close>

lemma quote_leaves_literal:
  "case try_match demo_alias (''/students/'' @ [QUOTE] @ '',x'') of
     Match (_, q) \<Rightarrow> pct_decode q = ''options={'' @ q_str ''filters'' @ '':[{'' @ q_str ''value'' @ '':'' @ q_str [] @ '',x'' @ [QUOTE] @ ''}]}''
   | _ \<Rightarrow> False"
  by code_simp

text \<open>Captures are taken from the raw path, escapes included, and encoded once more.\<close>

lemma captures_encoded_twice:
  "case alias_dispatch [demo_alias] ''/api/alias/students/a%20b'' None of
     Match u \<Rightarrow> contains_str ''a%2520b'' u | _ \<Rightarrow> False"
  by code_simp

text \<open>A JSON template is copied byte by byte, each as a character: text beyond ASCII is garbled.\<close>

lemma template_garbled: "substitute_json [CHR 0xC3, CHR 0xA9] [] = [CHR 0xC3, CHR 0x83, CHR 0xC2, CHR 0xA9]"
  by code_simp

text \<open>
  Only the realtime lanes are refused as targets. An alias of the login route loads, and its requests
  pass the loose limiter of the aliases but not the strict one of the account routes.
\<close>

lemma alias_reaches_login:
  "case compile_all [(''/api/alias/in'', ''/api/auth/login'', [])] of
     Inr table \<Rightarrow> alias_dispatch table ''/api/alias/in'' None = Match ''/api/auth/login'' | _ \<Rightarrow> False"
  by code_simp

end
