(* ===== verification/Files.thy ===== *)
theory Files
  imports Writes Bytes
begin

unbundle bit_operations_syntax

text \<open>
  Managed files (\<open>files.rs\<close>): uploads, downloads, signed URLs, removal and the sweeper. The bytes
  live under \<open>file_dir\<close>, named by their SHA-256; their metadata is a field of an ordinary document.
  The file system is a map from the entries of that directory to contents and modification times;
  whether its operations succeed is part of the request. Times are microseconds. SHA-256 and the
  multipart parser are parameters.
\<close>

section \<open>Configuration and pure helpers\<close>

record file_conf =
  fc_dir :: "string option"
  fc_max_bytes :: nat
  fc_max_batch :: nat
  fc_mime_allow :: "string list"
  fc_sign_secret :: string

definition file_conf_from_cfg :: "string option \<Rightarrow> nat \<Rightarrow> nat \<Rightarrow> string list \<Rightarrow> string \<Rightarrow> file_conf" where
  "file_conf_from_cfg dir max_mb max_batch mime_allow sign_secret =
     \<lparr>fc_dir = dir, fc_max_bytes = min (max_mb * (1024 * 1024)) (2 ^ 64 - 1), fc_max_batch = max_batch,
      fc_mime_allow = mime_allow, fc_sign_secret = sign_secret\<rparr>"

definition files_on :: "file_conf \<Rightarrow> bool" where
  "files_on conf \<longleftrightarrow> fc_dir conf \<noteq> None"

definition xor_byte :: "nat \<Rightarrow> char \<Rightarrow> char" where
  "xor_byte n c = char_of (n XOR ch c)"

definition hmac_sha256 :: "(string \<Rightarrow> string) \<Rightarrow> string \<Rightarrow> string \<Rightarrow> string" where
  "hmac_sha256 sha key msg =
     (let k = (if 64 < length key then sha key else key);
          kb = k @ replicate (64 - length k) (CHR 0x00);
          ipad = map (xor_byte 0x36) kb;
          opad = map (xor_byte 0x5c) kb
      in sha (opad @ sha (ipad @ msg)))"

definition NL :: char where "NL = CHR 0x0A"

definition sig_msg :: "string \<Rightarrow> string \<Rightarrow> string \<Rightarrow> string \<Rightarrow> nat \<Rightarrow> string" where
  "sig_msg db coll i field expiry = db @ NL # coll @ NL # i @ NL # field @ NL # show_nat expiry"

definition mint_sig :: "(string \<Rightarrow> string) \<Rightarrow> string \<Rightarrow> string \<Rightarrow> string \<Rightarrow> string \<Rightarrow> string \<Rightarrow> nat \<Rightarrow> string" where
  "mint_sig sha secret db coll i field expiry = hex (hmac_sha256 sha secret (sig_msg db coll i field expiry))"

definition verify_sig :: "(string \<Rightarrow> string) \<Rightarrow> nat \<Rightarrow> string \<Rightarrow> string \<Rightarrow> string \<Rightarrow> string \<Rightarrow> string \<Rightarrow> nat \<Rightarrow> string \<Rightarrow> bool" where
  "verify_sig sha now_secs secret db coll i field expiry sig =
     (if secret = [] \<or> expiry < now_secs then False
      else let want = mint_sig sha secret db coll i field expiry
           in length want = length sig \<and> byte_diff want sig = 0)"

text \<open>A single range \<open>bytes=A-B\<close>, \<open>bytes=A-\<close> or \<open>bytes=-N\<close>.\<close>

definition parse_range :: "string \<Rightarrow> nat \<Rightarrow> (nat \<times> nat) option" where
  "parse_range header sz = (case strip_prefix ''bytes='' header of
     None \<Rightarrow> None
   | Some spec \<Rightarrow> (case split_once (CHR ''-'') (trim spec) of
       None \<Rightarrow> None
     | Some (a, b) \<Rightarrow>
         if a = [] then (case parse_uint 64 b of
             None \<Rightarrow> None
           | Some n \<Rightarrow> if n = 0 \<or> sz = 0 then None else Some (sz - min n sz, sz - 1))
         else (case parse_uint 64 a of
             None \<Rightarrow> None
           | Some start \<Rightarrow> (case (if b = [] then Some (sz - 1) else parse_uint 64 b) of
               None \<Rightarrow> None
             | Some end_ \<Rightarrow> if end_ < start then None else Some (start, min end_ (sz - 1))))))"

definition png_magic :: string where
  "png_magic = CHR 0x89 # ''PNG'' @ [CHR 0x0D, CHR 0x0A, CHR 0x1A, CHR 0x0A]"

definition magic_ok :: "string \<Rightarrow> string \<Rightarrow> bool" where
  "magic_ok mime head =
     (let m = ascii_lower mime in
      if m = ''image/png'' then starts_with png_magic head
      else if m = ''image/jpeg'' then starts_with [CHR 0xFF, CHR 0xD8, CHR 0xFF] head
      else if m = ''image/gif'' then starts_with ''GIF87a'' head \<or> starts_with ''GIF89a'' head
      else if m = ''image/webp'' then 12 \<le> length head \<and> starts_with ''RIFF'' head \<and> take 4 (drop 8 head) = ''WEBP''
      else if m = ''application/pdf'' then starts_with ''%PDF-'' head
      else True)"

definition is_hexdigit :: "char \<Rightarrow> bool" where
  "is_hexdigit c \<longleftrightarrow> is_digit c \<or> (65 \<le> ch c \<and> ch c \<le> 70) \<or> (97 \<le> ch c \<and> ch c \<le> 102)"

definition as_file_meta :: "json \<Rightarrow> string option" where
  "as_file_meta v = (case Option.bind (jget v ''sha256'') as_str of
     None \<Rightarrow> None
   | Some sha \<Rightarrow> (case Option.bind (jget v ''state'') as_str of
       None \<Rightarrow> None
     | Some st \<Rightarrow> if (st = ''ready'' \<or> st = ''pending'') \<and> length sha = 64 \<and> list_all is_hexdigit sha then Some sha else None))"

section \<open>Targets\<close>

datatype file_target = BatchTarget string | SingleTarget string string string

definition parse_target :: "string \<Rightarrow> (response, file_target) result" where
  "parse_target path =
     (let segs = filter (\<lambda>s. s \<noteq> []) (split_on (CHR ''/'') (trim_matches (CHR ''/'') path));
          n = length segs
      in if n = 0 then Inl (err 400 ''path needs collection[/id[/field]]'')
         else let coll = (if n \<le> 2 then segs ! 0 else join ''/'' (take (n - 2) segs));
                  i = (if n = 1 then [] else if n = 2 then segs ! 1 else segs ! (n - 2));
                  field = (if n = 1 then [] else if n = 2 then ''file'' else segs ! (n - 1))
              in if coll = [] then Inl (err 400 ''path needs collection[/id[/field]]'')
                 else case denied_internal coll of
                   Some r \<Rightarrow> Inl r
                 | None \<Rightarrow>
                     if i = [] then (case valid_names coll None of Some r \<Rightarrow> Inl r | None \<Rightarrow> Inr (BatchTarget coll))
                     else (case valid_names coll (Some i) of
                         Some r \<Rightarrow> Inl r
                       | None \<Rightarrow> if \<not> valid_collection_path field then Inl (err 400 ''invalid field name'')
                                 else Inr (SingleTarget coll i field)))"

definition file_off :: response where
  "file_off = err 503 ''files not configured (file_dir unset)''"

definition uploader :: "auth_context option \<Rightarrow> string" where
  "uploader auth = (case auth of None \<Rightarrow> ''-'' | Some a \<Rightarrow> uid a)"

definition meta_value :: "nat \<Rightarrow> string \<Rightarrow> string \<Rightarrow> string \<Rightarrow> nat \<Rightarrow> string \<Rightarrow> string \<Rightarrow> string \<Rightarrow> json option \<Rightarrow> json" where
  "meta_value now ts name mime sz sha state who created =
     (let m = dict_of [(''name'', JStr name), (''mime'', JStr mime), (''size'', jint (int sz)), (''sha256'', JStr sha),
                (''state'', JStr state), (''pendingSince'', jint (int now)), (''uploader'', JStr who)]
      in JObj (if state = ''ready'' then stamp_update ts m created else stamp_new ts m))"

section \<open>The directory\<close>

text \<open>
  \<open>fs_top\<close>: the entries directly in the directory (the temporary files). \<open>fs_shard\<close>: the entries
  one directory down, by the name of that directory and their own. Each has its content and the time
  it was last written; renaming keeps both.
\<close>

record file_dir =
  fs_top :: "(string \<times> (string \<times> nat)) list"
  fs_shard :: "((string \<times> string) \<times> (string \<times> nat)) list"

definition bytes_path :: "string \<Rightarrow> string \<times> string" where
  "bytes_path sha = (take 2 sha, sha)"

definition assoc_put :: "'k \<Rightarrow> 'v \<Rightarrow> ('k \<times> 'v) list \<Rightarrow> ('k \<times> 'v) list" where
  "assoc_put k v m = (k, v) # filter (\<lambda>e. fst e \<noteq> k) m"

definition assoc_del :: "'k \<Rightarrow> ('k \<times> 'v) list \<Rightarrow> ('k \<times> 'v) list" where
  "assoc_del k m = filter (\<lambda>e. fst e \<noteq> k) m"

text \<open>Which file operations fail, and with what message.\<close>

record file_io =
  io_dir :: "string option"
  io_create :: "string option"
  io_write :: "string option"
  io_flush :: "string option"
  io_stat :: "string option"
  io_mkdir :: "string option"
  io_rename :: "string option"

definition unavailable :: "string \<Rightarrow> string option \<Rightarrow> (response, unit) result" where
  "unavailable what x = (case x of Some e \<Rightarrow> Inl (err 503 (what @ e)) | None \<Rightarrow> Inr ())"

section \<open>Upload\<close>

record part =
  pt_name :: string
  pt_mime :: string
  pt_tmp :: string
  pt_size :: nat
  pt_sha :: string

text \<open>
  A field of the multipart body: its name, file name and content type, its chunks, and the error
  that ends it, if any.
\<close>

record mp_field =
  mp_name :: "string option"
  mp_file_name :: "string option"
  mp_content_type :: "string option"
  mp_chunks :: "string list"
  mp_error :: "string option"
  mp_now :: nat

text \<open>\<open>chars().take(n)\<close>: continuation bytes belong to the character before them.\<close>

fun take_chars :: "nat \<Rightarrow> string \<Rightarrow> string" where
  "take_chars n [] = []"
| "take_chars n (c # cs) =
     (if 128 \<le> ch c \<and> ch c < 192 then c # take_chars n cs
      else case n of 0 \<Rightarrow> [] | Suc m \<Rightarrow> c # take_chars m cs)"

text \<open>The loop of \<open>store_part\<close>: what has been written, and the first twelve bytes.\<close>

fun write_chunks :: "file_conf \<Rightarrow> file_io \<Rightarrow> string option \<Rightarrow> string \<Rightarrow> string list \<Rightarrow> string \<Rightarrow> string \<Rightarrow>
    (response \<times> bool, string \<times> string) result \<times> string" where
  "write_chunks conf io mperr tmp [] content head =
     (case mperr of
        Some e \<Rightarrow> (Inl (err 400 (''multipart read: '' @ e), False), content)
      | None \<Rightarrow> (Inr (content, head), content))"
| "write_chunks conf io mperr tmp (chunk # cs) content head =
     (if fc_max_bytes conf < length content + length chunk then
        (Inl (err 413 (''file exceeds file_max_mb ('' @ show_nat (fc_max_bytes conf) @ '' bytes in)''), True), content)
      else case io_write io of
        Some e \<Rightarrow> (Inl (err 503 (''file store write: '' @ e), False), content)
      | None \<Rightarrow> write_chunks conf io mperr tmp cs (content @ chunk)
          (if length head < 12 then head @ take (12 - length head) chunk else head))"

definition store_part :: "(string \<Rightarrow> string) \<Rightarrow> file_conf \<Rightarrow> file_io \<Rightarrow> string \<Rightarrow> mp_field \<Rightarrow> file_dir \<Rightarrow> (response, part) result \<times> file_dir" where
  "store_part sha conf io pid f fs =
     (let name = take_chars 256 (unwrap_or ''upload'' (mp_file_name f));
          mime = unwrap_or [] (mp_content_type f)
      in if \<not> list_ex (\<lambda>a. eq_ignore_case a mime) (fc_mime_allow conf) then
           (Inl (err 415 (''mime `'' @ mime @ ''` not allowed'')), fs)
         else let tmp = ''.tmp-'' @ pid @ ''-'' @ show_nat (mp_now f) in
         case io_create io of
           Some e \<Rightarrow> (Inl (err 503 (''file store unwritable: '' @ e)), fs)
         | None \<Rightarrow>
             (case write_chunks conf io (mp_error f) tmp (mp_chunks f) [] [] of
                (Inl (r, removed), content) \<Rightarrow>
                  (Inl r, if removed then fs\<lparr>fs_top := assoc_del tmp (fs_top fs)\<rparr>
                          else fs\<lparr>fs_top := assoc_put tmp (content, mp_now f) (fs_top fs)\<rparr>)
              | (Inr (content, head), _) \<Rightarrow>
                  (let fs1 = fs\<lparr>fs_top := assoc_put tmp (content, mp_now f) (fs_top fs)\<rparr> in
                   case io_flush io of
                     Some e \<Rightarrow> (Inl (err 503 (''file store flush: '' @ e)), fs1)
                   | None \<Rightarrow>
                       if \<not> magic_ok mime head then
                         (Inl (err 415 (''content does not match declared '' @ mime)), fs1\<lparr>fs_top := assoc_del tmp (fs_top fs1)\<rparr>)
                       else (Inr \<lparr>pt_name = name, pt_mime = mime, pt_tmp = tmp, pt_size = length content, pt_sha = hex (sha content)\<rparr>, fs1))))"

definition promote :: "file_io \<Rightarrow> string \<Rightarrow> string \<Rightarrow> file_dir \<Rightarrow> (response, unit) result \<times> file_dir" where
  "promote io tmp sha fs =
     (case unavailable ''file store stat: '' (io_stat io) of
        Inl r \<Rightarrow> (Inl r, fs)
      | Inr _ \<Rightarrow>
          if map_of (fs_shard fs) (bytes_path sha) \<noteq> None then (Inr (), fs\<lparr>fs_top := assoc_del tmp (fs_top fs)\<rparr>)
          else (case unavailable ''file store mkdir: '' (io_mkdir io) of
              Inl r \<Rightarrow> (Inl r, fs)
            | Inr _ \<Rightarrow> (case unavailable ''file store rename: '' (io_rename io) of
                Inl r \<Rightarrow> (Inl r, fs)
              | Inr _ \<Rightarrow> (case map_of (fs_top fs) tmp of
                  None \<Rightarrow> (Inl (err 503 ''file store rename: not found''), fs)
                | Some x \<Rightarrow> (Inr (), fs\<lparr>fs_top := assoc_del tmp (fs_top fs),
                    fs_shard := assoc_put (bytes_path sha) x (fs_shard fs)\<rparr>)))))"

text \<open>The errors of the driver, as these handlers answer them.\<close>

definition driver_err :: "app_error \<Rightarrow> response" where
  "driver_err e = err (status_code e) (err_text e)"

definition remove_field :: "'s driver \<Rightarrow> string \<Rightarrow> string \<Rightarrow> string \<Rightarrow> 's \<Rightarrow> (string, unit) result \<times> 's" where
  "remove_field d coll i field s = (case db_get d s coll i of
     Inl e \<Rightarrow> (Inl (err_text e), s)
   | Inr None \<Rightarrow> (Inr (), s)
   | Inr (Some doc) \<Rightarrow>
       if dget (d_data doc) field = None then (Inr (), s)
       else let data = ddel field (d_data doc) in
         if data = [] then
           (case db_delete d s coll i of (Inl e, s') \<Rightarrow> (Inl (err_text e), s') | (Inr _, s') \<Rightarrow> (Inr (), s'))
         else
           (case db_set d s coll i (doc\<lparr>d_data := data\<rparr>) False of (Inl e, s') \<Rightarrow> (Inl (err_text e), s') | (Inr _, s') \<Rightarrow> (Inr (), s')))"

text \<open>A request to the file routes: what the other routes read, and the multipart body.\<close>

record file_request =
  fq_auth :: "auth_context option"
  fq_path :: string
  fq_query :: "(string, string) dict"
  fq_fields :: "mp_field list"
  fq_broken :: "string option"
  fq_range :: "string option"
  fq_if_none_match :: "string option"
  fq_now :: nat
  fq_now_secs :: nat
  fq_ts :: string

definition created_of :: "doc option \<Rightarrow> string \<Rightarrow> json option" where
  "created_of existing field = (case existing of
     None \<Rightarrow> None
   | Some d \<Rightarrow> (case dget (d_data d) ''createdAt'' of
       Some v \<Rightarrow> Some v
     | None \<Rightarrow> Option.bind (dget (d_data d) field) (\<lambda>v. jget v ''createdAt'')))"

text \<open>The three steps of \<open>commit_file\<close>: the pending marker, the bytes, the final metadata.\<close>

definition commit_pending :: "'s driver \<Rightarrow> string \<Rightarrow> file_request \<Rightarrow> string \<Rightarrow> string \<Rightarrow> string \<Rightarrow> part \<Rightarrow> doc option \<Rightarrow> 's gw \<Rightarrow>
    (response, string) result \<times> 's gw" where
  "commit_pending d name fq coll i field p existing s =
     (let pending = meta_value (fq_now fq) (fq_ts fq) (pt_name p) (pt_mime p) (pt_size p) (pt_sha p) ''pending'' (uploader (fq_auth fq)) None in
      case existing of
        Some x \<Rightarrow>
          (case on_db name (\<lambda>t. db_set d t coll i \<lparr>d_id = i, d_data = dput field pending (d_data x)\<rparr> False) s of
             (Inl e, s') \<Rightarrow> (Inl (driver_err e), s')
           | (Inr _, s') \<Rightarrow> (Inr i, s'))
      | None \<Rightarrow>
          (case on_db name (\<lambda>t. db_insert d t coll \<lparr>d_id = i, d_data = [(field, pending)]\<rparr>) s of
             (Inl e, s') \<Rightarrow> (Inl (driver_err e), s')
           | (Inr back, s') \<Rightarrow> (Inr (d_id back), s')))"

definition commit_ready :: "'s driver \<Rightarrow> string \<Rightarrow> file_request \<Rightarrow> string \<Rightarrow> string \<Rightarrow> string \<Rightarrow> string \<Rightarrow> part \<Rightarrow> json option \<Rightarrow> 's gw \<Rightarrow>
    (response, string \<times> json) result \<times> 's gw" where
  "commit_ready d name fq pol coll doc_id field p created s =
     (let ready = meta_value (fq_now fq) (fq_ts fq) (pt_name p) (pt_mime p) (pt_size p) (pt_sha p) ''ready'' (uploader (fq_auth fq)) created in
      case db_get d (gw_db s name) coll doc_id of
        Inl e \<Rightarrow> (Inl (driver_err e), s)
      | Inr got \<Rightarrow>
          (let data = dput field ready (case got of None \<Rightarrow> [] | Some x \<Rightarrow> d_data x) in
           case on_db name (\<lambda>t. db_set d t coll doc_id \<lparr>d_id = doc_id, d_data = data\<rparr> False) s of
             (Inl e, s') \<Rightarrow> (Inl (driver_err e), s')
           | (Inr saved, s') \<Rightarrow> (Inr (doc_id, ready), emit pol (put_change pol doc_id (Some saved)) s')))"

definition commit_file :: "'s config \<Rightarrow> file_io \<Rightarrow> 's driver \<Rightarrow> string \<Rightarrow> file_request \<Rightarrow> string \<Rightarrow> string \<Rightarrow> string \<Rightarrow> string \<Rightarrow> part \<Rightarrow> doc option \<Rightarrow>
    's gw \<Rightarrow> file_dir \<Rightarrow> (response, string \<times> json) result \<times> 's gw \<times> file_dir" where
  "commit_file cf io d name fq pol coll i field p existing s fs =
     (if \<not> policy_allow (cf_policy cf) (fq_auth fq) pol (if existing \<noteq> None then Update else Create) (Some \<lparr>d_id = i, d_data = []\<rparr>) then
        (Inl forbidden, s, fs\<lparr>fs_top := assoc_del (pt_tmp p) (fs_top fs)\<rparr>)
      else case commit_pending d name fq coll i field p existing s of
        (Inl r, s1) \<Rightarrow> (Inl r, s1, fs)
      | (Inr doc_id, s1) \<Rightarrow> (case promote io (pt_tmp p) (pt_sha p) fs of
          (Inl r, fs1) \<Rightarrow> (Inl r, snd (on_db name (remove_field d coll doc_id field) s1), fs1)
        | (Inr _, fs1) \<Rightarrow> (case commit_ready d name fq pol coll doc_id field p (created_of existing field) s1 of
            (Inl r, s2) \<Rightarrow> (Inl r, s2, fs1)
          | (Inr out, s2) \<Rightarrow> (Inr out, s2, fs1))))"

fun collect_parts :: "(string \<Rightarrow> string) \<Rightarrow> file_conf \<Rightarrow> file_io \<Rightarrow> string \<Rightarrow> string option \<Rightarrow> mp_field list \<Rightarrow> part list \<Rightarrow> file_dir \<Rightarrow>
    (response, part list) result \<times> file_dir" where
  "collect_parts sha conf io pid broken [] parts fs =
     (case broken of Some e \<Rightarrow> (Inl (err 400 (''multipart read: '' @ e)), fs) | None \<Rightarrow> (Inr parts, fs))"
| "collect_parts sha conf io pid broken (f # ms) parts fs =
     (if mp_name f \<noteq> Some ''file'' then collect_parts sha conf io pid broken ms parts fs
      else if fc_max_batch conf \<le> length parts then
        (Inl (err 400 (''too many file parts (file_max_batch='' @ show_nat (fc_max_batch conf) @ '')'')), fs)
      else case store_part sha conf io pid f fs of
        (Inl r, fs') \<Rightarrow> (Inl r, fs')
      | (Inr p, fs') \<Rightarrow> collect_parts sha conf io pid broken ms (parts @ [p]) fs')"

fun commit_batch :: "'s config \<Rightarrow> file_io \<Rightarrow> 's driver \<Rightarrow> string \<Rightarrow> file_request \<Rightarrow> string \<Rightarrow> string \<Rightarrow> part list \<Rightarrow> json list \<Rightarrow>
    's gw \<Rightarrow> file_dir \<Rightarrow> response \<times> 's gw \<times> file_dir" where
  "commit_batch cf io d name fq pol coll [] out s fs = (resp 200 (BJson (JArr out)), s, fs)"
| "commit_batch cf io d name fq pol coll (p # ps) out s fs =
     (case commit_file cf io d name fq pol coll [] ''file'' p None s fs of
        (Inl r, s', fs') \<Rightarrow> (r, s', fs')
      | (Inr (i, meta), s', fs') \<Rightarrow>
          commit_batch cf io d name fq pol coll ps (out @ [JObj [(''file'', meta), (''id'', JStr i)]]) s' fs')"

definition upload_target :: "'s config \<Rightarrow> file_io \<Rightarrow> 's driver \<Rightarrow> string \<Rightarrow> file_request \<Rightarrow> file_target \<Rightarrow> part list \<Rightarrow> 's gw \<Rightarrow> file_dir \<Rightarrow>
    response \<times> 's gw \<times> file_dir" where
  "upload_target cf io d name fq target parts s fs = (case target of
     BatchTarget coll \<Rightarrow> commit_batch cf io d name fq (dotted name coll) coll parts [] (ensure d name coll s) fs
   | SingleTarget coll i field \<Rightarrow>
       if 1 < length parts then
         (err 400 ''single-file route takes 1 `file` part (batch via collection route)'', s,
          fs\<lparr>fs_top := foldl (\<lambda>m p. assoc_del (pt_tmp p) m) (fs_top fs) parts\<rparr>)
       else
         (let s1 = ensure d name coll s in
          case commit_file cf io d name fq (dotted name coll) coll i field (hd parts)
              (ok_flatten (db_get d (gw_db s1 name) coll i)) s1 fs of
            (Inl r, s2, fs2) \<Rightarrow> (r, s2, fs2)
          | (Inr (doc_id, meta), s2, fs2) \<Rightarrow>
              (resp 200 (BJson (JObj (dput field meta [(''id'', JStr doc_id)]))), s2, fs2)))"

definition upload :: "(string \<Rightarrow> string) \<Rightarrow> 's config \<Rightarrow> file_conf \<Rightarrow> file_io \<Rightarrow> string \<Rightarrow> file_request \<Rightarrow> 's gw \<Rightarrow> file_dir \<Rightarrow>
    response \<times> 's gw \<times> file_dir" where
  "upload sha cf conf io pid fq s fs =
     (case deny_if_read_only cf of
        Some r \<Rightarrow> (r, s, fs)
      | None \<Rightarrow>
          if \<not> files_on conf then (file_off, s, fs)
          else case resolve_db_name (fq_query fq) of
            Inl r \<Rightarrow> (r, s, fs)
          | Inr name \<Rightarrow> (case parse_target (fq_path fq) of
              Inl r \<Rightarrow> (r, s, fs)
            | Inr target \<Rightarrow> (case db_for cf name of
                Inl r \<Rightarrow> (r, s, fs)
              | Inr d \<Rightarrow> (case unavailable ''file store unwritable: '' (io_dir io) of
                  Inl r \<Rightarrow> (r, s, fs)
                | Inr _ \<Rightarrow> (case collect_parts sha conf io pid (fq_broken fq) (fq_fields fq) [] fs of
                    (Inl r, fs1) \<Rightarrow> (r, s, fs1)
                  | (Inr parts, fs1) \<Rightarrow>
                      if parts = [] then (err 400 ''multipart needs >= 1 `file` part'', s, fs1)
                      else upload_target cf io d name fq target parts s fs1)))))"

section \<open>Download\<close>

text \<open>
  A reply: an ordinary response, \<open>304\<close>, an unsatisfiable range, or bytes with their status, type,
  announced length, entity tag, content range and body.
\<close>

record bytes_reply =
  by_status :: nat
  by_mime :: string
  by_length :: nat
  by_etag :: string
  by_range :: "string option"
  by_body :: string

datatype file_reply = Plain response | Unchanged | Unsatisfiable string | Bytes bytes_reply

definition field_suffix :: "string \<Rightarrow> string" where
  "field_suffix field = (if field = ''file'' then [] else CHR ''/'' # field)"

text \<open>The body is read from \<open>pos\<close> in pieces of at most 64 KiB until \<open>left\<close> bytes are sent or the file ends.\<close>

function stream_bytes :: "string \<Rightarrow> nat \<Rightarrow> nat \<Rightarrow> string" where
  "stream_bytes content pos left =
     (if left = 0 then []
      else let buf = take (min left (64 * 1024)) (drop pos content) in
        if buf = [] then [] else buf @ stream_bytes content (pos + length buf) (left - length buf))"
  by auto
termination
  by (relation "measure (\<lambda>(_, _, left). left)") auto

declare stream_bytes.simps [simp del]

definition shell :: "string \<Rightarrow> doc" where
  "shell i = \<lparr>d_id = i, d_data = []\<rparr>"

definition signed_ok :: "(string \<Rightarrow> string) \<Rightarrow> file_conf \<Rightarrow> file_request \<Rightarrow> string \<Rightarrow> string \<Rightarrow> string \<Rightarrow> string \<Rightarrow> bool" where
  "signed_ok sha conf fq name coll i field =
     (case (dget (fq_query fq) ''exp'', dget (fq_query fq) ''sig'') of
        (Some e, Some sig) \<Rightarrow> (case parse_uint 64 e of
            Some expiry \<Rightarrow> verify_sig sha (fq_now_secs fq) (fc_sign_secret conf) name coll i field expiry sig
          | None \<Rightarrow> False)
      | _ \<Rightarrow> False)"

definition mint_reply :: "(string \<Rightarrow> string) \<Rightarrow> file_conf \<Rightarrow> file_request \<Rightarrow> string \<Rightarrow> string \<Rightarrow> string \<Rightarrow> string \<Rightarrow> string \<Rightarrow> response" where
  "mint_reply sha conf fq name coll i field secs_text =
     (if fc_sign_secret conf = [] then err 503 ''signed URLs off (file_sign_secret unset)''
      else let secs = unwrap_or 0 (parse_uint 64 secs_text) in
        if secs = 0 \<or> 3600 < secs then err 400 ''sign needs 1..=3600 seconds''
        else let expiry = fq_now_secs fq + secs;
                 sig = mint_sig sha (fc_sign_secret conf) name coll i field expiry;
                 url = ''/api/files/'' @ coll @ ''/'' @ i @ field_suffix field @ ''?db='' @ name @ ''&exp='' @ show_nat expiry @ ''&sig='' @ sig
             in resp 200 (BJson (JObj [(''exp'', jint (int expiry)), (''url'', JStr url)])))"

definition serve_bytes :: "file_dir \<Rightarrow> file_request \<Rightarrow> json \<Rightarrow> file_reply" where
  "serve_bytes fs fq meta =
     (if Option.bind (jget meta ''state'') as_str \<noteq> Some ''ready'' then Plain (err 404 ''no such file'')
      else case (Option.bind (jget meta ''sha256'') as_str, Option.bind (jget meta ''mime'') as_str, Option.bind (jget meta ''size'') as_u64) of
        (Some sha, Some mime, Some z) \<Rightarrow>
          (let sz = nat z in
           if as_file_meta meta = None then Plain (err 404 ''no such file'')
           else case map_of (fs_shard fs) (bytes_path sha) of
             None \<Rightarrow> Plain (err 404 ''no such file'')
           | Some (content, _) \<Rightarrow>
               (let etag = [CHR 34] @ sha @ [CHR 34] in
                if (case fq_if_none_match fq of
                      Some v \<Rightarrow> list_ex (\<lambda>t. trim t = etag \<or> trim t = ''*'') (split_on (CHR '','') v) | None \<Rightarrow> False)
                then Unchanged
                else let full = (0, sz - 1, 200) in
                  case (case fq_range fq of
                      None \<Rightarrow> Some full
                    | Some h \<Rightarrow> (case parse_range h sz of
                        None \<Rightarrow> Some full
                      | Some (a, b) \<Rightarrow> if sz \<le> a then None else Some (a, b, 206))) of
                    None \<Rightarrow> Unsatisfiable (''bytes */'' @ show_nat sz)
                  | Some (start, end_, status) \<Rightarrow>
                      (let len = end_ - start + 1 in
                       Bytes \<lparr>by_status = status, by_mime = mime, by_length = len, by_etag = etag,
                         by_range = (if status = 206 then Some (''bytes '' @ show_nat start @ ''-'' @ show_nat end_ @ ''/'' @ show_nat sz) else None),
                         by_body = stream_bytes content start len\<rparr>)))
      | _ \<Rightarrow> Plain (err 404 ''no such file''))"

definition download :: "(string \<Rightarrow> string) \<Rightarrow> 's config \<Rightarrow> file_conf \<Rightarrow> file_request \<Rightarrow> 's gw \<Rightarrow> file_dir \<Rightarrow> file_reply" where
  "download sha cf conf fq s fs =
     (if \<not> files_on conf then Plain file_off
      else case parse_target (fq_path fq) of
        Inl r \<Rightarrow> Plain r
      | Inr (BatchTarget _) \<Rightarrow> Plain (err 400 ''GET needs collection/id[/field]'')
      | Inr (SingleTarget coll i field) \<Rightarrow>
          (case resolve_db_name (fq_query fq) of
             Inl r \<Rightarrow> Plain r
           | Inr name \<Rightarrow> (case db_for cf name of
               Inl r \<Rightarrow> Plain r
             | Inr d \<Rightarrow>
                 (let doc = ok_flatten (db_get d (gw_db s name) coll i);
                      allowed = (policy_allow (cf_policy cf) (fq_auth fq) (dotted name coll) Get
                                   (Some (case doc of Some x \<Rightarrow> x | None \<Rightarrow> shell i))
                                 \<or> signed_ok sha conf fq name coll i field)
                  in case dget (fq_query fq) ''sign'' of
                       Some secs \<Rightarrow>
                         if \<not> allowed then Plain forbidden else Plain (mint_reply sha conf fq name coll i field secs)
                     | None \<Rightarrow>
                         if \<not> allowed then Plain forbidden
                         else (case Option.bind doc (\<lambda>x. dget (d_data x) field) of
                             None \<Rightarrow> Plain (err 404 ''no such file'')
                           | Some meta \<Rightarrow> serve_bytes fs fq meta)))))"

section \<open>Removal\<close>

definition remove_file :: "'s config \<Rightarrow> file_conf \<Rightarrow> file_request \<Rightarrow> 's gw \<Rightarrow> response \<times> 's gw" where
  "remove_file cf conf fq s =
     halt (deny_if_read_only cf) s
     (halt (deny (\<not> files_on conf) file_off) s
     (or_return (resolve_db_name (fq_query fq)) s (\<lambda>name.
     or_return (parse_target (fq_path fq)) s (\<lambda>target. (case target of
       BatchTarget _ \<Rightarrow> (err 400 ''DELETE needs collection/id[/field]'', s)
     | SingleTarget coll i field \<Rightarrow>
         or_return (db_for cf name) s (\<lambda>d.
           (let doc = ok_flatten (db_get d (gw_db s name) coll i); pol = dotted name coll in
            if \<not> policy_allow (cf_policy cf) (fq_auth fq) pol Delete (Some (case doc of Some x \<Rightarrow> x | None \<Rightarrow> shell i)) then (forbidden, s)
            else if (case doc of None \<Rightarrow> True | Some x \<Rightarrow> dget (d_data x) field = None) then (err 404 ''no such file'', s)
            else case on_db name (remove_field d coll i field) s of
              (Inr _, s1) \<Rightarrow> (resp 200 (BJson (JObj [(''ok'', JBool True)])),
                 emit pol (put_change pol i (ok_flatten (db_get d (gw_db s1 name) coll i))) s1)
            | (Inl e, s1) \<Rightarrow> (err 500 e, s1))))))))"

section \<open>The sweeper\<close>

definition elapsed :: "nat \<Rightarrow> nat \<Rightarrow> nat option" where
  "elapsed now t = (if t \<le> now then Some (now - t) else None)"

definition HOUR :: nat where "HOUR = 3600000000"

definition old_tmp :: "nat \<Rightarrow> string \<Rightarrow> nat \<Rightarrow> bool" where
  "old_tmp now n mtime \<longleftrightarrow> starts_with ''.tmp-'' n \<and> (case elapsed now mtime of Some d \<Rightarrow> HOUR < d | None \<Rightarrow> False)"

text \<open>The pages of one collection: the loop ends with a page that is not full.\<close>

partial_function (option) scan_pages :: "'s driver \<Rightarrow> 's \<Rightarrow> string \<Rightarrow> nat \<Rightarrow> doc list \<Rightarrow> doc list option" where
  "scan_pages d s coll offset acc =
     (let docs = (case db_list d s coll (default_query\<lparr>q_limit := Some 500, q_offset := Some offset\<rparr>) of Inl _ \<Rightarrow> [] | Inr ds \<Rightarrow> ds) in
      if docs = [] then Some acc
      else if length docs < 500 then Some (acc @ docs)
      else scan_pages d s coll (offset + length docs) (acc @ docs))"

definition stale_field :: "nat \<Rightarrow> json \<Rightarrow> bool" where
  "stale_field cutoff v \<longleftrightarrow> Option.bind (jget v ''state'') as_str = Some ''pending''
     \<and> (case Option.bind (jget v ''pendingSince'') as_u64 of Some t \<Rightarrow> t < int cutoff | None \<Rightarrow> False)
     \<and> Option.bind (jget v ''sha256'') as_str \<noteq> None"

definition ready_sha :: "json \<Rightarrow> string option" where
  "ready_sha v = (case as_file_meta v of
     Some sha \<Rightarrow> if Option.bind (jget v ''state'') as_str = Some ''ready'' then Some (ascii_lower sha) else None
   | None \<Rightarrow> None)"

definition doc_shas :: "doc \<Rightarrow> string list" where
  "doc_shas x = filter_map (\<lambda>(k, v). ready_sha v) (d_data x)"

definition doc_stale :: "nat \<Rightarrow> doc \<Rightarrow> string list" where
  "doc_stale cutoff x = map fst (filter (\<lambda>(k, v). stale_field cutoff v) (d_data x))"

text \<open>What one database contributes: the referenced hashes, and the stale fields as collection, id and field.\<close>

definition swept :: "string \<Rightarrow> bool" where
  "swept c \<longleftrightarrow> \<not> starts_with ''__'' (hd (split_on (CHR ''/'') c))"

definition scan_db :: "'s driver \<Rightarrow> 's \<Rightarrow> nat \<Rightarrow> (string list \<times> (string \<times> string \<times> string) list) option" where
  "scan_db d s cutoff = (case db_list_collections d s of
     Inl _ \<Rightarrow> Some ([], [])
   | Inr colls \<Rightarrow>
       (case collect_opt (map (\<lambda>c. map_option (\<lambda>docs. (c, docs)) (scan_pages d s c 0 [])) (filter swept colls)) of
          None \<Rightarrow> None
        | Some cds \<Rightarrow> Some (concat (map (\<lambda>(c, docs). concat (map doc_shas docs)) cds),
            concat (map (\<lambda>(c, docs). concat (map (\<lambda>x. map (\<lambda>k. (c, d_id x, k)) (doc_stale cutoff x)) docs)) cds))))"

definition is_shard :: "string \<Rightarrow> string \<Rightarrow> bool" where
  "is_shard sn n \<longleftrightarrow> length sn = 2 \<and> list_all is_hexdigit sn \<and> length n = 64 \<and> list_all is_hexdigit n"

definition orphan :: "nat \<Rightarrow> string list \<Rightarrow> (string \<times> string) \<times> (string \<times> nat) \<Rightarrow> bool" where
  "orphan now referenced e = (case e of ((sn, n), (_, mtime)) \<Rightarrow>
     is_shard sn n \<and> ascii_lower n \<notin> set referenced
     \<and> \<not> (case elapsed now mtime of Some d \<Rightarrow> d < 600000000 | None \<Rightarrow> False))"

fun remove_stale :: "'s driver \<Rightarrow> string \<Rightarrow> (string \<times> string \<times> string) list \<Rightarrow> 's gw \<Rightarrow> 's gw" where
  "remove_stale d name [] s = s"
| "remove_stale d name ((c, i, k) # rest) s = remove_stale d name rest (snd (on_db name (remove_field d c i k) s))"

text \<open>\<open>None\<close>: a driver whose pages never end. The databases are visited in name order.\<close>

fun scan_all :: "(string \<times> 's driver) list \<Rightarrow> 's gw \<Rightarrow> nat \<Rightarrow> (string list \<times> (string \<times> 's driver \<times> (string \<times> string \<times> string) list) list) option" where
  "scan_all [] s cutoff = Some ([], [])"
| "scan_all ((name, d) # dbs) s cutoff =
     (case (scan_db d (gw_db s name) cutoff, scan_all dbs s cutoff) of
        (Some (shas, stale), Some (shas', stales)) \<Rightarrow> Some (shas @ shas', (name, d, stale) # stales)
      | _ \<Rightarrow> None)"

definition sweep_once :: "'s config \<Rightarrow> nat \<Rightarrow> 's gw \<Rightarrow> file_dir \<Rightarrow> ('s gw \<times> file_dir) option" where
  "sweep_once cf now s fs =
     (let fs1 = fs\<lparr>fs_top := filter (\<lambda>(n, (_, mtime)). \<not> old_tmp now n mtime) (fs_top fs)\<rparr> in
      case scan_all (cf_dbs cf) s (now - HOUR) of
        None \<Rightarrow> None
      | Some (referenced, stales) \<Rightarrow>
          Some (foldl (\<lambda>g (name, d, stale). remove_stale d name stale g) s stales,
                fs1\<lparr>fs_shard := filter (\<lambda>e. \<not> orphan now referenced e) (fs_shard fs1)\<rparr>))"

end
