(* ===== verification/Filing.thy ===== *)
theory Filing
  imports Files Guarantees
begin

unbundle bit_operations_syntax

text \<open>
  What the file routes guarantee: who may read which bytes, what a signed URL opens, that a
  download returns what was uploaded, and what the sweeper keeps.
\<close>

section \<open>Targets and signatures\<close>

lemma target_gates:
  assumes "(if p then Inl e else if c = [] then Inl e
      else case denied_internal c of Some r \<Rightarrow> Inl r
      | None \<Rightarrow> if j = [] then (case valid_names c None of Some r \<Rightarrow> Inl r | None \<Rightarrow> Inr (BatchTarget c))
          else (case valid_names c (Some j) of Some r \<Rightarrow> Inl r
            | None \<Rightarrow> if \<not> valid_collection_path f then Inl e' else Inr (SingleTarget c j f)))
      = Inr (SingleTarget coll i field)"
  shows "denied_internal coll = None \<and> valid_collection_path coll \<and> valid_doc_id i \<and> valid_collection_path field"
  using assms by (auto simp: valid_names_None split: if_splits option.splits)

lemma parse_target_single:
  assumes "parse_target path = Inr (SingleTarget coll i field)"
  shows "denied_internal coll = None" "valid_collection_path coll" "valid_doc_id i" "valid_collection_path field"
  using target_gates [OF assms [unfolded parse_target_def Let_def]] by auto

lemma resolve_db_valid: "resolve_db_name q = Inr n \<Longrightarrow> valid_db_name n"
  by (auto simp: resolve_db_name_def Let_def split: if_splits)

lemma ch_NL: "ch NL = 10"
  by (simp add: NL_def ch_def)

lemma name_char_NL: "\<not> name_char NL"
  using name_char_code [of NL] by (auto simp: ch_NL)

lemma valid_path_NL: "valid_collection_path c \<Longrightarrow> NL \<notin> set c"
  using valid_path_chars [of c NL] name_char_NL by (auto simp: NL_def)

lemma valid_db_NL: "valid_db_name n \<Longrightarrow> NL \<notin> set n"
  using valid_db_chars name_char_NL by blast

lemma valid_doc_NL: "valid_doc_id i \<Longrightarrow> NL \<notin> set i"
  unfolding valid_doc_id_def list_ex_iff using ch_NL by force

lemma append_NL_cancel: "NL \<notin> set a \<Longrightarrow> NL \<notin> set b \<Longrightarrow> a @ NL # x = b @ NL # y \<longleftrightarrow> a = b \<and> x = y"
proof (induction a arbitrary: b)
  case (Cons c a)
  then show ?case by (cases b) auto
qed (auto simp: Cons_eq_append_conv)

text \<open>The signed message determines what was signed, because no part of it can hold a newline.\<close>

lemma sig_msg_inject:
  assumes "valid_db_name n" "valid_collection_path c" "valid_doc_id i" "valid_collection_path f"
    "valid_db_name n'" "valid_collection_path c'" "valid_doc_id i'" "valid_collection_path f'"
  shows "sig_msg n c i f e = sig_msg n' c' i' f' e' \<longleftrightarrow> n = n' \<and> c = c' \<and> i = i' \<and> f = f' \<and> e = e'"
  using assms by (simp add: sig_msg_def append_NL_cancel valid_path_NL valid_db_NL valid_doc_NL)

text \<open>What HMAC hashes for a message: the inner and the outer string.\<close>

definition hmac_key :: "(string \<Rightarrow> string) \<Rightarrow> string \<Rightarrow> string" where
  "hmac_key sha key = (let k = (if 64 < length key then sha key else key) in k @ replicate (64 - length k) (CHR 0x00))"

definition hmac_inner :: "(string \<Rightarrow> string) \<Rightarrow> string \<Rightarrow> string \<Rightarrow> string" where
  "hmac_inner sha key msg = map (xor_byte 0x36) (hmac_key sha key) @ msg"

definition hmac_outer :: "(string \<Rightarrow> string) \<Rightarrow> string \<Rightarrow> string \<Rightarrow> string" where
  "hmac_outer sha key msg = map (xor_byte 0x5c) (hmac_key sha key) @ sha (hmac_inner sha key msg)"

lemma hmac_alt: "hmac_sha256 sha key msg = sha (hmac_outer sha key msg)"
  by (simp add: hmac_sha256_def hmac_outer_def hmac_inner_def hmac_key_def Let_def)

lemma hmac_inject:
  assumes "inj_on sha {hmac_inner sha k m, hmac_inner sha k m', hmac_outer sha k m, hmac_outer sha k m'}"
  shows "hmac_sha256 sha k m = hmac_sha256 sha k m' \<longleftrightarrow> m = m'"
proof
  assume "hmac_sha256 sha k m = hmac_sha256 sha k m'"
  then have "hmac_outer sha k m = hmac_outer sha k m'"
    using assms by (auto simp: hmac_alt dest: inj_onD)
  then have "sha (hmac_inner sha k m) = sha (hmac_inner sha k m')" by (simp add: hmac_outer_def)
  then have "hmac_inner sha k m = hmac_inner sha k m'" using assms by (auto dest: inj_onD)
  then show "m = m'" by (simp add: hmac_inner_def)
qed simp

lemma verify_sig_iff:
  "verify_sig sha now secret db coll i field e sig
     \<longleftrightarrow> secret \<noteq> [] \<and> now \<le> e \<and> sig = mint_sig sha secret db coll i field e"
  by (auto simp: verify_sig_def Let_def byte_diff_zero not_less)

lemma signed_ok_iff:
  "signed_ok sha conf fq name coll i field \<longleftrightarrow> fc_sign_secret conf \<noteq> [] \<and>
     (\<exists>t e. dget (fq_query fq) ''exp'' = Some t \<and> parse_uint 64 t = Some e \<and> fq_now_secs fq \<le> e
        \<and> dget (fq_query fq) ''sig'' = Some (mint_sig sha (fc_sign_secret conf) name coll i field e))"
  by (auto simp: signed_ok_def verify_sig_iff split: option.splits)

section \<open>Reading\<close>

lemma stream_bytes_take: "stream_bytes content pos left = take left (drop pos content)"
proof (induction content pos left rule: stream_bytes.induct)
  case (1 content pos left)
  let ?b = "take (min left (64 * 1024)) (drop pos content)"
  show ?case
  proof (cases "left = 0 \<or> ?b = []")
    case True
    then show ?thesis by (subst stream_bytes.simps) auto
  next
    case False
    then have "stream_bytes content pos left = ?b @ take (left - length ?b) (drop (length ?b) (drop pos content))"
      using 1 by (subst stream_bytes.simps) (simp add: Let_def add.commute)
    also have "\<dots> = take left (drop pos content)"
      using take_add [of "length ?b" "left - length ?b" "drop pos content"] by (simp add: min_def split: if_splits)
    finally show ?thesis .
  qed
qed

lemma parse_range_ordered: "parse_range h sz = Some (a, b) \<Longrightarrow> a < sz \<Longrightarrow> a \<le> b \<and> b < sz"
  by (auto simp: parse_range_def Let_def split: option.splits if_splits)

text \<open>What \<open>serve_bytes\<close> sends, if it sends bytes.\<close>

definition served :: "file_dir \<Rightarrow> json \<Rightarrow> nat \<Rightarrow> bytes_reply \<Rightarrow> bool" where
  "served fs meta start b \<longleftrightarrow> (\<exists>h z content t. Option.bind (jget meta ''state'') as_str = Some ''ready''
     \<and> as_file_meta meta = Some h \<and> Option.bind (jget meta ''size'') as_u64 = Some z
     \<and> Option.bind (jget meta ''mime'') as_str = Some (by_mime b)
     \<and> map_of (fs_shard fs) (bytes_path h) = Some (content, t)
     \<and> by_etag b = [CHR 34] @ h @ [CHR 34]
     \<and> by_body b = take (by_length b) (drop start content)
     \<and> start + by_length b \<le> max 1 (nat z)
     \<and> (by_status b = 200 \<and> start = 0 \<and> by_length b = max 1 (nat z) \<and> by_range b = None
        \<or> by_status b = 206 \<and> by_range b = Some (''bytes '' @ show_nat start @ ''-'' @ show_nat (start + by_length b - 1) @ ''/'' @ show_nat (nat z))))"

lemma serve_bytes_served:
  assumes "serve_bytes fs fq meta = Bytes b"
  shows "\<exists>start. served fs meta start b"
proof -
  obtain h mime z where m: "Option.bind (jget meta ''state'') as_str = Some ''ready''"
      "Option.bind (jget meta ''sha256'') as_str = Some h" "Option.bind (jget meta ''mime'') as_str = Some mime"
      "Option.bind (jget meta ''size'') as_u64 = Some z" "as_file_meta meta \<noteq> None"
    using assms by (auto simp: serve_bytes_def Let_def split: option.splits if_splits)
  then have f: "as_file_meta meta = Some h" by (auto simp: as_file_meta_def split: option.splits if_splits)
  obtain content t where c: "map_of (fs_shard fs) (bytes_path h) = Some (content, t)"
    using assms by (auto simp: serve_bytes_def Let_def m f split: option.splits if_splits)
  have "b = \<lparr>by_status = 200, by_mime = mime, by_length = nat z - 1 - 0 + 1, by_etag = [CHR 34] @ h @ [CHR 34],
        by_range = None, by_body = stream_bytes content 0 (nat z - 1 - 0 + 1)\<rparr>
    \<or> (\<exists>r x y. parse_range r (nat z) = Some (x, y) \<and> x < nat z \<and> b = \<lparr>by_status = 206, by_mime = mime, by_length = y - x + 1,
        by_etag = [CHR 34] @ h @ [CHR 34], by_range = Some (''bytes '' @ show_nat x @ ''-'' @ show_nat y @ ''/'' @ show_nat (nat z)),
        by_body = stream_bytes content x (y - x + 1)\<rparr>)"
  proof (cases "fq_range fq")
    case None
    then show ?thesis using assms by (simp add: serve_bytes_def Let_def m f c split: if_splits)
  next
    case (Some r)
    show ?thesis
    proof (cases "parse_range r (nat z)")
      case None
      then show ?thesis using assms Some by (simp add: serve_bytes_def Let_def m f c split: if_splits)
    next
      case xy: (Some xy)
      obtain x y where "xy = (x, y)" by fastforce
      then show ?thesis using assms Some xy
        by (intro disjI2 exI [of _ r] exI [of _ x] exI [of _ y]) (simp add: serve_bytes_def Let_def m f c split: if_splits)
    qed
  qed
  then show ?thesis
  proof (elim disjE exE conjE)
    assume "b = \<lparr>by_status = 200, by_mime = mime, by_length = nat z - 1 - 0 + 1, by_etag = [CHR 34] @ h @ [CHR 34],
        by_range = None, by_body = stream_bytes content 0 (nat z - 1 - 0 + 1)\<rparr>"
    then have "served fs meta 0 b" using m f c by (auto simp: served_def stream_bytes_take)
    then show ?thesis ..
  next
    fix r x y
    assume r: "parse_range r (nat z) = Some (x, y)" "x < nat z" and b: "b = \<lparr>by_status = 206, by_mime = mime, by_length = y - x + 1,
        by_etag = [CHR 34] @ h @ [CHR 34], by_range = Some (''bytes '' @ show_nat x @ ''-'' @ show_nat y @ ''/'' @ show_nat (nat z)),
        by_body = stream_bytes content x (y - x + 1)\<rparr>"
    have o: "x \<le> y" "y < nat z" using parse_range_ordered [OF r] by auto
    have "served fs meta x b"
      unfolding served_def using m f c by (intro exI [of _ h] exI [of _ z] exI [of _ content] exI [of _ t])
        (use o in \<open>simp add: b stream_bytes_take\<close>)
    then show ?thesis ..
  qed
qed

text \<open>The checks on the way to the bytes.\<close>

lemma download_bytes:
  assumes "download sha cf conf fq s fs = Bytes b"
  obtains coll i field name d x meta where "files_on conf"
    "parse_target (fq_path fq) = Inr (SingleTarget coll i field)"
    "resolve_db_name (fq_query fq) = Inr name" "db_for cf name = Inr d"
    "ok_flatten (db_get d (gw_db s name) coll i) = Some x" "dget (d_data x) field = Some meta"
    "policy_allow (cf_policy cf) (fq_auth fq) (dotted name coll) Get (Some x) \<or> signed_ok sha conf fq name coll i field"
    "serve_bytes fs fq meta = Bytes b"
proof -
  obtain coll i field name d where t: "files_on conf" "parse_target (fq_path fq) = Inr (SingleTarget coll i field)"
      "resolve_db_name (fq_query fq) = Inr name" "db_for cf name = Inr d"
    using assms by (auto simp: download_def split: if_splits sum.splits file_target.splits)
  let ?doc = "ok_flatten (db_get d (gw_db s name) coll i)"
  have "\<exists>x meta. ?doc = Some x \<and> dget (d_data x) field = Some meta
      \<and> (policy_allow (cf_policy cf) (fq_auth fq) (dotted name coll) Get (Some x) \<or> signed_ok sha conf fq name coll i field)
      \<and> serve_bytes fs fq meta = Bytes b"
    using assms by (cases ?doc) (auto simp: download_def Let_def t split: option.splits if_splits)
  then show thesis using that t by blast
qed

section \<open>What an upload leaves\<close>

lemma map_of_assoc_put [simp]: "map_of (assoc_put k v m) j = (if j = k then Some v else map_of m j)"
  by (induction m) (auto simp: assoc_put_def)

lemma write_chunks_Inr:
  "write_chunks conf io e tmp cs content head = (Inr (c, h), x) \<Longrightarrow> length content \<le> fc_max_bytes conf
   \<Longrightarrow> c = content @ concat cs \<and> length c \<le> fc_max_bytes conf"
  by (induction conf io e tmp cs content head rule: write_chunks.induct) (auto split: option.splits if_splits)

text \<open>What a stored part records of the field it came from.\<close>

definition part_of :: "(string \<Rightarrow> string) \<Rightarrow> file_conf \<Rightarrow> mp_field \<Rightarrow> part \<Rightarrow> bool" where
  "part_of sha conf f p \<longleftrightarrow> pt_sha p = hex (sha (concat (mp_chunks f))) \<and> pt_size p = length (concat (mp_chunks f))
     \<and> pt_size p \<le> fc_max_bytes conf \<and> pt_mime p = unwrap_or [] (mp_content_type f)"

lemma store_part_Inr:
  assumes "store_part sha conf io pid f fs = (Inr p, fs')"
  shows "part_of sha conf f p \<and> map_of (fs_top fs') (pt_tmp p) = Some (concat (mp_chunks f), mp_now f) \<and> fs_shard fs' = fs_shard fs"
  using assms
  by (auto simp: store_part_def part_of_def Let_def dest!: write_chunks_Inr
      split: if_splits option.splits prod.splits sum.splits)

lemma collect_parts_filter:
  "collect_parts sha conf io pid broken ms parts fs
   = collect_parts sha conf io pid broken (filter (\<lambda>f. mp_name f = Some ''file'') ms) parts fs"
  by (induction sha conf io pid broken ms parts fs rule: collect_parts.induct) (auto split: sum.split prod.split)

lemma collect_parts_length:
  "collect_parts sha conf io pid broken ms parts fs = (Inr ps, fs') \<Longrightarrow> list_all (\<lambda>f. mp_name f = Some ''file'') ms
   \<Longrightarrow> length ps = length parts + length ms"
  by (induction sha conf io pid broken ms parts fs rule: collect_parts.induct)
    (auto split: sum.splits prod.splits option.splits if_splits)

lemma promote_Inr:
  assumes "promote io tmp h fs = (Inr (), fs')"
  shows "map_of (fs_shard fs') (bytes_path h) \<noteq> None
    \<and> map_of (fs_shard fs') (bytes_path h) = (case map_of (fs_shard fs) (bytes_path h) of Some x \<Rightarrow> Some x | None \<Rightarrow> map_of (fs_top fs) tmp)"
  using assms by (auto simp: promote_def split: sum.splits option.splits)

definition ready_meta :: "file_request \<Rightarrow> part \<Rightarrow> json option \<Rightarrow> json" where
  "ready_meta fq p created = meta_value (fq_now fq) (fq_ts fq) (pt_name p) (pt_mime p) (pt_size p) (pt_sha p) ''ready'' (uploader (fq_auth fq)) created"

lemma ready_meta_keys:
  "jget (ready_meta fq p created) ''state'' = Some (JStr ''ready'')"
  "jget (ready_meta fq p created) ''sha256'' = Some (JStr (pt_sha p))"
  "jget (ready_meta fq p created) ''mime'' = Some (JStr (pt_mime p))"
  "jget (ready_meta fq p created) ''size'' = Some (jint (int (pt_size p)))"
  by (cases created; simp add: ready_meta_def meta_value_def stamp_update_def or_insert_def jget_def Let_def dict_of_def
      dget_dextend)+

lemma hex_nibble_digit: "n < 16 \<Longrightarrow> is_hexdigit (hex_nibble n)"
  by (simp add: is_hexdigit_def is_digit_def ch_hex_nibble)

lemma ch_256: "ch c < 256"
  by (simp add: ch_def)

lemma hex_digits: "list_all is_hexdigit (hex b)"
  using ch_256 by (auto simp: hex_def list_all_iff intro!: hex_nibble_digit)

lemma on_db_Inr:
  "on_db n f s = (r, s') \<longleftrightarrow> (\<exists>t. f (gw_db s n) = (r, t) \<and> s' = s\<lparr>gw_db := (gw_db s)(n := t)\<rparr>)"
  by (auto simp: on_db_def split: prod.split)

lemma unavailable_Inr [simp]: "unavailable w x = Inr u \<longleftrightarrow> x = None"
  by (simp add: unavailable_def split: option.split)

lemma refusals:
  "deny_if_read_only cf = Some r \<Longrightarrow> r_status r = 503"
  "db_for cf n = Inl r \<Longrightarrow> r_status r \<noteq> 200" "unavailable w x = Inl r \<Longrightarrow> r_status r = 503"
  by (auto simp: deny_if_read_only_def db_for_def unavailable_def split: if_splits option.splits)

lemma store_part_Inl: "store_part sha conf io pid f fs = (Inl r, fs') \<Longrightarrow> r_status r \<noteq> 200"
proof -
  have "write_chunks conf io e tmp cs content head = (Inl (q, b), x) \<Longrightarrow> r_status q \<noteq> 200" for e tmp cs content head q b x
    by (induction conf io e tmp cs content head rule: write_chunks.induct) (auto split: option.splits if_splits)
  then show "store_part sha conf io pid f fs = (Inl r, fs') \<Longrightarrow> r_status r \<noteq> 200"
    by (force simp: store_part_def Let_def split: if_splits option.splits prod.splits sum.splits)
qed

lemma collect_parts_Inl:
  "collect_parts sha conf io pid broken ms parts fs = (Inl r, fs') \<Longrightarrow> r_status r \<noteq> 200"
  by (induction sha conf io pid broken ms parts fs rule: collect_parts.induct)
    (auto split: if_splits option.splits prod.splits sum.splits dest: store_part_Inl)

text \<open>The steps behind a successful upload.\<close>

lemma upload_steps:
  assumes "upload sha cf conf io pid fq s fs = (r, s', fs')" "r_status r = 200"
    "resolve_db_name (fq_query fq) = Inr n" "parse_target (fq_path fq) = Inr target"
  obtains d ps fs1 where "files_on conf" "db_for cf n = Inr d"
    "collect_parts sha conf io pid (fq_broken fq) (fq_fields fq) [] fs = (Inr ps, fs1)" "ps \<noteq> []"
    "upload_target cf io d n fq target ps s fs1 = (r, s', fs')"
  using assms by (auto simp: upload_def file_off_def dest: refusals collect_parts_Inl
      split: option.splits if_splits sum.splits prod.splits)

lemma commit_file_steps:
  assumes "commit_file cf io d n fq pol c i k p existing s fs = (Inr (j, meta), s', fs')"
  obtains s1 where "commit_pending d n fq c i k p existing s = (Inr j, s1)"
    "promote io (pt_tmp p) (pt_sha p) fs = (Inr (), fs')"
    "commit_ready d n fq pol c j k p (created_of existing k) s1 = (Inr (j, meta), s')"
    "policy_allow (cf_policy cf) (fq_auth fq) pol (if existing \<noteq> None then Update else Create) (Some \<lparr>d_id = i, d_data = []\<rparr>)"
proof -
  obtain a s1 where s1: "commit_pending d n fq c i k p existing s = (Inr a, s1)"
      "promote io (pt_tmp p) (pt_sha p) fs = (Inr (), fs')"
      "commit_ready d n fq pol c a k p (created_of existing k) s1 = (Inr (j, meta), s')"
      "policy_allow (cf_policy cf) (fq_auth fq) pol (if existing \<noteq> None then Update else Create) (Some \<lparr>d_id = i, d_data = []\<rparr>)"
    using assms by (auto simp: commit_file_def split: if_splits sum.splits prod.splits)
  moreover have "a = j" using s1(3) by (auto simp: commit_ready_def Let_def split: sum.splits prod.splits)
  ultimately show thesis using that by blast
qed

lemma commit_file_Inl:
  "commit_file cf io d n fq pol c i k p existing s fs = (Inl r, s', fs') \<Longrightarrow> r_status r \<noteq> 200"
  by (auto simp: commit_file_def commit_pending_def commit_ready_def driver_err_def forbidden_def promote_def Let_def
      dest: refusals split: if_splits sum.splits prod.splits option.splits)

lemma upload_target_steps:
  assumes "upload_target cf io d n fq (SingleTarget c i k) ps s fs = (r, s', fs')" "ps \<noteq> []" "r_status r = 200"
  obtains p j meta where "ps = [p]"
    "commit_file cf io d n fq (dotted n c) c i k p (ok_flatten (db_get d (gw_db (ensure d n c s) n) c i)) (ensure d n c s) fs
      = (Inr (j, meta), s', fs')"
proof -
  obtain p where "ps = [p]" using assms by (cases ps; cases "tl ps") (auto simp: upload_target_def split: if_splits)
  then show thesis using assms that
    by (auto simp: upload_target_def Let_def dest: commit_file_Inl split: sum.splits prod.splits)
qed

context gateway
begin

lemma set_on_db:
  assumes "gw_ok I s" "db_for cf n = Inr d" "on_db n (\<lambda>t. db_set d t c i x False) s = (Inr y, s')"
  shows "gw_ok I s'" "gw_docs view s' n (c, i) = Some \<lparr>d_id = i, d_data = dextend [] (d_data x)\<rparr>"
proof -
  obtain t where t: "db_set d (gw_db s n) c i x False = (Inr y, t)" "s' = s\<lparr>gw_db := (gw_db s)(n := t)\<rparr>"
    using assms(3) by (auto simp: on_db_Inr)
  note v = document_store.set_view [OF gateway_store.axioms(1) [OF db_for_store [OF assms(2)]] gw_ok_at [OF assms(1)] t(1)]
  show "gw_ok I s'" using v assms(1) t(2) by (simp add: on_db_ok)
  show "gw_docs view s' n (c, i) = Some \<lparr>d_id = i, d_data = dextend [] (d_data x)\<rparr>"
    using v t(2) by (simp add: gw_docs_def spec_put_def)
qed

lemma pending_written:
  assumes "gw_ok I s" "db_for cf n = Inr d" "i \<noteq> []" "commit_pending d n fq c i k p existing s = (Inr j, s')"
  shows "j = i \<and> gw_ok I s' \<and> (\<exists>x. gw_docs view s' n (c, i) = Some x \<and> dict_ok (d_data x))"
proof (cases existing)
  case None
  let ?m = "meta_value (fq_now fq) (fq_ts fq) (pt_name p) (pt_mime p) (pt_size p) (pt_sha p) ''pending'' (uploader (fq_auth fq)) None"
  obtain x t where x: "db_insert d (gw_db s n) c \<lparr>d_id = i, d_data = [(k, ?m)]\<rparr> = (Inr x, t)" "j = d_id x"
      "s' = s\<lparr>gw_db := (gw_db s)(n := t)\<rparr>"
    using assms(4) None by (auto simp: commit_pending_def Let_def on_db_Inr split: prod.splits sum.splits)
  from gateway_store.insert_view [OF db_for_store [OF assms(2)] gw_ok_at [OF assms(1)] x(1)] assms(1,3) x(2,3)
  show ?thesis by (auto simp: gw_docs_def on_db_ok)
next
  case (Some y)
  then show ?thesis using assms(4) set_on_db [OF assms(1,2)]
    by (auto simp: commit_pending_def Let_def split: prod.splits sum.splits)
qed

lemma ready_written:
  assumes "gw_ok I s" "db_for cf n = Inr d" "gw_docs view s n (c, i) = Some x" "dict_ok (d_data x)"
    "commit_ready d n fq pol c i k p created s = (Inr (j, meta), s')"
  shows "gw_ok I s' \<and> meta = ready_meta fq p created \<and> (\<exists>y. gw_docs view s' n (c, i) = Some y \<and> dget (d_data y) k = Some meta)"
proof -
  have g: "db_get d (gw_db s n) c i = Inr (Some x)"
    using document_store.get_view [OF gateway_store.axioms(1) [OF db_for_store [OF assms(2)]] gw_ok_at [OF assms(1)]] assms(3)
    by (simp add: gw_docs_def)
  let ?m = "ready_meta fq p created"
  obtain y s1 where y: "on_db n (\<lambda>t. db_set d t c i \<lparr>d_id = i, d_data = dput k ?m (d_data x)\<rparr> False) s = (Inr y, s1)"
      "meta = ?m" "s' = emit pol (put_change pol i (Some y)) s1"
    using assms(5) by (auto simp: commit_ready_def ready_meta_def Let_def g split: prod.splits sum.splits)
  from set_on_db [OF assms(1,2) y(1)] y(2,3) assms(4) show ?thesis
    by (simp add: dextend_empty)
qed

text \<open>A single upload that is answered with 200 has stored its one part and filed it as ready.\<close>

lemma single_upload:
  assumes "gw_ok I s" "upload sha cf conf io pid fq s fs = (r, s', fs')" "r_status r = 200"
    "parse_target (fq_path fq) = Inr (SingleTarget c i k)" "resolve_db_name (fq_query fq) = Inr n"
  shows "files_on conf \<and> (\<exists>d f p y created. db_for cf n = Inr d \<and> filter (\<lambda>f. mp_name f = Some ''file'') (fq_fields fq) = [f]
    \<and> part_of sha conf f p \<and> gw_ok I s' \<and> gw_docs view s' n (c, i) = Some y \<and> dget (d_data y) k = Some (ready_meta fq p created)
    \<and> map_of (fs_shard fs') (bytes_path (pt_sha p)) = (case map_of (fs_shard fs) (bytes_path (pt_sha p)) of
         Some x \<Rightarrow> Some x | None \<Rightarrow> Some (concat (mp_chunks f), mp_now f)))"
proof -
  let ?ms = "filter (\<lambda>f. mp_name f = Some ''file'') (fq_fields fq)"
  obtain d ps fs1 where d: "files_on conf" "db_for cf n = Inr d"
      "collect_parts sha conf io pid (fq_broken fq) (fq_fields fq) [] fs = (Inr ps, fs1)" "ps \<noteq> []"
      "upload_target cf io d n fq (SingleTarget c i k) ps s fs1 = (r, s', fs')"
    by (rule upload_steps [OF assms(2,3,5,4)])
  have "length ps = length ?ms"
    using collect_parts_length [of sha conf io pid "fq_broken fq" ?ms "[]" fs ps fs1] d(3) collect_parts_filter
    by (simp add: list_all_iff)
  moreover from upload_target_steps [OF d(5,4) assms(3)] obtain p s2 j meta where p: "ps = [p]"
      "commit_file cf io d n fq (dotted n c) c i k p (ok_flatten (db_get d (gw_db (ensure d n c s) n) c i)) (ensure d n c s) fs1
        = (Inr (j, meta), s', fs')" by blast
  ultimately obtain f where f: "?ms = [f]" by (cases ?ms) auto
  have "collect_parts sha conf io pid (fq_broken fq) [f] [] fs = (Inr [p], fs1)"
    using d(3) p(1) collect_parts_filter [of sha conf io pid "fq_broken fq" "fq_fields fq"] f by simp
  then have "store_part sha conf io pid f fs = (Inr p, fs1)"
    using f by (auto simp: filter_eq_Cons_iff split: if_splits prod.splits sum.splits option.splits)
  note stored = store_part_Inr [OF this]
  have q: "gw_ok I (ensure d n c s)" using ensure_quiet [OF assms(1) d(2)] by blast
  obtain s1 created where c: "commit_pending d n fq c i k p (ok_flatten (db_get d (gw_db (ensure d n c s) n) c i)) (ensure d n c s) = (Inr j, s1)"
      "promote io (pt_tmp p) (pt_sha p) fs1 = (Inr (), fs')"
      "commit_ready d n fq (dotted n c) c j k p created s1 = (Inr (j, meta), s')"
    using commit_file_steps [OF p(2)] by blast
  have "i \<noteq> []" using parse_target_single(3) [OF assms(4)] by (simp add: valid_doc_id_def)
  from pending_written [OF q d(2) this c(1)] obtain x where x: "j = i" "gw_ok I s1"
      "gw_docs view s1 n (c, i) = Some x" "dict_ok (d_data x)" by blast
  from ready_written [OF x(2) d(2) x(3,4) c(3) [unfolded x(1)]] obtain y where
      "gw_ok I s'" "gw_docs view s' n (c, i) = Some y" "dget (d_data y) k = Some (ready_meta fq p created)" by blast
  with d(1,2) f stored promote_Inr [OF c(2)] show ?thesis
    by (intro conjI exI [of _ d] exI [of _ f] exI [of _ p] exI [of _ y] exI [of _ created])
      (auto split: option.split)
qed

end

section \<open>Properties\<close>

text \<open>
  C9. Bytes are sent only with permission, and only the right ones. If a download answers with
  bytes, its path names a valid, unreserved collection, document and field of a configured
  database; the document is stored and the policy lets the caller read it, or the URL carries a
  time that has not passed and the signature of exactly this database, collection, document,
  field and time under the configured, nonempty secret; the field holds well-formed metadata in
  state ready; and the body is the announced slice, in bounds of the recorded size, of the blob
  filed under the hash in that metadata.
\<close>

theorem download_is_authorized:
  assumes "download sha cf conf fq s fs = Bytes b"
  shows "\<exists>coll i field name d x meta start. parse_target (fq_path fq) = Inr (SingleTarget coll i field)
    \<and> denied_internal coll = None \<and> valid_collection_path coll \<and> valid_doc_id i
    \<and> resolve_db_name (fq_query fq) = Inr name \<and> db_for cf name = Inr d
    \<and> db_get d (gw_db s name) coll i = Inr (Some x) \<and> dget (d_data x) field = Some meta
    \<and> (policy_allow (cf_policy cf) (fq_auth fq) (dotted name coll) Get (Some x)
       \<or> fc_sign_secret conf \<noteq> [] \<and> (\<exists>t e. dget (fq_query fq) ''exp'' = Some t \<and> parse_uint 64 t = Some e \<and> fq_now_secs fq \<le> e
            \<and> dget (fq_query fq) ''sig'' = Some (mint_sig sha (fc_sign_secret conf) name coll i field e)))
    \<and> served fs meta start b"
proof -
  from download_bytes [OF assms] obtain coll i field name d x meta where
    t: "parse_target (fq_path fq) = Inr (SingleTarget coll i field)" "resolve_db_name (fq_query fq) = Inr name"
       "db_for cf name = Inr d" "ok_flatten (db_get d (gw_db s name) coll i) = Some x" "dget (d_data x) field = Some meta"
    and a: "policy_allow (cf_policy cf) (fq_auth fq) (dotted name coll) Get (Some x) \<or> signed_ok sha conf fq name coll i field"
    and b: "serve_bytes fs fq meta = Bytes b" by metis
  obtain start where "served fs meta start b" using serve_bytes_served [OF b] ..
  moreover have "db_get d (gw_db s name) coll i = Inr (Some x)"
    using t(4) by (auto simp: ok_flatten_def split: sum.splits option.splits)
  moreover note parse_target_single(1-3) [OF t(1)]
  ultimately show ?thesis using t a [unfolded signed_ok_iff] by blast
qed

text \<open>
  C35. A signed URL opens one file until one time. If a request passes with a signature that was
  minted for some valid target and expiry, then it asks for that very target in that very database
  with that expiry, and the expiry has not passed; the hash function is only assumed not to
  collide on the four strings that the two signatures hash.
\<close>

theorem signed_url_opens_one_file:
  assumes "parse_target mpath = Inr (SingleTarget c i k)" "resolve_db_name mq = Inr n"
    and "parse_target (fq_path fq) = Inr (SingleTarget c' i' k')" "resolve_db_name (fq_query fq) = Inr n'"
    and "dget (fq_query fq) ''sig'' = Some (mint_sig sha (fc_sign_secret conf) n c i k e)"
    and "signed_ok sha conf fq n' c' i' k'"
    and "\<And>e'. inj_on sha (let secret = fc_sign_secret conf; m = sig_msg n c i k e; m' = sig_msg n' c' i' k' e' in
        {hmac_inner sha secret m, hmac_inner sha secret m', hmac_outer sha secret m, hmac_outer sha secret m'})"
  shows "n' = n \<and> c' = c \<and> i' = i \<and> k' = k \<and> Option.bind (dget (fq_query fq) ''exp'') (parse_uint 64) = Some e \<and> fq_now_secs fq \<le> e"
proof -
  obtain t e' where e: "dget (fq_query fq) ''exp'' = Some t" "parse_uint 64 t = Some e'" "fq_now_secs fq \<le> e'"
      "mint_sig sha (fc_sign_secret conf) n c i k e = mint_sig sha (fc_sign_secret conf) n' c' i' k' e'"
    using assms(5,6) by (auto simp: signed_ok_iff)
  then have "sig_msg n c i k e = sig_msg n' c' i' k' e'"
    using assms(7) [of e'] by (simp add: mint_sig_def Let_def hmac_inject)
  with sig_msg_inject [of n c i k n' c' i' k' e e'] e assms(1-4) show ?thesis
    by (simp add: parse_target_single resolve_db_valid)
qed

text \<open>
  C12. A download returns what was uploaded. When an upload to a document and field is answered
  with 200, its body had exactly one file part; and a later download of that path that may read
  the document, with no range and no entity tag, answers 200 with the type of that part, its
  length and its bytes, unless it was empty or other bytes with the same SHA-256 were already
  stored. The drivers only have to meet the store contract.
\<close>

theorem upload_then_download:
  assumes "gateway cf view I" "gw_ok I s" "upload sha cf conf io pid uq s fs = (r, s', fs')" "r_status r = 200"
    and "parse_target (fq_path uq) = Inr (SingleTarget c i k)" "resolve_db_name (fq_query uq) = Inr n"
    and "fq_path dq = fq_path uq" "resolve_db_name (fq_query dq) = Inr n" "dget (fq_query dq) ''sign'' = None"
    and "fq_range dq = None" "fq_if_none_match dq = None"
    and "policy_allow (cf_policy cf) (fq_auth dq) (dotted n c) Get (gw_docs view s' n (c, i))"
    and "fc_max_bytes conf < 2 ^ 64" "\<And>x. length (sha x) = 32"
  shows "\<exists>f. filter (\<lambda>f. mp_name f = Some ''file'') (fq_fields uq) = [f] \<and> (let bytes = concat (mp_chunks f); h = hex (sha bytes) in
    bytes \<noteq> [] \<longrightarrow> (\<forall>old t. map_of (fs_shard fs) (bytes_path h) = Some (old, t) \<longrightarrow> old = bytes) \<longrightarrow>
    download sha cf conf dq s' fs' = Bytes \<lparr>by_status = 200, by_mime = unwrap_or [] (mp_content_type f), by_length = length bytes,
      by_etag = [CHR 34] @ h @ [CHR 34], by_range = None, by_body = bytes\<rparr>)"
proof -
  from gateway.single_upload [OF assms(1-6)] obtain d f p y created where
    u: "files_on conf" "db_for cf n = Inr d" "filter (\<lambda>f. mp_name f = Some ''file'') (fq_fields uq) = [f]"
      "part_of sha conf f p" "gw_ok I s'" "gw_docs view s' n (c, i) = Some y" "dget (d_data y) k = Some (ready_meta uq p created)"
      "map_of (fs_shard fs') (bytes_path (pt_sha p)) = (case map_of (fs_shard fs) (bytes_path (pt_sha p)) of
         Some x \<Rightarrow> Some x | None \<Rightarrow> Some (concat (mp_chunks f), mp_now f))" by blast
  let ?b = "concat (mp_chunks f)" and ?h = "hex (sha (concat (mp_chunks f)))"
  have p: "pt_sha p = ?h" "pt_size p = length ?b" "pt_size p \<le> fc_max_bytes conf" "pt_mime p = unwrap_or [] (mp_content_type f)"
    using u(4) by (auto simp: part_of_def)
  have "length ?b < 2 ^ 64" using p(2,3) assms(13) by simp
  then have size: "int (length ?b) < 2 ^ 64" by (metis of_nat_less_iff of_nat_numeral of_nat_power)
  have meta: "as_file_meta (ready_meta uq p created) = Some ?h"
    by (simp add: as_file_meta_def ready_meta_keys p(1) assms(14) hex_digits)
  have "download sha cf conf dq s' fs' = Bytes \<lparr>by_status = 200, by_mime = unwrap_or [] (mp_content_type f), by_length = length ?b,
      by_etag = [CHR 34] @ ?h @ [CHR 34], by_range = None, by_body = ?b\<rparr>"
    if ne: "?b \<noteq> []" and same: "\<forall>old t. map_of (fs_shard fs) (bytes_path ?h) = Some (old, t) \<longrightarrow> old = ?b"
  proof -
    obtain t where t: "map_of (fs_shard fs') (bytes_path ?h) = Some (?b, t)"
      using u(8) same by (auto simp: p(1) split: option.splits)
    have "serve_bytes fs' dq (ready_meta uq p created) = Bytes \<lparr>by_status = 200, by_mime = unwrap_or [] (mp_content_type f),
        by_length = length ?b, by_etag = [CHR 34] @ ?h @ [CHR 34], by_range = None, by_body = ?b\<rparr>"
      using ne size by (simp add: serve_bytes_def ready_meta_keys p meta t assms(10,11) stream_bytes_take Let_def)
    moreover have "ok_flatten (db_get d (gw_db s' n) c i) = Some y"
      using gateway.flat_get [OF assms(1) u(5,2)] u(6) by simp
    ultimately show ?thesis
      using assms(5,12) u(1,6,7) by (simp add: download_def assms(7,8,9) u(2) Let_def)
  qed
  with u(3) show ?thesis by (auto simp: Let_def)
qed

section \<open>Applied\<close>

lemma mem_config_open: "policy_allow (cf_policy (mem_config policy_open co)) auth c Get r"
  by (simp add: mem_config_def policy_open_allows)

definition demo_sha :: "string \<Rightarrow> string" where
  "demo_sha x = take 32 (x @ replicate 32 (CHR ''.''))"

lemma demo_sha_length: "length (demo_sha x) = 32"
  by (simp add: demo_sha_def)

definition demo_conf :: file_conf where
  "demo_conf = \<lparr>fc_dir = Some ''/data'', fc_max_bytes = 16, fc_max_batch = 2, fc_mime_allow = [''text/plain''], fc_sign_secret = ''s''\<rparr>"

definition demo_io :: file_io where
  "demo_io = \<lparr>io_dir = None, io_create = None, io_write = None, io_flush = None, io_stat = None, io_mkdir = None, io_rename = None\<rparr>"

definition demo_field :: mp_field where
  "demo_field = \<lparr>mp_name = Some ''file'', mp_file_name = Some ''a.txt'', mp_content_type = Some ''text/plain'',
     mp_chunks = [''he'', ''y''], mp_error = None, mp_now = 7\<rparr>"

definition demo_request :: "mp_field list \<Rightarrow> (string, string) dict \<Rightarrow> file_request" where
  "demo_request fs q = \<lparr>fq_auth = None, fq_path = ''pics/a'', fq_query = q, fq_fields = fs, fq_broken = None, fq_range = None,
     fq_if_none_match = None, fq_now = 5, fq_now_secs = 5, fq_ts = ''t0''\<rparr>"

definition empty_dir :: file_dir where
  "empty_dir = \<lparr>fs_top = [], fs_shard = []\<rparr>"

definition demo_upload :: "response \<times> mem_db gw \<times> file_dir" where
  "demo_upload = upload demo_sha (mem_config policy_open False) demo_conf demo_io ''1'' (demo_request [demo_field] []) mem_gw empty_dir"

lemma demo_target: "parse_target ''pics/a'' = Inr (SingleTarget ''pics'' ''a'' ''file'')"
  by code_simp

lemma demo_upload_status: "r_status (fst demo_upload) = 200"
  by code_simp

lemma upload_then_download_witness:
  "download demo_sha (mem_config policy_open False) demo_conf (demo_request [] []) (fst (snd demo_upload)) (snd (snd demo_upload))
    = Bytes \<lparr>by_status = 200, by_mime = ''text/plain'', by_length = length ''hey'', by_etag = [CHR 34] @ hex (demo_sha ''hey'') @ [CHR 34],
        by_range = None, by_body = ''hey''\<rparr>"
proof -
  obtain r s' fs' where u: "demo_upload = (r, s', fs')" by (cases demo_upload)
  have r: "resolve_db_name [] = Inr ''default''" by code_simp
  show ?thesis
    using upload_then_download [OF memgw.gateway_axioms [of policy_open False] mem_gw_ok u [unfolded demo_upload_def], of "''pics''" "''a''" "''file''" "''default''" "demo_request [] []"]
      demo_upload_status
    by (simp add: u demo_request_def demo_target r mem_config_open demo_conf_def demo_sha_length empty_dir_def
        demo_field_def unwrap_or_def Let_def)
qed

definition demo_meta :: json where
  "demo_meta = JObj [(''mime'', JStr ''text/plain''), (''sha256'', JStr (replicate 64 (CHR ''a''))), (''size'', jint 3), (''state'', JStr ''ready'')]"

definition demo_stored :: "mem_db gw" where
  "demo_stored = mem_gw\<lparr>gw_db := (\<lambda>n. mem_new\<lparr>store := [(''pics'', [(''a'', \<lparr>d_id = ''a'', d_data = [(''file'', demo_meta)]\<rparr>)])]\<rparr>)\<rparr>"

definition demo_dir :: file_dir where
  "demo_dir = \<lparr>fs_top = [], fs_shard = [((''aa'', replicate 64 (CHR ''a'')), (''hey'', 7))]\<rparr>"

lemma demo_meta_keys:
  "jget demo_meta ''state'' = Some (JStr ''ready'')" "jget demo_meta ''sha256'' = Some (JStr (replicate 64 (CHR ''a'')))"
  "jget demo_meta ''mime'' = Some (JStr ''text/plain'')" "jget demo_meta ''size'' = Some (jint 3)"
  "as_file_meta demo_meta = Some (replicate 64 (CHR ''a''))"
  by (simp_all add: demo_meta_def jget_def as_file_meta_def list_all_iff is_hexdigit_def is_digit_def ch_def)

lemma demo_download:
  "\<exists>b. download demo_sha (mem_config policy_open False) demo_conf (demo_request [] []) demo_stored demo_dir = Bytes b \<and> by_body b = ''hey''"
proof -
  have r: "resolve_db_name [] = Inr ''default''" by code_simp
  have p: "bytes_path (replicate 64 (CHR ''a'')) = (''aa'', replicate 64 (CHR ''a''))"
    by (simp add: bytes_path_def numeral_2_eq_2)
  show ?thesis
    by (simp add: download_def demo_target r p demo_request_def demo_conf_def files_on_def demo_stored_def mem_gw_def mem_new_def mem_driver_def
        mem_get_def ok_flatten_def mem_config_open serve_bytes_def demo_meta_keys demo_dir_def stream_bytes_take Let_def)
qed

lemma download_is_authorized_witness:
  "\<exists>meta start b. db_get (mem_driver 0) (gw_db demo_stored ''default'') ''pics'' ''a'' = Inr (Some \<lparr>d_id = ''a'', d_data = [(''file'', meta)]\<rparr>)
     \<and> served demo_dir meta start b \<and> by_body b = ''hey''"
proof -
  have r: "resolve_db_name [] = Inr ''default''" by code_simp
  obtain b where b: "download demo_sha (mem_config policy_open False) demo_conf (demo_request [] []) demo_stored demo_dir = Bytes b" "by_body b = ''hey''"
    using demo_download by blast
  show ?thesis
    using download_is_authorized [OF b(1)] b(2)
    by (auto simp: demo_request_def demo_target r mem_driver_def mem_get_def demo_stored_def mem_gw_def mem_new_def Let_def)
qed

lemma signed_url_opens_one_file_witness:
  "let q = [(''exp'', ''9''), (''sig'', mint_sig id ''s'' ''default'' ''pics'' ''a'' ''file'' 9)] in
     Option.bind (dget q ''exp'') (parse_uint 64) = Some 9"
proof -
  let ?q = "[(''exp'', ''9''), (''sig'', mint_sig id ''s'' ''default'' ''pics'' ''a'' ''file'' 9)]"
  have r: "resolve_db_name [] = Inr ''default''" "parse_uint 64 ''9'' = Some 9"
    by (code_simp, simp add: str_defs is_digit_def ch_def)
  then have r': "resolve_db_name ?q = Inr ''default''" by (simp add: resolve_db_name_def)
  have s: "signed_ok id demo_conf (demo_request [] ?q) ''default'' ''pics'' ''a'' ''file''"
    using r by (simp add: signed_ok_iff demo_request_def demo_conf_def)
  show ?thesis
    using signed_url_opens_one_file [OF demo_target r(1), of "demo_request [] ?q" "''pics''" "''a''" "''file''" "''default''" id demo_conf 9]
      demo_target r' s
    by (simp add: demo_request_def demo_conf_def Let_def)
qed

end
