(* ===== verification/Sweeper.thy ===== *)
theory Sweeper
  imports Filing Ttl
begin

text \<open>
  The file sweeper over any drivers that list their documents page by page: it returns, it keeps
  every blob that some ready metadata names and every fresh one, and it takes away no field but
  stale pending markers. Over a driver that hides expired documents the pages are not whole, and
  the guarantee is lost.
\<close>

section \<open>Drivers that list page by page\<close>

abbreviation page_query :: "nat \<Rightarrow> query_options" where
  "page_query k \<equiv> default_query\<lparr>q_limit := Some 500, q_offset := Some k\<rparr>"

locale paged_store = document_store +
  assumes pages: "inv s \<Longrightarrow> \<exists>rows. set rows = {x. view s (c, d_id x) = Some x}
      \<and> (\<forall>k. db_list db s c (page_query k) = Inr (take 500 (drop k rows)))"
    and collections: "inv s \<Longrightarrow> \<exists>cs. db_list_collections db s = Inr cs \<and> (\<forall>c i. view s (c, i) \<noteq> None \<longrightarrow> c \<in> set cs)"
    and keyed: "inv s \<Longrightarrow> view s (c, i) = Some x \<Longrightarrow> d_id x = i \<and> dict_ok (d_data x)"

text \<open>A field as a client sees it.\<close>

definition field_of :: "docs \<Rightarrow> string \<Rightarrow> string \<Rightarrow> string \<Rightarrow> json option" where
  "field_of v c i k = Option.bind (v (c, i)) (\<lambda>x. dget (d_data x) k)"

lemma scan_pages_rows:
  assumes "\<And>k. db_list d s c (page_query k) = Inr (take 500 (drop k rows))"
  shows "scan_pages d s c k acc = Some (acc @ drop k rows)"
proof (induction "length rows - k" arbitrary: k acc rule: less_induct)
  case less
  let ?p = "take 500 (drop k rows)"
  have split: "drop k rows = ?p @ drop (k + length ?p) rows"
    by (metis append_take_drop_id drop_drop add.commute length_take min_def nat_le_linear take_all drop_all append_Nil2)
  show ?case
  proof (cases "length ?p < 500")
    case True
    then have "drop k rows = ?p" by simp
    then show ?thesis using True by (subst scan_pages.simps) (simp add: assms Let_def)
  next
    case False
    then have "length rows - (k + length ?p) < length rows - k" by auto
    from less [OF this] have "scan_pages d s c (k + length ?p) (acc @ ?p) = Some (acc @ drop k rows)"
      using split by simp
    moreover have "?p \<noteq> []" using False by auto
    ultimately show ?thesis using False by (subst scan_pages.simps) (simp add: assms Let_def)
  qed
qed

context paged_store
begin

lemma scan_complete:
  assumes "inv s"
  shows "\<exists>rows. scan_pages db s c 0 [] = Some rows \<and> set rows = {x. view s (c, d_id x) = Some x}"
  using pages [OF assms, of c] scan_pages_rows [of db s c _ 0 "[]"] by force

lemma remove_field_view:
  assumes "inv s" "remove_field db c i k s = (r, s')"
  shows "inv s' \<and> (\<forall>c' i' k'. field_of (view s') c' i' k' = field_of (view s) c' i' k'
    \<or> (c', i', k') = (c, i, k) \<and> field_of (view s') c' i' k' = None)"
proof (cases "view s (c, i)")
  case None
  then show ?thesis using assms by (simp add: remove_field_def get_view)
next
  case (Some x)
  then have x: "d_id x = i" "dict_ok (d_data x)" using keyed [OF assms(1)] by auto
  let ?data = "ddel k (d_data x)"
  consider "dget (d_data x) k = None" | "dget (d_data x) k \<noteq> None" "?data = []" | "dget (d_data x) k \<noteq> None" "?data \<noteq> []"
    by blast
  then show ?thesis
  proof cases
    case 1
    then show ?thesis using assms Some by (simp add: remove_field_def get_view)
  next
    case 2
    obtain q t where q: "db_delete db s c i = (q, t)" by fastforce
    have "dget (d_data x) k' = None" if "k' \<noteq> k" for k' using dget_ddel [of k "d_data x" k'] that 2(2) by simp
    then show ?thesis
      using assms 2 Some delete_view [OF assms(1) q] by (auto simp: remove_field_def get_view q Let_def field_of_def split: sum.splits)
  next
    case 3
    obtain q t where q: "db_set db s c i (x\<lparr>d_data := ?data\<rparr>) False = (q, t)" by fastforce
    show ?thesis
      using assms 3 Some x set_view [OF assms(1) q]
      by (auto simp: remove_field_def get_view q Let_def field_of_def spec_put_def dextend_empty split: sum.splits)
  qed
qed

end

interpretation memp: paged_store "mem_driver nanos\<lparr>db_capabilities := caps\<rparr>" "\<lambda>s. view_of (store s)" mem_ok
  for nanos caps
proof (intro paged_store.intro paged_store_axioms.intro)
  show "document_store (mem_driver nanos\<lparr>db_capabilities := caps\<rparr>) (\<lambda>s. view_of (store s)) mem_ok"
    using memq.document_store_axioms .
  fix s c i x
  assume ok: "mem_ok s"
  let ?t = "mem_table (store s) c"
  have t: "table_ok ?t" using ok by (auto simp: mem_ok_def)
  have "x \<in> set (dvals ?t) \<longleftrightarrow> dget ?t (d_id x) = Some x" for x
    using t by (force simp: dvals_def table_ok_def list_all_iff dest: dict_ok_snd map_of_SomeD)
  then have "set (dvals ?t) = {x. view_of (store s) (c, d_id x) = Some x}" by (auto simp: view_of_table)
  moreover have "mem_list s c (page_query k) = Inr (take 500 (drop k (dvals ?t)))" for k
    by (auto simp: mem_list_def mem_table_def sort_and_limit_def apply_offset_limit_def apply_cursor_def default_query_def
        doc_matches_def matches_cursor_def unwrap_or_def min_def dvals_def Let_def split: option.splits)
  ultimately show "\<exists>rows. set rows = {x. view_of (store s) (c, d_id x) = Some x}
      \<and> (\<forall>k. db_list (mem_driver nanos\<lparr>db_capabilities := caps\<rparr>) s c (page_query k) = Inr (take 500 (drop k rows)))"
    by (intro exI [of _ "dvals ?t"]) (simp add: mem_driver_def Let_def)
  show "\<exists>cs. db_list_collections (mem_driver nanos\<lparr>db_capabilities := caps\<rparr>) s = Inr cs
      \<and> (\<forall>c i. view_of (store s) (c, i) \<noteq> None \<longrightarrow> c \<in> set cs)"
    by (auto simp: mem_driver_def mem_list_collections_def view_of_def dkeys_def Let_def bind_eq_None_conv
        intro!: image_eqI dest!: map_of_SomeD)
  assume "view_of (store s) (c, i) = Some x"
  then show "d_id x = i \<and> dict_ok (d_data x)"
    using t by (auto simp: view_of_table table_ok_def list_all_iff dest!: map_of_SomeD)
qed

section \<open>What a pass reads and what it removes\<close>

text \<open>The hashes and the stale fields found in one database.\<close>

lemma scan_db_found:
  assumes "paged_store d view I" "I t"
  shows "\<exists>shas stale. scan_db d t cutoff = Some (shas, stale)
    \<and> (\<forall>c i x. swept c \<longrightarrow> view t (c, i) = Some x \<longrightarrow> set (doc_shas x) \<subseteq> set shas)
    \<and> (\<forall>c i k. (c, i, k) \<in> set stale \<longrightarrow> (\<exists>v. field_of (view t) c i k = Some v \<and> stale_field cutoff v))"
proof -
  obtain cs where cs: "db_list_collections d t = Inr cs" "\<And>c i. view t (c, i) \<noteq> None \<Longrightarrow> c \<in> set cs"
    using paged_store.collections [OF assms] by blast
  have "\<forall>c. \<exists>rows. scan_pages d t c 0 [] = Some rows \<and> set rows = {x. view t (c, d_id x) = Some x}"
    using paged_store.scan_complete [OF assms] by blast
  then obtain rows where r: "\<And>c. scan_pages d t c 0 [] = Some (rows c)" "\<And>c. set (rows c) = {x. view t (c, d_id x) = Some x}"
    by metis
  have "collect_opt (map (\<lambda>c. map_option (\<lambda>docs. (c, docs)) (scan_pages d t c 0 [])) xs) = Some (map (\<lambda>c. (c, rows c)) xs)" for xs
    by (induction xs) (simp_all add: r)
  then have out: "scan_db d t cutoff = Some (concat (map (\<lambda>c. concat (map doc_shas (rows c))) (filter swept cs)),
      concat (map (\<lambda>c. concat (map (\<lambda>x. map (\<lambda>k. (c, d_id x, k)) (doc_stale cutoff x)) (rows c))) (filter swept cs)))"
    by (simp add: scan_db_def cs(1) comp_def)
  have "set (doc_shas x) \<subseteq> set (concat (map (\<lambda>c. concat (map doc_shas (rows c))) (filter swept cs)))"
    if "swept c" "view t (c, i) = Some x" for c i x
  proof -
    have "d_id x = i" using paged_store.keyed [OF assms] that(2) by blast
    moreover have "c \<in> set (filter swept cs)" using cs(2) [of c i] that by simp
    ultimately have "x \<in> set (rows c)" "c \<in> set (filter swept cs)" using r(2) that by auto
    then show ?thesis by auto
  qed
  moreover have "\<exists>v. field_of (view t) c i k = Some v \<and> stale_field cutoff v"
    if st: "(c, i, k) \<in> set (concat (map (\<lambda>c. concat (map (\<lambda>x. map (\<lambda>k. (c, d_id x, k)) (doc_stale cutoff x)) (rows c))) (filter swept cs)))" for c i k
  proof -
    obtain x where "x \<in> set (rows c)" "d_id x = i" and k: "k \<in> set (doc_stale cutoff x)" using st by auto
    then have x: "view t (c, i) = Some x" using r(2) by auto
    obtain v where v: "(k, v) \<in> set (d_data x)" "stale_field cutoff v" using k by (auto simp: doc_stale_def)
    have "dget (d_data x) k = Some v" using dict_ok_snd [OF _ v(1)] paged_store.keyed [OF assms x] by blast
    then show ?thesis using x v(2) by (simp add: field_of_def)
  qed
  ultimately show ?thesis using out by blast
qed

lemma doc_shas_field: "dget (d_data x) k = Some v \<Longrightarrow> ready_sha v = Some h \<Longrightarrow> h \<in> set (doc_shas x)"
  by (drule map_of_SomeD) (force simp: doc_shas_def set_filter_map)

definition gw_field :: "('s \<Rightarrow> docs) \<Rightarrow> 's gw \<Rightarrow> string \<Rightarrow> string \<Rightarrow> string \<Rightarrow> string \<Rightarrow> json option" where
  "gw_field view s n = field_of (gw_docs view s n)"

lemma scan_all_found:
  assumes "\<forall>(n, d) \<in> set dbs. paged_store d view I" "gw_ok I s"
  shows "\<exists>shas stales. scan_all dbs s cutoff = Some (shas, stales) \<and> (\<forall>(n, d, st) \<in> set stales. (n, d) \<in> set dbs)
    \<and> (\<forall>n \<in> fst ` set dbs. \<forall>c i x. swept c \<longrightarrow> gw_docs view s n (c, i) = Some x \<longrightarrow> set (doc_shas x) \<subseteq> set shas)
    \<and> (\<forall>(n, d, st) \<in> set stales. \<forall>(c, i, k) \<in> set st. \<exists>v. gw_field view s n c i k = Some v \<and> stale_field cutoff v)"
  using assms(1)
proof (induction dbs)
  case (Cons e dbs)
  obtain n d where e: "e = (n, d)" by fastforce
  have d: "paged_store d view I" using Cons.prems by (simp add: e)
  have t: "I (gw_db s n)" using assms(2) by (simp add: gw_ok_def)
  obtain shas stale where one: "scan_db d (gw_db s n) cutoff = Some (shas, stale)"
      "\<forall>c i x. swept c \<longrightarrow> view (gw_db s n) (c, i) = Some x \<longrightarrow> set (doc_shas x) \<subseteq> set shas"
      "\<forall>c i k. (c, i, k) \<in> set stale \<longrightarrow> (\<exists>v. field_of (view (gw_db s n)) c i k = Some v \<and> stale_field cutoff v)"
    using scan_db_found [OF d t, of cutoff] by blast
  from Cons obtain shas' stales where more: "scan_all dbs s cutoff = Some (shas', stales)"
      "\<forall>(n, d, st) \<in> set stales. (n, d) \<in> set dbs"
      "\<forall>n \<in> fst ` set dbs. \<forall>c i x. swept c \<longrightarrow> gw_docs view s n (c, i) = Some x \<longrightarrow> set (doc_shas x) \<subseteq> set shas'"
      "\<forall>(n, d, st) \<in> set stales. \<forall>(c, i, k) \<in> set st. \<exists>v. gw_field view s n c i k = Some v \<and> stale_field cutoff v"
    by auto
  have "scan_all (e # dbs) s cutoff = Some (shas @ shas', (n, d, stale) # stales)"
    by (simp add: e one(1) more(1))
  moreover have "set (doc_shas x) \<subseteq> set (shas @ shas')"
    if "m \<in> fst ` set (e # dbs)" "swept c" "gw_docs view s m (c, i) = Some x" for m c i x
  proof (cases "m = n")
    case True
    then show ?thesis using that(2,3) one(2) by (force simp: gw_docs_def)
  next
    case False
    then have "m \<in> fst ` set dbs" using that(1) by (auto simp: e)
    then show ?thesis using that(2,3) more(3) by fastforce
  qed
  ultimately show ?case
    using one(3) more(2,4) by (intro exI conjI) (assumption | auto simp: e gw_field_def gw_docs_def)+
qed simp

text \<open>Removing the stale fields one by one touches nothing else.\<close>

definition trimmed :: "nat \<Rightarrow> ('s \<Rightarrow> docs) \<Rightarrow> 's gw \<Rightarrow> 's gw \<Rightarrow> bool" where
  "trimmed cutoff view s s' \<longleftrightarrow> (\<forall>n c i k. gw_field view s' n c i k = gw_field view s n c i k
     \<or> gw_field view s' n c i k = None \<and> (\<exists>v. gw_field view s n c i k = Some v \<and> stale_field cutoff v))"

lemma remove_stale_trims:
  assumes "paged_store d view I" "gw_ok I s" "trimmed cutoff view s0 s"
    "\<forall>(c, i, k) \<in> set st. \<exists>v. gw_field view s0 n c i k = Some v \<and> stale_field cutoff v"
  shows "gw_ok I (remove_stale d n st s) \<and> trimmed cutoff view s0 (remove_stale d n st s)"
  using assms(2-)
proof (induction st arbitrary: s)
  case (Cons e rest)
  obtain c i k where e: "e = (c, i, k)" using prod_cases3 by blast
  obtain r t where t: "remove_field d c i k (gw_db s n) = (r, t)" by fastforce
  let ?s1 = "s\<lparr>gw_db := (gw_db s)(n := t)\<rparr>"
  have "I (gw_db s n)" using Cons.prems(1) by (simp add: gw_ok_def)
  note v = paged_store.remove_field_view [OF assms(1) this t]
  have "gw_ok I ?s1" using v Cons.prems(1) by (simp add: gw_ok_def)
  moreover have one: "gw_field view ?s1 n' c' i' k' = gw_field view s n' c' i' k'
      \<or> (n', c', i', k') = (n, c, i, k) \<and> gw_field view ?s1 n' c' i' k' = None" for n' c' i' k'
    using v by (auto simp: gw_field_def gw_docs_def)
  have stale: "\<exists>v. gw_field view s0 n c i k = Some v \<and> stale_field cutoff v" using Cons.prems(3) e by auto
  have "trimmed cutoff view s0 ?s1"
    unfolding trimmed_def
  proof (intro allI)
    fix n' c' i' k'
    show "gw_field view ?s1 n' c' i' k' = gw_field view s0 n' c' i' k'
        \<or> gw_field view ?s1 n' c' i' k' = None \<and> (\<exists>v. gw_field view s0 n' c' i' k' = Some v \<and> stale_field cutoff v)"
      using one [of n' c' i' k'] stale Cons.prems(2) [unfolded trimmed_def, rule_format, of n' c' i' k'] by auto
  qed
  ultimately have "gw_ok I (remove_stale d n rest ?s1) \<and> trimmed cutoff view s0 (remove_stale d n rest ?s1)"
    using Cons.prems(3) by (intro Cons.IH) auto
  then show ?case by (simp add: e on_db_def t)
qed simp

lemma stales_trim:
  assumes "\<forall>(n, d, st) \<in> set stales. paged_store d view I \<and> (\<forall>(c, i, k) \<in> set st. \<exists>v. gw_field view s0 n c i k = Some v \<and> stale_field cutoff v)"
    "gw_ok I s" "trimmed cutoff view s0 s"
  shows "gw_ok I (foldl (\<lambda>g (n, d, st). remove_stale d n st g) s stales)
    \<and> trimmed cutoff view s0 (foldl (\<lambda>g (n, d, st). remove_stale d n st g) s stales)"
  using assms
proof (induction stales arbitrary: s)
  case (Cons e stales)
  obtain n d st where e: "e = (n, d, st)" using prod_cases3 by blast
  have "gw_ok I (remove_stale d n st s) \<and> trimmed cutoff view s0 (remove_stale d n st s)"
    using Cons.prems by (intro remove_stale_trims) (auto simp: e)
  then show ?case using Cons by (simp add: e)
qed simp

section \<open>Properties\<close>

text \<open>
  C10. The sweeper is safe over drivers that list page by page: a pass returns; it keeps every blob
  whose hash is named by ready metadata in a swept collection of any configured database; what it
  removes from the directory are temporary files older than an hour and well-named blobs that were
  not written in the last ten minutes; and of the documents it removes only fields that were
  pending for more than an hour.
\<close>

theorem sweep_keeps_referenced:
  assumes "\<forall>(n, d) \<in> set (cf_dbs cf). paged_store d view I" "gw_ok I s"
  shows "\<exists>s' fs'. sweep_once cf now s fs = Some (s', fs') \<and> gw_ok I s' \<and> trimmed (now - HOUR) view s s'
    \<and> (\<forall>n c i k v h e. n \<in> fst ` set (cf_dbs cf) \<longrightarrow> swept c \<longrightarrow> gw_field view s n c i k = Some v \<longrightarrow> ready_sha v = Some h
         \<longrightarrow> e \<in> set (fs_shard fs) \<longrightarrow> ascii_lower (snd (fst e)) = h \<longrightarrow> e \<in> set (fs_shard fs'))
    \<and> (\<forall>e \<in> set (fs_shard fs) - set (fs_shard fs'). is_shard (fst (fst e)) (snd (fst e)) \<and> \<not> (snd (snd e) \<le> now \<and> now < snd (snd e) + 600000000))
    \<and> (\<forall>e \<in> set (fs_top fs) - set (fs_top fs'). starts_with ''.tmp-'' (fst e) \<and> snd (snd e) + HOUR < now)
    \<and> set (fs_shard fs') \<subseteq> set (fs_shard fs) \<and> set (fs_top fs') \<subseteq> set (fs_top fs)"
proof -
  from scan_all_found [OF assms, of "now - HOUR"] obtain shas stales where
    f: "scan_all (cf_dbs cf) s (now - HOUR) = Some (shas, stales)" "\<forall>(n, d, st) \<in> set stales. (n, d) \<in> set (cf_dbs cf)"
      "\<And>n c i x. n \<in> fst ` set (cf_dbs cf) \<Longrightarrow> swept c \<Longrightarrow> gw_docs view s n (c, i) = Some x \<Longrightarrow> set (doc_shas x) \<subseteq> set shas"
      "\<forall>(n, d, st) \<in> set stales. \<forall>(c, i, k) \<in> set st. \<exists>v. gw_field view s n c i k = Some v \<and> stale_field (now - HOUR) v"
    by blast
  let ?s' = "foldl (\<lambda>g (n, d, st). remove_stale d n st g) s stales"
  let ?fs' = "fs\<lparr>fs_top := filter (\<lambda>(n, (_, mtime)). \<not> old_tmp now n mtime) (fs_top fs),
      fs_shard := filter (\<lambda>e. \<not> orphan now shas e) (fs_shard fs)\<rparr>"
  have out: "sweep_once cf now s fs = Some (?s', ?fs')" by (simp add: sweep_once_def f(1) Let_def)
  have "gw_ok I ?s' \<and> trimmed (now - HOUR) view s ?s'"
    using f(2,4) assms by (intro stales_trim) (auto simp: trimmed_def)
  moreover have "e \<in> set (fs_shard ?fs')"
    if g: "n \<in> fst ` set (cf_dbs cf)" "swept c" "gw_field view s n c i k = Some v" "ready_sha v = Some h"
      "e \<in> set (fs_shard fs)" "ascii_lower (snd (fst e)) = h" for n c i k v h e
  proof -
    obtain x where x: "gw_docs view s n (c, i) = Some x" "dget (d_data x) k = Some v"
      using g(3) by (auto simp: gw_field_def field_of_def bind_eq_Some_conv)
    have "h \<in> set (doc_shas x)" using doc_shas_field [OF x(2) g(4)] .
    then show ?thesis using f(3) [OF g(1,2) x(1)] g(5,6) by (auto simp: orphan_def)
  qed
  moreover have "\<forall>e \<in> set (fs_shard fs) - set (fs_shard ?fs'). is_shard (fst (fst e)) (snd (fst e)) \<and> \<not> (snd (snd e) \<le> now \<and> now < snd (snd e) + 600000000)"
    by (auto simp: orphan_def elapsed_def split: if_splits)
  moreover have "\<forall>e \<in> set (fs_top fs) - set (fs_top ?fs'). starts_with ''.tmp-'' (fst e) \<and> snd (snd e) + HOUR < now"
    by (auto simp: old_tmp_def elapsed_def split: if_splits)
  moreover have "set (fs_shard ?fs') \<subseteq> set (fs_shard fs)" "set (fs_top ?fs') \<subseteq> set (fs_top fs)" by auto
  ultimately show ?thesis using out by blast
qed

lemma demo_stored_ok: "gw_ok mem_ok demo_stored"
  by (simp add: gw_ok_def demo_stored_def mem_gw_def mem_ok_def store_ok_def table_ok_def dict_ok_def)

lemma sweep_keeps_referenced_witness:
  "\<exists>s' fs'. sweep_once (mem_config policy_open False) (HOUR + HOUR) demo_stored demo_dir = Some (s', fs')
     \<and> set (fs_shard fs') = set (fs_shard demo_dir)"
proof -
  have p: "\<forall>(n, d) \<in> set (cf_dbs (mem_config policy_open False)). paged_store d (\<lambda>s. view_of (store s)) mem_ok"
    using memp.paged_store_axioms by (simp add: mem_config_def)
  have f: "gw_field (\<lambda>s. view_of (store s)) demo_stored ''default'' ''pics'' ''a'' ''file'' = Some demo_meta"
    by (simp add: gw_field_def gw_docs_def field_of_def view_of_def demo_stored_def)
  have a: "ascii_lower (replicate 64 (CHR ''a'')) = replicate 64 (CHR ''a'')"
    by (simp add: ascii_lower_def lower_char_def ch_def)
  have r: "ready_sha demo_meta = Some (replicate 64 (CHR ''a''))"
    by (simp add: ready_sha_def demo_meta_keys a)
  have "swept ''pics''" by code_simp
  from sweep_keeps_referenced [OF p demo_stored_ok, of "HOUR + HOUR" demo_dir] f r this show ?thesis by (auto simp: mem_config_def demo_dir_def a)
qed

section \<open>Where it is not safe\<close>

text \<open>
  The guarantee needs whole pages. Every persistent driver is wrapped by the decorator that hides
  expired documents, which filters a page after it was cut: one expired document among the first
  500 makes the page short, the scan takes it for the last one, and what later documents
  refer to is not seen.
\<close>

lemma expired_row_ends_scan:
  assumes "\<And>k. db_list d s c (page_query k) = Inr (take 500 (drop k rows))" "x \<in> set (take 500 rows)" "is_expired t x"
  shows "scan_pages (ttl_db t d) s c 0 [] = Some (filter (\<lambda>x. \<not> is_expired t x) (take 500 rows))"
proof -
  let ?p = "filter (\<lambda>x. \<not> is_expired t x) (take 500 rows)"
  have "length ?p < length (take 500 rows)" using assms(2,3) by (intro length_filter_less) auto
  then have "length ?p < 500" by simp
  moreover have "db_list (ttl_db t d) s c (page_query 0) = Inr ?p"
    using assms(1) [of 0] by (simp add: ttl_db_def ttl_list_def)
  ultimately show ?thesis by (subst scan_pages.simps) (simp add: Let_def)
qed

lemma sweep_loses_referenced:
  assumes "cf_dbs cf = [(n, ttl_db t d)]" "db_list_collections d (gw_db s n) = Inr [c]" "swept c"
    and rows: "\<And>k. db_list d (gw_db s n) c (page_query k) = Inr (take 500 (drop k rows))"
    and x: "x \<in> set (take 500 rows)" "is_expired t x"
    and h: "\<forall>y \<in> set (take 500 rows). ascii_lower h \<notin> set (doc_shas y)" "is_shard (take 2 h) h" "mtime + 600000000 \<le> now"
  shows "\<exists>s' fs'. sweep_once cf now s fs = Some (s', fs') \<and> (bytes_path h, content, mtime) \<notin> set (fs_shard fs')"
proof -
  have cs: "db_list_collections (ttl_db t d) (gw_db s n) = Inr [c]" using assms(2) by (simp add: ttl_db_def)
  let ?p = "filter (\<lambda>x. \<not> is_expired t x) (take 500 rows)"
  have "scan_pages (ttl_db t d) (gw_db s n) c 0 [] = Some ?p" by (rule expired_row_ends_scan [OF rows x])
  then obtain stale where "scan_db (ttl_db t d) (gw_db s n) (now - HOUR) = Some (concat (map doc_shas ?p), stale)"
    using assms(3) by (simp add: scan_db_def cs)
  then have "sweep_once cf now s fs = Some (remove_stale (ttl_db t d) n stale s,
      fs\<lparr>fs_top := filter (\<lambda>(n, (_, mtime)). \<not> old_tmp now n mtime) (fs_top fs),
         fs_shard := filter (\<lambda>e. \<not> orphan now (concat (map doc_shas ?p)) e) (fs_shard fs)\<rparr>)"
    by (simp add: sweep_once_def assms(1) Let_def)
  moreover have "orphan now (concat (map doc_shas ?p)) (bytes_path h, content, mtime)"
    using h by (auto simp: orphan_def bytes_path_def elapsed_def)
  ultimately show ?thesis by auto
qed

text \<open>A listing that fails is taken for an empty page: the blobs of that collection are orphans.\<close>

lemma failed_listing_is_empty:
  assumes "db_list d s c (page_query 0) = Inl e"
  shows "scan_pages d s c 0 [] = Some []"
  using assms by (subst scan_pages.simps) simp

lemma failed_collections_are_empty:
  "db_list_collections d s = Inl e \<Longrightarrow> scan_db d s cutoff = Some ([], [])"
  by (simp add: scan_db_def)

text \<open>An empty file is announced with one byte and sent with none.\<close>

lemma empty_file_announced:
  assumes "as_file_meta meta = Some h" "Option.bind (jget meta ''state'') as_str = Some ''ready''"
    "Option.bind (jget meta ''sha256'') as_str = Some h" "Option.bind (jget meta ''mime'') as_str = Some m"
    "Option.bind (jget meta ''size'') as_u64 = Some 0" "map_of (fs_shard fs) (bytes_path h) = Some ([], t)"
    "fq_range fq = None" "fq_if_none_match fq = None"
  shows "\<exists>b. serve_bytes fs fq meta = Bytes b \<and> by_length b = 1 \<and> by_body b = []"
  using assms by (simp add: serve_bytes_def stream_bytes_take Let_def)

text \<open>The holder of a signed URL can have a new one signed before it runs out, without the policy.\<close>

lemma signed_url_renews:
  assumes "files_on conf" "parse_target (fq_path fq) = Inr (SingleTarget c i k)" "resolve_db_name (fq_query fq) = Inr n"
    "db_for cf n = Inr d" "signed_ok sha conf fq n c i k" "dget (fq_query fq) ''sign'' = Some ''3600''"
  shows "download sha cf conf fq s fs = Plain (mint_reply sha conf fq n c i k ''3600'')
    \<and> r_status (mint_reply sha conf fq n c i k ''3600'') = 200"
proof -
  have "fc_sign_secret conf \<noteq> []" using assms(5) by (simp add: signed_ok_iff)
  moreover have "parse_uint 64 ''3600'' = Some 3600" by (simp add: str_defs is_digit_def ch_def)
  ultimately show ?thesis using assms by (simp add: download_def mint_reply_def unwrap_or_def Let_def)
qed

end
