(* ===== verification/AuditLog.thy ===== *)
theory AuditLog
  imports Calendar Json
begin

text \<open>
  The audit log (crates/hakobackend-server/src/audit.rs): the record of an event, which events a
  level admits, the line a record is printed as, and the address it names.
\<close>

record audit_event =
  au_ev :: string
  au_fields :: "(string \<times> string) list"

definition parse_level :: "string \<Rightarrow> (string, nat) result" where
  "parse_level s =
     (if s = ''off'' then Inr 0 else if s = ''auth'' then Inr 1 else if s = ''all'' then Inr 2
      else Inl (''audit_level `'' @ s @ ''` unknown (off|auth|all)''))"

definition class_of :: "string \<Rightarrow> nat" where
  "class_of ev = (if starts_with ''auth.'' ev then 1 else 2)"

definition level_allows :: "nat \<Rightarrow> string \<Rightarrow> bool" where
  "level_allows level ev \<longleftrightarrow> class_of ev \<le> level"

text \<open>The clock text has its own conversion from days to dates, beside that of the stamps.\<close>

definition audit_ts :: "nat \<Rightarrow> string" where
  "audit_ts secs =
     (let days = int (secs div 86400) + 719468;
          era = (if 0 \<le> days then days else days - 146096) div 146097;
          doe = days - era * 146097;
          yoe = (doe - doe div 1460 + doe div 36524 - doe div 146096) div 365;
          y = yoe + era * 400;
          doy = doe - (365 * yoe + yoe div 4 - yoe div 100);
          mp = (5 * doy + 2) div 153;
          d = doy - (153 * mp + 2) div 5 + 1;
          m = (if mp < 10 then mp + 3 else mp - 9);
          y' = (if m \<le> 2 then y + 1 else y);
          hh = int (secs mod 86400 div 3600); mm = int (secs mod 3600 div 60); ss = int (secs mod 60)
      in pad 4 y' @ ''-'' @ pad 2 m @ ''-'' @ pad 2 d @ ''T'' @ pad 2 hh @ '':'' @ pad 2 mm @ '':'' @ pad 2 ss @ ''Z'')"

definition peer_ip :: "string option \<Rightarrow> bool \<Rightarrow> string option \<Rightarrow> string" where
  "peer_ip forwarded trust_proxy peer =
     (let first = Option.bind (if trust_proxy then forwarded else None)
                    (\<lambda>v. let t = trim (hd (split_on (CHR '','') v)) in if t = [] then None else Some t)
      in case first of Some ip \<Rightarrow> ip | None \<Rightarrow> unwrap_or ''unix'' peer)"

text \<open>\<open>replace('\\', "\\\\").replace('"', "\\\"")\<close>.\<close>

definition audit_escape :: "string \<Rightarrow> string" where
  "audit_escape v = concat (map (\<lambda>c. if c = CHR 92 \<or> c = CHR 34 then [CHR 92, c] else [c]) v)"

definition audit_head :: "nat \<Rightarrow> string \<Rightarrow> string" where
  "audit_head secs ev = ''audit {'' @ [CHR 34] @ ''ts'' @ [CHR 34] @ '':'' @ [CHR 34] @ audit_ts secs @ [CHR 34] @ '','' @ [CHR 34] @ ''ev''
     @ [CHR 34] @ '':'' @ [CHR 34] @ ev @ [CHR 34]"

definition audit_field :: "string \<times> string \<Rightarrow> string" where
  "audit_field f = ('','' @ [CHR 34] @ fst f @ [CHR 34] @ '':'' @ [CHR 34]) @ audit_escape (snd f) @ [CHR 34]"

definition audit_line :: "nat \<Rightarrow> audit_event \<Rightarrow> string" where
  "audit_line secs e = audit_head secs (au_ev e) @ concat (map audit_field (au_fields e)) @ ''}''"

definition audit_emit :: "bool \<Rightarrow> nat \<Rightarrow> nat \<Rightarrow> audit_event \<Rightarrow> string option" where
  "audit_emit enabled level secs e = (if \<not> enabled \<or> \<not> level_allows level (au_ev e) then None else Some (audit_line secs e))"

subsection \<open>The events\<close>

definition bool_text :: "bool \<Rightarrow> string" where
  "bool_text b = (if b then ''true'' else ''false'')"

definition login_ok_event :: "string \<Rightarrow> string \<Rightarrow> audit_event" where
  "login_ok_event name ip = \<lparr>au_ev = ''auth.login.ok'', au_fields = [(''login'', name), (''ip'', ip)]\<rparr>"

definition login_fail_event :: "string \<Rightarrow> string \<Rightarrow> bool \<Rightarrow> audit_event" where
  "login_fail_event name ip locked =
     \<lparr>au_ev = ''auth.login.fail'', au_fields = [(''login'', name), (''ip'', ip), (''locked'', bool_text locked)]\<rparr>"

definition lockout_event :: "string \<Rightarrow> string \<Rightarrow> nat \<Rightarrow> audit_event" where
  "lockout_event name ip retry =
     \<lparr>au_ev = ''auth.lockout'', au_fields = [(''login'', name), (''ip'', ip), (''retry_secs'', show_nat retry)]\<rparr>"

definition refresh_reuse_event :: "string \<Rightarrow> string \<Rightarrow> audit_event" where
  "refresh_reuse_event name ip = \<lparr>au_ev = ''auth.refresh.reuse'', au_fields = [(''login'', name), (''ip'', ip)]\<rparr>"

definition refresh_fail_event :: "string \<Rightarrow> audit_event" where
  "refresh_fail_event ip = \<lparr>au_ev = ''auth.refresh.fail'', au_fields = [(''ip'', ip)]\<rparr>"

definition register_event :: "string \<Rightarrow> string \<Rightarrow> bool \<Rightarrow> string \<Rightarrow> audit_event" where
  "register_event name ip okay why =
     \<lparr>au_ev = ''auth.register'', au_fields = [(''login'', name), (''ip'', ip), (''ok'', bool_text okay), (''why'', why)]\<rparr>"

definition logout_event :: "string \<Rightarrow> string \<Rightarrow> string \<Rightarrow> audit_event" where
  "logout_event name ip via = \<lparr>au_ev = ''auth.logout'', au_fields = [(''login'', name), (''ip'', ip), (''via'', via)]\<rparr>"

definition reload_event :: "string \<Rightarrow> string \<Rightarrow> bool \<Rightarrow> string \<Rightarrow> audit_event" where
  "reload_event admin ip okay detail =
     \<lparr>au_ev = ''admin.reload'', au_fields = [(''admin'', admin), (''ip'', ip), (''ok'', bool_text okay), (''detail'', detail)]\<rparr>"

definition policy_reload_event :: "string \<Rightarrow> bool \<Rightarrow> audit_event" where
  "policy_reload_event path okay = \<lparr>au_ev = ''policy.reload'', au_fields = [(''path'', path), (''ok'', bool_text okay)]\<rparr>"

section \<open>Facts\<close>

text \<open>The two conversions agree: an audit record carries the same time stamp as the documents.\<close>

lemma day_clock:
  fixes secs :: nat
  shows "int (secs mod 86400) mod 3600 div 60 = int (secs mod 3600 div 60)" "int (secs mod 86400) mod 60 = int (secs mod 60)"
    "int (secs mod 86400) div 3600 = int (secs mod 86400 div 3600)"
proof -
  have "secs mod 86400 mod 3600 = secs mod 3600" by (rule mod_mod_cancel) simp
  then show "int (secs mod 86400) mod 3600 div 60 = int (secs mod 3600 div 60)"
    by (metis of_nat_div of_nat_mod of_nat_numeral)
  have "secs mod 86400 mod 60 = secs mod 60" by (rule mod_mod_cancel) simp
  then show "int (secs mod 86400) mod 60 = int (secs mod 60)" by (metis of_nat_mod of_nat_numeral)
  show "int (secs mod 86400) div 3600 = int (secs mod 86400 div 3600)" by (metis of_nat_div of_nat_numeral)
qed

lemma audit_ts_iso: "audit_ts secs = format_iso secs"
proof -
  have "0 \<le> int (secs div 86400) + 719468" by simp
  then show ?thesis by (simp only: audit_ts_def format_iso_def civil_def Let_def day_clock if_True prod.case)
qed

text \<open>The levels are nested, and the account events come before the others.\<close>

lemma levels_nested: "level_allows a ev \<Longrightarrow> a \<le> b \<Longrightarrow> level_allows b ev"
  by (simp add: level_allows_def)

text \<open>
  A line is not one line: a newline in a login name is printed as it is, so whoever attempts a login
  chooses how the next line of the log begins.
\<close>

lemma audit_escape_append: "audit_escape (a @ b) = audit_escape a @ audit_escape b"
  by (simp add: audit_escape_def)

lemma audit_escape_newline: "audit_escape [CHR 10] = [CHR 10]"
  by (simp add: audit_escape_def)

lemma audit_line_split:
  "\<exists>before rest. audit_line secs (login_fail_event (a @ [CHR 10] @ b) ip locked) = before @ [CHR 10] @ audit_escape b @ rest"
proof -
  let ?e = "login_fail_event (a @ [CHR 10] @ b) ip locked"
  have "audit_line secs ?e = (audit_head secs (au_ev ?e) @ '','' @ [CHR 34] @ ''login'' @ [CHR 34] @ '':'' @ [CHR 34])
      @ audit_escape (a @ [CHR 10] @ b) @ ([CHR 34] @ concat (map audit_field (tl (au_fields ?e))) @ ''}'')"
    by (simp add: audit_line_def login_fail_event_def audit_field_def)
  then obtain before rest where "audit_line secs ?e = before @ audit_escape (a @ [CHR 10] @ b) @ rest" by blast
  then have "audit_line secs ?e = (before @ audit_escape a) @ [CHR 10] @ audit_escape b @ rest"
    by (simp only: audit_escape_append audit_escape_newline append.assoc)
  then show ?thesis by blast
qed

end
