(* ===== verification/Accounts.thy ===== *)
theory Accounts
  imports Rotation Lockout TokenCache Edge AuditLog Gateway
begin

text \<open>
  The account routes of the gateway (main.rs): registration, login behind the lockout, refresh,
  logout and the identity route, over the local issuer, the login guard, the token cache and the
  replay cache; and the GitHub login (crates/hakobackend-auth-github/src/lib.rs). The exchange of
  a code for a token and the user lookup at GitHub, SHA-256 and randomness are parameters.
\<close>

section \<open>Cookies\<close>

record cookie_conf =
  ck_secure :: bool
  ck_samesite :: string
  ck_path :: string
  ck_domain :: "string option"

text \<open>\<open>CookieConf::build\<close>; an error is a panic at boot.\<close>

definition cookie_conf_build :: "bool \<Rightarrow> string \<Rightarrow> string \<Rightarrow> string option \<Rightarrow> (string, cookie_conf) result" where
  "cookie_conf_build secure samesite path domain =
     (if samesite \<notin> {''Strict'', ''Lax'', ''None''} then
        Inl (''[ub] cookie_samesite must be Strict|Lax|None, got `'' @ samesite @ ''`'')
      else if samesite = ''None'' \<and> \<not> secure then
        Inl ''[ub] cookie_samesite=None requires cookie_secure=true (browsers reject None without Secure)''
      else Inr \<lparr>ck_secure = secure, ck_samesite = samesite, ck_path = path, ck_domain = domain\<rparr>)"

definition cookie_pair :: "cookie_conf \<Rightarrow> string \<Rightarrow> string \<Rightarrow> nat \<Rightarrow> string" where
  "cookie_pair conf name value age =
     name @ ''='' @ value @ ''; Path='' @ ck_path conf @ ''; Max-Age='' @ show_nat age @ ''; HttpOnly''
       @ (case ck_domain conf of Some d \<Rightarrow> ''; Domain='' @ d | None \<Rightarrow> [])
       @ (if ck_secure conf then ''; Secure'' else []) @ ''; SameSite='' @ ck_samesite conf"

definition REFRESH_COOKIE :: string where "REFRESH_COOKIE = ''__Host-ub_rt''"

definition session_cookies :: "'s local_auth \<Rightarrow> session_tokens \<Rightarrow> cookie_conf \<Rightarrow> string list" where
  "session_cookies la tk conf = [cookie_pair conf ACCESS_COOKIE (access_jwt tk) (la_access_ttl la),
     cookie_pair conf REFRESH_COOKIE (refresh_opaque tk) (la_refresh_ttl la)]"

definition clear_cookies :: "cookie_conf \<Rightarrow> string list" where
  "clear_cookies conf = map (\<lambda>name. cookie_pair conf name [] 0) [ACCESS_COOKIE, REFRESH_COOKIE]"

definition render_issuance :: "cookie_conf \<Rightarrow> 's local_auth \<Rightarrow> session_tokens \<Rightarrow> string \<Rightarrow> bool \<Rightarrow> bool \<Rightarrow> string list \<times> json" where
  "render_issuance conf la tk u token_response cookies_on =
     (if cookies_on then session_cookies la tk conf else [],
      JObj ((if token_response then
               [(''access_token'', JStr (access_jwt tk)), (''expires_in'', jint (int (la_access_ttl la))),
                (''refresh_token'', JStr (refresh_opaque tk)), (''token_type'', JStr ''Bearer'')]
             else []) @ [(''uid'', JStr u)]))"

section \<open>GitHub\<close>

record github_user_cache =
  gc_entries :: "(string, claims \<times> instant) dict"

definition GITHUB_TTL :: nat where "GITHUB_TTL = 60 * nanos"

definition gh_cached :: "instant \<Rightarrow> string \<Rightarrow> github_user_cache \<Rightarrow> claims option" where
  "gh_cached now token g = (case dget (gc_entries g) token of
     Some (c, t) \<Rightarrow> if now - t < GITHUB_TTL then Some c else None
   | None \<Rightarrow> None)"

text \<open>\<open>fetch\<close> is the user object that GitHub answers with for a token.\<close>

definition github_verify :: "(string \<Rightarrow> (string, json) dict option) \<Rightarrow> instant \<Rightarrow> string \<Rightarrow> github_user_cache \<Rightarrow> claims app_result \<times> github_user_cache" where
  "github_verify fetch now token g = (case gh_cached now token g of
     Some c \<Rightarrow> (Inr c, g)
   | None \<Rightarrow> (case fetch token of
       None \<Rightarrow> (Inl PermissionDenied, g)
     | Some user \<Rightarrow> (case Option.bind (dget user ''id'') as_u64 of
         None \<Rightarrow> (Inl PermissionDenied, g)
       | Some i \<Rightarrow>
           (let c = \<lparr>c_provider = ''github'', c_uid = show_nat (nat i), c_email = Option.bind (dget user ''email'') as_str, c_extra = user\<rparr>
            in (Inr c, g\<lparr>gc_entries := dput token (c, now) (gc_entries g)\<rparr>)))))"

record 's github =
  gh_client_id :: string
  gh_redirect_uri :: string
  gh_authorize_url :: string
  gh_after_login :: string
  gh_db :: "'s driver"
  gh_sha_hex :: "string \<Rightarrow> string"
  gh_pkce :: "string \<Rightarrow> string"
  gh_exchange :: "string \<Rightarrow> string \<Rightarrow> string app_result"
  gh_fetch :: "string \<Rightarrow> (string, json) dict option"

definition PENDING_COLLECTION :: string where "PENDING_COLLECTION = ''__oauth_pending''"

definition urlenc :: "string \<Rightarrow> string" where
  "urlenc s = concat (map (\<lambda>b. if is_alnum b \<or> b \<in> {CHR ''-'', CHR ''_'', CHR ''.'', CHR ''~''} then [b]
     else ''%'' @ map upper_char [hex_nibble (ch b div 16), hex_nibble (ch b mod 16)]) s)"

text \<open>The redirect URI of \<open>GithubOAuth::new\<close>, and the guard of \<open>from_env\<close> on where a login lands.\<close>

definition trim_slashes_end :: "string \<Rightarrow> string" where
  "trim_slashes_end s = rev (dropWhile (\<lambda>c. c = CHR ''/'') (rev s))"

definition github_redirect_uri :: "string \<Rightarrow> string" where
  "github_redirect_uri public_base = trim_slashes_end public_base @ ''/api/auth/github/callback''"

definition after_login_ok :: "string \<Rightarrow> bool" where
  "after_login_ok p \<longleftrightarrow> starts_with ''/'' p \<and> \<not> starts_with ''//'' p"

definition from_env :: "string option \<Rightarrow> string option \<Rightarrow> string option \<Rightarrow> string \<Rightarrow> 'g \<Rightarrow> (string, 'g option) result" where
  "from_env client_id secret public after_login g = (case client_id of
     None \<Rightarrow> Inr None
   | Some _ \<Rightarrow> (case secret of
       None \<Rightarrow> Inl ''UB_GITHUB_CLIENT_ID is set but UB_GITHUB_CLIENT_SECRET is empty''
     | Some _ \<Rightarrow> (case public of
         None \<Rightarrow> Inl (''OAuth github requires UB_PUBLIC_URL (callback origin https://'' @ [CHR 0xE2, CHR 0x80, CHR 0xA6] @ '')'')
       | Some _ \<Rightarrow> if \<not> after_login_ok after_login then Inl ''UB_GITHUB_AFTER_LOGIN must be a same-origin path (e.g. /)''
                   else Inr (Some g))))"

text \<open>\<open>rnd\<close>: the random parts of the state, the verifier and the nonce.\<close>

definition login_url_for :: "'s github \<Rightarrow> nat \<Rightarrow> string \<times> string \<times> string \<Rightarrow> string option \<Rightarrow> 's \<Rightarrow> (string \<times> string) app_result \<times> 's" where
  "login_url_for g unix rnd tenant s =
     (let (r, verifier, nonce) = rnd;
          state = (case tenant of Some t \<Rightarrow> t @ '':'' @ r | None \<Rightarrow> r);
          d = \<lparr>d_id = state, d_data = dict_of [(''provider'', JStr ''github''), (''verifier'', JStr verifier),
                (''nonce'', JStr (gh_sha_hex g nonce)), (''created_at'', jint (int unix))]\<rparr>
      in case db_insert (gh_db g) s PENDING_COLLECTION d of
           (Inl _, s') \<Rightarrow> (Inl (Internal ''oauth store error''), s')
         | (Inr _, s') \<Rightarrow>
             (Inr (gh_authorize_url g @ ''?client_id='' @ urlenc (gh_client_id g) @ ''&redirect_uri='' @ urlenc (gh_redirect_uri g)
                @ ''&scope='' @ urlenc ''read:user user:email'' @ ''&state='' @ urlenc state @ ''&code_challenge=''
                @ urlenc (gh_pkce g verifier) @ ''&code_challenge_method=S256'', nonce), s'))"

definition timing_safe_eq :: "string \<Rightarrow> string \<Rightarrow> bool" where
  "timing_safe_eq a b = (if length a \<noteq> length b then False else byte_diff a b = 0)"

definition PENDING_TTL_SECS :: nat where "PENDING_TTL_SECS = 600"

text \<open>The checks on a pending entry.\<close>

definition pending_ok :: "'s github \<Rightarrow> nat \<Rightarrow> string option \<Rightarrow> doc \<Rightarrow> bool" where
  "pending_ok g unix nonce pending \<longleftrightarrow>
     (let fresh = (case Option.bind (dget (d_data pending) ''created_at'') as_u64 of Some t \<Rightarrow> unix < plus_u64 (nat t) PENDING_TTL_SECS | None \<Rightarrow> False);
          verifier = unwrap_or [] (Option.bind (dget (d_data pending) ''verifier'') as_str);
          nonce_ok = (case (Option.bind (dget (d_data pending) ''nonce'') as_str, nonce) of
              (Some expected, Some got) \<Rightarrow> timing_safe_eq expected (gh_sha_hex g got) | _ \<Rightarrow> False)
      in \<not> (\<not> fresh \<or> verifier = [] \<or> \<not> nonce_ok \<or> Option.bind (dget (d_data pending) ''provider'') as_str \<noteq> Some ''github''))"

definition callback :: "'s github \<Rightarrow> nat \<Rightarrow> instant \<Rightarrow> string \<Rightarrow> string \<Rightarrow> string option \<Rightarrow> 's \<Rightarrow> github_user_cache \<Rightarrow>
    (string \<times> string option \<times> string option) app_result \<times> 's \<times> github_user_cache" where
  "callback g unix now code state nonce s gc = (case db_get (gh_db g) s PENDING_COLLECTION state of
     Inl _ \<Rightarrow> (Inl (Internal ''oauth store error''), s, gc)
   | Inr None \<Rightarrow> (Inl PermissionDenied, s, gc)
   | Inr (Some pending) \<Rightarrow>
       (case db_delete (gh_db g) s PENDING_COLLECTION state of
          (Inl _, s') \<Rightarrow> (Inl (Internal ''oauth store error''), s', gc)
        | (Inr _, s') \<Rightarrow>
            if \<not> pending_ok g unix nonce pending then (Inl PermissionDenied, s', gc)
            else (case gh_exchange g code (unwrap_or [] (Option.bind (dget (d_data pending) ''verifier'') as_str)) of
                Inl e \<Rightarrow> (Inl e, s', gc)
              | Inr token \<Rightarrow> (case github_verify (gh_fetch g) now token gc of
                  (Inl e, gc') \<Rightarrow> (Inl e, s', gc')
                | (Inr c, gc') \<Rightarrow>
                    (Inr (namespaced c, c_email c, Option.bind (dget (c_extra c) ''login'') as_str), s', gc')))))"

section \<open>The routes\<close>

record 's auth_app =
  ap_local :: "'s local_auth option"
  ap_github :: "'s github option"
  ap_users :: string
  ap_register_open :: bool
  ap_admins :: "string list"
  ap_cookies :: cookie_conf
  ap_token_response :: bool
  ap_cookies_on :: bool
  ap_tls :: bool
  ap_trust_proxy :: bool

record 's auth_state =
  au_db :: 's
  au_guard :: login_guard
  au_cache :: token_cache
  au_replay :: replay_cache
  au_github :: github_user_cache
  au_bus :: "(string \<times> change) list"
  au_log :: "audit_event list"

text \<open>
  A request: its headers, the parsed body, the clock readings (wall clock, and the monotone clock at
  the start and after the password check), and the randomness the call draws.
\<close>

record auth_call =
  cl_auth :: "auth_context option"
  cl_cookie :: "string option"
  cl_authorization :: "string option"
  cl_host :: "string option"
  cl_dpop :: "string option"
  cl_forwarded :: "string option"
  cl_query :: "(string, string) dict"
  cl_body :: "json option"
  cl_unix :: nat
  cl_now :: instant
  cl_later :: instant
  cl_rnd :: "string \<times> string"
  cl_oauth_rnd :: "string \<times> string \<times> string"

text \<open>A reply: the response, the cookies it sets, and where it redirects to.\<close>

record auth_reply =
  ar_response :: response
  ar_cookies :: "string list"
  ar_location :: "string option"

definition plain_reply :: "response \<Rightarrow> auth_reply" where
  "plain_reply r = \<lparr>ar_response = r, ar_cookies = [], ar_location = None\<rparr>"

definition log_event :: "audit_event \<Rightarrow> 's auth_state \<Rightarrow> 's auth_state" where
  "log_event e st = st\<lparr>au_log := au_log st @ [e]\<rparr>"

text \<open>\<open>replace("unix", "direct")\<close>, in whatever the proxy sent.\<close>

function unix_direct :: "string \<Rightarrow> string" where
  "unix_direct s = (if take 4 s = ''unix'' then ''direct'' @ unix_direct (drop 4 s)
     else case s of [] \<Rightarrow> [] | c # cs \<Rightarrow> c # unix_direct cs)"
  by auto
termination
  by (relation "measure length") (auto dest: arg_cong [of _ _ length])

declare unix_direct.simps [simp del]

definition audit_ip :: "'s auth_app \<Rightarrow> auth_call \<Rightarrow> string" where
  "audit_ip ap c = unix_direct (peer_ip (cl_forwarded c) (ap_trust_proxy ap) None)"

definition local_or_400 :: "'s auth_app \<Rightarrow> (response, 's local_auth) result" where
  "local_or_400 ap = (case ap_local ap of
     Some la \<Rightarrow> Inr la | None \<Rightarrow> Inl (resp 400 (BText ''local auth is not active (see --auth)'')))"

definition str_field :: "(string, json) dict \<Rightarrow> string list \<Rightarrow> string option" where
  "str_field b keys = (case filter_map (dget b) keys of [] \<Rightarrow> None | v # _ \<Rightarrow> as_str v)"

text \<open>\<open>issuance_parts\<close> and the proof of the request, if it carries one.\<close>

definition issuance_proof :: "'s auth_app \<Rightarrow> auth_call \<Rightarrow> string \<Rightarrow> (string \<times> string \<times> string) option" where
  "issuance_proof ap c path = map_option (\<lambda>p. (p, ''POST'', base_uri (ap_tls ap) (cl_host c) path)) (cl_dpop c)"

definition auth_state_of :: "auth_call \<Rightarrow> 's auth_state \<Rightarrow> local_state" where
  "auth_state_of c st = \<lparr>ls_unix = cl_unix c, ls_now = cl_now c, ls_replay = au_replay st\<rparr>"

definition auth_register :: "'s auth_app \<Rightarrow> auth_call \<Rightarrow> 's auth_state \<Rightarrow> auth_reply \<times> 's auth_state" where
  "auth_register ap c st =
     (let ip = audit_ip ap c; admin = is_admin (cl_auth c) (ap_admins ap) in
      if \<not> ap_register_open ap \<and> \<not> admin then
        (plain_reply (err 403 ''registration closed by administrator''), log_event (register_event ''-'' ip False ''closed'') st)
      else case local_or_400 ap of
        Inl r \<Rightarrow> (plain_reply r, st)
      | Inr la \<Rightarrow> (case Option.bind (cl_body c) as_object of
          None \<Rightarrow> (plain_reply (err 400 ''JSON object body required''), st)
        | Some b \<Rightarrow>
            (let i = Option.bind (dget b ''id'') as_str; b1 = ddel ''id'' b;
                 email = Option.bind (dget b1 ''email'') as_str; b2 = ddel ''email'' b1
             in case Option.bind (dget b2 ''password'') as_str of
                  None \<Rightarrow> (plain_reply (err 400 ''password required''), st)
                | Some password \<Rightarrow>
                    (case register la (au_db st) i email password (ddel ''password'' b2) of
                       (Inr d, s') \<Rightarrow>
                         (plain_reply (resp 201 (BJson (JObj [(''id'', JStr (d_id d))]))),
                          (log_event (register_event (d_id d) ip True (if admin \<and> \<not> ap_register_open ap then ''admin'' else ''ok'')) st)
                            \<lparr>au_db := s', au_bus := au_bus st @ [(ap_users ap, put_change (ap_users ap) (d_id d) (Some d))]\<rparr>)
                     | (Inl e, s') \<Rightarrow>
                         (plain_reply (app_err e),
                          (log_event (register_event (unwrap_or ''-'' i) ip False (err_text e)) st)\<lparr>au_db := s'\<rparr>)))))"

definition auth_login :: "'s auth_app \<Rightarrow> auth_call \<Rightarrow> 's auth_state \<Rightarrow> auth_reply \<times> 's auth_state" where
  "auth_login ap c st =
     (let ip = audit_ip ap c in
      case local_or_400 ap of
        Inl r \<Rightarrow> (plain_reply r, st)
      | Inr la \<Rightarrow> (case Option.bind (cl_body c) as_object of
          None \<Rightarrow> (plain_reply (err 400 ''JSON object body required''), st)
        | Some b \<Rightarrow>
            (case (str_field b [''login'', ''id'', ''email'', ''username''], str_field b [''password'']) of
               (Some l, Some p) \<Rightarrow>
                 (case locked_secs (cl_now c) l (au_guard st) of
                    Some retry \<Rightarrow>
                      (plain_reply ((resp 429 (BText ''too many login attempts''))\<lparr>r_retry_after := Some (show_nat retry)\<rparr>),
                       log_event (login_fail_event l ip True) st)
                  | None \<Rightarrow>
                      (case login la (auth_state_of c st) (cl_rnd c) (au_db st) l p (issuance_proof ap c ''/api/auth/login'') of
                         (Inr (ctx, tk), s', rp) \<Rightarrow>
                           (let (h, j) = render_issuance (ap_cookies ap) la tk (uid ctx) (ap_token_response ap) (ap_cookies_on ap) in
                            (\<lparr>ar_response = resp 200 (BJson j), ar_cookies = h, ar_location = None\<rparr>,
                             (log_event (login_ok_event l ip) st)\<lparr>au_db := s', au_replay := rp, au_guard := guard_clear l (au_guard st)\<rparr>))
                       | (Inl _, s', rp) \<Rightarrow>
                           (let (transition, g') = guard_fail (cl_later c) l (au_guard st);
                                st1 = (case transition of Some retry \<Rightarrow> log_event (lockout_event l ip retry) st | None \<Rightarrow> st)
                            in (plain_reply (err 401 ''invalid credentials''),
                                (log_event (login_fail_event l ip False) st1)\<lparr>au_db := s', au_replay := rp, au_guard := g'\<rparr>))))
             | _ \<Rightarrow> (plain_reply (err 400 ''login + password required''), st))))"

text \<open>The refresh token: the cookie, or the body when tokens are given in bodies.\<close>

definition presented_refresh :: "'s auth_app \<Rightarrow> auth_call \<Rightarrow> string option" where
  "presented_refresh ap c = (case read_cookie (cl_cookie c) REFRESH_COOKIE of
     Some t \<Rightarrow> Some t
   | None \<Rightarrow> if ap_token_response ap then Option.bind (Option.bind (cl_body c) (\<lambda>v. jget v ''refresh_token'')) as_str else None)"

definition cleared :: "'s auth_app \<Rightarrow> string list" where
  "cleared ap = (if ap_cookies_on ap then clear_cookies (ap_cookies ap) else [])"

definition auth_refresh :: "'s auth_app \<Rightarrow> auth_call \<Rightarrow> 's auth_state \<Rightarrow> auth_reply \<times> 's auth_state" where
  "auth_refresh ap c st =
     (let ip = audit_ip ap c in
      case local_or_400 ap of
        Inl r \<Rightarrow> (plain_reply r, st)
      | Inr la \<Rightarrow> (case presented_refresh ap c of
          None \<Rightarrow> (plain_reply unauthorized, st)
        | Some t \<Rightarrow>
            (case refresh_classified la (auth_state_of c st) (fst (cl_rnd c)) (au_db st) t (issuance_proof ap c ''/api/auth/refresh'') of
               (Inr (ctx, tk), s', rp) \<Rightarrow>
                 (let (h, j) = render_issuance (ap_cookies ap) la tk (uid ctx) (ap_token_response ap) (ap_cookies_on ap) in
                  (\<lparr>ar_response = resp 200 (BJson j), ar_cookies = h, ar_location = None\<rparr>, st\<lparr>au_db := s', au_replay := rp\<rparr>))
             | (Inl deny, s', rp) \<Rightarrow>
                 (\<lparr>ar_response = err 401 ''invalid session'', ar_cookies = cleared ap, ar_location = None\<rparr>,
                  (log_event (if deny = ReuseRevoked then refresh_reuse_event ''-'' ip else refresh_fail_event ip) st)
                    \<lparr>au_db := s', au_replay := rp\<rparr>))))"

definition auth_logout :: "'s auth_app \<Rightarrow> (string \<Rightarrow> string) \<Rightarrow> auth_call \<Rightarrow> 's auth_state \<Rightarrow> auth_reply \<times> 's auth_state" where
  "auth_logout ap sha c st =
     (let reply = \<lparr>ar_response = ok_true, ar_cookies = cleared ap, ar_location = None\<rparr> in
      case presented_refresh ap c of
        None \<Rightarrow> (reply, st)
      | Some t \<Rightarrow>
          (let s' = (case ap_local ap of Some la \<Rightarrow> snd (logout la (au_db st) t) | None \<Rightarrow> au_db st);
               access = (case read_cookie (cl_cookie c) ACCESS_COOKIE of Some a \<Rightarrow> Some a | None \<Rightarrow> bearer (cl_authorization c));
               tc = (case access of Some a \<Rightarrow> tc_remove (sha a) (au_cache st) | None \<Rightarrow> au_cache st)
           in (reply, (log_event (logout_event ''-'' (audit_ip ap c) ''refresh'') st)\<lparr>au_db := s', au_cache := tc\<rparr>)))"

definition auth_me :: "auth_call \<Rightarrow> auth_reply" where
  "auth_me c = plain_reply (case cl_auth c of
     Some ctx \<Rightarrow> resp 200 (BJson (JObj [(''extra'', JObj (extra ctx)), (''uid'', JStr (uid ctx))]))
   | None \<Rightarrow> unauthorized)"

definition NONCE_COOKIE :: string where "NONCE_COOKIE = ''__Host-gh_nonce''"

definition github_login :: "'s auth_app \<Rightarrow> auth_call \<Rightarrow> 's auth_state \<Rightarrow> auth_reply \<times> 's auth_state" where
  "github_login ap c st = (case ap_github ap of
     None \<Rightarrow> (plain_reply (err 400 ''github oauth is not configured''), st)
   | Some g \<Rightarrow> (case login_url_for g (cl_unix c) (cl_oauth_rnd c) None (au_db st) of
       (Inr (url, nonce), s') \<Rightarrow>
         (\<lparr>ar_response = resp 302 (BText []),
           ar_cookies = [NONCE_COOKIE @ ''='' @ nonce @ ''; Path=/; Max-Age=600; Secure; HttpOnly; SameSite=Lax''],
           ar_location = Some url\<rparr>, st\<lparr>au_db := s'\<rparr>)
     | (Inl _, s') \<Rightarrow> (plain_reply err_internal, st\<lparr>au_db := s'\<rparr>)))"

definition github_callback :: "'s auth_app \<Rightarrow> auth_call \<Rightarrow> 's auth_state \<Rightarrow> auth_reply \<times> 's auth_state" where
  "github_callback ap c st = (case (dget (cl_query c) ''code'', dget (cl_query c) ''state'') of
     (Some code, Some state) \<Rightarrow>
       (case (ap_github ap, ap_local ap) of
          (Some g, Some la) \<Rightarrow>
            (case callback g (cl_unix c) (cl_now c) code state (read_cookie (cl_cookie c) NONCE_COOKIE) (au_db st) (au_github st) of
               (Inl _, s1, gc) \<Rightarrow> (plain_reply (err 401 ''github verification failed''), st\<lparr>au_db := s1, au_github := gc\<rparr>)
             | (Inr (u, email, l), s1, gc) \<Rightarrow>
                 (case login_external la (cl_unix c) (cl_rnd c) s1 u email (case l of Some x \<Rightarrow> [(''login'', JStr x)] | None \<Rightarrow> []) of
                    (Inr (ctx, tk), s2) \<Rightarrow>
                      (\<lparr>ar_response = resp 302 (BText []),
                        ar_cookies = session_cookies la tk (ap_cookies ap) @ [NONCE_COOKIE @ ''=; Path=/; Max-Age=0; Secure; HttpOnly; SameSite=Lax''],
                        ar_location = Some (gh_after_login g)\<rparr>, st\<lparr>au_db := s2, au_github := gc\<rparr>)
                  | (Inl _, s2) \<Rightarrow> (plain_reply err_internal, st\<lparr>au_db := s2, au_github := gc\<rparr>)))
        | _ \<Rightarrow> (plain_reply (err 400 ''github oauth requires env credentials + `local` in the chain''), st))
   | _ \<Rightarrow> (plain_reply (err 400 ''code + state required''), st))"

end
