(* ===== verification/AccountProofs.thy ===== *)
theory AccountProofs
  imports Accounts
begin

text \<open>
  What the account routes guarantee as a whole: how many passwords can be tried on a login, what a
  logout ends, and when a GitHub login succeeds.
\<close>

section \<open>Guessing passwords\<close>

text \<open>The login and password a body names.\<close>

definition login_attempt :: "auth_call \<Rightarrow> (string \<times> string) option" where
  "login_attempt c = (case Option.bind (cl_body c) as_object of
     None \<Rightarrow> None
   | Some b \<Rightarrow> (case (str_field b [''login'', ''id'', ''email'', ''username''], str_field b [''password'']) of
       (Some l, Some p) \<Rightarrow> Some (l, p) | _ \<Rightarrow> None))"

definition tries :: "string \<Rightarrow> auth_call \<Rightarrow> bool" where
  "tries l c \<longleftrightarrow> (\<exists>p. login_attempt c = Some (l, p))"

fun login_run :: "'s auth_app \<Rightarrow> auth_call list \<Rightarrow> 's auth_state \<Rightarrow> (auth_call \<times> auth_reply) list" where
  "login_run ap [] st = []"
| "login_run ap (c # cs) st = (c, fst (auth_login ap c st)) # login_run ap cs (snd (auth_login ap c st))"

text \<open>One call after the other, all before \<open>u\<close>.\<close>

fun calls_until :: "instant \<Rightarrow> auth_call list \<Rightarrow> instant \<Rightarrow> bool" where
  "calls_until t [] u \<longleftrightarrow> True"
| "calls_until t (c # cs) u \<longleftrightarrow> t \<le> cl_now c \<and> cl_now c \<le> cl_later c \<and> cl_later c < u \<and> calls_until (cl_later c) cs u"

abbreviation status_of :: "auth_reply \<Rightarrow> nat" where
  "status_of r \<equiv> r_status (ar_response r)"

lemma plain_status [simp]: "status_of (plain_reply r) = r_status r"
  by (simp add: plain_reply_def)

lemma err_codes [simp]: "r_status (err c m) = c" "r_status (resp c b) = c"
  by (simp_all add: err_def resp_def)

lemma log_event_parts [simp]:
  "au_db (log_event e st) = au_db st" "au_guard (log_event e st) = au_guard st" "au_cache (log_event e st) = au_cache st"
  "au_replay (log_event e st) = au_replay st" "au_bus (log_event e st) = au_bus st" "au_github (log_event e st) = au_github st"
  by (simp_all add: log_event_def)

text \<open>A login call by its effect on the guard.\<close>

lemma login_locked:
  assumes "ap_local ap = Some la" "login_attempt c = Some (l, p)" "locked_secs (cl_now c) l (au_guard st) = Some k"
  shows "auth_login ap c st = (plain_reply ((resp 429 (BText ''too many login attempts''))\<lparr>r_retry_after := Some (show_nat k)\<rparr>),
    log_event (login_fail_event l (audit_ip ap c) True) st)"
  using assms by (auto simp: auth_login_def local_or_400_def login_attempt_def Let_def split: option.splits)

lemma login_unlocked:
  assumes "ap_local ap = Some la" "login_attempt c = Some (l, p)" "locked_secs (cl_now c) l (au_guard st) = None"
  shows "status_of (fst (auth_login ap c st)) = 200 \<and> au_guard (snd (auth_login ap c st)) = guard_clear l (au_guard st)
    \<or> status_of (fst (auth_login ap c st)) = 401 \<and> au_guard (snd (auth_login ap c st)) = snd (guard_fail (cl_later c) l (au_guard st))"
proof -
  obtain r s' rp where r: "login la (auth_state_of c st) (cl_rnd c) (au_db st) l p (issuance_proof ap c ''/api/auth/login'') = (r, s', rp)"
    using prod_cases3 by blast
  obtain b where b: "Option.bind (cl_body c) as_object = Some b" "str_field b [''login'', ''id'', ''email'', ''username''] = Some l"
      "str_field b [''password''] = Some p"
    using assms(2) by (auto simp: login_attempt_def split: option.splits)
  show ?thesis
  proof (cases r)
    case (Inl e)
    obtain tr g' where "guard_fail (cl_later c) l (au_guard st) = (tr, g')" by fastforce
    then show ?thesis using assms(1,3) b r Inl by (simp add: auth_login_def local_or_400_def Let_def)
  next
    case (Inr x)
    obtain ctx tk where "x = (ctx, tk)" by fastforce
    then show ?thesis using assms(1,3) b r Inr by (simp add: auth_login_def local_or_400_def Let_def render_issuance_def)
  qed
qed

lemma no_attempt:
  assumes "login_attempt c = None"
  shows "au_guard (snd (auth_login ap c st)) = au_guard st \<and> status_of (fst (auth_login ap c st)) = 400"
  using assms by (auto simp: auth_login_def local_or_400_def login_attempt_def Let_def split: option.splits)

text \<open>
  The state of one login while its failures are counted from \<open>t0\<close> on: none, \<open>k\<close> failures and no
  lock, or a lock for the rest of the window.
\<close>

definition counted :: "instant \<Rightarrow> string \<Rightarrow> nat \<Rightarrow> login_guard \<Rightarrow> bool" where
  "counted t0 l k g \<longleftrightarrow> (if k < max_attempts g
     then (case dget (lg_entries g) l of None \<Rightarrow> k = 0 | Some e \<Rightarrow> \<exists>t \<ge> t0. e = \<lparr>fails = k, lg_last = t, locked_until = None\<rparr>)
     else k = max_attempts g \<and> (\<exists>u \<ge> t0 + lg_window g. lock_of g l = Some u))"

lemma guard_fail_other:
  assumes "guard_ok t g" "l' \<noteq> l" "\<And>e. dget (lg_entries g) l = Some e \<Longrightarrow> now - lg_last e < lg_window g"
  shows "dget (lg_entries (snd (guard_fail now l' g))) l = dget (lg_entries g) l"
  using assms by (auto simp: guard_fail_def Let_def guard_evict_def dget_dretain guard_ok_def split: option.split)

lemma guard_clear_other: "l' \<noteq> l \<Longrightarrow> dget (lg_entries (guard_clear l' g)) l = dget (lg_entries g) l"
  by (simp add: guard_clear_def)

lemma counted_fail:
  assumes "guard_ok t g" "t0 \<le> now" "now < t0 + lg_window g" "counted t0 l k g" "k < max_attempts g" "max_attempts g < 2 ^ 32"
  shows "counted t0 l (Suc k) (snd (guard_fail now l g))"
proof -
  obtain t' where c: "counting g l k t'" "now - t' < lg_window g" "t0 \<le> t' \<or> dget (lg_entries g) l = None"
  proof (cases "dget (lg_entries g) l")
    case None
    then show thesis using that [of now] assms by (auto simp: counted_def counting_def guard_ok_def)
  next
    case (Some e)
    then obtain t' where "t0 \<le> t'" "e = \<lparr>fails = k, lg_last = t', locked_until = None\<rparr>" using assms(4,5) by (auto simp: counted_def)
    then show thesis using that [of t'] Some assms by (auto simp: counting_def guard_ok_def)
  qed
  from counting_fail [OF c(1,2)] show ?thesis
    using assms(2) by (auto simp: counted_def counting_def split: if_splits option.splits)
qed

lemma counted_recent:
  assumes "counted t0 l k g" "guard_ok t g" "t0 \<le> now" "now < t0 + lg_window g" "dget (lg_entries g) l = Some e"
  shows "now - lg_last e < lg_window g"
proof (cases "k < max_attempts g")
  case True
  then show ?thesis using assms by (auto simp: counted_def)
next
  case False
  then obtain u where "t0 + lg_window g \<le> u" "locked_until e = Some u" using assms by (auto simp: counted_def lock_of_def)
  then show ?thesis using assms by (fastforce simp: guard_ok_def entry_ok_def)
qed

lemma counted_same:
  assumes "counted t0 l k g" "dget (lg_entries g') l = dget (lg_entries g) l" "lg_window g' = lg_window g" "max_attempts g' = max_attempts g"
  shows "counted t0 l k g'"
proof -
  have "lock_of g' l = lock_of g l" using assms(2) by (simp add: lock_of_def)
  then show ?thesis using assms by (simp add: counted_def)
qed

lemma counted_other:
  assumes "counted t0 l k g" "guard_ok t g" "t0 \<le> now" "now < t0 + lg_window g" "l' \<noteq> l"
  shows "counted t0 l k (snd (guard_fail now l' g))" "counted t0 l k (guard_clear l' g)"
  using counted_same [OF assms(1)] guard_fail_other [OF assms(2,5) counted_recent [OF assms(1-4)]] guard_clear_other [OF assms(5)]
  by simp_all

lemma counted_locked:
  assumes "counted t0 l k g" "\<not> k < max_attempts g" "now < t0 + lg_window g" "0 < max_attempts g"
  shows "locked_secs now l g \<noteq> None"
  using assms by (auto simp: counted_def locked_secs_lock_of guard_off_def)

lemma login_step:
  assumes la: "ap_local ap = Some la" and g: "guard_ok t (au_guard st)" "counted t0 l k (au_guard st)"
    and m: "0 < max_attempts (au_guard st)" "max_attempts (au_guard st) < 2 ^ 32"
    and c: "t0 \<le> t" "t \<le> cl_now c" "cl_now c \<le> cl_later c" "cl_later c < t0 + lg_window (au_guard st)"
    and fails: "tries l c \<Longrightarrow> status_of (fst (auth_login ap c st)) \<noteq> 200"
  shows "guard_ok (cl_later c) (au_guard (snd (auth_login ap c st)))
    \<and> max_attempts (au_guard (snd (auth_login ap c st))) = max_attempts (au_guard st)
    \<and> lg_window (au_guard (snd (auth_login ap c st))) = lg_window (au_guard st)
    \<and> counted t0 l (if tries l c \<and> status_of (fst (auth_login ap c st)) = 401 then Suc k else k) (au_guard (snd (auth_login ap c st)))
    \<and> (tries l c \<longrightarrow> status_of (fst (auth_login ap c st)) \<in> {401, 429})"
proof (cases "login_attempt c")
  case None
  then show ?thesis using no_attempt [OF None, of ap st] g guard_ok_later [OF g(1), of "cl_later c"] c by (auto simp: tries_def)
next
  case (Some a)
  obtain l' p where a: "a = (l', p)" by fastforce
  have tr: "tries l c \<longleftrightarrow> l' = l" using Some a by (auto simp: tries_def)
  have later: "t0 \<le> cl_later c" "t \<le> cl_later c" using c by simp_all
  have gl: "guard_ok (cl_later c) (au_guard st)" using guard_ok_later [OF g(1) later(2)] .
  show ?thesis
  proof (cases "locked_secs (cl_now c) l' (au_guard st)")
    case (Some s)
    have "login_attempt c = Some (l', p)" using \<open>login_attempt c = Some a\<close> a by simp
    from login_locked [OF la this Some] show ?thesis using gl g(2) by auto
  next
    case None
    have "login_attempt c = Some (l', p)" using Some a by simp
    from login_unlocked [OF la this None] have
      "status_of (fst (auth_login ap c st)) = 200 \<and> au_guard (snd (auth_login ap c st)) = guard_clear l' (au_guard st) \<and> l' \<noteq> l
       \<or> status_of (fst (auth_login ap c st)) = 401 \<and> au_guard (snd (auth_login ap c st)) = snd (guard_fail (cl_later c) l' (au_guard st))"
      using fails tr by blast
    then show ?thesis
    proof (elim disjE conjE)
      assume "status_of (fst (auth_login ap c st)) = 200" "au_guard (snd (auth_login ap c st)) = guard_clear l' (au_guard st)" "l' \<noteq> l"
      then show ?thesis using tr counted_other(2) [OF g(2,1) later(1) c(4)] guard_clear_ok [OF gl] by auto
    next
      assume r: "status_of (fst (auth_login ap c st)) = 401" "au_guard (snd (auth_login ap c st)) = snd (guard_fail (cl_later c) l' (au_guard st))"
      have ok: "guard_ok (cl_later c) (snd (guard_fail (cl_later c) l' (au_guard st)))" by (rule guard_fail_ok [OF g(1) later(2)])
      show ?thesis
      proof (cases "l' = l")
        case True
        have "k < max_attempts (au_guard st)"
          using counted_locked [OF g(2) _ _ m(1), of "cl_now c"] None True c by fastforce
        then show ?thesis using r ok tr True counted_fail [OF g(1) later(1) c(4) g(2) _ m(2)] by simp
      next
        case False
        then show ?thesis using r ok tr counted_other(1) [OF g(2,1) later(1) c(4)] by simp
      qed
    qed
  qed
qed

section \<open>Properties\<close>


definition demo_app :: "mem_db auth_app" where
  "demo_app = \<lparr>ap_local = Some demo_la, ap_github = None, ap_users = ''users'', ap_register_open = False, ap_admins = [],
     ap_cookies = \<lparr>ck_secure = True, ck_samesite = ''Lax'', ck_path = ''/'', ck_domain = None\<rparr>,
     ap_token_response = False, ap_cookies_on = True, ap_tls = True, ap_trust_proxy = False\<rparr>"

definition demo_auth_state :: "mem_db auth_state" where
  "demo_auth_state = \<lparr>au_db = demo_users, au_guard = three_strikes, au_cache = token_cache_new, au_replay = [],
     au_github = \<lparr>gc_entries = []\<rparr>, au_bus = [], au_log = []\<rparr>"

definition demo_call_at :: "instant \<Rightarrow> json option \<Rightarrow> auth_call" where
  "demo_call_at t b = \<lparr>cl_auth = None, cl_cookie = None, cl_authorization = None, cl_host = Some ''h'', cl_dpop = None,
     cl_forwarded = None, cl_query = [], cl_body = b, cl_unix = 5, cl_now = t, cl_later = t, cl_rnd = (''R'', ''s2''),
     cl_oauth_rnd = (''S'', ''V'', ''N'')\<rparr>"

definition guess :: "instant \<Rightarrow> auth_call" where
  "guess t = demo_call_at t (Some (JObj [(''login'', JStr ''u1''), (''password'', JStr ''no'')]))"

lemma login_wrong:
  assumes "\<And>p h. \<not> la_verify_password la p h"
  shows "\<exists>e s' rp. login la ls rnd s l p prf = (Inl e, s', rp)"
  using assms by (auto simp: login_def split: sum.split option.split)

lemma never_200:
  assumes "ap_local ap = Some la" "\<And>p h. \<not> la_verify_password la p h"
  shows "status_of (fst (auth_login ap c st)) \<noteq> 200"
proof (cases "login_attempt c")
  case None
  then show ?thesis using no_attempt [OF None, of ap st] by simp
next
  case (Some a)
  obtain l p where a: "login_attempt c = Some (l, p)" using Some by (cases a) auto
  obtain e s' rp where "login la (auth_state_of c st) (cl_rnd c) (au_db st) l p (issuance_proof ap c ''/api/auth/login'') = (Inl e, s', rp)"
    using login_wrong [OF assms(2)] by blast
  then show ?thesis using assms(1) a
    by (auto simp: auth_login_def local_or_400_def login_attempt_def Let_def split: option.splits prod.splits)
qed


text \<open>
  The lockout counts what was typed, not the account: the same account, reached by its id and by
  its email, has two counters, so twice as many passwords can be tried on it.
\<close>

lemma lockout_by_spelling:
  "find_user demo_la demo_users ''u1'' = find_user demo_la demo_users ''v@x'' \<and> is_ok (find_user demo_la demo_users ''u1'')"
  by code_simp

lemma lockout_separate_counters:
  assumes "guard_ok t g" "l' \<noteq> l" "dget (lg_entries g) l = None"
  shows "locked_secs now l (snd (guard_fail t' l' g)) = None"
  using guard_fail_other [OF assms(1,2)] assms(3) by (simp add: locked_secs_def)

section \<open>Logging out\<close>

context session_store
begin

lemma logout_clears:
  assumes "inv s" "la_db la = db" "\<forall>d \<in> holders ''refresh_hash'' (view s) (la_sha la t). \<forall>e \<in> holders ''refresh_hash'' (view s) (la_sha la t). d = e"
  shows "inv (snd (logout la s t)) \<and> holders ''refresh_hash'' (view (snd (logout la s t))) (la_sha la t) = {}"
proof (rule session_by_cases [OF assms(1,2) session_fields(1), of "la_sha la t"])
  assume "session_by la s ''refresh_hash'' (la_sha la t) = Inr None"
    and none: "\<And>d. view s (SESSIONS_COLLECTION, d_id d) = Some d \<Longrightarrow> dget (d_data d) ''refresh_hash'' \<noteq> Some (JStr (la_sha la t))"
  then show ?thesis using assms(1) by (simp add: logout_def holders_def)
next
  fix x
  assume x: "session_by la s ''refresh_hash'' (la_sha la t) = Inr (Some x)" "view s (SESSIONS_COLLECTION, d_id x) = Some x"
    "dget (d_data x) ''refresh_hash'' = Some (JStr (la_sha la t))"
  from delete_effect [OF assms(1), of SESSIONS_COLLECTION "d_id x"] obtain s' y where
    d: "db_delete db s SESSIONS_COLLECTION (d_id x) = (Inr y, s')" "inv s'" "view s' = (view s)((SESSIONS_COLLECTION, d_id x) := None)" by blast
  have "z = x" if "z \<in> holders ''refresh_hash'' (view s) (la_sha la t)" for z using assms(3) x that by (auto simp: holders_def)
  then have "holders ''refresh_hash'' (view s') (la_sha la t) = {}" using d(3) by (auto simp: holders_def split: if_splits)
  then show ?thesis using d x(1) assms(2) by (simp add: logout_def)
qed

lemma refused_without_holder:
  assumes "inv s" "la_db la = db" "holders ''refresh_hash'' (view s) (la_sha la t) = {}"
  shows "\<exists>deny. fst (refresh_classified la ls n s t dpop) = Inl deny"
proof (rule session_by_cases [OF assms(1,2) session_fields(1), of "la_sha la t"])
  assume "session_by la s ''refresh_hash'' (la_sha la t) = Inr None"
  then show ?thesis by (auto simp: refresh_classified_def Let_def split: sum.split option.split)
next
  fix x
  assume "view s (SESSIONS_COLLECTION, d_id x) = Some x" "dget (d_data x) ''refresh_hash'' = Some (JStr (la_sha la t))"
  then show ?thesis using assms(3) by (auto simp: holders_def)
qed

end

lemma tc_removed: "TokenCache.cache_ok c \<Longrightarrow> fst (tc_get now k (tc_remove k c)) = None"
  by (simp add: tc_get_def tc_remove_def Let_def TokenCache.cache_ok_def)

text \<open>
  C13. Logging out with the refresh token of a session ends it: whenever that token is presented
  again it is answered 401, the cached identity of the access token that came with the request is
  gone, and the cookies are cleared if the server uses them.
\<close>

theorem logout_ends_session:
  assumes "session_store (la_db la) view I" "ap_local ap = Some la" "I (au_db st)" "TokenCache.cache_ok (au_cache st)"
    and "presented_refresh ap c = Some t" "presented_refresh ap c' = Some t"
    and "\<forall>d \<in> holders ''refresh_hash'' (view (au_db st)) (la_sha la t). \<forall>e \<in> holders ''refresh_hash'' (view (au_db st)) (la_sha la t). d = e"
  shows "let (r, st') = auth_logout ap sha c st in status_of r = 200 \<and> ar_cookies r = cleared ap
    \<and> (\<forall>st''. au_db st'' = au_db st' \<longrightarrow> status_of (fst (auth_refresh ap c' st'')) = 401)
    \<and> (\<forall>a now. read_cookie (cl_cookie c) ACCESS_COOKIE = Some a \<longrightarrow> fst (tc_get now (sha a) (au_cache st')) = None)"
proof -
  obtain r st' where o: "auth_logout ap sha c st = (r, st')" by fastforce
  have st': "au_db st' = snd (logout la (au_db st) t)" "status_of r = 200" "ar_cookies r = cleared ap"
      "\<And>a. read_cookie (cl_cookie c) ACCESS_COOKIE = Some a \<Longrightarrow> au_cache st' = tc_remove (sha a) (au_cache st)"
    using o assms(2,5) by (auto simp: auth_logout_def Let_def ok_true_def)
  from session_store.logout_clears [OF assms(1,3) refl assms(7)]
  have l: "I (au_db st')" "holders ''refresh_hash'' (view (au_db st')) (la_sha la t) = {}" by (simp_all add: st'(1))
  have "status_of (fst (auth_refresh ap c' st'')) = 401" if "au_db st'' = au_db st'" for st''
  proof -
    obtain q s'' rp where q: "refresh_classified la (auth_state_of c' st'') (fst (cl_rnd c')) (au_db st'') t (issuance_proof ap c' ''/api/auth/refresh'') = (q, s'', rp)"
      using prod_cases3 by blast
    obtain deny where "fst (refresh_classified la (auth_state_of c' st'') (fst (cl_rnd c')) (au_db st') t (issuance_proof ap c' ''/api/auth/refresh'')) = Inl deny"
      using session_store.refused_without_holder [OF assms(1) l(1) refl l(2)] by blast
    then have "q = Inl deny" using q that by simp
    then show ?thesis using q assms(2,6) by (simp add: auth_refresh_def local_or_400_def Let_def)
  qed
  then show ?thesis using st' tc_removed [OF assms(4)] o by simp
qed

definition logout_call :: auth_call where
  "logout_call = (demo_call_at 0 None)\<lparr>cl_cookie := Some ''__Host-ub_rt=T; __Host-ub_at=A''\<rparr>"

lemma logout_ends_session_witness:
  "status_of (fst (auth_refresh demo_app logout_call (snd (auth_logout demo_app id logout_call demo_auth_state)))) = 401"
proof -
  have p: "presented_refresh demo_app logout_call = Some ''T''" by code_simp
  have ch: "TokenCache.cache_ok token_cache_new" using cached_ok_new by (simp add: cached_ok_def)
  have u: "token_unique (view_of (store demo_users)) (la_sha demo_la ''T'')" using demo_unique by (simp add: demo_la_def)
  show ?thesis
    using logout_ends_session [of demo_la "\<lambda>s. view_of (store s)" mem_ok demo_app demo_auth_state logout_call "''T''" logout_call id]
      mems.session_store_axioms [of 0] demo_users_ok p u ch
    by (auto simp: demo_app_def demo_auth_state_def demo_la_def token_unique_def Let_def split: prod.splits)
qed

text \<open>
  The access token survives a logout: the cache entry is dropped, and the next request with the
  token asks the provider again, which only looks at the token.
\<close>

lemma logout_keeps_access_token:
  assumes "TokenCache.cache_ok (au_cache st)" "presented_refresh ap c = Some t" "read_cookie (cl_cookie c) ACCESS_COOKIE = Some a"
  shows "fst (resolve_token from_slice sha unix now resolve a (au_cache (snd (auth_logout ap sha c st)))) = resolve a"
proof -
  have e: "au_cache (snd (auth_logout ap sha c st)) = tc_remove (sha a) (au_cache st)"
    using assms(2,3) by (simp add: auth_logout_def Let_def)
  obtain c' where "tc_get now (sha a) (tc_remove (sha a) (au_cache st)) = (None, c')"
    using tc_removed [OF assms(1), of now "sha a"] by (metis prod.collapse)
  then show ?thesis by (simp add: resolve_token_def e Let_def)
qed

text \<open>Without a refresh token the logout does nothing but clear the cookies: the cached access token stays.\<close>

lemma logout_without_refresh:
  "presented_refresh ap c = None \<Longrightarrow> snd (auth_logout ap sha c st) = st"
  by (simp add: auth_logout_def Let_def)

section \<open>Logging in at GitHub\<close>

text \<open>Every identity in the cache of the verifier came from GitHub.\<close>

definition gc_ok :: "github_user_cache \<Rightarrow> bool" where
  "gc_ok gc \<longleftrightarrow> (\<forall>t e. dget (gc_entries gc) t = Some e \<longrightarrow> c_provider (fst e) = ''github'')"

lemma github_verify_ok:
  assumes "gc_ok gc" "github_verify fetch now token gc = (r, gc')"
  shows "gc_ok gc' \<and> (\<forall>c. r = Inr c \<longrightarrow> c_provider c = ''github'')"
proof (cases "gh_cached now token gc")
  case None
  then show ?thesis using assms by (fastforce simp: github_verify_def gc_ok_def Let_def split: option.splits if_splits)
next
  case (Some c)
  then show ?thesis using assms by (fastforce simp: github_verify_def gh_cached_def gc_ok_def split: option.splits if_splits)
qed

definition pending_for :: "'s github \<Rightarrow> nat \<Rightarrow> string \<Rightarrow> doc \<Rightarrow> bool" where
  "pending_for g unix n x \<longleftrightarrow> dget (d_data x) ''nonce'' = Some (JStr (gh_sha_hex g n)) \<and> dget (d_data x) ''provider'' = Some (JStr ''github'')
     \<and> (\<exists>t. Option.bind (dget (d_data x) ''created_at'') as_u64 = Some t \<and> unix < plus_u64 (nat t) PENDING_TTL_SECS)"

lemma pending_ok_for: "pending_ok g unix nonce x \<Longrightarrow> \<exists>n. nonce = Some n \<and> pending_for g unix n x"
  by (auto simp: pending_ok_def pending_for_def timing_safe_eq_def byte_diff_zero bind_eq_Some_conv Let_def split: option.splits if_splits)

context gateway_store
begin

lemma callback_ok:
  assumes "inv s" "gh_db g = db" "gc_ok gc" "callback g unix now code st nonce s gc = (Inr (u, e, l), s', gc')"
  shows "inv s' \<and> gc_ok gc' \<and> starts_with ''github:'' u \<and> view s' = (view s)((PENDING_COLLECTION, st) := None)
    \<and> (\<exists>x n. view s (PENDING_COLLECTION, st) = Some x \<and> nonce = Some n \<and> pending_for g unix n x)"
proof -
  from assms obtain x where x: "view s (PENDING_COLLECTION, st) = Some x"
    by (auto simp: callback_def get_view split: option.splits)
  obtain q t where d: "db_delete db s PENDING_COLLECTION st = (q, t)" by fastforce
  then have q: "is_ok q" "s' = t" "pending_ok g unix nonce x"
    using assms(4) x by (cases q; auto simp: callback_def get_view assms(1,2) split: sum.splits prod.splits if_splits)+
  then obtain y where "q = Inr y" by (cases q) auto
  with delete_view [OF assms(1) d] q(2) have v: "inv s'" "view s' = (view s)((PENDING_COLLECTION, st) := None)" by simp_all
  have "\<exists>token c. github_verify (gh_fetch g) now token gc = (Inr c, gc') \<and> u = namespaced c"
    using assms(4) x d q(3) by (auto simp: callback_def get_view assms(1,2) split: sum.splits prod.splits)
  then obtain token c where c: "github_verify (gh_fetch g) now token gc = (Inr c, gc')" "u = namespaced c" by blast
  with github_verify_ok [OF assms(3) c(1)] have "gc_ok gc'" "starts_with ''github:'' u"
    by (auto simp: namespaced_def starts_with_iff)
  with v x pending_ok_for [OF q(3)] show ?thesis by blast
qed

lemma external_keeps:
  assumes "inv s" "la_db la = db" "users_of la \<noteq> PENDING_COLLECTION" "login_external la unix rnd s u email profile = (r, s')"
  shows "inv s' \<and> view s' (PENDING_COLLECTION, i) = view s (PENDING_COLLECTION, i)"
proof -
  obtain r1 s1 where e: "external_user la s u email profile = (r1, s1)" by fastforce
  have s1: "inv s1 \<and> view s1 (PENDING_COLLECTION, i) = view s (PENDING_COLLECTION, i)"
  proof (cases "view s (users_of la, u)")
    case None
    then obtain q data where q: "db_insert db s (users_of la) \<lparr>d_id = u, d_data = data\<rparr> = (q, s1)"
      using e by (auto simp: external_user_def assms(1,2) get_view Let_def split: prod.splits)
    show ?thesis using insert_view [OF assms(1) q] assms(3) by (cases q) auto
  next
    case (Some x)
    then show ?thesis using e assms(1,2) by (simp add: external_user_def get_view)
  qed
  show ?thesis
  proof (cases r1)
    case (Inl x)
    then show ?thesis using assms(4) e s1 by (simp add: login_external_def)
  next
    case (Inr d)
    obtain em r2 where m: "mint la unix rnd s1 (d_id d) (d_id d) em None (attrs_of (la_identity la) d) = (r2, s')"
      using assms(4) e Inr by (auto simp: login_external_def Let_def split: prod.splits sum.splits)
    show ?thesis
    proof (cases "mint_access la unix (d_id d) em None (attrs_of (la_identity la) d)")
      case (Inl x)
      then show ?thesis using m s1 by (simp add: mint_def)
    next
      case (Inr jwt)
      then obtain q where q: "db_insert db s1 SESSIONS_COLLECTION (session_doc la unix (snd rnd) (d_id d) (d_id d) (fst rnd)) = (q, s')"
        using m assms(2) by (auto simp: mint_def split: prod.splits sum.splits)
      show ?thesis using insert_view [OF _ q] s1 by (cases q) (auto simp: SESSIONS_COLLECTION_def PENDING_COLLECTION_def)
    qed
  qed
qed

end

text \<open>
  C14. A GitHub login is bound to the browser that began it, and good for one callback. If the
  callback route lets a browser in, a pending entry was stored under the state of the request, less
  than ten minutes old, and its nonce is the hash of the nonce cookie the browser sent; the entry is
  gone afterwards, and any later callback with that state is refused.
\<close>

theorem github_login_once:
  assumes "gateway_store (gh_db g) view I" "ap_github ap = Some g" "ap_local ap = Some la" "la_db la = gh_db g"
    and "users_of la \<noteq> PENDING_COLLECTION" "I (au_db st)" "gc_ok (au_github st)"
    and "github_callback ap c st = (r, st')" "status_of r = 302"
  shows "\<exists>state n x. dget (cl_query c) ''state'' = Some state \<and> read_cookie (cl_cookie c) NONCE_COOKIE = Some n
    \<and> view (au_db st) (PENDING_COLLECTION, state) = Some x \<and> pending_for g (cl_unix c) n x
    \<and> view (au_db st') (PENDING_COLLECTION, state) = None
    \<and> (\<forall>c' st''. dget (cl_query c') ''state'' = Some state \<longrightarrow> au_db st'' = au_db st' \<longrightarrow> status_of (fst (github_callback ap c' st'')) \<in> {400, 401})"
proof -
  obtain code state where q: "dget (cl_query c) ''code'' = Some code" "dget (cl_query c) ''state'' = Some state"
    using assms(8,9) by (auto simp: github_callback_def split: option.splits)
  obtain cr s1 gc where cb: "callback g (cl_unix c) (cl_now c) code state (read_cookie (cl_cookie c) NONCE_COOKIE) (au_db st) (au_github st) = (cr, s1, gc)"
    using prod_cases3 by blast
  then obtain u email l where cr: "cr = Inr (u, email, l)"
    using assms(2,3,8,9) q by (cases cr) (auto simp: github_callback_def)
  note ok = gateway_store.callback_ok [OF assms(1,6) refl assms(7) cb [unfolded cr]]
  obtain lr s2 where ex: "login_external la (cl_unix c) (cl_rnd c) s1 u email (case l of Some x \<Rightarrow> [(''login'', JStr x)] | None \<Rightarrow> []) = (lr, s2)"
    by fastforce
  have "au_db st' = s2" using assms(2,3,8) q cb cr ex by (auto simp: github_callback_def split: sum.splits)
  then have gone: "I (au_db st')" "view (au_db st') (PENDING_COLLECTION, state) = None"
    using gateway_store.external_keeps [OF assms(1) _ assms(4,5) ex, of state] ok by simp_all
  have "status_of (fst (github_callback ap c' st'')) \<in> {400, 401}"
    if "dget (cl_query c') ''state'' = Some state" "au_db st'' = au_db st'" for c' st''
  proof -
    have "db_get (gh_db g) (au_db st'') PENDING_COLLECTION state = Inr None"
      using document_store.get_view [OF gateway_store.axioms(1) [OF assms(1)] gone(1)] gone(2) that(2) by simp
    then show ?thesis using that(1) assms(2,3) by (auto simp: github_callback_def callback_def split: option.split)
  qed
  with ok q(2) gone(2) show ?thesis by blast
qed

definition demo_github :: "mem_db github" where
  "demo_github = \<lparr>gh_client_id = ''id'', gh_redirect_uri = ''r'', gh_authorize_url = ''a'', gh_after_login = ''/'',
     gh_db = mem_driver 0, gh_sha_hex = Cons (CHR ''h''), gh_pkce = id, gh_exchange = (\<lambda>c v. Inr c),
     gh_fetch = (\<lambda>t. Some [(''id'', jint 7)])\<rparr>"

definition demo_pending :: mem_db where
  "demo_pending = \<lparr>store = [(''__oauth_pending'', [(''S'', \<lparr>d_id = ''S'', d_data = [(''created_at'', jint 4), (''nonce'', JStr ''hN''),
     (''provider'', JStr ''github''), (''verifier'', JStr ''V'')]\<rparr>)])], indexes = []\<rparr>"

definition callback_call :: auth_call where
  "callback_call = (demo_call_at 0 None)\<lparr>cl_cookie := Some ''__Host-gh_nonce=N'', cl_query := [(''code'', ''c''), (''state'', ''S'')]\<rparr>"

lemma demo_nonce: "read_cookie (Some ''__Host-gh_nonce=N'') NONCE_COOKIE = Some ''N''"
  by code_simp

lemma demo_pending_get:
  "mem_get demo_pending ''__oauth_pending'' ''S'' = Inr (Some \<lparr>d_id = ''S'', d_data = [(''created_at'', jint 4), (''nonce'', JStr ''hN''),
     (''provider'', JStr ''github''), (''verifier'', JStr ''V'')]\<rparr>)"
  by (simp add: mem_get_def demo_pending_def)

lemma demo_pending_ok:
  "pending_ok demo_github 5 (Some ''N'') \<lparr>d_id = ''S'', d_data = [(''created_at'', jint 4), (''nonce'', JStr ''hN''),
     (''provider'', JStr ''github''), (''verifier'', JStr ''V'')]\<rparr>"
  by (simp add: pending_ok_def demo_github_def timing_safe_eq_def byte_diff_zero plus_u64_def PENDING_TTL_SECS_def unwrap_or_def)

lemma demo_external: "is_ok (fst (login_external demo_la 5 (''R'', ''s2'') s u e p))"
  by (auto simp: login_external_def external_user_def demo_la_def mem_driver_def mem_get_def mem_insert_def mem_set_def mint_def
      mint_access_def stored_res_def Let_def split: option.splits prod.splits sum.splits)

lemma demo_callback:
  "status_of (fst (github_callback (demo_app\<lparr>ap_github := Some demo_github\<rparr>) callback_call (demo_auth_state\<lparr>au_db := demo_pending\<rparr>))) = 302"
proof -
  obtain q s1 where d: "mem_delete demo_pending ''__oauth_pending'' ''S'' = (Inr q, s1)"
    by (auto simp: mem_delete_def demo_pending_def)
  obtain u e l gc where c: "callback demo_github 5 0 ''c'' ''S'' (Some ''N'') demo_pending \<lparr>gc_entries = []\<rparr> = (Inr (u, e, l), s1, gc)"
    using demo_pending_get demo_pending_ok d
    by (auto simp: callback_def demo_github_def mem_driver_def PENDING_COLLECTION_def github_verify_def gh_cached_def Let_def)
  show ?thesis
    using c demo_external [of s1 u e "case l of Some x \<Rightarrow> [(''login'', JStr x)] | None \<Rightarrow> []"]
    by (auto simp: github_callback_def callback_call_def demo_call_at_def demo_app_def demo_auth_state_def demo_nonce split: prod.split sum.splits)
qed

lemma github_login_once_witness:
  "status_of (fst (github_callback (demo_app\<lparr>ap_github := Some demo_github\<rparr>) callback_call
     (snd (github_callback (demo_app\<lparr>ap_github := Some demo_github\<rparr>) callback_call (demo_auth_state\<lparr>au_db := demo_pending\<rparr>))))) \<in> {400, 401}"
proof -
  let ?ap = "demo_app\<lparr>ap_github := Some demo_github\<rparr>" and ?st = "demo_auth_state\<lparr>au_db := demo_pending\<rparr>"
  have I_ok: "mem_ok (au_db ?st)"
    by (simp add: demo_auth_state_def mem_ok_def demo_pending_def store_ok_def table_ok_def dict_ok_def)
  have g: "gateway_store (gh_db demo_github) (\<lambda>s. view_of (store s)) mem_ok" "la_db demo_la = gh_db demo_github"
    "ap_github ?ap = Some demo_github" "ap_local ?ap = Some demo_la" "users_of demo_la \<noteq> PENDING_COLLECTION" "gc_ok (au_github ?st)"
    using mem_gateway_store [of 0]
    by (simp_all add: demo_github_def demo_la_def demo_app_def users_of_def PENDING_COLLECTION_def gc_ok_def demo_auth_state_def)
  from github_login_once [OF g(1,3,4,2,5) I_ok g(6) prod.collapse [symmetric] demo_callback] show ?thesis by blast
qed

text \<open>A body that names the login as something other than text hides the other spellings of the field.\<close>

lemma null_login_hides_email:
  "str_field [(''email'', JStr ''v@x''), (''login'', JNull)] [''login'', ''id'', ''email'', ''username''] = None"
  by code_simp

end
