(* ===== verification/Search.thy ===== *)
theory Search
  imports Realtime Writes
begin

text \<open>
  The routes beside the document routes (crates/hakobackend-server/src/main.rs): retention records,
  lazy collections, collection groups, aggregates, vector search and graph walks. Bodies that the
  code extracts into a struct are arguments here, of the struct's type.
\<close>

section \<open>Driver errors as answers\<close>

fun driver_err :: "app_error \<Rightarrow> response" where
  "driver_err (BadRequest m) = err 400 m"
| "driver_err PermissionDenied = forbidden"
| "driver_err NotFound = err 404 ''not found''"
| "driver_err AlreadyExists = err 400 ''already exists''"
| "driver_err (Conflict m) = err 409 m"
| "driver_err (Internal m) = err 500 m"
| "driver_err (Unsupported m) = err 501 m"

definition plain_err :: "app_error \<Rightarrow> response" where
  "plain_err e = err (status_code e) (err_text e)"

section \<open>Retention records\<close>

text \<open>
  The databases are asked in the order of the map; those without retention records are passed
  over, and the first error is the answer.
\<close>

definition soft_unsupported :: "'s driver \<Rightarrow> response option" where
  "soft_unsupported d = (if \<not> supports_soft_delete (db_capabilities d) then
     Some (err 501 (''driver '' @ cap_driver (db_capabilities d) @ '' does not support soft delete'')) else None)"

fun retention_rows :: "('s driver \<Rightarrow> 's \<Rightarrow> restore_record list app_result) \<Rightarrow> (string, 's driver) dict \<Rightarrow> 's gw \<Rightarrow>
    restore_record list \<Rightarrow> restore_record list app_result" where
  "retention_rows f [] s rows = Inr rows"
| "retention_rows f ((name, d) # dbs) s rows =
     (if \<not> supports_soft_delete (db_capabilities d) then retention_rows f dbs s rows
      else case f d (gw_db s name) of
          Inl e \<Rightarrow> Inl e
        | Inr r \<Rightarrow> retention_rows f dbs s (rows @ r))"

definition retention_list :: "('s driver \<Rightarrow> 's \<Rightarrow> restore_record list app_result) \<Rightarrow> 's config \<Rightarrow> request \<Rightarrow> 's gw \<Rightarrow> response" where
  "retention_list f cf rq s =
     (if \<not> is_admin (rq_auth rq) (cf_admin_uids cf) then forbidden
      else case retention_rows f (cf_dbs cf) s [] of Inl e \<Rightarrow> driver_err e | Inr rows \<Rightarrow> resp 200 (BRetention rows))"

definition restore_available_list :: "'s config \<Rightarrow> request \<Rightarrow> 's gw \<Rightarrow> response" where
  "restore_available_list cf rq s = retention_list (\<lambda>d t. db_restore_available d t (dget (rq_query rq) ''collection'')) cf rq s"

definition delete_queue_list :: "'s config \<Rightarrow> request \<Rightarrow> 's gw \<Rightarrow> response" where
  "delete_queue_list cf rq s = retention_list (\<lambda>d t. db_delete_queue d t (dget (rq_query rq) ''collection'')) cf rq s"

definition restore_target :: "json \<Rightarrow> (string \<times> string) option" where
  "restore_target b = (case (Option.bind (jget b ''collection'') as_str, Option.bind (jget b ''id'') as_str) of
     (Some c, Some i) \<Rightarrow> Some (c, i) | _ \<Rightarrow> None)"

definition restore_doc :: "'s config \<Rightarrow> request \<Rightarrow> 's gw \<Rightarrow> response \<times> 's gw" where
  "restore_doc cf rq s =
     halt (deny (\<not> is_admin (rq_auth rq) (cf_admin_uids cf)) forbidden) s
     (or_return (required (''body must be {'' @ [CHR 34] @ ''collection'' @ [CHR 34] @ '': string, '' @ [CHR 34] @ ''id'' @ [CHR 34] @
         '': string}'') (restore_target (rq_body rq))) s (\<lambda>(coll, i).
     halt (denied_internal coll) s
     (halt (valid_names coll (Some i)) s
     (or_return (resolve_db_name (rq_query rq)) s (\<lambda>name.
     or_return (db_for cf name) s (\<lambda>d.
     halt (soft_unsupported d) s
     (case on_db name (\<lambda>t. db_restore d t coll i) s of
        (Inr x, s') \<Rightarrow> (resp 200 (BDoc x), s')
      | (Inl e, s') \<Rightarrow> (driver_err e, s'))))))))"

fun sweep_now_dbs :: "(string \<times> 's driver) list \<Rightarrow> nat \<Rightarrow> 's gw \<Rightarrow> nat app_result \<times> 's gw" where
  "sweep_now_dbs [] purged s = (Inr purged, s)"
| "sweep_now_dbs ((name, d) # dbs) purged s =
     (if \<not> supports_soft_delete (db_capabilities d) then sweep_now_dbs dbs purged s
      else case on_db name (db_sweep_now d) s of
          (Inl e, s') \<Rightarrow> (Inl e, s')
        | (Inr n, s') \<Rightarrow> sweep_now_dbs dbs (purged + n) s')"

definition sweep_now_run :: "'s config \<Rightarrow> request \<Rightarrow> 's gw \<Rightarrow> response \<times> 's gw" where
  "sweep_now_run cf rq s =
     halt (deny (\<not> is_admin (rq_auth rq) (cf_admin_uids cf)) forbidden) s
     (case sweep_now_dbs (cf_dbs cf) 0 s of
        (Inr n, s') \<Rightarrow> (resp 200 (BJson (JObj [(''purged'', jint (int n))])), s')
      | (Inl e, s') \<Rightarrow> (driver_err e, s'))"

section \<open>Lazy collections\<close>

definition residency_op :: "bool \<Rightarrow> 's config \<Rightarrow> request \<Rightarrow> 's gw \<Rightarrow> response \<times> 's gw" where
  "residency_op unload cf rq s =
     halt (if unload then deny_if_read_only cf else None) s
     (or_return (resolve_db_name (rq_query rq)) s (\<lambda>name.
     or_return (required ''body requires {collection}'' (nonempty_str (jget (rq_body rq) ''collection''))) s (\<lambda>coll.
     halt (deny (denied_internal coll \<noteq> None) (err 403 ''reserved __ prefix'')) s
     (halt (deny (valid_names coll None \<noteq> None) (err 400 ''invalid collection name'')) s
     (or_return (db_for cf name) s (\<lambda>d.
     halt (deny (\<not> policy_allow (cf_policy cf) (rq_auth rq) (dotted name coll) Get (Some \<lparr>d_id = [], d_data = []\<rparr>)) forbidden) s
     (case on_db name (\<lambda>t. if unload then db_unload_collection d t coll else db_load_collection d t coll) s of
        (Inr _, s') \<Rightarrow> (resp 200 (BJson (JObj [(''ok'', JBool True)])), s')
      | (Inl e, s') \<Rightarrow> (driver_err e, s'))))))))"

definition collection_load :: "'s config \<Rightarrow> request \<Rightarrow> 's gw \<Rightarrow> response \<times> 's gw" where
  "collection_load = residency_op False"

definition collection_unload :: "'s config \<Rightarrow> request \<Rightarrow> 's gw \<Rightarrow> response \<times> 's gw" where
  "collection_unload = residency_op True"

definition unloaded_list :: "'s config \<Rightarrow> request \<Rightarrow> 's gw \<Rightarrow> response" where
  "unloaded_list cf rq s = (case resolve_db_name (rq_query rq) of
     Inl r \<Rightarrow> r
   | Inr name \<Rightarrow> (case db_for cf name of
       Inl r \<Rightarrow> r
     | Inr d \<Rightarrow> (case db_unloaded_collections d (gw_db s name) of
         Inr cs \<Rightarrow> resp 200 (BJson (JArr (map JStr cs)))
       | Inl e \<Rightarrow> driver_err e)))"

section \<open>Collection groups\<close>

text \<open>The path a document is judged under: the one it carries, or its collection.\<close>

definition carried_path :: "string \<Rightarrow> doc \<Rightarrow> string" where
  "carried_path logical x = unwrap_or logical (Option.bind (dget (d_data x) ''_collectionPath'') as_str)"

fun group_rows :: "policy_file \<Rightarrow> auth_context option \<Rightarrow> string \<Rightarrow> string \<Rightarrow> 's driver \<Rightarrow> 's \<Rightarrow> query_options \<Rightarrow> string list \<Rightarrow> doc list" where
  "group_rows p auth dbname name d t opts [] = []"
| "group_rows p auth dbname name d t opts (logical # cs) =
     (if \<not> matches_group logical name \<or> \<not> policy_allow p auth (dotted dbname logical) ListM None then []
      else case db_list d t logical opts of
          Inl e \<Rightarrow> []
        | Inr docs \<Rightarrow> filter (\<lambda>x. policy_allow p auth (dotted dbname (carried_path logical x)) Get (Some x)) docs)
     @ group_rows p auth dbname name d t opts cs"

definition collection_group :: "lib \<Rightarrow> 's config \<Rightarrow> request \<Rightarrow> string \<Rightarrow> 's gw \<Rightarrow> response" where
  "collection_group L cf rq name s = (case parse_options L (rq_query rq) of
     Inl msg \<Rightarrow> err 400 msg
   | Inr opts \<Rightarrow> or_else (valid_names name None)
       (case resolve_db_name (rq_query rq) of
          Inl r \<Rightarrow> r
        | Inr dbname \<Rightarrow> (case db_for cf dbname of
            Inl r \<Rightarrow> r
          | Inr d \<Rightarrow> (case db_list_collections d (gw_db s dbname) of
              Inl e \<Rightarrow> err_internal
            | Inr cs \<Rightarrow> resp 200 (BDocs (group_rows (cf_policy cf) (rq_auth rq) dbname name d (gw_db s dbname) opts cs))))))"

section \<open>Aggregates\<close>

record agg_spec =
  ag_type :: string
  ag_field :: "string option"
  ag_alias :: "string option"

record agg_body =
  ab_options :: query_options
  ab_aggregations :: "agg_spec list"

definition agg_key :: "agg_spec \<Rightarrow> string" where
  "agg_key a = (case ag_alias a of
     Some k \<Rightarrow> k
   | None \<Rightarrow> (let t = ascii_lower (ag_type a) in
       if t = ''count'' then ''count_count'' else t @ ''_'' @ unwrap_or ''count'' (ag_field a)))"

definition reduce_one :: "'s driver \<Rightarrow> 's \<Rightarrow> string \<Rightarrow> query_options \<Rightarrow> agg_spec \<Rightarrow> (response, json) result" where
  "reduce_one d t coll opts a = (let ty = ascii_lower (ag_type a) in
     if ty = ''count'' then
       (case db_count d t coll opts of Inr n \<Rightarrow> Inr (jint (int n)) | Inl e \<Rightarrow> Inl (plain_err e))
     else if ty = ''sum'' \<or> ty = ''avg'' then
       (case ag_field a of
          None \<Rightarrow> Inl (err 400 (ty @ '' needs a field''))
        | Some field \<Rightarrow>
            if field = [] then Inl (err 400 (ty @ '' needs a field''))
            else (case db_count d t coll opts of
                Inl e \<Rightarrow> Inl (plain_err e)
              | Inr n \<Rightarrow>
                  if MAX_AGG_SCAN_DOCS < n then Inl (err 400 ''collection too large to reduce: narrow with filters'')
                  else (case (if ty = ''sum'' then db_sum d t coll field opts else db_avg d t coll field opts) of
                      Inr x \<Rightarrow> Inr (JNum (NFloat x))
                    | Inl e \<Rightarrow> Inl (plain_err e))))
     else Inl (err 400 (''unknown aggregation: '' @ ag_type a)))"

fun reduce_all :: "'s driver \<Rightarrow> 's \<Rightarrow> string \<Rightarrow> query_options \<Rightarrow> agg_spec list \<Rightarrow> (string, json) dict \<Rightarrow>
    (response, (string, json) dict) result" where
  "reduce_all d t coll opts [] m = Inr m"
| "reduce_all d t coll opts (a # as) m = (case reduce_one d t coll opts a of
     Inl r \<Rightarrow> Inl r
   | Inr v \<Rightarrow> reduce_all d t coll opts as (dput (agg_key a) v m))"

text \<open>The gates the search routes share, with the text for an empty path.\<close>

definition listable :: "string \<Rightarrow> 's config \<Rightarrow> request \<Rightarrow> response option \<Rightarrow> (string \<Rightarrow> string \<Rightarrow> 's driver \<Rightarrow> response) \<Rightarrow> response" where
  "listable what cf rq bad k = (let coll = trim_matches (CHR ''/'') (rq_path rq) in
     if coll = [] then err 400 what
     else or_else (denied_internal coll) (or_else (valid_names coll None) (or_else bad
       (case resolve_db_name (rq_query rq) of
          Inl r \<Rightarrow> r
        | Inr name \<Rightarrow> (case db_for cf name of
            Inl r \<Rightarrow> r
          | Inr d \<Rightarrow>
              if \<not> policy_allow (cf_policy cf) (rq_auth rq) (dotted name coll) ListM None then forbidden
              else k name coll d)))))"

definition aggregate :: "'s config \<Rightarrow> request \<Rightarrow> agg_body \<Rightarrow> 's gw \<Rightarrow> response" where
  "aggregate cf rq b s = listable ''aggregate needs a collection path'' cf rq None (\<lambda>name coll d.
     case reduce_all d (gw_db s name) coll (unpaged (ab_options b)) (ab_aggregations b) [] of
       Inl r \<Rightarrow> r
     | Inr m \<Rightarrow> resp 200 (BJson (JObj m)))"

section \<open>Vector search\<close>

definition quote_name :: "string \<Rightarrow> string" where
  "quote_name x = [CHR 39] @ x @ [CHR 39]"

definition parse_vector_metric :: "string option \<Rightarrow> (response, vector_metric) result" where
  "parse_vector_metric raw = (let m = unwrap_or ''cosine'' raw in
     if m = ''cosine'' then Inr Cosine
     else if m = ''l2'' then Inr L2
     else Inl (err 400 (''unknown vector metric '' @ quote_name m @ '' (cosine|l2)'')))"

record vector_index_body =
  vb_collection :: string
  vb_field :: string
  vb_dim :: nat
  vb_metric :: "string option"

text \<open>The rest of an index route: the policy on updates, the collection, the driver's operation.\<close>

definition build_index :: "'s config \<Rightarrow> request \<Rightarrow> string \<Rightarrow> ('s driver \<Rightarrow> 's \<Rightarrow> index_info app_result \<times> 's) \<Rightarrow> 's gw \<Rightarrow> response \<times> 's gw" where
  "build_index cf rq coll f s =
     or_return (resolve_db_name (rq_query rq)) s (\<lambda>name.
     or_return (db_for cf name) s (\<lambda>d.
     halt (deny (\<not> policy_allow (cf_policy cf) (rq_auth rq) (dotted name coll) Update None) forbidden) s
     (case on_db name (f d) (ensure d name coll s) of
        (Inr info, s') \<Rightarrow> (resp 200 (BIndex info), s')
      | (Inl e, s') \<Rightarrow> (app_err e, s'))))"

definition vector_index_create :: "'s config \<Rightarrow> request \<Rightarrow> vector_index_body \<Rightarrow> 's gw \<Rightarrow> response \<times> 's gw" where
  "vector_index_create cf rq b s =
     halt (deny_if_read_only cf) s
     (let coll = trim (vb_collection b) in
     halt (deny (coll = []) (err 400 ''collection required'')) s
     (halt (denied_internal coll) s
     (halt (valid_names coll None) s
     (halt (deny (vb_field b = []) (err 400 ''field required'')) s
     (halt (deny (vb_dim b = 0 \<or> 4096 < vb_dim b) (err 400 (''vector dim '' @ show_nat (vb_dim b) @ '' out of range 1..=4096''))) s
     (or_return (parse_vector_metric (vb_metric b)) s (\<lambda>metric.
     build_index cf rq coll (\<lambda>d t. db_create_vector_index d t coll
       \<lparr>vi_field = vb_field b, vi_dim = vb_dim b, vi_metric = metric\<rparr>) s)))))))"

record vector_search_body =
  vs_field :: string
  vs_query :: "f64 list"
  vs_k :: "nat option"
  vs_metric :: "string option"

text \<open>The decoder takes no other numbers than finite ones, so the test for them never fails.\<close>

definition vector_search :: "'s config \<Rightarrow> request \<Rightarrow> vector_search_body \<Rightarrow> 's gw \<Rightarrow> response" where
  "vector_search cf rq b s = (let k = unwrap_or 10 (vs_k b) in
     listable ''vector-search needs a collection path'' cf rq
       (if vs_field b = [] then Some (err 400 ''field required'')
        else if vs_query b = [] then Some (err 400 ''query needs >= 1 float'')
        else if k = 0 \<or> MAX_VECTOR_K < k then Some (err 400 (''k out of range 1..='' @ show_nat MAX_VECTOR_K))
        else case parse_vector_metric (vs_metric b) of Inl r \<Rightarrow> Some r | Inr _ \<Rightarrow> None)
       (\<lambda>name coll d. case db_vector_search d (gw_db s name) coll (vs_field b) (map fl32 (vs_query b)) k
            (case parse_vector_metric (vs_metric b) of Inr m \<Rightarrow> m | Inl _ \<Rightarrow> Cosine) of
          Inr hits \<Rightarrow> resp 200 (BScored hits)
        | Inl e \<Rightarrow> app_err e))"

section \<open>Graph walks\<close>

definition parse_traverse_direction :: "string option \<Rightarrow> (response, traverse_direction) result" where
  "parse_traverse_direction raw = (let m = unwrap_or ''outgoing'' raw in
     if m = ''outgoing'' then Inr Outgoing
     else if m = ''incoming'' then Inr Incoming
     else if m = ''both'' then Inr Both
     else Inl (err 400 (''unknown traverse direction '' @ quote_name m @ '' (outgoing|incoming|both)'')))"

definition graph_index_create :: "('s driver \<Rightarrow> 's \<Rightarrow> string \<Rightarrow> index_info app_result \<times> 's) \<Rightarrow> 's config \<Rightarrow> request \<Rightarrow> string \<Rightarrow> 's gw \<Rightarrow> response \<times> 's gw" where
  "graph_index_create f cf rq collection s =
     halt (deny_if_read_only cf) s
     (let coll = trim collection in
     halt (deny (coll = []) (err 400 ''collection required'')) s
     (halt (denied_internal coll) s
     (halt (valid_names coll None) s
     (build_index cf rq coll (\<lambda>d t. f d t coll) s))))"

definition traverse_index_create :: "'s config \<Rightarrow> request \<Rightarrow> string \<Rightarrow> 's gw \<Rightarrow> response \<times> 's gw" where
  "traverse_index_create = graph_index_create db_create_traverse_index"

definition edge_index_create :: "'s config \<Rightarrow> request \<Rightarrow> string \<Rightarrow> 's gw \<Rightarrow> response \<times> 's gw" where
  "edge_index_create = graph_index_create db_create_edge_index"

record traverse_search_body =
  tb_start_id :: string
  tb_direction :: "string option"
  tb_edge :: "string option"
  tb_max_depth :: "nat option"
  tb_k :: "nat option"
  tb_via :: "string option"
  tb_weight :: "string option"

definition traverse_search :: "'s config \<Rightarrow> request \<Rightarrow> traverse_search_body \<Rightarrow> 's gw \<Rightarrow> response" where
  "traverse_search cf rq b s = (let max_depth = unwrap_or 10 (tb_max_depth b); k = unwrap_or 100 (tb_k b) in
     listable ''traverse-search needs a collection path'' cf rq
       (if tb_start_id b = [] then Some (err 400 ''start_id required'')
        else case parse_traverse_direction (tb_direction b) of
            Inl r \<Rightarrow> Some r
          | Inr _ \<Rightarrow>
              if max_depth = 0 \<or> MAX_TRAVERSE_DEPTH < max_depth then
                Some (err 400 (''max_depth out of range 1..='' @ show_nat MAX_TRAVERSE_DEPTH))
              else if k = 0 \<or> MAX_TRAVERSE_K < k then Some (err 400 (''k out of range 1..='' @ show_nat MAX_TRAVERSE_K))
              else None)
       (\<lambda>name coll d. case db_traverse_search d (gw_db s name) coll (tb_start_id b)
            (case parse_traverse_direction (tb_direction b) of Inr x \<Rightarrow> x | Inl _ \<Rightarrow> Outgoing)
            (tb_edge b) (tb_via b) (tb_weight b) max_depth k of
          Inr hits \<Rightarrow> resp 200 (BPaths hits)
        | Inl e \<Rightarrow> app_err e))"

end
