(* ===== verification/SearchProofs.thy ===== *)
theory SearchProofs
  imports Search Guarantees
begin

text \<open>
  What the search and aggregate routes answer over databases that expire documents and meet the
  store contract, and where the routes of theory Search let through what others refuse.
\<close>

lemma or_else_200: "r_status (or_else x r) = 200 \<Longrightarrow> (\<And>e. x = Some e \<Longrightarrow> r_status e \<noteq> 200) \<Longrightarrow> x = None \<and> or_else x r = r"
  by (cases x) (auto simp: or_else_def)

lemma denied_internal_status: "denied_internal c = Some r \<Longrightarrow> r_status r = 403"
  by (auto simp: denied_internal_def err_def resp_def split: if_splits)

lemma valid_names_status: "valid_names c i = Some r \<Longrightarrow> r_status r = 400"
  by (auto simp: valid_names_def err_def resp_def split: if_splits option.splits)

lemma resolve_db_status: "resolve_db_name q = Inl r \<Longrightarrow> r_status r = 400"
  by (auto simp: resolve_db_name_def err_def resp_def Let_def split: if_splits)

lemma db_for_status: "db_for cf n = Inl r \<Longrightarrow> r_status r \<noteq> 200"
  by (auto simp: db_for_def err_def resp_def split: if_splits option.splits)

text \<open>A search answered with 200 passed the gates of its path and runs on the database it names.\<close>

lemma listable_200:
  assumes "r_status (listable what cf rq bad k) = 200" "\<And>r. bad = Some r \<Longrightarrow> r_status r \<noteq> 200"
  obtains n d where "bad = None" "resolve_db_name (rq_query rq) = Inr n" "db_for cf n = Inr d"
    "denied_internal (trim_matches (CHR ''/'') (rq_path rq)) = None"
    "valid_names (trim_matches (CHR ''/'') (rq_path rq)) None = None"
    "policy_allow (cf_policy cf) (rq_auth rq) (dotted n (trim_matches (CHR ''/'') (rq_path rq))) ListM None"
    "listable what cf rq bad k = k n (trim_matches (CHR ''/'') (rq_path rq)) d"
proof -
  let ?c = "trim_matches (CHR ''/'') (rq_path rq)"
  have e: "listable what cf rq bad k \<noteq> err 400 what" "listable what cf rq bad k \<noteq> forbidden"
    using assms(1) by (auto simp: err_def resp_def forbidden_def)
  have c: "?c \<noteq> []" using e(1) by (auto simp: listable_def)
  note L = listable_def [of what cf rq bad k, unfolded Let_def if_not_P [OF c]]
  have 1: "denied_internal ?c = None"
    using assms(1) denied_internal_status [of ?c] by (cases "denied_internal ?c") (simp_all add: L or_else_def)
  have 2: "valid_names ?c None = None"
    using assms(1) valid_names_status [of ?c None] 1 by (cases "valid_names ?c None") (simp_all add: L or_else_def)
  have 3: "bad = None"
  proof (rule ccontr)
    assume "bad \<noteq> None"
    then obtain r where r: "bad = Some r" by blast
    then have "listable what cf rq bad k = r" using L by (simp add: or_else_def 1 2)
    with assms r show False by simp
  qed
  have L': "listable what cf rq bad k = (case resolve_db_name (rq_query rq) of Inl r \<Rightarrow> r | Inr n \<Rightarrow> (case db_for cf n of Inl r \<Rightarrow> r
      | Inr d \<Rightarrow> if \<not> policy_allow (cf_policy cf) (rq_auth rq) (dotted n ?c) ListM None then forbidden else k n ?c d))"
    unfolding L by (simp add: or_else_def 1 2 3)
  obtain n where n: "resolve_db_name (rq_query rq) = Inr n"
    using assms(1) L' resolve_db_status by (cases "resolve_db_name (rq_query rq)") force+
  moreover obtain d where d: "db_for cf n = Inr d"
    using assms(1) L' n db_for_status by (cases "db_for cf n") force+
  moreover have p: "policy_allow (cf_policy cf) (rq_auth rq) (dotted n ?c) ListM None"
    using e(2) L' n d by (simp split: if_splits)
  ultimately show ?thesis using that 1 2 3 L' by simp
qed

section \<open>Vector search\<close>

definition vectored :: "vector_metric \<Rightarrow> vector_search_body \<Rightarrow> doc \<Rightarrow> (fl \<times> doc) option" where
  "vectored metric b = scored metric (map fl32 (vs_query b)) (vs_field b)"

definition live_docs :: "int \<Rightarrow> docs \<Rightarrow> string \<Rightarrow> doc set" where
  "live_docs t v c = {x. live t v (c, d_id x) = Some x}"

lemma matching_default: "matching v c default_query = {x. v (c, d_id x) = Some x}"
  by (simp add: matching_def default_query_def doc_matches_def matches_cursor_def)

lemma unpaged_default [simp]: "unpaged_query default_query"
  by (simp add: unpaged_query_def default_query_def)

lemma parse_metric_400: "parse_vector_metric m = Inl r \<Longrightarrow> r_status r = 400"
  by (auto simp: parse_vector_metric_def err_def resp_def Let_def split: if_splits)

text \<open>
  C39. What a vector search finds. Over a database that expires documents and whose driver meets the
  contract, a search answered with 200 was allowed to list the collection and returns, of the live
  documents that have a vector of the query's length in the field, the \<open>k\<close> nearest: nearest first,
  each with its exact distance, none left out that is nearer than one returned. The one condition
  is that no distance is NaN, which overflowing vectors have.
\<close>

theorem vector_search_nearest:
  assumes store: "queryable_store d view I" "I (gw_db s n)"
    and db: "resolve_db_name (rq_query rq) = Inr n" "db_for cf n = Inr (ttl_db t d)"
    and m: "parse_vector_metric (vs_metric b) = Inr m" and ok: "r_status (vector_search cf rq b s) = 200"
    and num: "\<And>x y. x \<in> live_docs t (view (gw_db s n)) (trim_matches (CHR ''/'') (rq_path rq)) \<Longrightarrow> vectored m b x \<noteq> Some (NaN, y)"
  shows "\<exists>hits. let c = trim_matches (CHR ''/'') (rq_path rq); docs = live_docs t (view (gw_db s n)) c in
      policy_allow (cf_policy cf) (rq_auth rq) (dotted n c) ListM None
    \<and> r_body (vector_search cf rq b s) = BScored hits
    \<and> length hits = min (unwrap_or 10 (vs_k b)) (card {x \<in> docs. vectored m b x \<noteq> None})
    \<and> sorted_wrt (\<lambda>g h. fl_cmp (sc_score g) (sc_score h) \<noteq> Greater) hits
    \<and> (\<forall>h \<in> set hits. sc_doc h \<in> docs \<and> sc_id h = d_id (sc_doc h) \<and> vectored m b (sc_doc h) = Some (sc_score h, sc_doc h))
    \<and> (\<forall>x \<in> docs - sc_doc ` set hits. \<forall>score. vectored m b x = Some (score, x) \<longrightarrow> (\<forall>h \<in> set hits. fl_cmp (sc_score h) score \<noteq> Greater))"
proof -
  let ?c = "trim_matches (CHR ''/'') (rq_path rq)" let ?docs = "live_docs t (view (gw_db s n)) ?c"
  obtain n' d' where g: "resolve_db_name (rq_query rq) = Inr n'" "db_for cf n' = Inr d'"
      "policy_allow (cf_policy cf) (rq_auth rq) (dotted n' ?c) ListM None"
    and r: "vector_search cf rq b s = (case db_vector_search d' (gw_db s n') ?c (vs_field b) (map fl32 (vs_query b)) (unwrap_or 10 (vs_k b))
            (case parse_vector_metric (vs_metric b) of Inr m \<Rightarrow> m | Inl _ \<Rightarrow> Cosine) of
          Inr hits \<Rightarrow> resp 200 (BScored hits)
        | Inl e \<Rightarrow> app_err e)"
    by (rule listable_200 [OF ok [unfolded vector_search_def Let_def]])
      (auto simp: err_def resp_def vector_search_def Let_def dest: parse_metric_400 split: if_splits sum.splits)
  have nd: "n' = n" "d' = ttl_db t d" using g db by auto
  obtain rows where rows: "ttl_list t d (gw_db s n) ?c default_query = Inr rows" "distinct rows" "set rows = ?docs"
    using queryable_store.ttl_list_live [OF store, of default_query t ?c] by (auto simp: matching_default live_docs_def)
  define hits where "hits = nearest m (map fl32 (vs_query b)) (vs_field b) (unwrap_or 10 (vs_k b)) rows"
  have h: "r_body (vector_search cf rq b s) = BScored hits"
    using ok app_err_status
    by (auto simp: r nd m ttl_db_def default_vector_search_def rows hits_def resp_def split: sum.splits if_splits)
  have v: "vectored m b = scored m (map fl32 (vs_query b)) (vs_field b)" by (simp add: vectored_def)
  have n': "\<forall>x \<in> set rows. \<forall>y. scored m (map fl32 (vs_query b)) (vs_field b) x = Some (NaN, y) \<longrightarrow> False"
    using num by (auto simp: rows(3) v [symmetric])
  note spec = nearest_spec [OF n' rows(2), of "unwrap_or 10 (vs_k b)", folded hits_def v, unfolded rows(3)]
  show ?thesis
    unfolding Let_def using g(3) h spec nd by (intro exI [of _ hits]) auto
qed

definition vec_doc :: "string \<Rightarrow> int \<Rightarrow> doc" where
  "vec_doc i n = \<lparr>d_id = i, d_data = [(''v'', JArr [jint n])]\<rparr>"

definition vec_gw :: "mem_db gw" where
  "vec_gw = mem_gw\<lparr>gw_db := (\<lambda>_. \<lparr>store = [(''pts'', [(''a'', vec_doc ''a'' 2), (''b'', vec_doc ''b'' 1)])], indexes = []\<rparr>)\<rparr>"

definition vec_config :: "policy_file \<Rightarrow> mem_db config" where
  "vec_config p = (mem_config p False)\<lparr>cf_dbs := [(''default'', ttl_db 0 (mem_driver 0\<lparr>db_capabilities := mem_capabilities\<rparr>))]\<rparr>"

definition vec_body :: vector_search_body where
  "vec_body = \<lparr>vs_field = ''v'', vs_query = [1], vs_k = Some 1, vs_metric = Some ''l2''\<rparr>"

abbreviation vec_request :: request where
  "vec_request \<equiv> doc_request ''pts'' JNull"

lemma vec_request_facts [simp]:
  "trim_matches (CHR ''/'') (rq_path vec_request) = ''pts''" "rq_auth vec_request = None" "rq_query vec_request = []"
  by code_simp+

lemma vec_gates [simp]:
  "resolve_db_name [] = Inr ''default''" "denied_internal ''pts'' = None" "valid_names ''pts'' None = None"
  "db_for (vec_config p) ''default'' = Inr (ttl_db 0 (mem_driver 0\<lparr>db_capabilities := mem_capabilities\<rparr>))"
  "parse_vector_metric (Some ''l2'') = Inr L2"
  by (code_simp, code_simp, code_simp, simp add: db_for_def vec_config_def, code_simp)

lemma fl_small [simp]: "fl32 1 = Fin 1" "fl32 2 = Fin 2" "fl32 (- 1) = Fin (- 1)" "fl32 0 = Fin 0" "fl64 1 = Fin 1" "fl64 0 = Fin 0"
  using f64_of_int_exact [of 1]
  by (simp_all add: fl32_def f32_round_def f32_ulp_exp_def flog2_def bitlen.simps pow2_def rne_def fl64_def f64_of_int_def Let_def)

lemma vec_scored [simp]:
  "scored L2 [Fin 1] ''v'' (vec_doc i 2) = Some (Fin 1, vec_doc i 2)"
  "scored L2 [Fin 1] ''v'' (vec_doc i 1) = Some (Fin 0, vec_doc i 1)"
  using f64_of_int_exact [of 2] f64_of_int_exact [of 1]
  by (simp_all add: scored_def vec_doc_def json_float_array_def vector_distance_def l2_step_def fl_sub_def Let_def)

lemma vec_rows:
  "ttl_list 0 (mem_driver 0\<lparr>db_capabilities := mem_capabilities\<rparr>) (gw_db vec_gw ''default'') ''pts'' default_query
     = Inr [vec_doc ''a'' 2, vec_doc ''b'' 1]"
  by code_simp

lemma vec_count:
  "ttl_count 0 (mem_driver 0\<lparr>db_capabilities := mem_capabilities\<rparr>) (gw_db vec_gw ''default'') ''pts'' default_query = Inr 2"
  by code_simp

lemma vec_policy [simp]: "cf_policy (vec_config p) = p"
  by (simp add: vec_config_def mem_config_def)

lemma ttl_vector_search [simp]: "db_vector_search (ttl_db t d) = default_vector_search (ttl_count t d) (ttl_list t d)"
  by (simp add: ttl_db_def)

lemma vec_doc_id [simp]: "d_id (vec_doc i n) = i"
  by (simp add: vec_doc_def)

lemma vec_search:
  "policy_allow p None ''pts'' ListM None \<Longrightarrow> vector_search (vec_config p) vec_request vec_body vec_gw
     = resp 200 (BScored [\<lparr>sc_id = ''b'', sc_score = Fin 0, sc_doc = vec_doc ''b'' 1\<rparr>])"
  by (simp add: vector_search_def listable_def or_else_def vec_body_def MAX_VECTOR_K_def default_vector_search_def Let_def
      vec_rows vec_count MAX_VECTOR_SCAN_DOCS_def nearest_def sort_by_def dotted_def cmp_of_def)

lemma vec_live: "x \<in> live_docs 0 (view_of (store (gw_db vec_gw ''default''))) ''pts'' \<Longrightarrow> x = vec_doc ''a'' 2 \<or> x = vec_doc ''b'' 1"
  by (auto simp: live_docs_def live_def view_of_def vec_gw_def split: option.splits if_splits)

lemma vec_gw_ok: "mem_ok (gw_db vec_gw ''default'')"
  by code_simp

lemma vector_search_nearest_witness:
  "\<exists>hits. r_body (vector_search (vec_config policy_open) vec_request vec_body vec_gw) = BScored hits \<and> length hits \<le> 1"
proof -
  have "policy_allow policy_open None ''pts'' ListM None" by code_simp
  then have "r_status (vector_search (vec_config policy_open) vec_request vec_body vec_gw) = 200"
    by (simp add: vec_search resp_def)
  moreover have "vectored L2 vec_body x \<noteq> Some (NaN, y)" if "x \<in> live_docs 0 (view_of (store (gw_db vec_gw ''default''))) ''pts''" for x y
    using vec_live [OF that] by (auto simp: vectored_def vec_body_def)
  moreover have k: "vs_metric vec_body = Some ''l2''" "vs_k vec_body = Some 1" by (simp_all add: vec_body_def)
  ultimately have "\<exists>hits. r_body (vector_search (vec_config policy_open) vec_request vec_body vec_gw) = BScored hits
      \<and> length hits = min (unwrap_or 10 (vs_k vec_body))
          (card {x \<in> live_docs 0 (view_of (store (gw_db vec_gw ''default''))) ''pts''. vectored L2 vec_body x \<noteq> None})"
    using vector_search_nearest [OF memq.queryable_store_axioms [of mem_capabilities 0] vec_gw_ok,
        where t = 0 and rq = vec_request and cf = "vec_config policy_open" and b = vec_body and m = L2]
    unfolding Let_def vec_request_facts vec_gates by (simp only: vec_gates k) blast
  then show ?thesis using k by auto
qed

section \<open>Aggregates\<close>

lemma reduce_all_result:
  "reduce_all d t coll opts as m = Inr m' \<Longrightarrow> distinct (map agg_key as) \<Longrightarrow>
     (\<forall>a \<in> set as. \<exists>v. reduce_one d t coll opts a = Inr v \<and> dget m' (agg_key a) = Some v)
   \<and> (\<forall>k. k \<notin> agg_key ` set as \<longrightarrow> dget m' k = dget m k)"
proof (induction d t coll opts as m rule: reduce_all.induct)
  case (2 d t coll opts a as m)
  obtain v where v: "reduce_one d t coll opts a = Inr v" using "2.prems"(1) by (auto split: sum.splits)
  with "2.prems" "2.IH" [OF v] have IH: "(\<forall>a \<in> set as. \<exists>v. reduce_one d t coll opts a = Inr v \<and> dget m' (agg_key a) = Some v)
      \<and> (\<forall>k. k \<notin> agg_key ` set as \<longrightarrow> dget m' k = dget (dput (agg_key a) v m) k)" by simp
  have k: "agg_key a \<notin> agg_key ` set as" using "2.prems"(2) by simp
  show ?case using IH k v by auto
qed simp

lemma reduce_one_status: "reduce_one d t c q a = Inl r \<Longrightarrow> r_status r \<noteq> 200"
proof -
  have "r_status (plain_err e) \<noteq> 200" for e by (cases e) (auto simp: plain_err_def err_def resp_def)
  then show "reduce_one d t c q a = Inl r \<Longrightarrow> r_status r \<noteq> 200"
    by (auto simp: reduce_one_def err_def resp_def Let_def split: if_splits option.splits sum.splits)
qed

lemma reduce_all_status: "reduce_all d t c q as m = Inl r \<Longrightarrow> r_status r \<noteq> 200"
  by (induction d t c q as m rule: reduce_all.induct) (auto split: sum.splits dest: reduce_one_status)

text \<open>What one aggregate stands for, over the documents \<open>M\<close>; the order of the rows is the driver's.\<close>

definition agg_value :: "doc set \<Rightarrow> bool \<Rightarrow> agg_spec \<Rightarrow> json \<Rightarrow> bool" where
  "agg_value M native a v = (let ty = ascii_lower (ag_type a) in
     if ty = ''count'' then v = jint (int (card M))
     else ty \<in> {''sum'', ''avg''} \<and> card M \<le> MAX_AGG_SCAN_DOCS \<and> (\<exists>field x. ag_field a = Some field \<and> field \<noteq> [] \<and> v = JNum (NFloat x)
       \<and> (native \<or> (\<exists>rows. distinct rows \<and> set rows = M \<and> (let nums = field_numbers field rows in
             x = (if ty = ''sum'' then f64_total nums
                  else if nums = [] then 0 else f64_div (f64_total nums) (f64_of_int (int (length nums)))))))))"

lemma reduce_one_value:
  assumes store: "queryable_store d view I" "I s" and r: "reduce_one (ttl_db t d) s c (unpaged opts) a = Inr v"
  shows "agg_value (matching (live t (view s)) c opts) (supports_native_aggregation (db_capabilities d)) a v"
proof -
  have u: "unpaged_query (unpaged opts)" by simp
  have n: "db_count (ttl_db t d) s c (unpaged opts) = Inr (card (matching (live t (view s)) c opts))"
    using queryable_store.ttl_count_live [OF store u, of t c] by (simp add: ttl_db_def)
  obtain rows where rows: "ttl_list t d s c (unpaged opts) = Inr rows" "distinct rows" "set rows = matching (live t (view s)) c opts"
    using queryable_store.ttl_list_live [OF store u, of t c] by auto
  have sum: "db_sum (ttl_db t d) s c f (unpaged opts) = Inr x \<Longrightarrow> \<not> supports_native_aggregation (db_capabilities d) \<Longrightarrow>
      x = f64_total (field_numbers f rows)" for f x by (simp add: ttl_db_def ttl_sum_def rows)
  have avg: "db_avg (ttl_db t d) s c f (unpaged opts) = Inr x \<Longrightarrow> \<not> supports_native_aggregation (db_capabilities d) \<Longrightarrow>
      x = (let nums = field_numbers f rows in if nums = [] then 0 else f64_div (f64_total nums) (f64_of_int (int (length nums))))" for f x
    by (simp add: ttl_db_def ttl_avg_def rows Let_def split: if_splits)
  show ?thesis
  proof (cases "ascii_lower (ag_type a) = ''count''")
    case True
    then show ?thesis using r by (simp add: reduce_one_def n agg_value_def)
  next
    case False
    then obtain field x where f: "ascii_lower (ag_type a) \<in> {''sum'', ''avg''}" "ag_field a = Some field" "field \<noteq> []"
        "\<not> MAX_AGG_SCAN_DOCS < card (matching (live t (view s)) c opts)" "v = JNum (NFloat x)"
        "(if ascii_lower (ag_type a) = ''sum'' then db_sum (ttl_db t d) s c field (unpaged opts)
          else db_avg (ttl_db t d) s c field (unpaged opts)) = Inr x"
      using r by (auto simp: reduce_one_def n Let_def split: if_splits option.splits sum.splits)
    have "supports_native_aggregation (db_capabilities d) \<or> (let nums = field_numbers field rows in
         x = (if ascii_lower (ag_type a) = ''sum'' then f64_total nums
              else if nums = [] then 0 else f64_div (f64_total nums) (f64_of_int (int (length nums)))))"
      using f(6) sum [of field x] avg [of field x]
      by (cases "supports_native_aggregation (db_capabilities d)"; cases "ascii_lower (ag_type a) = ''sum''") (simp_all add: Let_def)
    then show ?thesis using f False rows(2,3) unfolding agg_value_def Let_def by auto
  qed
qed


definition count_body :: agg_body where
  "count_body = \<lparr>ab_options = default_query, ab_aggregations = [\<lparr>ag_type = ''Count'', ag_field = None, ag_alias = None\<rparr>]\<rparr>"


section \<open>Where the routes differ from the document routes\<close>

text \<open>A search returns whole documents that the policy does not let the caller get.\<close>

definition hidden_rows :: policy_file where
  "hidden_rows = policy_open\<lparr>p_collections := [(''pts'', empty_policy\<lparr>p_get := Some Deny\<rparr>)]\<rparr>"

lemma search_returns_hidden_rows:
  "\<not> policy_allow hidden_rows None ''pts'' Get (Some (vec_doc ''b'' 1))
   \<and> vector_search (vec_config hidden_rows) vec_request vec_body vec_gw
     = resp 200 (BScored [\<lparr>sc_id = ''b'', sc_score = Fin 0, sc_doc = vec_doc ''b'' 1\<rparr>])"
proof
  show "\<not> policy_allow hidden_rows None ''pts'' Get (Some (vec_doc ''b'' 1))" by code_simp
  have "policy_allow hidden_rows None ''pts'' ListM None" by code_simp
  then show "vector_search (vec_config hidden_rows) vec_request vec_body vec_gw
     = resp 200 (BScored [\<lparr>sc_id = ''b'', sc_score = Fin 0, sc_doc = vec_doc ''b'' 1\<rparr>])" by (rule vec_search)
qed

text \<open>
  Every driver is wrapped in the expiry decorator, which has no vector and graph operations: whatever
  the driver inside can do and advertises, indexes and walks are refused, and no search uses an index.
\<close>

lemma native_search_unreachable:
  "db_create_vector_index (ttl_db t d) s c spec = (Inl (BadRequest (''driver '' @ cap_driver (db_capabilities d) @ '' has no vector-index support'')), s)"
  "db_create_traverse_index (ttl_db t d) s c = (Inl (no_graph (db_capabilities d)), s)"
  "db_create_edge_index (ttl_db t d) s c = (Inl (no_graph (db_capabilities d)), s)"
  "db_traverse_search (ttl_db t d) s c i dir e v w n k = Inl (no_graph (db_capabilities d))"
  "db_vector_search (ttl_db t d) = default_vector_search (ttl_count t d) (ttl_list t d)"
  "supports_vector (db_capabilities (ttl_db t d)) = supports_vector (db_capabilities d)"
  by (simp_all add: ttl_db_def default_create_vector_index_def default_create_traverse_index_def
      default_create_edge_index_def default_traverse_search_def)

text \<open>Maintenance mode pauses writes, but restoring a document and purging records go on.\<close>

lemma restore_ignores_maintenance:
  "restore_doc (cf\<lparr>cf_read_only := True\<rparr>) rq s = restore_doc (cf\<lparr>cf_read_only := False\<rparr>) rq s"
  "sweep_now_run (cf\<lparr>cf_read_only := True\<rparr>) rq s = sweep_now_run (cf\<lparr>cf_read_only := False\<rparr>) rq s"
  by (simp_all add: restore_doc_def sweep_now_run_def db_for_def)

text \<open>
  The collection group route has no gate for reserved names: under defaults that allow reads it
  lists the session records, and a document is judged under a path it may have been given by its writer.
\<close>

definition session_gw :: "mem_db gw" where
  "session_gw = mem_gw\<lparr>gw_db := (\<lambda>_. \<lparr>store = [(''__sessions'', [(''s'', \<lparr>d_id = ''s'', d_data = [(''refresh_hash'', JStr ''h'')]\<rparr>)])], indexes = []\<rparr>)\<rparr>"

lemma group_lists_sessions:
  "collection_group plain_lib (mem_config policy_open False) (doc_request [] JNull) ''__sessions'' session_gw
     = resp 200 (BDocs [\<lparr>d_id = ''s'', d_data = [(''refresh_hash'', JStr ''h'')]\<rparr>])
   \<and> denied_internal ''__sessions'' \<noteq> None"
  by (rule conjI; code_simp)

definition group_policy :: policy_file where
  "group_policy = policy_open\<lparr>p_collections := [(''pts'', empty_policy\<lparr>p_get := Some Deny\<rparr>)]\<rparr>"

definition claimed :: doc where
  "claimed = \<lparr>d_id = ''a'', d_data = [(''_collectionPath'', JStr ''open'')]\<rparr>"

lemma group_trusts_carried_path:
  "\<not> policy_allow group_policy None ''pts'' Get (Some claimed)
   \<and> collection_group plain_lib (mem_config group_policy False) (doc_request [] JNull) ''pts''
       (mem_gw\<lparr>gw_db := (\<lambda>_. \<lparr>store = [(''pts'', [(''a'', claimed)])], indexes = []\<rparr>)\<rparr>) = resp 200 (BDocs [claimed])"
  by (rule conjI; code_simp)

end
