(* ===== verification/Sockets.thy ===== *)
theory Sockets
  imports Realtime Edge
begin

text \<open>
  The WebSocket loop and the event stream (crates/hakobackend-server/src/main.rs): the handshake,
  the messages of a client, and the draining of its subscriptions. A socket is one task; the
  sources of its subscriptions are others, which put events into the channel the loop drains. The
  channel, the peer and the order in which a \<open>HashMap\<close> of subscriptions is traversed are modelled
  by a list, by the number of messages the peer still takes, and by the order of the dictionary.
\<close>

section \<open>Sockets\<close>

text \<open>A subscription of a socket: its source, the size of its first snapshot, its channel.\<close>

record 's ws_sub =
  wb_db :: "'s driver"
  wb_source :: subscription
  wb_docs :: nat
  wb_queue :: "out_event list"

datatype ws_out = WsReady string | WsChange string out_event | WsError "string option" string | WsPong | WsAuthed bool

text \<open>The messages as they go over the wire.\<close>

definition doc_json :: "doc \<Rightarrow> json" where
  "doc_json d = JObj (dict_of (doc_entries d))"

definition ws_err :: "string option \<Rightarrow> string \<Rightarrow> json" where
  "ws_err key message = (case key of
     Some k \<Rightarrow> JObj [(''key'', JStr k), (''message'', JStr message), (''type'', JStr ''error'')]
   | None \<Rightarrow> JObj [(''message'', JStr message), (''type'', JStr ''error'')])"

fun ws_wire :: "ws_out \<Rightarrow> json" where
  "ws_wire (WsReady key) = JObj [(''key'', JStr key), (''type'', JStr ''ready'')]"
| "ws_wire (WsChange key e) = JObj [(''doc'', (case ev_doc e of Some d \<Rightarrow> doc_json d | None \<Rightarrow> JNull)), (''key'', JStr key),
     (''kind'', JStr (wire_kind (ev_kind e))), (''type'', JStr ''change'')]"
| "ws_wire (WsError key message) = ws_err key message"
| "ws_wire WsPong = JObj [(''type'', JStr ''pong'')]"
| "ws_wire (WsAuthed b) = JObj [(''ok'', JBool b), (''type'', JStr ''auth'')]"

text \<open>
  The state of the loop. \<open>ws_room\<close> is how many messages the peer still takes; \<open>ws_opened\<close> is the
  history of the subscriptions, not part of the program: key, policy, identity and what was asked for.
\<close>

record 's ws =
  ws_auth :: "auth_context option"
  ws_subs :: "(string, 's ws_sub) dict"
  ws_sent :: "ws_out list"
  ws_room :: nat
  ws_opened :: "(string \<times> policy_file \<times> auth_context option \<times> sub_spec) list"

text \<open>What the loop shares with the rest of the server: the databases and the token cache.\<close>

record 's ws_env =
  we_db :: "string \<Rightarrow> 's"
  we_cache :: token_cache

text \<open>\<open>from_str\<close> and \<open>decode_options\<close> are the library's parser and the derived decoder of options.\<close>

record 's ws_conf =
  wc_config :: "'s config"
  wc_edge :: edge
  wc_caps :: rt_caps
  wc_max_msg :: nat
  wc_max_subs :: nat
  wc_from_str :: "string \<Rightarrow> json option"
  wc_decode_options :: "json \<Rightarrow> query_options option"

definition ws_send :: "ws_out \<Rightarrow> 's ws \<Rightarrow> bool \<times> 's ws" where
  "ws_send m w = (if ws_room w = 0 then (False, w)
     else (True, w\<lparr>ws_sent := ws_sent w @ [m], ws_room := ws_room w - 1\<rparr>))"

section \<open>Identities on a socket\<close>

definition ws_token :: "edge \<Rightarrow> nat \<Rightarrow> instant \<Rightarrow> string \<Rightarrow> 's ws_env \<Rightarrow> auth_context option \<times> 's ws_env" where
  "ws_token e unix now t env =
     (let (ctx, c) = resolve_token (ed_from_slice e) (ed_sha e) unix now (ed_resolve e) t (we_cache env)
      in (ctx, env\<lparr>we_cache := c\<rparr>))"

text \<open>No proof can come with a message: an identity that would need one is dropped.\<close>

definition unproven :: "edge \<Rightarrow> auth_context option \<Rightarrow> auth_context option" where
  "unproven e ctx = (case ed_local_mode e of
     None \<Rightarrow> ctx
   | Some mode \<Rightarrow> if dpop_action mode (is_local_ctx ctx) False \<noteq> Keep then None else ctx)"

text \<open>The token of a handshake: header, cookie, or the query where that is allowed.\<close>

definition handshake_token :: "edge \<Rightarrow> edge_request \<Rightarrow> (string, string) dict \<Rightarrow> string option" where
  "handshake_token e r q = (case request_token r of
     Some t \<Rightarrow> Some t
   | None \<Rightarrow> if query_token_allowed (ed_tls e) (er_host r) then dget q ''token'' else None)"

definition handshake :: "edge \<Rightarrow> nat \<Rightarrow> instant \<Rightarrow> edge_request \<Rightarrow> string \<Rightarrow> string option \<Rightarrow> edge_state \<Rightarrow> auth_context option \<times> edge_state" where
  "handshake e unix now r uri token st =
     (let (ctx, c) = (case token of
            Some t \<Rightarrow> resolve_token (ed_from_slice e) (ed_sha e) unix now (ed_resolve e) t (es_cache st)
          | None \<Rightarrow> (None, es_cache st));
          (ctx', rp) = enforce_dpop (ed_proofs e) (ed_local_mode e) (ed_bound_jkt e) unix now (er_dpop r) ''GET'' uri token ctx (es_replay st)
      in (ctx', \<lparr>es_cache = c, es_replay = rp\<rparr>))"

definition ws_start :: "auth_context option \<Rightarrow> nat \<Rightarrow> 's ws" where
  "ws_start auth room = \<lparr>ws_auth = auth, ws_subs = [], ws_sent = [], ws_room = room, ws_opened = []\<rparr>"

definition ws_handler :: "edge \<Rightarrow> nat \<Rightarrow> instant \<Rightarrow> edge_request \<Rightarrow> (string, string) dict \<Rightarrow> nat \<Rightarrow> edge_state \<Rightarrow> 's ws \<times> edge_state" where
  "ws_handler e unix now r q room st =
     (let (auth, st') = handshake e unix now r (base_uri (ed_tls e) (er_host r) ''/ws'') (handshake_token e r q) st
      in (ws_start auth room, st'))"

section \<open>One message\<close>

text \<open>What comes off the socket in one round, and how the round goes on: to the draining, around it, or out.\<close>

datatype ws_in = Quiet | TextMsg string | Closing | OtherMsg

datatype flow = Drain | Skip | Leave

definition answer :: "flow \<Rightarrow> ws_out \<Rightarrow> 's ws \<times> 's ws_env \<Rightarrow> flow \<times> 's ws \<times> 's ws_env" where
  "answer f m we = (let (sent, w) = ws_send m (fst we) in (if sent then f else Leave, w, snd we))"

definition text_field :: "json \<Rightarrow> string \<Rightarrow> string" where
  "text_field v k = unwrap_or [] (Option.bind (jget v k) as_str)"

text \<open>\<open>db\<close> of a message: the default without one, \<open>None\<close> where it is no name of a database.\<close>

definition message_db :: "json \<Rightarrow> string option" where
  "message_db v = (case Option.bind (jget v ''db'') as_str of
     None \<Rightarrow> Some ''default''
   | Some d \<Rightarrow> if d = [] \<or> \<not> valid_db_name d then None else Some d)"

definition message_spec :: "'s ws_conf \<Rightarrow> json \<Rightarrow> string \<Rightarrow> sub_spec" where
  "message_spec wc v dbname =
     \<lparr>sp_collection = text_field v ''collection'',
      sp_options = (case jget v ''options'' of None \<Rightarrow> default_query | Some o' \<Rightarrow> unwrap_or default_query (wc_decode_options wc o')),
      sp_group = unwrap_or False (Option.bind (jget v ''group'') as_bool),
      sp_db = dbname\<rparr>"

definition message_auth :: "edge \<Rightarrow> nat \<Rightarrow> instant \<Rightarrow> json \<Rightarrow> 's ws \<times> 's ws_env \<Rightarrow> auth_context option \<times> 's ws_env" where
  "message_auth e unix now v we =
     (let (ctx, env) = (case Option.bind (jget v ''token'') as_str of
            Some t \<Rightarrow> ws_token e unix now t (snd we)
          | None \<Rightarrow> (ws_auth (fst we), snd we))
      in (if jget v ''token'' \<noteq> None then unproven e ctx else ctx, env))"

definition docs_held :: "('k, 's ws_sub) dict \<Rightarrow> nat" where
  "docs_held subs = sum_list (map (\<lambda>kv. wb_docs (snd kv)) subs)"

definition ws_open :: "'s ws_conf \<Rightarrow> nat \<Rightarrow> instant \<Rightarrow> json \<Rightarrow> string \<Rightarrow> string \<Rightarrow> 's ws \<times> 's ws_env \<Rightarrow> flow \<times> 's ws \<times> 's ws_env" where
  "ws_open wc unix now v key dbname we =
     (let (sub_auth, env) = message_auth (wc_edge wc) unix now v we; w = fst we; cf = wc_config wc in
      case db_for cf dbname of
        Inl _ \<Rightarrow> answer Skip (WsError (Some key) ''unknown database'') (w, env)
      | Inr d \<Rightarrow>
          (case subscribe d (cf_policy cf) sub_auth (message_spec wc v dbname) (wc_caps wc) now (we_db env dbname) of
             (Inl e, s') \<Rightarrow>
               answer Drain (WsError (Some key)
                 (if e = PermissionDenied then ''Permission denied by policy'' else ''subscribe failed''))
                 (w, env\<lparr>we_db := (we_db env)(dbname := s')\<rparr>)
           | (Inr sb, s') \<Rightarrow>
               (let env1 = env\<lparr>we_db := (we_db env)(dbname := s')\<rparr>; n = length (sb_snapshot sb) in
                if max_conn_docs (wc_caps wc) < docs_held (ws_subs w) + n then
                  answer Skip (WsError (Some key) ''connection snapshot budget exceeded'') (w, env1)
                else answer Drain (WsReady key)
                  (w\<lparr>ws_subs := dput key \<lparr>wb_db = d, wb_source = sb, wb_docs = n, wb_queue = []\<rparr> (ws_subs w),
                     ws_opened := (key, cf_policy cf, sub_auth, message_spec wc v dbname) # ws_opened w\<rparr>, env1))))"

definition ws_subscribe :: "'s ws_conf \<Rightarrow> nat \<Rightarrow> instant \<Rightarrow> json \<Rightarrow> 's ws \<times> 's ws_env \<Rightarrow> flow \<times> 's ws \<times> 's ws_env" where
  "ws_subscribe wc unix now v we =
     (let key = text_field v ''key'' in
      if key = [] \<or> text_field v ''collection'' = [] then answer Skip (WsError None ''key + collection required'') we
      else case message_db v of
        None \<Rightarrow> answer Skip (WsError (Some key) ''invalid db name'') we
      | Some dbname \<Rightarrow>
          if wc_max_subs wc \<le> length (ws_subs (fst we)) \<and> \<not> dhas (ws_subs (fst we)) key then
            answer Skip (WsError (Some key) ''subscription limit exceeded'') we
          else ws_open wc unix now v key dbname we)"

definition ws_message :: "'s ws_conf \<Rightarrow> nat \<Rightarrow> instant \<Rightarrow> json \<Rightarrow> 's ws \<times> 's ws_env \<Rightarrow> flow \<times> 's ws \<times> 's ws_env" where
  "ws_message wc unix now v we =
     (let kind = Option.bind (jget v ''type'') as_str in
      if kind = Some ''ping'' then answer Drain WsPong we
      else if kind = Some ''auth'' then
        (let (ctx, env) = ws_token (wc_edge wc) unix now (text_field v ''token'') (snd we); next = unproven (wc_edge wc) ctx
         in answer Drain (WsAuthed (next \<noteq> None)) ((fst we)\<lparr>ws_auth := next\<rparr>, env))
      else if kind = Some ''subscribe'' then ws_subscribe wc unix now v we
      else if kind = Some ''unsubscribe'' then
        (Drain, (case Option.bind (jget v ''key'') as_str of
            Some k \<Rightarrow> (fst we)\<lparr>ws_subs := ddel k (ws_subs (fst we))\<rparr> | None \<Rightarrow> fst we), snd we)
      else answer Drain (WsError None ''unknown type'') we)"

definition ws_receive :: "'s ws_conf \<Rightarrow> nat \<Rightarrow> instant \<Rightarrow> ws_in \<Rightarrow> 's ws \<times> 's ws_env \<Rightarrow> flow \<times> 's ws \<times> 's ws_env" where
  "ws_receive wc unix now m we = (case m of
     Quiet \<Rightarrow> (Drain, we)
   | Closing \<Rightarrow> (Leave, we)
   | OtherMsg \<Rightarrow> (Skip, we)
   | TextMsg t \<Rightarrow>
       if wc_max_msg wc < length t then (Leave, we)
       else (case wc_from_str wc t of
           None \<Rightarrow> answer Skip (WsError None ''message is not JSON'') we
         | Some v \<Rightarrow> ws_message wc unix now v we))"

section \<open>Draining\<close>

fun drain_queue :: "string \<Rightarrow> out_event list \<Rightarrow> 's ws \<Rightarrow> bool \<times> out_event list \<times> 's ws" where
  "drain_queue key [] w = (False, [], w)"
| "drain_queue key (e # es) w = (case ws_send (WsChange key e) w of
     (True, w') \<Rightarrow> drain_queue key es w'
   | (False, w') \<Rightarrow> (True, es, w'))"

fun drain_subs :: "(string, 's ws_sub) dict \<Rightarrow> 's ws \<Rightarrow> bool \<times> (string, 's ws_sub) dict \<times> 's ws" where
  "drain_subs [] w = (False, [], w)"
| "drain_subs ((key, b) # rest) w = (case drain_queue key (wb_queue b) w of
     (dead, q, w') \<Rightarrow>
       if dead then (True, (key, b\<lparr>wb_queue := q\<rparr>) # rest, w')
       else (case drain_subs rest w' of (dead', rest', w'') \<Rightarrow> (dead', (key, b\<lparr>wb_queue := q\<rparr>) # rest', w'')))"

definition ws_drain :: "'s ws \<Rightarrow> bool \<times> 's ws" where
  "ws_drain w = (case drain_subs (ws_subs w) w of (dead, subs, w') \<Rightarrow> (dead, w'\<lparr>ws_subs := subs\<rparr>))"

text \<open>One round of \<open>ws_loop\<close>; the flag is whether there is another.\<close>

definition ws_round :: "'s ws_conf \<Rightarrow> nat \<Rightarrow> instant \<Rightarrow> ws_in \<Rightarrow> 's ws \<times> 's ws_env \<Rightarrow> bool \<times> 's ws \<times> 's ws_env" where
  "ws_round wc unix now m we = (case ws_receive wc unix now m we of
     (Leave, we') \<Rightarrow> (False, we')
   | (Skip, we') \<Rightarrow> (True, we')
   | (Drain, w, env) \<Rightarrow> (case ws_drain w of (dead, w') \<Rightarrow> (\<not> dead, w', env)))"

section \<open>The event stream\<close>

definition sse_handler :: "lib \<Rightarrow> 's ws_conf \<Rightarrow> nat \<Rightarrow> instant \<Rightarrow> edge_request \<Rightarrow> string \<Rightarrow> (string, string) dict \<Rightarrow> edge_state \<Rightarrow>
    (string \<Rightarrow> 's) \<Rightarrow> (response, 's driver \<times> subscription) result \<times> edge_state \<times> (string \<Rightarrow> 's)" where
  "sse_handler L wc unix now r path q st s =
     (let bad = err 400 ''SSE only supports collection endpoints'' in
      case parse_collection_path path of
        Document _ _ \<Rightarrow> (Inl bad, st, s)
      | Collection coll \<Rightarrow>
          if coll = [] then (Inl bad, st, s)
          else
           (let e = wc_edge wc;
                (auth, st') = handshake e unix now r (base_uri (ed_tls e) (er_host r) (''/api/stream/'' @ path)) (handshake_token e r q) st;
                cf = wc_config wc
            in case parse_options L q of
                Inl msg \<Rightarrow> (Inl (err 400 msg), st', s)
              | Inr opts \<Rightarrow> (case resolve_db_name q of
                  Inl x \<Rightarrow> (Inl x, st', s)
                | Inr name \<Rightarrow> (case db_for cf name of
                    Inl x \<Rightarrow> (Inl x, st', s)
                  | Inr d \<Rightarrow>
                      (case subscribe d (cf_policy cf) auth
                          \<lparr>sp_collection = coll, sp_options = opts,
                           sp_group = (dget q ''group'' = Some ''1'' \<or> dget q ''group'' = Some ''true''), sp_db = name\<rparr>
                          (wc_caps wc) now (s name) of
                         (Inr sb, t) \<Rightarrow> (Inr (d, sb), st', s(name := t))
                       | (Inl x, t) \<Rightarrow>
                           (Inl (if x = PermissionDenied then forbidden else resp 500 (BText (err_text x))), st', s(name := t)))))))"

text \<open>The stream: one \<open>change\<close> event for each event of the source.\<close>

definition sse_stream :: "out_event list \<Rightarrow> (string \<times> json) list" where
  "sse_stream = map (\<lambda>e. (''change'', JObj [(''doc'', (case ev_doc e of Some d \<Rightarrow> doc_json d | None \<Rightarrow> JNull)),
     (''kind'', JStr (wire_kind (ev_kind e)))]))"

end
