(* ===== verification/SocketProofs.thy ===== *)
theory SocketProofs
  imports Sockets
begin

text \<open>
  What holds of a socket at every moment: its bounds, what it is sent, and whom it speaks for. The
  moments are those of a step relation in which the loop runs a round under a configuration that
  \<open>C\<close> admits for what the server holds then, the source of a subscription handles a message of one
  of its lanes, and the rest of the server does anything.
\<close>

section \<open>The steps of a socket\<close>

inductive ws_reach :: "('s ws_conf \<Rightarrow> 's ws_env \<Rightarrow> bool) \<Rightarrow> auth_context option \<Rightarrow> 's ws \<times> 's ws_env \<Rightarrow> bool"
  for C :: "'s ws_conf \<Rightarrow> 's ws_env \<Rightarrow> bool" and a0 :: "auth_context option"
where
  start: "ws_reach C a0 (ws_start a0 room, env)"
| round: "ws_reach C a0 we \<Longrightarrow> C wc (snd we) \<Longrightarrow> ws_round wc unix now m we = (again, we') \<Longrightarrow> ws_reach C a0 we'"
| source: "ws_reach C a0 (w, env) \<Longrightarrow> dget (ws_subs w) key = Some b \<Longrightarrow> lane_of (wb_source b) l \<Longrightarrow>
    sub_step (wb_db b) now s l (wb_source b) = (evs, sb) \<Longrightarrow>
    ws_reach C a0 (w\<lparr>ws_subs := dput key (b\<lparr>wb_source := sb, wb_queue := wb_queue b @ evs\<rparr>) (ws_subs w)\<rparr>, env)"
| server: "ws_reach C a0 (w, env) \<Longrightarrow> ws_reach C a0 (w, env')"

text \<open>An event the subscription opened under a key was allowed.\<close>

definition shows_for :: "policy_file \<Rightarrow> auth_context option \<Rightarrow> sub_spec \<Rightarrow> out_event \<Rightarrow> bool" where
  "shows_for p a sp e \<longleftrightarrow> policy_allow p a (dotted (sub_db sp) (sp_collection sp)) ListM None
     \<and> (\<exists>x d. (x = sp_collection sp \<or> sp_group sp \<and> matches_group x (sp_collection sp))
       \<and> ev_doc e = Some d \<and> matches_full d (sp_options sp) \<and> policy_allow p a (dotted (sub_db sp) x) Get (Some d))"

definition may_show :: "(string \<times> policy_file \<times> auth_context option \<times> sub_spec) list \<Rightarrow> string \<Rightarrow> out_event \<Rightarrow> bool" where
  "may_show opened key e \<longleftrightarrow> (\<exists>p a sp. (key, p, a, sp) \<in> set opened \<and> shows_for p a sp e)"

definition source_of :: "policy_file \<Rightarrow> auth_context option \<Rightarrow> sub_spec \<Rightarrow> subscription \<Rightarrow> bool" where
  "source_of p a sp sb \<longleftrightarrow> sub_ok sb \<and> sb_policy sb = p \<and> sb_auth sb = a \<and> sb_options sb = sp_options sp
     \<and> policy_allow p a (dotted (sub_db sp) (sp_collection sp)) ListM None
     \<and> (\<forall>c \<in> set (sb_collections sb). c = dotted (sub_db sp) (sp_collection sp) \<or>
          sp_group sp \<and> (\<exists>x. c = dotted (sub_db sp) x \<and> matches_group x (sp_collection sp)))"

definition entry_of :: "(string \<times> policy_file \<times> auth_context option \<times> sub_spec) list \<Rightarrow> string \<Rightarrow> 's ws_sub \<Rightarrow> bool" where
  "entry_of opened key b \<longleftrightarrow> (\<exists>p a sp. (key, p, a, sp) \<in> set opened \<and> source_of p a sp (wb_source b))
     \<and> (\<forall>e \<in> set (wb_queue b). may_show opened key e)"

definition ws_inv :: "nat \<Rightarrow> nat \<Rightarrow> 's ws \<Rightarrow> bool" where
  "ws_inv N M w \<longleftrightarrow> dict_ok (ws_subs w) \<and> length (ws_subs w) \<le> N \<and> docs_held (ws_subs w) \<le> M
     \<and> (\<forall>(key, b) \<in> set (ws_subs w). entry_of (ws_opened w) key b)
     \<and> (\<forall>key e. WsChange key e \<in> set (ws_sent w) \<longrightarrow> may_show (ws_opened w) key e)"

lemma may_show_more: "may_show opened key e \<Longrightarrow> may_show (x # opened) key e"
  unfolding may_show_def by (meson list.set_intros(2))

lemma entry_of_more: "entry_of opened key b \<Longrightarrow> entry_of (x # opened) key b"
  unfolding entry_of_def list.set using may_show_more by blast

subsection \<open>Sources\<close>

lemma source_of_subscribe:
  assumes "subscribe d p a sp caps now s = (Inr sb, s')" "\<forall>cs. db_list_collections d s = Inr cs \<longrightarrow> (\<forall>c \<in> set cs. NUL \<notin> set c)"
  shows "source_of p a sp sb"
  using subscribe_ok [OF assms] by (simp add: source_of_def)

lemma source_of_step:
  assumes "source_of p a sp sb" "lane_of sb l" "sub_step d now s l sb = (evs, sb')"
  shows "source_of p a sp sb'" "\<forall>e \<in> set evs. (key, p, a, sp) \<in> set opened \<longrightarrow> may_show opened key e"
proof -
  have ok: "sub_ok sb" using assms(1) by (simp add: source_of_def)
  have S: "same_source sb sb'" by (rule sub_step_same [OF assms(3)])
  note st = sub_step_showable [OF assms(3) ok assms(2)]
  show "source_of p a sp sb'" using assms(1) S st by (simp add: source_of_def same_source_def)
  show "\<forall>e \<in> set evs. (key, p, a, sp) \<in> set opened \<longrightarrow> may_show opened key e"
  proof (intro ballI impI)
    fix e assume e: "e \<in> set evs" and k: "(key, p, a, sp) \<in> set opened"
    obtain c d where c: "c \<in> set (sb_collections sb)" "ev_doc e = Some d" "matches_full d (sp_options sp)" "policy_allow p a c Get (Some d)"
      using st e assms(1) by (auto simp: showable_def source_of_def)
    obtain x where "c = dotted (sub_db sp) x" "x = sp_collection sp \<or> sp_group sp \<and> matches_group x (sp_collection sp)"
      using assms(1) c(1) unfolding source_of_def by blast
    then have "shows_for p a sp e" using assms(1) c by (auto simp: source_of_def shows_for_def)
    with k show "may_show opened key e" unfolding may_show_def by blast
  qed
qed

subsection \<open>The map of subscriptions\<close>

lemma docs_held_dput: "docs_held (dput k b m) \<le> docs_held m + wb_docs b"
  by (induction k b m rule: dput.induct) (auto simp: docs_held_def)

lemma dict_ok_below: "dict_ok ((j, x) # m) \<Longrightarrow> k < j \<Longrightarrow> dget m k = None"
  by (auto simp: dict_ok_Cons map_of_eq_None_iff)

lemma docs_held_same: "dict_ok m \<Longrightarrow> dget m k = Some b \<Longrightarrow> wb_docs b' = wb_docs b \<Longrightarrow> docs_held (dput k b' m) = docs_held m"
proof (induction k b' m rule: dput.induct)
  case (2 k v j x m)
  then show ?case using dict_ok_below [OF "2.prems"(1), of k] by (auto simp: docs_held_def dict_ok_Cons)
qed simp

lemma docs_held_filter: "docs_held (filter P m) \<le> docs_held m"
  by (induction m) (auto simp: docs_held_def)

lemma length_dput_le: "length (dput k b m) \<le> Suc (length m)"
  by (induction k b m rule: dput.induct) auto

lemma length_dput_same: "dict_ok m \<Longrightarrow> dget m k = Some x \<Longrightarrow> length (dput k b m) = length m"
proof (induction k b m rule: dput.induct)
  case (2 k v j y m)
  then show ?case using dict_ok_below [OF "2.prems"(1), of k] by (auto simp: dict_ok_Cons)
qed simp

subsection \<open>Rounds\<close>

lemma ws_send_inv: "ws_send m w = (b, w') \<Longrightarrow> (\<And>key e. m = WsChange key e \<Longrightarrow> may_show (ws_opened w) key e) \<Longrightarrow> ws_inv N M w \<Longrightarrow> ws_inv N M w'"
  by (auto simp: ws_send_def ws_inv_def split: if_splits)

lemma answer_inv:
  "ws_inv N M (fst we) \<Longrightarrow> (\<And>key e. m \<noteq> WsChange key e) \<Longrightarrow> ws_inv N M (fst (snd (answer f m we)))"
  by (auto simp: answer_def Let_def split: prod.splits intro: ws_send_inv)

definition names_ok :: "'s config \<Rightarrow> 's ws_env \<Rightarrow> bool" where
  "names_ok cf env \<longleftrightarrow> (\<forall>n d cs. db_for cf n = Inr d \<longrightarrow> db_list_collections d (we_db env n) = Inr cs \<longrightarrow> (\<forall>c \<in> set cs. NUL \<notin> set c))"

text \<open>What one round needs of the configuration it runs under.\<close>

definition conf_ok :: "nat \<Rightarrow> nat \<Rightarrow> 's ws_conf \<Rightarrow> 's ws_env \<Rightarrow> bool" where
  "conf_ok N M wc env \<longleftrightarrow> wc_max_subs wc \<le> N \<and> max_conn_docs (wc_caps wc) \<le> M \<and> names_ok (wc_config wc) env"

lemma insert_inv:
  assumes inv: "ws_inv N M w" and c: "conf_ok N M wc env"
    and n: "\<not> (wc_max_subs wc \<le> length (ws_subs w) \<and> \<not> dhas (ws_subs w) key)"
    and b: "wb_docs b + docs_held (ws_subs w) \<le> M" "wb_queue b = []" "source_of p a sp (wb_source b)"
  shows "ws_inv N M (w\<lparr>ws_subs := dput key b (ws_subs w), ws_opened := (key, p, a, sp) # ws_opened w\<rparr>)"
proof -
  have l: "length (dput key b (ws_subs w)) \<le> N"
    using n c inv length_dput_le [of key b "ws_subs w"] length_dput_same [of "ws_subs w" key]
    unfolding conf_ok_def ws_inv_def dhas_def by (cases "dget (ws_subs w) key") auto
  have e: "entry_of ((key, p, a, sp) # ws_opened w) key b"
    using b(2,3) unfolding entry_of_def by auto
  have "entry_of ((key, p, a, sp) # ws_opened w) k x" if "(k, x) \<in> set (dput key b (ws_subs w))" for k x
    using that set_dput [of key b "ws_subs w"] e inv unfolding ws_inv_def by (blast intro: entry_of_more)
  moreover have "docs_held (dput key b (ws_subs w)) \<le> M"
    using docs_held_dput [of key b "ws_subs w"] b(1) by simp
  ultimately show ?thesis
    using l inv by (auto simp: ws_inv_def intro: may_show_more)
qed

lemma message_auth_db: "message_auth e unix now v we = (a, env) \<Longrightarrow> we_db env = we_db (snd we)"
  by (auto simp: message_auth_def ws_token_def Let_def split: option.splits prod.splits)

lemma ws_open_inv:
  assumes "ws_inv N M (fst we)" "conf_ok N M wc (snd we)" "\<not> (wc_max_subs wc \<le> length (ws_subs (fst we)) \<and> \<not> dhas (ws_subs (fst we)) key)"
  shows "ws_inv N M (fst (snd (ws_open wc unix now v key dbname we)))"
proof -
  obtain sub_auth env where m: "message_auth (wc_edge wc) unix now v we = (sub_auth, env)" by force
  show ?thesis
  proof (cases "db_for (wc_config wc) dbname")
    case (Inl r)
    then show ?thesis using assms(1) by (simp add: ws_open_def m answer_inv)
  next
    case (Inr d)
    obtain r s' where s: "subscribe d (cf_policy (wc_config wc)) sub_auth (message_spec wc v dbname) (wc_caps wc) now (we_db env dbname) = (r, s')" by force
    have nm: "\<forall>cs. db_list_collections d (we_db env dbname) = Inr cs \<longrightarrow> (\<forall>c \<in> set cs. NUL \<notin> set c)"
      using assms(2) Inr message_auth_db [OF m] unfolding conf_ok_def names_ok_def by metis
    show ?thesis
    proof (cases r)
      case (Inl e)
      then show ?thesis using assms(1) by (simp add: ws_open_def m Inr s answer_inv)
    next
      case r: (Inr sb)
      note so = source_of_subscribe [OF s [unfolded r] nm]
      have "ws_inv N M ((fst we)\<lparr>ws_subs := dput key \<lparr>wb_db = d, wb_source = sb, wb_docs = length (sb_snapshot sb), wb_queue = []\<rparr> (ws_subs (fst we)),
          ws_opened := (key, cf_policy (wc_config wc), sub_auth, message_spec wc v dbname) # ws_opened (fst we)\<rparr>)"
        if "\<not> max_conn_docs (wc_caps wc) < docs_held (ws_subs (fst we)) + length (sb_snapshot sb)"
        using assms that so by (intro insert_inv) (auto simp: conf_ok_def)
      then show ?thesis using assms(1) by (auto simp: ws_open_def m Inr s r Let_def intro!: answer_inv)
    qed
  qed
qed

lemma ws_receive_inv:
  assumes "ws_inv N M (fst we)" "conf_ok N M wc (snd we)"
  shows "ws_inv N M (fst (snd (ws_receive wc unix now m we)))"
proof -
  have d: "ws_inv N M ((fst we)\<lparr>ws_subs := ddel k (ws_subs (fst we))\<rparr>)" for k
    using assms(1) docs_held_filter [of "\<lambda>e. fst e \<noteq> k" "ws_subs (fst we)"] length_filter_le [of "\<lambda>e. fst e \<noteq> k" "ws_subs (fst we)"]
    by (auto simp: ws_inv_def ddel_def dict_ok_filter intro: order_trans [OF length_filter_le])
  have a: "ws_inv N M ((fst we)\<lparr>ws_auth := x\<rparr>)" for x using assms(1) by (simp add: ws_inv_def)
  have s: "ws_inv N M (fst (snd (ws_subscribe wc unix now v we)))" for v
    using assms by (auto simp: ws_subscribe_def Let_def answer_inv ws_open_inv split: option.splits)
  have "ws_inv N M (fst (snd (ws_message wc unix now v we)))" for v
    using assms(1) a d s by (auto simp: ws_message_def Let_def answer_inv split: prod.splits option.splits)
  then show ?thesis
    using assms(1) by (auto simp: ws_receive_def answer_inv split: ws_in.splits option.splits)
qed

text \<open>Draining sends what is queued, in order, and changes nothing else.\<close>

lemma drain_queue_inv:
  "drain_queue key q w = (dead, q', w') \<Longrightarrow> (\<forall>e \<in> set q. may_show (ws_opened w) key e) \<Longrightarrow> ws_inv N M w \<Longrightarrow>
   ws_inv N M w' \<and> set q' \<subseteq> set q \<and> ws_opened w' = ws_opened w \<and> ws_subs w' = ws_subs w \<and> ws_auth w' = ws_auth w"
proof (induction key q w arbitrary: dead q' w' rule: drain_queue.induct)
  case (2 key e es w)
  obtain b w1 where s: "ws_send (WsChange key e) w = (b, w1)" by force
  have w1: "ws_inv N M w1" using ws_send_inv [OF s] "2.prems"(2,3) by auto
  have f: "ws_opened w1 = ws_opened w" "ws_subs w1 = ws_subs w" "ws_auth w1 = ws_auth w" using s by (auto simp: ws_send_def split: if_splits)
  show ?case
  proof (cases b)
    case True
    then have d: "drain_queue key es w1 = (dead, q', w')" using "2.prems"(1) s by simp
    show ?thesis using "2.IH" [OF s [symmetric] _ d _ w1] "2.prems"(2) f True s by auto
  next
    case False
    then show ?thesis using "2.prems" s w1 f by auto
  qed
qed simp

lemma drain_subs_inv:
  "drain_subs subs w = (dead, subs', w') \<Longrightarrow> (\<forall>(key, b) \<in> set subs. entry_of (ws_opened w) key b) \<Longrightarrow> ws_inv N M w \<Longrightarrow>
   ws_inv N M w' \<and> map fst subs' = map fst subs \<and> docs_held subs' = docs_held subs \<and> ws_opened w' = ws_opened w \<and> ws_auth w' = ws_auth w
   \<and> (\<forall>(key, b) \<in> set subs'. entry_of (ws_opened w) key b)"
proof (induction subs w arbitrary: dead subs' w' rule: drain_subs.induct)
  case (2 key b rest w)
  obtain d1 q w1 where q: "drain_queue key (wb_queue b) w = (d1, q, w1)" by (metis prod_cases3)
  have g: "\<forall>e \<in> set (wb_queue b). may_show (ws_opened w) key e" using "2.prems"(2) by (simp add: entry_of_def)
  note dq = drain_queue_inv [OF q g "2.prems"(3)]
  have e: "entry_of (ws_opened w) key (b\<lparr>wb_queue := q\<rparr>)" using dq "2.prems"(2) g unfolding entry_of_def by auto
  show ?case
  proof (cases d1)
    case True
    then show ?thesis using "2.prems" q dq e by (auto simp: docs_held_def)
  next
    case False
    obtain d2 rest' w2 where r: "drain_subs rest w1 = (d2, rest', w2)" by (metis prod_cases3)
    have "ws_inv N M w2 \<and> map fst rest' = map fst rest \<and> docs_held rest' = docs_held rest \<and> ws_opened w2 = ws_opened w1 \<and> ws_auth w2 = ws_auth w1
        \<and> (\<forall>(key, b) \<in> set rest'. entry_of (ws_opened w1) key b)"
      using "2.IH" [OF q [symmetric] _ _ r] "2.prems"(2) dq \<open>\<not> d1\<close> by auto
    then show ?thesis using "2.prems" q dq e r \<open>\<not> d1\<close> by (auto simp: docs_held_def)
  qed
qed simp

lemma ws_drain_inv: "ws_drain w = (dead, w') \<Longrightarrow> ws_inv N M w \<Longrightarrow> ws_inv N M w'"
proof -
  assume d: "ws_drain w = (dead, w')" and inv: "ws_inv N M w"
  obtain subs w1 where s: "drain_subs (ws_subs w) w = (dead, subs, w1)" "w' = w1\<lparr>ws_subs := subs\<rparr>"
    using d by (auto simp: ws_drain_def split: prod.splits)
  have "ws_inv N M w1 \<and> map fst subs = map fst (ws_subs w) \<and> docs_held subs = docs_held (ws_subs w) \<and> ws_opened w1 = ws_opened w
      \<and> (\<forall>(key, b) \<in> set subs. entry_of (ws_opened w) key b)"
    using drain_subs_inv [OF s(1) _ inv] inv by (auto simp: ws_inv_def)
  then show ?thesis using inv s(2) by (auto simp: ws_inv_def dict_ok_def dkeys_def dest: map_eq_imp_length_eq)
qed

lemma ws_round_inv:
  assumes "ws_round wc unix now m we = (again, we')" "ws_inv N M (fst we)" "conf_ok N M wc (snd we)"
  shows "ws_inv N M (fst we')"
proof -
  obtain f w env where r: "ws_receive wc unix now m we = (f, w, env)" by (metis prod_cases3)
  have "ws_inv N M w" using ws_receive_inv [OF assms(2,3), of unix now m] r by simp
  then show ?thesis
    using assms(1) ws_drain_inv [of w] by (cases f) (auto simp: ws_round_def r split: prod.splits)
qed

section \<open>A concrete socket\<close>

definition demo_msg :: json where
  "demo_msg = JObj [(''collection'', JStr ''ev''), (''key'', JStr ''k''), (''type'', JStr ''subscribe'')]"

definition demo_wc :: "mem_db ws_conf" where
  "demo_wc = \<lparr>wc_config = \<lparr>cf_policy = policy_open, cf_dbs = [(''default'', mem_driver 1)], cf_read_only = False, cf_coalesce_on = False,
       cf_max_batch_ops = 1, cf_admin_uids = []\<rparr>,
     wc_edge = demo_edge\<lparr>ed_local_mode := Some DpopRequire\<rparr>, wc_caps = demo_caps, wc_max_msg = 9, wc_max_subs = 2,
     wc_from_str = (\<lambda>t. if t = ''sub'' then Some demo_msg else None), wc_decode_options = (\<lambda>_. None)\<rparr>"

definition demo_env :: "mem_db \<Rightarrow> mem_db ws_env" where
  "demo_env s = \<lparr>we_db = (\<lambda>_. s), we_cache = token_cache_new\<rparr>"

definition demo_spec :: sub_spec where
  "demo_spec = (demo_sub False)\<lparr>sp_db := ''default''\<rparr>"

definition demo_entry :: "snapshot \<Rightarrow> nat \<Rightarrow> out_event list \<Rightarrow> mem_db ws_sub" where
  "demo_entry snap n q = \<lparr>wb_db = mem_driver 1, wb_source = demo_sb False snap, wb_docs = n, wb_queue = q\<rparr>"

definition demo_ws :: "mem_db ws_sub \<Rightarrow> ws_out list \<Rightarrow> nat \<Rightarrow> mem_db ws" where
  "demo_ws b sent room = \<lparr>ws_auth = None, ws_subs = [(''k'', b)], ws_sent = sent, ws_room = room,
     ws_opened = [(''k'', policy_open, None, demo_spec)]\<rparr>"

lemma demo_open: "subscribe (mem_driver 1) policy_open None demo_spec demo_caps 0 mem_new = (Inr (demo_sb False []), mem_new)"
  by code_simp

lemma demo_fields: "text_field demo_msg ''key'' = ''k''" "text_field demo_msg ''collection'' = ''ev''"
  "message_db demo_msg = Some ''default''" "message_spec demo_wc demo_msg ''default'' = demo_spec"
  "Option.bind (jget demo_msg ''type'') as_str = Some ''subscribe''" "jget demo_msg ''token'' = None"
  by (code_simp, code_simp, code_simp, code_simp, code_simp, code_simp)

lemma demo_conf: "db_for (wc_config demo_wc) ''default'' = Inr (mem_driver 1)" "cf_policy (wc_config demo_wc) = policy_open"
  "wc_caps demo_wc = demo_caps" "wc_max_msg demo_wc = 9" "wc_max_subs demo_wc = 2" "wc_from_str demo_wc ''sub'' = Some demo_msg"
  "ed_local_mode (wc_edge demo_wc) = Some DpopRequire"
  by (simp_all add: demo_wc_def db_for_def)

lemma demo_subscribed: "ws_round demo_wc 0 0 (TextMsg ''sub'') (ws_start None 5, demo_env mem_new) =
    (True, demo_ws (demo_entry [] 0 []) [WsReady ''k''] 4, demo_env mem_new)"
  using demo_open
  by (simp add: ws_round_def ws_receive_def ws_message_def ws_subscribe_def ws_open_def message_auth_def answer_def ws_send_def
      ws_drain_def demo_ws_def demo_entry_def demo_env_def ws_start_def Let_def docs_held_def demo_sb_def demo_fields demo_conf fun_upd_idem
      demo_caps_def)

lemma demo_handled: "sub_step (mem_driver 1) 0 mem_new (LaneChange ''ev'' (demo_change ''a'' (JBool True))) (demo_sb False []) =
    ([\<lparr>ev_kind = Added, ev_doc = Some (demo_event ''a'' (JBool True))\<rparr>], (demo_sb False (demo_one ''ev'' ''a''))\<lparr>sb_gate := snd (gate_observe 0 1 (gate_new 0 9))\<rparr>)"
  using demo_ingest by (simp add: demo_sb_def demo_one_def demo_logical gate_observe_def gate_new_def Let_def)

lemma demo_drained: "ws_round demo_wc 0 0 Quiet (demo_ws (b\<lparr>wb_queue := [e]\<rparr>) sent (Suc n), env) =
    (True, demo_ws (b\<lparr>wb_queue := []\<rparr>) (sent @ [WsChange ''k'' e]) n, env)"
  by (simp add: ws_round_def ws_receive_def ws_drain_def demo_ws_def ws_send_def)

section \<open>Every moment of a socket\<close>


text \<open>It opens a subscription, the source handles a change, and the next round sends it.\<close>

definition demo_admits :: "mem_db ws_conf \<Rightarrow> mem_db ws_env \<Rightarrow> bool" where
  "demo_admits wc env \<longleftrightarrow> wc = demo_wc \<and> env = demo_env mem_new"

definition demo_shown :: out_event where
  "demo_shown = \<lparr>ev_kind = Added, ev_doc = Some (demo_event ''a'' (JBool True))\<rparr>"

lemma demo_reach: "\<exists>w. ws_reach demo_admits None (w, demo_env mem_new) \<and> ws_sent w = [WsReady ''k'', WsChange ''k'' demo_shown]"
proof -
  let ?C = "demo_admits" and ?e = "demo_env mem_new"
  have C: "?C demo_wc ?e" by (simp add: demo_admits_def)
  have s: "ws_reach ?C None (demo_ws (demo_entry [] 0 []) [WsReady ''k''] 4, ?e)"
    using ws_reach.round [OF ws_reach.start [of ?C None 5 ?e] _ demo_subscribed] C by simp
  let ?b = "demo_entry [] 0 []\<lparr>wb_source := (demo_sb False (demo_one ''ev'' ''a''))\<lparr>sb_gate := snd (gate_observe 0 1 (gate_new 0 9))\<rparr>\<rparr>"
  have b: "ws_reach ?C None (demo_ws (?b\<lparr>wb_queue := [demo_shown]\<rparr>) [WsReady ''k''] 4, ?e)"
    using ws_reach.source [OF s, where key = "''k''" and b = "demo_entry [] 0 []" and now = 0 and s = mem_new
        and l = "LaneChange ''ev'' (demo_change ''a'' (JBool True))"] demo_handled
    by (simp add: demo_ws_def demo_entry_def demo_shown_def) (simp add: demo_sb_def)
  have "ws_reach ?C None (demo_ws (?b\<lparr>wb_queue := []\<rparr>) ([WsReady ''k''] @ [WsChange ''k'' demo_shown]) 3, ?e)"
    using ws_reach.round [OF b _ demo_drained [where n = 3, simplified]] C by simp
  then show ?thesis by (force simp: demo_ws_def)
qed

lemma demo_names: "names_ok (wc_config demo_wc) (demo_env mem_new)"
  by (auto simp: names_ok_def demo_wc_def db_for_def demo_env_def mem_driver_def Let_def mem_list_collections_def mem_new_def dkeys_def split: if_splits)


subsection \<open>Whom a socket speaks for\<close>

text \<open>Identities that needed no proof, or that the handshake established.\<close>

definition ids_ok :: "auth_context option \<Rightarrow> 's ws \<Rightarrow> bool" where
  "ids_ok a0 w \<longleftrightarrow> (ws_auth w = a0 \<or> \<not> is_local_ctx (ws_auth w)) \<and> (\<forall>(key, p, a, sp) \<in> set (ws_opened w). a = a0 \<or> \<not> is_local_ctx a)"

definition proofs_required :: "'s ws_conf \<Rightarrow> bool" where
  "proofs_required wc \<longleftrightarrow> ed_local_mode (wc_edge wc) = Some DpopRequire"

lemma unproven_not_local: "ed_local_mode e = Some DpopRequire \<Longrightarrow> \<not> is_local_ctx (unproven e ctx)"
  by (cases "is_local_ctx ctx") (auto simp: unproven_def, simp add: is_local_ctx_def)

lemma answer_ids: "ids_ok a0 (fst we) \<Longrightarrow> ids_ok a0 (fst (snd (answer f m we)))"
  by (auto simp: answer_def ws_send_def ids_ok_def Let_def)

lemma message_auth_ids:
  assumes "ids_ok a0 (fst we)" "proofs_required wc" "message_auth (wc_edge wc) unix now v we = (a, env)"
  shows "a = a0 \<or> \<not> is_local_ctx a"
  using assms unproven_not_local
  by (auto simp: message_auth_def Let_def proofs_required_def ids_ok_def split: prod.splits if_splits option.splits)

lemma ws_open_ids:
  assumes "ids_ok a0 (fst we)" "proofs_required wc"
  shows "ids_ok a0 (fst (snd (ws_open wc unix now v key dbname we)))"
proof -
  obtain a env where m: "message_auth (wc_edge wc) unix now v we = (a, env)" by force
  have "ids_ok a0 ((fst we)\<lparr>ws_subs := x, ws_opened := (key, p, a, sp) # ws_opened (fst we)\<rparr>)" for x p sp
    using assms(1) message_auth_ids [OF assms m] by (auto simp: ids_ok_def)
  then show ?thesis using assms(1)
    by (auto simp: ws_open_def m Let_def intro!: answer_ids split: sum.splits prod.splits)
qed

lemma ws_receive_ids:
  assumes "ids_ok a0 (fst we)" "proofs_required wc"
  shows "ids_ok a0 (fst (snd (ws_receive wc unix now m we)))"
proof -
  have s: "ids_ok a0 (fst (snd (ws_subscribe wc unix now v we)))" for v
    using assms by (auto simp: ws_subscribe_def Let_def answer_ids ws_open_ids split: option.splits)
  have "ids_ok a0 ((fst we)\<lparr>ws_auth := unproven (wc_edge wc) x\<rparr>)" for x
    using assms unproven_not_local by (auto simp: ids_ok_def proofs_required_def)
  then have "ids_ok a0 (fst (snd (ws_message wc unix now v we)))" for v
    using assms s by (auto simp: ws_message_def Let_def answer_ids split: prod.splits option.splits) (auto simp: ids_ok_def)
  then show ?thesis
    using assms(1) by (auto simp: ws_receive_def answer_ids split: ws_in.splits option.splits)
qed

lemma ws_send_ids: "ws_send m w = (b, w') \<Longrightarrow> ws_auth w' = ws_auth w \<and> ws_opened w' = ws_opened w"
  by (auto simp: ws_send_def split: if_splits)

lemma drain_queue_ids: "drain_queue key q w = (dead, q', w') \<Longrightarrow> ws_auth w' = ws_auth w \<and> ws_opened w' = ws_opened w"
proof (induction key q w arbitrary: dead q' w' rule: drain_queue.induct)
  case (2 key e es w)
  obtain b w1 where s: "ws_send (WsChange key e) w = (b, w1)" by force
  show ?case using "2.prems" "2.IH" [OF s [symmetric], of dead q' w'] ws_send_ids [OF s] s by (cases b) auto
qed simp

lemma drain_subs_ids: "drain_subs subs w = (dead, subs', w') \<Longrightarrow> ws_auth w' = ws_auth w \<and> ws_opened w' = ws_opened w"
proof (induction subs w arbitrary: dead subs' w' rule: drain_subs.induct)
  case (2 key b rest w)
  obtain d1 q w1 where q: "drain_queue key (wb_queue b) w = (d1, q, w1)" by (metis prod_cases3)
  obtain d2 rest' w2 where r: "drain_subs rest w1 = (d2, rest', w2)" by (metis prod_cases3)
  show ?case using "2.prems" "2.IH" [OF q [symmetric] _ _ r] drain_queue_ids [OF q] q r by (auto split: if_splits)
qed simp

text \<open>
  C6. Where proofs of possession are required, a socket speaks for a local session only if its
  handshake did, with the proof that took: no token sent in a message, neither to authenticate the
  socket nor for one subscription, ever opens a subscription as a user of the local accounts.
\<close>

theorem socket_identity_is_proven:
  assumes "ws_reach C a0 (w, env)" "\<And>wc env. C wc env \<Longrightarrow> proofs_required wc"
  shows "(ws_auth w = a0 \<or> \<not> is_local_ctx (ws_auth w))
    \<and> (\<forall>(key, p, a, sp) \<in> set (ws_opened w). a = a0 \<or> \<not> is_local_ctx a)"
proof -
  have "ids_ok a0 (fst we)" if "ws_reach C a0 we" for we
    using that
  proof (induction rule: ws_reach.induct)
    case (start room env)
    show ?case by (simp add: ws_start_def ids_ok_def)
  next
    case (round we wc unix now m again we')
    obtain f w env where r: "ws_receive wc unix now m we = (f, w, env)" by (metis prod_cases3)
    have "ids_ok a0 w" using ws_receive_ids [OF round(4) assms(2) [OF round(2)], of unix now m] r by simp
    moreover have "ids_ok a0 (snd (ws_drain w))" if "ids_ok a0 w"
    proof -
      obtain dead subs w1 where "drain_subs (ws_subs w) w = (dead, subs, w1)" by (metis prod_cases3)
      then show ?thesis using that drain_subs_ids [of "ws_subs w" w dead subs w1] by (simp add: ws_drain_def ids_ok_def)
    qed
    ultimately show ?case
      using round(3) by (cases f) (auto simp: ws_round_def r split: prod.splits)
  next
    case (source w env key b l now s evs sb)
    then show ?case by (simp add: ids_ok_def)
  next
    case (server w env env')
    then show ?case by simp
  qed
  from this [OF assms(1)] show ?thesis by (simp add: ids_ok_def)
qed

lemma socket_identity_is_proven_witness:
  "\<exists>w. ws_sent w \<noteq> [] \<and> ws_reach demo_admits None (w, demo_env mem_new) \<and> \<not> is_local_ctx (ws_auth w)"
proof -
  obtain w where w: "ws_reach demo_admits None (w, demo_env mem_new)" "ws_sent w \<noteq> []" using demo_reach by force
  have "ws_auth w = None \<or> \<not> is_local_ctx (ws_auth w)"
    using socket_identity_is_proven [OF w(1)] by (simp add: demo_admits_def proofs_required_def demo_conf)
  then show ?thesis using w by (auto simp: is_local_ctx_def)
qed

section \<open>What the loop does not do\<close>

text \<open>
  A round whose message is refused, or is no text, sends nothing of what is queued: a client that
  keeps sending frames that are no text gets no change, and the channels, which have no bound, grow.
\<close>

fun ws_rounds :: "'s ws_conf \<Rightarrow> nat \<Rightarrow> instant \<Rightarrow> ws_in list \<Rightarrow> 's ws \<times> 's ws_env \<Rightarrow> 's ws \<times> 's ws_env" where
  "ws_rounds wc unix now [] we = we"
| "ws_rounds wc unix now (m # ms) we = (case ws_round wc unix now m we of (True, we') \<Rightarrow> ws_rounds wc unix now ms we' | (False, we') \<Rightarrow> we')"

lemma other_messages_starve: "ws_rounds wc unix now (replicate n OtherMsg) we = we"
  by (induction n) (simp_all add: ws_round_def ws_receive_def)

text \<open>
  A subscription that replaces one of the same key is refused for the documents of the one it
  replaces: with three of five documents held for a key, asking again for the same three is an error.
\<close>

definition demo_three :: mem_db where
  "demo_three = \<lparr>store = [(''ev'', map (\<lambda>i. (i, demo_event i (JBool True))) [''a'', ''b'', ''c''])], indexes = []\<rparr>"

lemma demo_three_opens: "(case subscribe (mem_driver 1) policy_open None demo_spec demo_caps 0 demo_three of
    (Inr sb, s) \<Rightarrow> length (sb_snapshot sb) = 3 \<and> s = demo_three | (Inl e, s) \<Rightarrow> False)"
  by code_simp

lemma replacing_counts_twice:
  "docs_held (ddel ''k'' (ws_subs (demo_ws (demo_entry [] 3 []) [] 1))) + 3 \<le> max_conn_docs (wc_caps demo_wc)
   \<and> ws_round demo_wc 0 0 (TextMsg ''sub'') (demo_ws (demo_entry [] 3 []) [] 1, demo_env demo_three) =
      (True, demo_ws (demo_entry [] 3 []) [WsError (Some ''k'') ''connection snapshot budget exceeded''] 0, demo_env demo_three)"
  using demo_three_opens
  by (auto simp: ws_round_def ws_receive_def ws_message_def ws_subscribe_def ws_open_def message_auth_def answer_def ws_send_def
      demo_ws_def demo_entry_def demo_env_def Let_def docs_held_def demo_fields demo_conf fun_upd_idem demo_caps_def ddel_def dhas_def
      split: prod.splits sum.splits)

end
