(* ===== verification/Config.thy ===== *)
theory Config
  imports Edge Alias
begin

text \<open>
  The configuration (crates/hakobackend-server/src/config.rs): flags, file and environment, the
  merge of the three, the dry validation, and the views of a configuration that the admin routes
  serve. The process environment, the files and the TOML decoder are a parameter, and so are the
  loaders of policy and provider files. A panic is a value. Numbers are the naturals the field
  types hold; none of them is computed with here.
\<close>

section \<open>Declarations\<close>

definition KNOWN_DRIVERS :: "string list" where
  "KNOWN_DRIVERS = [''hako'', ''hakocluster'', ''postgres'', ''sqlite'', ''mysql'', ''rethinkdb'']"

record alias_decl =
  ad_pattern :: string
  ad_target_path :: string
  ad_target_query :: string

text \<open>The bridge of a cluster: \<open>Mesh\<close> with name, room key and port; \<open>Cloud\<close> with mode, client id, token, room, room key, url and address.\<close>

datatype cluster_tailer = Mesh string string nat | Cloud string string string string string string string

record mesh_file =
  mf_name :: string
  mf_room_key :: string
  mf_port :: nat

record cloud_file =
  ct_mode :: string
  ct_client_id :: string
  ct_auth_token :: string
  ct_room_name :: string
  ct_room_key :: string
  ct_server_url :: string
  ct_bind_addr :: string

record cluster_file =
  tailer_mesh :: "mesh_file option"
  tailer_cloud :: "cloud_file option"

record service_section =
  ss_keys :: "string list"
  ss_allow :: "string list"

definition is_hexdigit :: "char \<Rightarrow> bool" where
  "is_hexdigit c \<longleftrightarrow> is_digit c \<or> 97 \<le> ch c \<and> ch c \<le> 102 \<or> 65 \<le> ch c \<and> ch c \<le> 70"

definition valid_svc_key :: "string \<Rightarrow> bool" where
  "valid_svc_key k \<longleftrightarrow> 32 \<le> length k \<and> list_all is_hexdigit k"

definition parse_svc_scope :: "string \<Rightarrow> bool" where
  "parse_svc_scope s = (case split_once (CHR '':'') s of
     Some (c, m) \<Rightarrow> (m = ''read'' \<or> m = ''write'') \<and> c \<noteq> []
   | None \<Rightarrow> False)"

record index_decl =
  id_collection :: string
  id_fields :: "string list"
  id_name :: "string option"
  id_unique :: bool
  id_kind :: string

text \<open>\<open>IndexDecl::validate\<close>.\<close>

definition index_decl_validate :: "index_decl \<Rightarrow> (string, index_spec) result" where
  "index_decl_validate d =
     (if id_collection d = [] then Inl ''[[indexes]] requires collection''
      else if id_fields d = [] then Inl (''[[indexes]] '' @ id_collection d @ '' requires >= 1 field'')
      else case (if id_kind d = ''simple'' then Some Simple
                 else if id_kind d = ''composite'' then Some Composite
                 else if id_kind d = ''fts'' \<or> id_kind d = ''fulltext'' then Some FullText
                 else None) of
        None \<Rightarrow> Inl (''[[indexes]] kind `'' @ id_kind d @ ''` unknown (simple|composite|fts)'')
      | Some k \<Rightarrow> Inr \<lparr>ix_name = id_name d, ix_fields = id_fields d, ix_unique = id_unique d, ix_kind = k\<rparr>)"

record legacy_server =
  ls_listen :: "string option"
  ls_host :: "string option"
  ls_port :: "nat option"

record legacy_db =
  ld_driver :: "string option"
  ld_path :: "string option"
  ld_data :: "string option"
  ld_rules :: "string option"
  ld_policy_file :: "string option"

section \<open>Flags, file, result\<close>

record args =
  ag_config :: "string option"
  ag_driver :: "string option"
  ag_data :: "string option"
  ag_rules :: "string option"
  ag_auth :: "string option"
  ag_host :: "string option"
  ag_port :: "nat option"
  ag_sock :: "string option"
  ag_allowed_hosts :: "string list"
  ag_cors_allowed_origins :: "string list"
  ag_body_limit_mb :: "nat option"
  ag_sync_serve :: "string option"
  ag_sync_peer :: "string list"
  ag_admin_uids :: "string list"
  ag_public_url :: "string option"
  ag_limit_global :: "nat option"
  ag_limit_global_burst :: "nat option"
  ag_limit_auth :: "nat option"
  ag_limit_auth_burst :: "nat option"
  ag_trust_proxy :: bool
  ag_tls_cert :: "string option"
  ag_tls_key :: "string option"
  ag_http2 :: bool
  ag_validate :: bool
  ag_print_default_config :: bool
  ag_coalesce_writes :: bool
  ag_no_local_register :: bool
  ag_read_only :: bool
  ag_compress :: bool
  ag_wstats :: bool
  ag_benchmark :: bool

record file_config =
  fc_host :: "string option"
  fc_port :: "nat option"
  fc_driver :: "string option"
  fc_data :: "string option"
  fc_rules :: "string option"
  fc_auth :: "string option"
  fc_sock :: "string option"
  fc_plain_loopback :: bool
  fc_allowed_hosts :: "string list"
  fc_cors_allowed_origins :: "string list"
  fc_cookie_secure :: "bool option"
  fc_cookie_samesite :: "string option"
  fc_cookie_path :: "string option"
  fc_cookie_domain :: "string option"
  fc_body_limit_mb :: "nat option"
  fc_hsts_max_age_secs :: "nat option"
  fc_compress_min_bytes :: "nat option"
  fc_ws_max_msg_kb :: "nat option"
  fc_ws_max_subs :: "nat option"
  fc_csrf_origin_check :: "bool option"
  fc_local_register :: "bool option"
  fc_local_password_min_length :: "nat option"
  fc_local_access_ttl_secs :: "nat option"
  fc_local_refresh_ttl_secs :: "nat option"
  fc_local_argon2_m_kb :: "nat option"
  fc_local_argon2_t_cost :: "nat option"
  fc_local_argon2_p_cost :: "nat option"
  fc_login_max_attempts :: "nat option"
  fc_login_lockout_secs :: "nat option"
  fc_read_only :: bool
  fc_ttl_sweep_secs :: "nat option"
  fc_max_batch_ops :: "nat option"
  fc_file_dir :: "string option"
  fc_file_max_mb :: "nat option"
  fc_file_max_batch :: "nat option"
  fc_file_mime_allow :: "string list option"
  fc_file_sign_secret :: "string option"
  fc_alias_file :: "string option"
  fc_index_file :: "string option"
  fc_databases :: "(string, string) dict"
  fc_realtime_snapshot_docs :: "nat option"
  fc_realtime_events_per_sec :: "nat option"
  fc_realtime_poll_secs :: "nat option"
  fc_realtime_max_conn_docs :: "nat option"
  fc_audit_level :: "string option"
  fc_local_token_response :: "bool option"
  fc_local_cookies :: "bool option"
  fc_aliases :: "alias_decl list"
  fc_cluster :: cluster_file
  fc_sync_serve :: "string option"
  fc_sync_peer :: "string list"
  fc_admin_uids :: "string list"
  fc_public_url :: "string option"
  fc_limit_global :: "nat option"
  fc_limit_global_burst :: "nat option"
  fc_limit_auth :: "nat option"
  fc_limit_auth_burst :: "nat option"
  fc_trust_proxy :: "bool option"
  fc_tls_cert :: "string option"
  fc_tls_key :: "string option"
  fc_http2 :: bool
  fc_coalesce_writes :: bool
  fc_compress :: bool
  fc_wstats :: bool
  fc_benchmark :: bool
  fc_indexes :: "index_decl list"
  fc_service :: service_section
  fc_server :: legacy_server
  fc_database :: legacy_db
  fc_policy_file :: "string option"

record ub_config =
  uc_host :: string
  uc_port :: nat
  uc_driver :: string
  uc_data :: string
  uc_rules :: "string option"
  uc_auth :: "string option"
  uc_admin_uids :: "string list"
  uc_sock :: "string option"
  uc_plain_loopback :: bool
  uc_allowed_hosts :: "string list"
  uc_cors_allowed_origins :: "string list"
  uc_cookie_secure :: bool
  uc_cookie_samesite :: string
  uc_cookie_path :: string
  uc_cookie_domain :: "string option"
  uc_body_limit_mb :: nat
  uc_hsts_max_age_secs :: nat
  uc_compress_min_bytes :: nat
  uc_ws_max_msg_kb :: nat
  uc_ws_max_subs :: nat
  uc_csrf_origin_check :: bool
  uc_local_register :: bool
  uc_local_password_min_length :: nat
  uc_local_access_ttl_secs :: nat
  uc_local_refresh_ttl_secs :: nat
  uc_local_argon2_m_kb :: nat
  uc_local_argon2_t_cost :: nat
  uc_local_argon2_p_cost :: nat
  uc_login_max_attempts :: nat
  uc_login_lockout_secs :: nat
  uc_read_only :: bool
  uc_ttl_sweep_secs :: nat
  uc_max_batch_ops :: nat
  uc_file_dir :: "string option"
  uc_file_max_mb :: nat
  uc_file_max_batch :: nat
  uc_file_mime_allow :: "string list"
  uc_file_sign_secret :: string
  uc_databases :: "(string, string) dict"
  uc_realtime_snapshot_docs :: nat
  uc_realtime_events_per_sec :: nat
  uc_realtime_poll_secs :: nat
  uc_realtime_max_conn_docs :: nat
  uc_audit_level :: string
  uc_local_token_response :: bool
  uc_local_cookies :: bool
  uc_aliases :: "path_alias list"
  uc_sync_serve :: "string option"
  uc_sync_peer :: "string list"
  uc_cluster_tailer :: "cluster_tailer option"
  uc_public_url :: "string option"
  uc_limit_global :: "nat \<times> nat"
  uc_limit_auth :: "nat \<times> nat"
  uc_trust_proxy :: bool
  uc_coalesce_writes :: bool
  uc_compress :: bool
  uc_wstats :: bool
  uc_benchmark :: bool
  uc_tls_cert :: "string option"
  uc_tls_key :: "string option"
  uc_http2 :: bool
  uc_indexes :: "index_decl list"
  uc_service_keys :: "string list"
  uc_service_allow :: "string list"
  uc_source :: string

text \<open>
  \<open>FileConfig::default()\<close>, which is derived: the value of a configuration without a file. The
  default of the decoder for \<open>plain_loopback\<close>, true, is another one.
\<close>

definition default_plain_loopback :: bool where "default_plain_loopback = True"

definition file_default :: file_config where
  "file_default = \<lparr>fc_host = None, fc_port = None, fc_driver = None, fc_data = None, fc_rules = None, fc_auth = None, fc_sock = None,
     fc_plain_loopback = False, fc_allowed_hosts = [], fc_cors_allowed_origins = [], fc_cookie_secure = None,
     fc_cookie_samesite = None, fc_cookie_path = None, fc_cookie_domain = None, fc_body_limit_mb = None,
     fc_hsts_max_age_secs = None, fc_compress_min_bytes = None, fc_ws_max_msg_kb = None, fc_ws_max_subs = None,
     fc_csrf_origin_check = None, fc_local_register = None, fc_local_password_min_length = None,
     fc_local_access_ttl_secs = None, fc_local_refresh_ttl_secs = None, fc_local_argon2_m_kb = None,
     fc_local_argon2_t_cost = None, fc_local_argon2_p_cost = None, fc_login_max_attempts = None,
     fc_login_lockout_secs = None, fc_read_only = False, fc_ttl_sweep_secs = None, fc_max_batch_ops = None,
     fc_file_dir = None, fc_file_max_mb = None, fc_file_max_batch = None, fc_file_mime_allow = None,
     fc_file_sign_secret = None, fc_alias_file = None, fc_index_file = None, fc_databases = [],
     fc_realtime_snapshot_docs = None, fc_realtime_events_per_sec = None, fc_realtime_poll_secs = None,
     fc_realtime_max_conn_docs = None, fc_audit_level = None, fc_local_token_response = None, fc_local_cookies = None,
     fc_aliases = [], fc_cluster = \<lparr>tailer_mesh = None, tailer_cloud = None\<rparr>, fc_sync_serve = None,
     fc_sync_peer = [], fc_admin_uids = [], fc_public_url = None, fc_limit_global = None, fc_limit_global_burst = None,
     fc_limit_auth = None, fc_limit_auth_burst = None, fc_trust_proxy = None, fc_tls_cert = None, fc_tls_key = None,
     fc_http2 = False, fc_coalesce_writes = False, fc_compress = False, fc_wstats = False, fc_benchmark = False,
     fc_indexes = [], fc_service = \<lparr>ss_keys = [], ss_allow = []\<rparr>,
     fc_server = \<lparr>ls_listen = None, ls_host = None, ls_port = None\<rparr>,
     fc_database = \<lparr>ld_driver = None, ld_path = None, ld_data = None, ld_rules = None, ld_policy_file = None\<rparr>,
     fc_policy_file = None\<rparr>"

section \<open>Reading\<close>

text \<open>
  What \<open>resolve\<close> and \<open>validate\<close> find outside: environment variables, files (with the text of the
  error, whether they are there, and when they were modified), and the decoders of TOML texts and of the policy and provider files.
\<close>

record os =
  os_env :: "string \<Rightarrow> string option"
  os_read :: "string \<Rightarrow> (string, string) result"
  os_stat :: "string \<Rightarrow> bool"
  os_mtime :: "string \<Rightarrow> nat option"
  os_toml :: "string \<Rightarrow> (string, file_config) result"
  os_toml_aliases :: "string \<Rightarrow> (string, alias_decl list) result"
  os_toml_indexes :: "string \<Rightarrow> (string, index_decl list) result"
  os_policy :: "string \<Rightarrow> (string, policy_file) result"
  os_custom :: "string \<Rightarrow> (string, (string list \<times> claim_mapping) \<times> string option) result"

datatype config_panic = Panic string | AliasPanic alias_error

definition load_alias_fragment :: "os \<Rightarrow> string \<Rightarrow> (config_panic, alias_decl list) result" where
  "load_alias_fragment h path = (case os_read h path of
     Inr raw \<Rightarrow> (case os_toml_aliases h raw of
        Inr f \<Rightarrow> Inr f | Inl e \<Rightarrow> Inl (Panic (''[ub] failed to parse alias_file '' @ path @ '': '' @ e)))
   | Inl e \<Rightarrow> Inl (Panic (''[ub] could not read alias_file '' @ path @ '': '' @ e)))"

definition load_index_fragment :: "os \<Rightarrow> string \<Rightarrow> (config_panic, index_decl list) result" where
  "load_index_fragment h path = (case os_read h path of
     Inr raw \<Rightarrow> (case os_toml_indexes h raw of
        Inr f \<Rightarrow> Inr f | Inl e \<Rightarrow> Inl (Panic (''[ub] failed to parse index_file '' @ path @ '': '' @ e)))
   | Inl e \<Rightarrow> Inl (Panic (''[ub] could not read index_file '' @ path @ '': '' @ e)))"

definition env_config :: "os \<Rightarrow> string option" where
  "env_config h = (case os_env h ''UB_CONFIG'' of Some p \<Rightarrow> if p = [] then None else Some p | None \<Rightarrow> None)"

definition config_path :: "os \<Rightarrow> args \<Rightarrow> string option" where
  "config_path h a = (case ag_config a of
     Some p \<Rightarrow> Some p
   | None \<Rightarrow> (case env_config h of
       Some p \<Rightarrow> Some p
     | None \<Rightarrow> List.find (os_stat h) [''./hakobackend.toml'', ''./ub.toml'']))"

definition load_file :: "os \<Rightarrow> string \<Rightarrow> bool \<Rightarrow> (config_panic, file_config) result" where
  "load_file h path explicit = (case os_read h path of
     Inr raw \<Rightarrow> (case os_toml h raw of
        Inr cfg \<Rightarrow> Inr cfg
      | Inl e \<Rightarrow> if explicit then Inl (Panic (''[ub] failed to parse '' @ path @ '': '' @ e)) else Inr file_default)
   | Inl _ \<Rightarrow> if explicit then Inl (Panic (''[ub] could not read config '' @ path)) else Inr file_default)"

text \<open>The file with its fragments appended after the inline tables.\<close>

definition load_config :: "os \<Rightarrow> args \<Rightarrow> (config_panic, file_config) result" where
  "load_config h a =
     (let explicit = (ag_config a \<noteq> None \<or> env_config h \<noteq> None) in
      case (case config_path h a of Some p \<Rightarrow> load_file h p explicit | None \<Rightarrow> Inr file_default) of
        Inl x \<Rightarrow> Inl x
      | Inr f \<Rightarrow> (case (case fc_alias_file f of None \<Rightarrow> Inr [] | Some p \<Rightarrow> load_alias_fragment h p) of
          Inl x \<Rightarrow> Inl x
        | Inr as \<Rightarrow> (case (case fc_index_file f of None \<Rightarrow> Inr [] | Some p \<Rightarrow> load_index_fragment h p) of
            Inl x \<Rightarrow> Inl x
          | Inr is \<Rightarrow> Inr (f\<lparr>fc_aliases := fc_aliases f @ as, fc_indexes := fc_indexes f @ is\<rparr>))))"

section \<open>Merging\<close>

text \<open>\<open>a.or(b)\<close>.\<close>

definition opt_or :: "'a option \<Rightarrow> 'a option \<Rightarrow> 'a option" where
  "opt_or x y = (case x of Some v \<Rightarrow> Some v | None \<Rightarrow> y)"

text \<open>The legacy \<open>listen\<close>: host and port, with the defaults where it has no colon.\<close>

definition listen_of :: "string option \<Rightarrow> (config_panic, string \<times> nat) result" where
  "listen_of listen = (case Option.bind listen (rsplit_once (CHR '':'')) of
     None \<Rightarrow> Inr (''0.0.0.0'', 3000)
   | Some (host, p) \<Rightarrow> (case parse_uint 16 p of
       Some n \<Rightarrow> Inr (host, n)
     | None \<Rightarrow> Inl (Panic (''[ub] listen `'' @ unwrap_or [] listen @ ''` has an invalid port''))))"

definition aliases_of :: "alias_decl list \<Rightarrow> (config_panic, path_alias list) result" where
  "aliases_of ds = map_err AliasPanic (compile_all (map (\<lambda>d. (ad_pattern d, ad_target_path d, ad_target_query d)) ds))"

definition tailer_of :: "cluster_file \<Rightarrow> (config_panic, cluster_tailer option) result" where
  "tailer_of c = (case (tailer_mesh c, tailer_cloud c) of
     (None, None) \<Rightarrow> Inr None
   | (Some m, None) \<Rightarrow> Inr (Some (Mesh (mf_name m) (mf_room_key m) (mf_port m)))
   | (None, Some k) \<Rightarrow> Inr (Some (Cloud (ct_mode k) (ct_client_id k) (ct_auth_token k) (ct_room_name k) (ct_room_key k) (ct_server_url k) (ct_bind_addr k)))
   | (Some _, Some _) \<Rightarrow> Inl (Panic ''[ub] [cluster] tailer_mesh + tailer_cloud are exclusive''))"

definition service_keys_of :: "os \<Rightarrow> string list \<Rightarrow> (config_panic, string list) result" where
  "service_keys_of h ks =
     (let all_ks = ks @ (case os_env h ''UB_SVC_KEYS'' of
            Some e \<Rightarrow> filter (\<lambda>k. k \<noteq> []) (map trim (split_on (CHR '','') e)) | None \<Rightarrow> [])
      in if list_all valid_svc_key all_ks then Inr all_ks
         else Inl (Panic ''[ub] [service] key rejected (need hex, >= 32 chars)''))"

definition service_allow_of :: "string list \<Rightarrow> (config_panic, string list) result" where
  "service_allow_of ss = (case List.find (\<lambda>s. \<not> parse_svc_scope s) ss of
     None \<Rightarrow> Inr ss
   | Some s \<Rightarrow> Inl (Panic (''[ub] [service] allow slot `'' @ s @ ''` malformed (want `collection:read|write`)'')))"

definition file_secret_of :: "os \<Rightarrow> string option \<Rightarrow> string" where
  "file_secret_of h s = (case os_env h ''UB_FILE_SIGN_SECRET'' of
     Some v \<Rightarrow> if trim v \<noteq> [] then v else unwrap_or [] s
   | None \<Rightarrow> unwrap_or [] s)"

definition MIME_DEFAULT :: "string list" where
  "MIME_DEFAULT = [''image/png'', ''image/jpeg'', ''image/gif'', ''image/webp'', ''application/pdf'']"

text \<open>The configuration, once nothing can panic any more: listen address, aliases, tailer, service keys and scopes.\<close>

definition merge_config :: "os \<Rightarrow> args \<Rightarrow> file_config \<Rightarrow> string \<times> nat \<Rightarrow> path_alias list \<Rightarrow> cluster_tailer option \<Rightarrow>
    string list \<Rightarrow> string list \<Rightarrow> ub_config" where
  "merge_config h a f listen as tailer keys allow =
     (let (host, port) = listen; body = unwrap_or 8 (opt_or (ag_body_limit_mb a) (fc_body_limit_mb f)) in
      \<lparr>uc_host = unwrap_or host (opt_or (opt_or (ag_host a) (fc_host f)) (ls_host (fc_server f))),
       uc_port = unwrap_or port (opt_or (opt_or (ag_port a) (fc_port f)) (ls_port (fc_server f))),
       uc_driver = unwrap_or ''hako'' (opt_or (opt_or (ag_driver a) (fc_driver f)) (ld_driver (fc_database f))),
       uc_data = unwrap_or ''./data/hako.ub'' (opt_or (opt_or (opt_or (ag_data a) (fc_data f)) (ld_data (fc_database f))) (ld_path (fc_database f))),
       uc_rules = opt_or (opt_or (opt_or (opt_or (ag_rules a) (fc_rules f)) (fc_policy_file f)) (ld_rules (fc_database f))) (ld_policy_file (fc_database f)),
       uc_auth = opt_or (ag_auth a) (fc_auth f),
       uc_admin_uids = fc_admin_uids f @ ag_admin_uids a,
       uc_sock = opt_or (ag_sock a) (fc_sock f),
       uc_plain_loopback = fc_plain_loopback f,
       uc_allowed_hosts = fc_allowed_hosts f @ ag_allowed_hosts a,
       uc_cors_allowed_origins = fc_cors_allowed_origins f @ ag_cors_allowed_origins a,
       uc_cookie_secure = unwrap_or True (fc_cookie_secure f),
       uc_cookie_samesite = unwrap_or ''Strict'' (fc_cookie_samesite f),
       uc_cookie_path = unwrap_or ''/'' (fc_cookie_path f),
       uc_cookie_domain = fc_cookie_domain f,
       uc_body_limit_mb = body,
       uc_hsts_max_age_secs = unwrap_or 31536000 (fc_hsts_max_age_secs f),
       uc_compress_min_bytes = unwrap_or 1024 (fc_compress_min_bytes f),
       uc_ws_max_msg_kb = unwrap_or 1024 (fc_ws_max_msg_kb f),
       uc_ws_max_subs = unwrap_or 100 (fc_ws_max_subs f),
       uc_csrf_origin_check = unwrap_or True (fc_csrf_origin_check f),
       uc_local_register = \<not> ag_no_local_register a \<and> unwrap_or True (fc_local_register f),
       uc_local_password_min_length = unwrap_or 8 (fc_local_password_min_length f),
       uc_local_access_ttl_secs = unwrap_or 600 (fc_local_access_ttl_secs f),
       uc_local_refresh_ttl_secs = unwrap_or (30 * 86400) (fc_local_refresh_ttl_secs f),
       uc_local_argon2_m_kb = unwrap_or 19456 (fc_local_argon2_m_kb f),
       uc_local_argon2_t_cost = unwrap_or 2 (fc_local_argon2_t_cost f),
       uc_local_argon2_p_cost = unwrap_or 1 (fc_local_argon2_p_cost f),
       uc_login_max_attempts = unwrap_or 0 (fc_login_max_attempts f),
       uc_login_lockout_secs = unwrap_or 300 (fc_login_lockout_secs f),
       uc_read_only = ag_read_only a \<or> fc_read_only f,
       uc_ttl_sweep_secs = unwrap_or 300 (fc_ttl_sweep_secs f),
       uc_max_batch_ops = unwrap_or 1000 (fc_max_batch_ops f),
       uc_file_dir = fc_file_dir f,
       uc_file_max_mb = unwrap_or body (fc_file_max_mb f),
       uc_file_max_batch = unwrap_or 1 (fc_file_max_batch f),
       uc_file_mime_allow = unwrap_or MIME_DEFAULT (fc_file_mime_allow f),
       uc_file_sign_secret = file_secret_of h (fc_file_sign_secret f),
       uc_databases = fc_databases f,
       uc_realtime_snapshot_docs = unwrap_or 5000 (fc_realtime_snapshot_docs f),
       uc_realtime_events_per_sec = unwrap_or 200 (fc_realtime_events_per_sec f),
       uc_realtime_poll_secs = unwrap_or 2 (fc_realtime_poll_secs f),
       uc_realtime_max_conn_docs = unwrap_or 20000 (fc_realtime_max_conn_docs f),
       uc_audit_level = unwrap_or ''all'' (fc_audit_level f),
       uc_local_token_response = unwrap_or False (fc_local_token_response f),
       uc_local_cookies = unwrap_or True (fc_local_cookies f),
       uc_aliases = as,
       uc_sync_serve = opt_or (ag_sync_serve a) (fc_sync_serve f),
       uc_sync_peer = fc_sync_peer f @ ag_sync_peer a,
       uc_cluster_tailer = tailer,
       uc_public_url = opt_or (ag_public_url a) (fc_public_url f),
       uc_limit_global = (unwrap_or 600 (opt_or (ag_limit_global a) (fc_limit_global f)), unwrap_or 100 (opt_or (ag_limit_global_burst a) (fc_limit_global_burst f))),
       uc_limit_auth = (unwrap_or 20 (opt_or (ag_limit_auth a) (fc_limit_auth f)), unwrap_or 5 (opt_or (ag_limit_auth_burst a) (fc_limit_auth_burst f))),
       uc_trust_proxy = ag_trust_proxy a \<or> unwrap_or False (fc_trust_proxy f),
       uc_coalesce_writes = ag_coalesce_writes a \<or> fc_coalesce_writes f,
       uc_compress = ag_compress a \<or> fc_compress f,
       uc_wstats = ag_wstats a \<or> fc_wstats f,
       uc_benchmark = ag_benchmark a \<or> fc_benchmark f,
       uc_tls_cert = opt_or (ag_tls_cert a) (fc_tls_cert f),
       uc_tls_key = opt_or (ag_tls_key a) (fc_tls_key f),
       uc_http2 = ag_http2 a \<or> fc_http2 f,
       uc_indexes = fc_indexes f,
       uc_service_keys = keys,
       uc_service_allow = allow,
       uc_source = unwrap_or [] (config_path h a)\<rparr>)"

definition resolve_config :: "os \<Rightarrow> args \<Rightarrow> (config_panic, ub_config) result" where
  "resolve_config h a = (case load_config h a of
     Inl x \<Rightarrow> Inl x
   | Inr f \<Rightarrow> (case listen_of (ls_listen (fc_server f)) of
       Inl x \<Rightarrow> Inl x
     | Inr listen \<Rightarrow> (case aliases_of (fc_aliases f) of
         Inl x \<Rightarrow> Inl x
       | Inr as \<Rightarrow> (case tailer_of (fc_cluster f) of
           Inl x \<Rightarrow> Inl x
         | Inr tailer \<Rightarrow> (case service_keys_of h (ss_keys (fc_service f)) of
             Inl x \<Rightarrow> Inl x
           | Inr keys \<Rightarrow> (case service_allow_of (ss_allow (fc_service f)) of
               Inl x \<Rightarrow> Inl x
             | Inr allow \<Rightarrow> Inr (merge_config h a f listen as tailer keys allow)))))))"

section \<open>Dry validation\<close>

definition tls_pair :: "ub_config \<Rightarrow> (string, (string \<times> string) option) result" where
  "tls_pair c = (case (uc_tls_cert c, uc_tls_key c) of
     (Some cert, Some key) \<Rightarrow> Inr (Some (cert, key))
   | (None, None) \<Rightarrow> Inr None
   | _ \<Rightarrow> Inl ''tls requires both tls_cert + tls_key (or leave both empty)'')"

definition validate_local_modes :: "ub_config \<Rightarrow> (string, unit) result" where
  "validate_local_modes c =
     (if \<not> uc_local_cookies c \<and> \<not> uc_local_token_response c then
        Inl ''local_cookies=false needs local_token_response=true (else logins are useless)''
      else if \<not> uc_local_cookies c \<and> (case uc_auth c of Some a \<Rightarrow> contains_str ''github'' a | None \<Rightarrow> False) then
        Inl ''local_cookies=false breaks the github OAuth callback (redirect carries no body)''
      else Inr ())"

fun validate_tailer :: "cluster_tailer \<Rightarrow> (string, unit) result" where
  "validate_tailer (Mesh name room_key _) =
     (if name = [] \<or> room_key = [] then Inl ''[cluster.tailer_mesh] needs name + room_key'' else Inr ())"
| "validate_tailer (Cloud mode client_id auth_token room_name room_key server_url bind_addr) =
     (if client_id = [] \<or> auth_token = [] then Inl ''[cluster.tailer_cloud] needs client_id + auth_token''
      else if mode = ''client'' then
        (if room_name = [] \<or> room_key = [] \<or> server_url = [] then
           Inl ''[cluster.tailer_cloud] client mode needs room_name + room_key + server_url'' else Inr ())
      else if mode = ''server'' then
        (if room_name = [] \<or> room_key = [] \<or> bind_addr = [] then
           Inl ''[cluster.tailer_cloud] server mode needs room_name + room_key + bind_addr'' else Inr ())
      else Inl ''[cluster.tailer_cloud] mode must be \"client\" or \"server\"'')"

text \<open>What \<open>validate\<close> requires, check by check, in its order; each is the message of a refusal.\<close>

definition check_driver :: "ub_config \<Rightarrow> (string, unit) result" where
  "check_driver c = (if uc_driver c \<in> set KNOWN_DRIVERS then Inr ()
     else Inl (''driver `'' @ uc_driver c @ ''` unknown (choices: '' @ join '', '' KNOWN_DRIVERS @ '')''))"

definition check_rules :: "os \<Rightarrow> ub_config \<Rightarrow> (string, unit) result" where
  "check_rules h c = (case uc_rules c of None \<Rightarrow> Inr ()
     | Some r \<Rightarrow> (case os_policy h r of Inl e \<Rightarrow> Inl e | Inr _ \<Rightarrow> Inr ()))"

definition check_auth :: "os \<Rightarrow> ub_config \<Rightarrow> (string, unit) result" where
  "check_auth h c = (case uc_auth c of None \<Rightarrow> Inr ()
     | Some a \<Rightarrow> (case auth_spec_parse a of
         SpecFile p \<Rightarrow> (case os_custom h p of Inl e \<Rightarrow> Inl e | Inr _ \<Rightarrow> Inr ())
       | _ \<Rightarrow> Inr ()))"

definition check_indexes :: "ub_config \<Rightarrow> (string, unit) result" where
  "check_indexes c = (case collect_res (map index_decl_validate (uc_indexes c)) of Inl e \<Rightarrow> Inl e | Inr _ \<Rightarrow> Inr ())"

definition check_floors :: "ub_config \<Rightarrow> (string, unit) result" where
  "check_floors c =
     (if uc_realtime_poll_secs c < 1 then Inl ''realtime_poll_secs must be >= 1''
      else if uc_max_batch_ops c < 1 then Inl ''max_batch_ops must be >= 1''
      else if uc_file_max_batch c < 1 then Inl ''file_max_batch must be >= 1''
      else Inr ())"

definition check_databases :: "ub_config \<Rightarrow> (string, unit) result" where
  "check_databases c =
     (if (uc_driver c = ''hako'' \<or> uc_driver c = ''sqlite'') \<and> uc_databases c \<noteq> [] then
        Inl ''driver hako/sqlite is single-database (default only); remove [databases]''
      else case List.find (\<lambda>n. \<not> valid_db_name n) (dkeys (uc_databases c)) of
        Some n \<Rightarrow> Inl (''database name `'' @ n @ ''` illegal (charset/len, no __ prefix)'')
      | None \<Rightarrow> if dhas (uc_databases c) ''default'' then Inl ''[databases] must not name `default` (that is `data`)'' else Inr ())"

definition check_tailer :: "ub_config \<Rightarrow> (string, unit) result" where
  "check_tailer c = (case uc_cluster_tailer c of None \<Rightarrow> Inr ()
     | Some t \<Rightarrow> if uc_driver c \<noteq> ''hakocluster'' then Inl ''cluster tailer needs driver `hakocluster`'' else validate_tailer t)"

definition check_tls :: "os \<Rightarrow> ub_config \<Rightarrow> (string, unit) result" where
  "check_tls h c = (case tls_pair c of
     Inl e \<Rightarrow> Inl e
   | Inr None \<Rightarrow> Inr ()
   | Inr (Some (cert, key)) \<Rightarrow>
       if \<not> os_stat h cert then Inl (''tls_cert unreadable: '' @ cert)
       else if \<not> os_stat h key then Inl (''tls_key unreadable: '' @ key) else Inr ())"

definition config_summary :: "ub_config \<Rightarrow> string" where
  "config_summary c = ''ok: '' @ uc_host c @ '':'' @ show_nat (uc_port c) @ '' driver='' @ uc_driver c @ '' data='' @ uc_data c
     @ '' rules='' @ unwrap_or ''-'' (uc_rules c) @ '' auth='' @ unwrap_or ''off'' (uc_auth c)"

definition validate_config :: "os \<Rightarrow> ub_config \<Rightarrow> (string, string) result" where
  "validate_config h c =
     (case collect_res [check_driver c, map_err (\<lambda>e. ''[ub] '' @ e) (validate_local_modes c), check_rules h c, check_auth h c,
        check_indexes c, check_floors c, check_databases c, check_tailer c, check_tls h c] of
        Inl e \<Rightarrow> Inl e
      | Inr _ \<Rightarrow> Inr (config_summary c))"

section \<open>Views\<close>

definition RELOADABLE :: "string list" where
  "RELOADABLE = [''driver'', ''data'', ''databases'', ''sync_serve'', ''sync_peer'', ''ttl_sweep_secs'', ''cluster_tailer'', ''auth'',
     ''audit_level'', ''limit_global'', ''limit_auth'', ''service_keys'', ''service_allow'', ''aliases'', ''indexes'', ''read_only'',
     ''max_batch_ops'', ''realtime_snapshot_docs'', ''realtime_events_per_sec'', ''realtime_poll_secs'', ''realtime_max_conn_docs'']"

definition SECRET_KEYS :: "string list" where
  "SECRET_KEYS = [''file_sign_secret'', ''room_key'', ''auth_token'', ''api_key'', ''jwt_secret'']"

text \<open>The values of the fields: an absent text is null.\<close>

abbreviation jnat :: "nat \<Rightarrow> json" where "jnat n \<equiv> jint (int n)"

definition jopt :: "string option \<Rightarrow> json" where
  "jopt x = (case x of None \<Rightarrow> JNull | Some s \<Rightarrow> JStr s)"

abbreviation jstrs :: "string list \<Rightarrow> json" where "jstrs xs \<equiv> JArr (map JStr xs)"

fun tailer_json :: "cluster_tailer option \<Rightarrow> json" where
  "tailer_json None = JNull"
| "tailer_json (Some (Mesh name room_key port)) =
     JObj [(''kind'', JStr ''mesh''), (''name'', JStr name), (''port'', jnat port), (''room_key'', JStr room_key)]"
| "tailer_json (Some (Cloud mode client_id auth_token room_name room_key server_url bind_addr)) =
     JObj [(''auth_token'', JStr auth_token), (''bind_addr'', JStr bind_addr), (''client_id'', JStr client_id), (''kind'', JStr ''cloud''),
       (''mode'', JStr mode), (''room_key'', JStr room_key), (''room_name'', JStr room_name), (''server_url'', JStr server_url)]"

definition alias_json :: "path_alias \<Rightarrow> json" where
  "alias_json a = JObj [(''pattern'', JStr (al_pattern a)), (''target_path'', JStr (al_target_path a)), (''target_query'', JStr (al_target_query a))]"

definition index_json :: "index_decl \<Rightarrow> json" where
  "index_json i = JObj [(''collection'', JStr (id_collection i)), (''fields'', jstrs (id_fields i)), (''kind'', JStr (id_kind i)),
     (''name'', jopt (id_name i)), (''unique'', JBool (id_unique i))]"

definition snapshot_entries :: "ub_config \<Rightarrow> (string \<times> json) list" where
  "snapshot_entries c =
     [(''source'', JStr (uc_source c)),
      (''host'', JStr (uc_host c)),
      (''port'', jnat (uc_port c)),
      (''driver'', JStr (uc_driver c)),
      (''data'', JStr (uc_data c)),
      (''rules'', jopt (uc_rules c)),
      (''auth'', jopt (uc_auth c)),
      (''admin_uids'', jstrs (uc_admin_uids c)),
      (''sock'', jopt (uc_sock c)),
      (''plain_loopback'', JBool (uc_plain_loopback c)),
      (''allowed_hosts'', jstrs (uc_allowed_hosts c)),
      (''cors_allowed_origins'', jstrs (uc_cors_allowed_origins c)),
      (''cookie_secure'', JBool (uc_cookie_secure c)),
      (''cookie_samesite'', JStr (uc_cookie_samesite c)),
      (''cookie_path'', JStr (uc_cookie_path c)),
      (''cookie_domain'', jopt (uc_cookie_domain c)),
      (''body_limit_mb'', jnat (uc_body_limit_mb c)),
      (''hsts_max_age_secs'', jnat (uc_hsts_max_age_secs c)),
      (''compress_min_bytes'', jnat (uc_compress_min_bytes c)),
      (''ws_max_msg_kb'', jnat (uc_ws_max_msg_kb c)),
      (''ws_max_subs'', jnat (uc_ws_max_subs c)),
      (''csrf_origin_check'', JBool (uc_csrf_origin_check c)),
      (''local_register'', JBool (uc_local_register c)),
      (''local_password_min_length'', jnat (uc_local_password_min_length c)),
      (''local_access_ttl_secs'', jnat (uc_local_access_ttl_secs c)),
      (''local_refresh_ttl_secs'', jnat (uc_local_refresh_ttl_secs c)),
      (''local_argon2_m_kb'', jnat (uc_local_argon2_m_kb c)),
      (''local_argon2_t_cost'', jnat (uc_local_argon2_t_cost c)),
      (''local_argon2_p_cost'', jnat (uc_local_argon2_p_cost c)),
      (''login_max_attempts'', jnat (uc_login_max_attempts c)),
      (''login_lockout_secs'', jnat (uc_login_lockout_secs c)),
      (''read_only'', JBool (uc_read_only c)),
      (''ttl_sweep_secs'', jnat (uc_ttl_sweep_secs c)),
      (''max_batch_ops'', jnat (uc_max_batch_ops c)),
      (''file_dir'', jopt (uc_file_dir c)),
      (''file_max_mb'', jnat (uc_file_max_mb c)),
      (''file_max_batch'', jnat (uc_file_max_batch c)),
      (''file_mime_allow'', jstrs (uc_file_mime_allow c)),
      (''file_sign_secret'', JStr (uc_file_sign_secret c)),
      (''databases'', JObj (map (\<lambda>(k, v). (k, JStr v)) (uc_databases c))),
      (''realtime_snapshot_docs'', jnat (uc_realtime_snapshot_docs c)),
      (''realtime_events_per_sec'', jnat (uc_realtime_events_per_sec c)),
      (''realtime_poll_secs'', jnat (uc_realtime_poll_secs c)),
      (''realtime_max_conn_docs'', jnat (uc_realtime_max_conn_docs c)),
      (''audit_level'', JStr (uc_audit_level c)),
      (''local_token_response'', JBool (uc_local_token_response c)),
      (''local_cookies'', JBool (uc_local_cookies c)),
      (''aliases'', JArr (map alias_json (uc_aliases c))),
      (''sync_serve'', jopt (uc_sync_serve c)),
      (''sync_peer'', jstrs (uc_sync_peer c)),
      (''cluster_tailer'', tailer_json (uc_cluster_tailer c)),
      (''public_url'', jopt (uc_public_url c)),
      (''limit_global'', JArr [jnat (fst (uc_limit_global c)), jnat (snd (uc_limit_global c))]),
      (''limit_auth'', JArr [jnat (fst (uc_limit_auth c)), jnat (snd (uc_limit_auth c))]),
      (''trust_proxy'', JBool (uc_trust_proxy c)),
      (''coalesce_writes'', JBool (uc_coalesce_writes c)),
      (''compress'', JBool (uc_compress c)),
      (''wstats'', JBool (uc_wstats c)),
      (''benchmark'', JBool (uc_benchmark c)),
      (''tls_cert'', jopt (uc_tls_cert c)),
      (''tls_key'', jopt (uc_tls_key c)),
      (''http2'', JBool (uc_http2 c)),
      (''indexes'', JArr (map index_json (uc_indexes c))),
      (''service_keys'', jstrs (uc_service_keys c)),
      (''service_allow'', jstrs (uc_service_allow c))]"

definition config_snapshot :: "ub_config \<Rightarrow> json" where
  "config_snapshot c = JObj (dict_of (snapshot_entries c))"

text \<open>The redacted view: whether a secret is set, and how many service keys there are.\<close>

definition secret_mark :: "json \<Rightarrow> json" where
  "secret_mark v = JStr (if (case as_str v of Some s \<Rightarrow> s \<noteq> [] | None \<Rightarrow> False) then ''[set]'' else ''[unset]'')"

fun redact :: "json \<Rightarrow> json" where
  "redact (JObj m) = JObj (map (\<lambda>(k, v). (k, if k \<in> set SECRET_KEYS then secret_mark v else redact v)) m)"
| "redact (JArr xs) = JArr (map redact xs)"
| "redact v = v"

definition config_public :: "json \<Rightarrow> json" where
  "config_public snapshot = (case redact snapshot of
     JObj m \<Rightarrow> (case dget m ''service_keys'' of
       Some ks \<Rightarrow> JObj (dput ''service_keys''
         (JObj [(''count'', jnat (case as_array ks of Some a \<Rightarrow> length a | None \<Rightarrow> 0))]) m)
     | None \<Rightarrow> JObj m)
   | out \<Rightarrow> out)"

text \<open>The keys whose values differ, in order: those a reload applies, and the others.\<close>

definition changed_keys :: "(string, json) dict \<Rightarrow> (string, json) dict \<Rightarrow> string list" where
  "changed_keys old new = filter (\<lambda>k. dget old k \<noteq> dget new k) (sort (remdups (dkeys old @ dkeys new)))"

definition reload_diff :: "json \<Rightarrow> json \<Rightarrow> string list \<times> string list" where
  "reload_diff before after = (case (as_object before, as_object after) of
     (Some old, Some new) \<Rightarrow> (filter (\<lambda>k. k \<in> set RELOADABLE) (changed_keys old new),
                             filter (\<lambda>k. k \<notin> set RELOADABLE) (changed_keys old new))
   | _ \<Rightarrow> ([], []))"

definition applied_snapshot :: "json \<Rightarrow> json \<Rightarrow> json" where
  "applied_snapshot before after = (case (as_object before, as_object after) of
     (Some old, Some new) \<Rightarrow> JObj (dextend new (filter (\<lambda>(k, v). k \<notin> set RELOADABLE) old))
   | _ \<Rightarrow> after)"

end
