(* ===== verification/Startup.thy ===== *)
theory Startup
  imports Config Realtime Accounts Ttl
begin

text \<open>
  The state of the server beyond a request (crates/hakobackend-server/src/main.rs): the policy that
  follows its file, the hot snapshot, opening databases and the providers, and the start up to the
  state the routes run on. Listening and TLS are not part of it. Opening a driver, building a provider and the benchmark are parameters;
  a handle names the store it was opened on, and the stores are a map from those names. Instants
  are nanoseconds of one clock, time stamps of files are numbers.
\<close>

section \<open>The policy file\<close>

record policy_hot =
  ph_path :: "string option"
  ph_mtime :: "nat option"
  ph_policy :: policy_file

definition policy_hot_new :: "os \<Rightarrow> string option \<Rightarrow> policy_hot" where
  "policy_hot_new h path = (case path of
     None \<Rightarrow> \<lparr>ph_path = None, ph_mtime = None, ph_policy = policy_open\<rparr>
   | Some p \<Rightarrow> \<lparr>ph_path = Some p, ph_mtime = os_mtime h p,
       ph_policy = (case os_policy h p of Inr f \<Rightarrow> f | Inl _ \<Rightarrow> policy_open)\<rparr>)"

definition policy_hot_get :: "os \<Rightarrow> policy_hot \<Rightarrow> policy_file \<times> policy_hot \<times> audit_event list" where
  "policy_hot_get h ph = (case ph_path ph of
     None \<Rightarrow> (ph_policy ph, ph, [])
   | Some path \<Rightarrow>
       (let current = os_mtime h path in
        if ph_mtime ph \<noteq> current then
          (case os_policy h path of
             Inr f \<Rightarrow> (f, ph\<lparr>ph_mtime := current, ph_policy := f\<rparr>, [policy_reload_event path True])
           | Inl _ \<Rightarrow> (ph_policy ph, ph, [policy_reload_event path False]))
        else (ph_policy ph, ph, [])))"

section \<open>The hot snapshot\<close>

definition SNAP_TTL :: nat where "SNAP_TTL = nanos"

record 'h hot_cache =
  hc_at :: "instant option"
  hc_hot :: 'h

definition hot_cache_new :: "instant \<Rightarrow> 'h \<Rightarrow> 'h hot_cache" where
  "hot_cache_new now hot = \<lparr>hc_at = Some now, hc_hot = hot\<rparr>"

definition hc_fresh :: "instant \<Rightarrow> 'h hot_cache \<Rightarrow> bool" where
  "hc_fresh now c \<longleftrightarrow> (case hc_at c of Some t \<Rightarrow> now - t < SNAP_TTL | None \<Rightarrow> False)"

text \<open>The second half of a refresh: what was fetched is published unless another refresh was faster.\<close>

definition hc_publish :: "instant \<Rightarrow> 'h \<Rightarrow> 'h hot_cache \<Rightarrow> 'h \<times> 'h hot_cache" where
  "hc_publish now hot c = (if hc_fresh now c then (hc_hot c, c) else (hot, \<lparr>hc_at = Some now, hc_hot = hot\<rparr>))"

definition hc_invalidate :: "'h hot_cache \<Rightarrow> 'h hot_cache" where
  "hc_invalidate c = c\<lparr>hc_at := None\<rparr>"

section \<open>Opening databases\<close>

record 's handle =
  hn_driver :: "'s driver"
  hn_store :: string

text \<open>What is outside: the drivers, the crypto of the local accounts, the verifiers, GitHub.\<close>

record local_config =
  lc_jwt_secret :: string
  lc_access_ttl_secs :: nat
  lc_refresh_ttl_secs :: nat
  lc_password_min_length :: nat
  lc_argon2_m_kb :: nat
  lc_argon2_t_cost :: nat
  lc_argon2_p_cost :: nat

datatype cloud_mode = CloudServer string string string | CloudClient string string string

record 's openers =
  op_open :: "string \<Rightarrow> string \<Rightarrow> 's \<Rightarrow> (string, 's driver) result \<times> 's"
  op_sync :: "string option \<Rightarrow> string list \<Rightarrow> 's \<Rightarrow> (string, unit) result \<times> 's"
  op_cluster :: "string \<Rightarrow> (string \<times> string \<times> nat) option \<times> (string \<times> string \<times> cloud_mode) option \<Rightarrow> 's \<Rightarrow>
    (string, 's driver) result \<times> 's"
  op_sha :: "string \<Rightarrow> string"
  op_local :: "local_config \<Rightarrow> 's local_auth"
  op_builtin :: "string \<Rightarrow> (string, provider) result"
  op_github :: "(string \<Rightarrow> string option) \<Rightarrow> 's driver \<Rightarrow> 's github"
  op_bench :: "'s driver \<Rightarrow> 's \<Rightarrow> (string, unit) result \<times> 's"

text \<open>The process: environment and files, stores by name, audit level, running sweepers, the audit log, the bus.\<close>

record 's process =
  pr_os :: os
  pr_store :: "string \<Rightarrow> 's"
  pr_level :: nat
  pr_sweepers :: "(string \<times> nat) list"
  pr_log :: "audit_event list"
  pr_bus :: "(string \<times> change) list"

definition cluster_lanes :: "cluster_tailer option \<Rightarrow> (string \<times> string \<times> nat) option \<times> (string \<times> string \<times> cloud_mode) option" where
  "cluster_lanes t = (case t of
     None \<Rightarrow> (None, None)
   | Some (Mesh name room_key port) \<Rightarrow> (Some (name, room_key, port), None)
   | Some (Cloud mode client_id auth_token room_name room_key server_url bind_addr) \<Rightarrow>
       (None, Some (client_id, auth_token,
          if mode = ''server'' then CloudServer room_name room_key bind_addr else CloudClient room_name room_key server_url)))"

definition open_raw :: "'s openers \<Rightarrow> string \<Rightarrow> string \<Rightarrow> string option \<Rightarrow> string list \<Rightarrow> cluster_tailer option \<Rightarrow> 's \<Rightarrow>
    (string, 's driver) result \<times> 's" where
  "open_raw cx driver path serve peers tailer s =
     (if driver = ''hako'' then
        (case op_open cx ''hako'' path s of
           (Inl e, s') \<Rightarrow> (Inl e, s')
         | (Inr d, s') \<Rightarrow> (case op_sync cx serve peers s' of
             (Inl e, s'') \<Rightarrow> (Inl e, s'') | (Inr _, s'') \<Rightarrow> (Inr d, s'')))
      else if driver = ''hakocluster'' then
        (if serve \<noteq> None \<or> peers \<noteq> [] then
           (Inl ''sync_serve/sync_peer are hako-driver only; the hakocluster driver meshes itself'', s)
         else op_cluster cx path (cluster_lanes tailer) s)
      else if driver \<in> {''postgres'', ''sqlite'', ''mysql'', ''rethinkdb''} then
        (if serve \<noteq> None \<or> peers \<noteq> [] then (Inl ''sync_serve/sync_peer need driver `hako`'', s)
         else op_open cx driver path s)
      else (Inl (''driver `'' @ driver @ ''` not available yet. Available choices: '' @ join '', '' KNOWN_DRIVERS @ ''.''), s))"

text \<open>Every open starts a sweeper of its own, unless the interval is 0.\<close>

definition open_driver :: "'s openers \<Rightarrow> string \<Rightarrow> string \<Rightarrow> string option \<Rightarrow> string list \<Rightarrow> nat \<Rightarrow> cluster_tailer option \<Rightarrow>
    's process \<Rightarrow> (string, 's handle) result \<times> 's process" where
  "open_driver cx driver path serve peers ttl tailer p =
     (case open_raw cx driver path serve peers tailer (pr_store p path) of
        (Inl e, s) \<Rightarrow> (Inl e, p\<lparr>pr_store := (pr_store p)(path := s)\<rparr>)
      | (Inr d, s) \<Rightarrow> (Inr \<lparr>hn_driver = d, hn_store = path\<rparr>,
          p\<lparr>pr_store := (pr_store p)(path := s), pr_sweepers := pr_sweepers p @ (if 0 < ttl then [(path, ttl)] else [])\<rparr>))"

fun open_extras :: "'s openers \<Rightarrow> string \<Rightarrow> string option \<Rightarrow> string list \<Rightarrow> nat \<Rightarrow> (string \<times> string) list \<Rightarrow>
    (string, 's handle) dict \<Rightarrow> 's process \<Rightarrow> (string, (string, 's handle) dict) result \<times> 's process" where
  "open_extras cx driver serve peers ttl [] m p = (Inr m, p)"
| "open_extras cx driver serve peers ttl ((n, path) # rest) m p =
     (case open_driver cx driver path serve peers ttl None p of
        (Inl e, p') \<Rightarrow> (Inl (''database `'' @ n @ ''`: '' @ e), p')
      | (Inr hn, p') \<Rightarrow> open_extras cx driver serve peers ttl rest (dput n hn m) p')"

definition open_dbs :: "'s openers \<Rightarrow> ub_config \<Rightarrow> 's process \<Rightarrow> (string, (string, 's handle) dict) result \<times> 's process" where
  "open_dbs cx c p =
     (case open_driver cx (uc_driver c) (uc_data c) (uc_sync_serve c) (uc_sync_peer c) (uc_ttl_sweep_secs c) (uc_cluster_tailer c) p of
        (Inl e, p') \<Rightarrow> (Inl e, p')
      | (Inr hn, p') \<Rightarrow> open_extras cx (uc_driver c) (uc_sync_serve c) (uc_sync_peer c) (uc_ttl_sweep_secs c)
          (uc_databases c) [(''default'', hn)] p')"

text \<open>Every handle is behind the expiry decorator.\<close>

definition serving :: "int \<Rightarrow> 's handle \<Rightarrow> 's driver" where
  "serving unix hn = ttl_db unix (hn_driver hn)"

section \<open>Providers\<close>

definition env_num :: "os \<Rightarrow> string \<Rightarrow> nat \<Rightarrow> nat" where
  "env_num h k d = unwrap_or d (Option.bind (os_env h k) (parse_uint 64))"

definition local_config_from_env :: "os \<Rightarrow> (string, local_config) result" where
  "local_config_from_env h = (case os_env h ''UB_LOCAL_JWT_SECRET'' of
     None \<Rightarrow> Inl ''auth local requires env UB_LOCAL_JWT_SECRET (min 32 random characters)''
   | Some secret \<Rightarrow>
       if length secret < 32 then Inl ''UB_LOCAL_JWT_SECRET too short (min 32 characters)''
       else (let m_kb = env_num h ''UB_LOCAL_ARGON2_M_KB'' 19456; t_cost = env_num h ''UB_LOCAL_ARGON2_T_COST'' 2;
                 p_cost = env_num h ''UB_LOCAL_ARGON2_P_COST'' 1 in
         if m_kb < 8 \<or> 1048576 < m_kb \<or> t_cost < 1 \<or> 16 < t_cost \<or> p_cost < 1 \<or> 16 < p_cost then
           Inl ''UB_LOCAL_ARGON2_* out of range (m 8..=1048576 KB, t/p 1..=16)''
         else Inr \<lparr>lc_jwt_secret = secret, lc_access_ttl_secs = env_num h ''UB_LOCAL_ACCESS_TTL'' 600,
           lc_refresh_ttl_secs = env_num h ''UB_LOCAL_REFRESH_TTL'' (30 * 86400),
           lc_password_min_length = env_num h ''UB_LOCAL_PASSWORD_MIN'' 8,
           lc_argon2_m_kb = m_kb, lc_argon2_t_cost = t_cost, lc_argon2_p_cost = p_cost\<rparr>))"

definition dpop_mode_from_env :: "os \<Rightarrow> dpop_mode" where
  "dpop_mode_from_env h = unwrap_or DpopOff (Option.bind (os_env h ''UB_LOCAL_DPOP'') (\<lambda>v. ok (dpop_mode_parse v)))"

definition local_build :: "'s openers \<Rightarrow> os \<Rightarrow> 's driver \<Rightarrow> identity \<Rightarrow> (string, 's local_auth \<times> dpop_mode) result" where
  "local_build cx h db ident = (case local_config_from_env h of
     Inl e \<Rightarrow> Inl e
   | Inr lc \<Rightarrow> Inr ((op_local cx lc)\<lparr>la_db := db, la_identity := ident, la_access_ttl := lc_access_ttl_secs lc,
       la_refresh_ttl := lc_refresh_ttl_secs lc, la_password_min := lc_password_min_length lc\<rparr>, dpop_mode_from_env h))"

definition env_nonempty :: "os \<Rightarrow> string \<Rightarrow> string option" where
  "env_nonempty h k = (case os_env h k of Some v \<Rightarrow> if v = [] then None else Some v | None \<Rightarrow> None)"

definition github_build :: "'s openers \<Rightarrow> os \<Rightarrow> 's driver \<Rightarrow> (string, 's github option) result" where
  "github_build cx h db = from_env (env_nonempty h ''UB_GITHUB_CLIENT_ID'') (env_nonempty h ''UB_GITHUB_CLIENT_SECRET'')
     (env_nonempty h ''UB_PUBLIC_URL'') (unwrap_or ''/'' (os_env h ''UB_GITHUB_AFTER_LOGIN'')) (op_github cx (os_env h) db)"

type_synonym 's providers = "(provider list \<times> claim_mapping) \<times> ('s local_auth \<times> dpop_mode) option \<times> 's github option"

definition open_auth_result :: "'s openers \<Rightarrow> os \<Rightarrow> string option \<Rightarrow> 's driver \<Rightarrow> identity \<Rightarrow> (string, 's providers) result" where
  "open_auth_result cx h v db ident =
     (let spec = auth_spec_parse (unwrap_or ''off'' v) in
      case (case spec of SpecFile path \<Rightarrow> map_sum id Some (os_custom h path) | _ \<Rightarrow> Inr None) of
        Inl e \<Rightarrow> Inl e
      | Inr custom \<Rightarrow>
          (let names = (case spec of SpecOff \<Rightarrow> [] | SpecNamed n \<Rightarrow> n | SpecFile _ \<Rightarrow> (case custom of Some c \<Rightarrow> fst (fst c) | None \<Rightarrow> []))
           in case (if ''local'' \<in> set names then map_sum id Some (local_build cx h db ident) else Inr None) of
             Inl e \<Rightarrow> Inl e
           | Inr l0 \<Rightarrow> (case (case (Option.bind custom snd, l0) of
                 (Some d, Some (la, m)) \<Rightarrow> map_sum id (\<lambda>m'. Some (la, m')) (dpop_mode_parse d)
               | _ \<Rightarrow> Inr l0) of
               Inl e \<Rightarrow> Inl e
             | Inr l \<Rightarrow> (case open_chain (op_builtin cx) spec (map_option fst custom) (map_option (\<lambda>(la, m). local_verify la) l) of
                 Inl e \<Rightarrow> Inl e
               | Inr chain \<Rightarrow> (case github_build cx h db of Inl e \<Rightarrow> Inl e | Inr g \<Rightarrow> Inr (chain, l, g))))))"

section \<open>Provisioning\<close>

text \<open>Collections of the policy and declared indexes; whatever fails is skipped.\<close>

definition provision_index :: "'s driver \<Rightarrow> 's \<Rightarrow> index_decl \<Rightarrow> 's" where
  "provision_index d s decl = (case index_decl_validate decl of
     Inl _ \<Rightarrow> s
   | Inr spec \<Rightarrow> (case db_ensure_collection d s (id_collection decl) of
       (Inl _, s') \<Rightarrow> s'
     | (Inr _, s') \<Rightarrow> snd (db_create_index d s' (id_collection decl) spec)))"

definition auto_provision :: "'s driver \<Rightarrow> string list \<Rightarrow> index_decl list \<Rightarrow> 's \<Rightarrow> 's" where
  "auto_provision d collections decls s =
     foldl (provision_index d) (foldl (\<lambda>s c. snd (db_ensure_collection d s c)) s collections) decls"

text \<open>The database a name is for, and the name there; \<open>None\<close> for a prefix that is no database.\<close>

definition provision_target :: "string list \<Rightarrow> string \<Rightarrow> (string \<times> string) option" where
  "provision_target dbs name = (case split_once (CHR ''.'') name of
     Some (db, rest) \<Rightarrow> if db \<in> set dbs \<and> db \<noteq> [] then Some (db, rest) else None
   | None \<Rightarrow> Some (''default'', name))"

definition provision_for :: "string list \<Rightarrow> policy_file \<Rightarrow> index_decl list \<Rightarrow> string \<Rightarrow> string list \<times> index_decl list" where
  "provision_for dbs pol decls db =
     (filter_map (\<lambda>c. case provision_target dbs c of Some (d, rest) \<Rightarrow> if d = db then Some rest else None | None \<Rightarrow> None)
        (map fst (p_collections pol)),
      filter_map (\<lambda>i. case provision_target dbs (id_collection i) of
          Some (d, rest) \<Rightarrow> if d = db then Some (i\<lparr>id_collection := rest\<rparr>) else None | None \<Rightarrow> None) decls)"

fun provision_all :: "int \<Rightarrow> string list \<Rightarrow> policy_file \<Rightarrow> index_decl list \<Rightarrow> (string, 's handle) dict \<Rightarrow> (string \<Rightarrow> 's) \<Rightarrow> (string \<Rightarrow> 's)" where
  "provision_all unix dbs pol decls [] st = st"
| "provision_all unix dbs pol decls ((db, hn) # rest) st =
     (let (cols, mine) = provision_for dbs pol decls db in
      provision_all unix dbs pol decls rest
        (st(hn_store hn := auto_provision (serving unix hn) cols mine (st (hn_store hn)))))"

definition auto_provision_all :: "int \<Rightarrow> (string, 's handle) dict \<Rightarrow> policy_file \<Rightarrow> index_decl list \<Rightarrow> 's process \<Rightarrow> 's process" where
  "auto_provision_all unix m pol decls p = p\<lparr>pr_store := provision_all unix (dkeys m) pol decls m (pr_store p)\<rparr>"

section \<open>Environment and log\<close>

definition set_env_if_unset :: "string \<Rightarrow> string option \<Rightarrow> os \<Rightarrow> os" where
  "set_env_if_unset k v h = (case (os_env h k, v) of
     (None, Some x) \<Rightarrow> h\<lparr>os_env := (os_env h)(k := Some x)\<rparr>
   | _ \<Rightarrow> h)"

definition bridge_public_url :: "ub_config \<Rightarrow> os \<Rightarrow> os" where
  "bridge_public_url c h = set_env_if_unset ''UB_PUBLIC_URL'' (uc_public_url c) h"

definition bridge_local_env :: "ub_config \<Rightarrow> os \<Rightarrow> os" where
  "bridge_local_env c h = fold (\<lambda>(k, n). set_env_if_unset k (Some (show_nat n)))
     [(''UB_LOCAL_PASSWORD_MIN'', uc_local_password_min_length c), (''UB_LOCAL_ACCESS_TTL'', uc_local_access_ttl_secs c),
      (''UB_LOCAL_REFRESH_TTL'', uc_local_refresh_ttl_secs c), (''UB_LOCAL_ARGON2_M_KB'', uc_local_argon2_m_kb c),
      (''UB_LOCAL_ARGON2_T_COST'', uc_local_argon2_t_cost c), (''UB_LOCAL_ARGON2_P_COST'', uc_local_argon2_p_cost c)] h"

definition on_os :: "(os \<Rightarrow> os) \<Rightarrow> 's process \<Rightarrow> 's process" where
  "on_os f p = p\<lparr>pr_os := f (pr_os p)\<rparr>"

text \<open>The level of the configuration; a word that is none leaves the level as it is.\<close>

definition set_audit_level :: "ub_config \<Rightarrow> 's process \<Rightarrow> 's process" where
  "set_audit_level c p = (case parse_level (uc_audit_level c) of Inr l \<Rightarrow> p\<lparr>pr_level := l\<rparr> | Inl _ \<Rightarrow> p)"

definition audit :: "audit_event list \<Rightarrow> 's process \<Rightarrow> 's process" where
  "audit es p = p\<lparr>pr_log := pr_log p @ filter (\<lambda>e. level_allows (pr_level p) (au_ev e)) es\<rparr>"

section \<open>The state of the routes\<close>

record 's hot_view =
  ht_policy :: policy_file
  ht_dbs :: "(string, 's handle) dict"
  ht_auth :: "provider list \<times> claim_mapping"
  ht_service :: "string list \<times> string list"
  ht_local :: "('s local_auth \<times> dpop_mode) option"

text \<open>\<open>AppState\<close>, without the file settings and the router; the replay cache is the one of the local provider.\<close>

record 's app =
  as_dbs :: "(string, 's handle) dict"
  as_policy :: policy_hot
  as_auth :: "provider list \<times> claim_mapping"
  as_local :: "('s local_auth \<times> dpop_mode) option"
  as_replay :: replay_cache
  as_github :: "'s github option"
  as_global :: limiter
  as_strict :: limiter
  as_trust_proxy :: bool
  as_tls :: bool
  as_admins :: "string list"
  as_cli :: args
  as_pending :: coalescer
  as_coalesce_on :: bool
  as_service :: "string list \<times> string list"
  as_tokens :: token_cache
  as_hot :: "'s hot_view hot_cache"
  as_cors :: "string list"
  as_cookies :: cookie_conf
  as_body_limit :: nat
  as_hsts :: nat
  as_compress_min :: nat
  as_ws_max_msg :: nat
  as_ws_max_subs :: nat
  as_csrf :: bool
  as_guard :: login_guard
  as_local_register :: bool
  as_read_only :: bool
  as_max_batch :: nat
  as_ready :: "(instant \<times> bool) option"
  as_caps :: rt_caps
  as_token_response :: bool
  as_local_cookies :: bool
  as_aliases :: "path_alias list"
  as_last :: json

definition saturating_mul :: "nat \<Rightarrow> nat \<Rightarrow> nat" where
  "saturating_mul a b = min (a * b) (2 ^ 64 - 1)"

definition service_build :: "'s openers \<Rightarrow> ub_config \<Rightarrow> string list \<times> string list" where
  "service_build cx c = (map (hash_key (op_sha cx)) (uc_service_keys c), uc_service_allow c)"

definition caps_of :: "ub_config \<Rightarrow> rt_caps" where
  "caps_of c = \<lparr>snapshot_docs = uc_realtime_snapshot_docs c, events_per_sec = uc_realtime_events_per_sec c,
     poll_secs = uc_realtime_poll_secs c, max_conn_docs = uc_realtime_max_conn_docs c\<rparr>"

definition quota_of :: "nat \<times> nat \<Rightarrow> quota" where
  "quota_of q = per_minute (fst q) (snd q)"

definition app_of :: "'s openers \<Rightarrow> instant \<Rightarrow> args \<Rightarrow> ub_config \<Rightarrow> (string, 's handle) dict \<Rightarrow> policy_hot \<Rightarrow> policy_file \<Rightarrow>
    's providers \<Rightarrow> bool \<Rightarrow> cookie_conf \<Rightarrow> 's app" where
  "app_of cx now a c m ph pol ps tls cookies =
     (let (chain, l, g) = ps in
      \<lparr>as_dbs = m, as_policy = ph, as_auth = chain, as_local = l, as_replay = [], as_github = g,
       as_global = limiter_new (quota_of (uc_limit_global c)), as_strict = limiter_new (quota_of (uc_limit_auth c)),
       as_trust_proxy = uc_trust_proxy c, as_tls = tls, as_admins = uc_admin_uids c, as_cli = a,
       as_pending = [], as_coalesce_on = uc_coalesce_writes c, as_service = service_build cx c, as_tokens = token_cache_new,
       as_hot = hot_cache_new now \<lparr>ht_policy = pol, ht_dbs = m, ht_auth = chain, ht_service = service_build cx c, ht_local = l\<rparr>,
       as_cors = uc_cors_allowed_origins c, as_cookies = cookies,
       as_body_limit = saturating_mul (uc_body_limit_mb c) (1024 * 1024), as_hsts = uc_hsts_max_age_secs c,
       as_compress_min = min (uc_compress_min_bytes c) 65535,
       as_ws_max_msg = saturating_mul (uc_ws_max_msg_kb c) 1024, as_ws_max_subs = uc_ws_max_subs c,
       as_csrf = uc_csrf_origin_check c, as_guard = guard_new (uc_login_max_attempts c) (uc_login_lockout_secs c),
       as_local_register = uc_local_register c, as_read_only = uc_read_only c, as_max_batch = uc_max_batch_ops c,
       as_ready = None, as_caps = caps_of c, as_token_response = uc_local_token_response c, as_local_cookies = uc_local_cookies c,
       as_aliases = uc_aliases c, as_last = config_snapshot c\<rparr>)"

section \<open>The start\<close>

text \<open>
  How a start ends: the template printed, a panic, an error, the message of a dry validation, the
  benchmark done, or the state to serve.
\<close>

datatype 's started = Printed | BootPanic config_panic | BootError string | Validated string | Benchmarked | Serving "'s app"

definition async_main :: "'s openers \<Rightarrow> int \<Rightarrow> instant \<Rightarrow> args \<Rightarrow> 's process \<Rightarrow> 's started \<times> 's process" where
  "async_main cx unix now a p =
     (if ag_print_default_config a then (Printed, p)
      else case resolve_config (pr_os p) a of
        Inl x \<Rightarrow> (BootPanic x, p)
      | Inr c \<Rightarrow>
          if ag_validate a then
            ((case validate_config (pr_os p) c of Inr m \<Rightarrow> Validated (''[ub] '' @ m) | Inl e \<Rightarrow> BootError e), p)
          else (case validate_local_modes c of
              Inl e \<Rightarrow> (BootError (''[ub] '' @ e), p)
            | Inr _ \<Rightarrow> (case open_dbs cx c p of
                (Inl e, p1) \<Rightarrow> (BootPanic (Panic (''open database: '' @ e)), p1)
              | (Inr m, p1) \<Rightarrow>
                  if ag_benchmark a \<or> uc_benchmark c then
                    (let hn = the (dget m ''default''); (r, s) = op_bench cx (serving unix hn) (pr_store p1 (hn_store hn))
                     in (case r of Inl e \<Rightarrow> BootError e | Inr _ \<Rightarrow> Benchmarked, p1\<lparr>pr_store := (pr_store p1)(hn_store hn := s)\<rparr>))
                  else
                  (let p2 = on_os (bridge_public_url c) p1;
                       ph = policy_hot_new (pr_os p2) (uc_rules c);
                       p3 = set_audit_level c (on_os (bridge_local_env c) p2);
                       db = serving unix (the (dget m ''default''))
                   in case open_auth_result cx (pr_os p3) (uc_auth c) db (p_identity (ph_policy ph)) of
                       Inl e \<Rightarrow> (BootPanic (Panic (''[ub] auth: '' @ e)), p3)
                     | Inr ps \<Rightarrow>
                         (let (pol, ph1, ev) = policy_hot_get (pr_os p3) ph;
                              p4 = auto_provision_all unix m pol (uc_indexes c) (audit ev p3)
                          in case tls_pair c of
                              Inl e \<Rightarrow> (BootError (''[ub] '' @ e), p4)
                            | Inr tls \<Rightarrow>
                                (let (pol2, ph2, ev2) = policy_hot_get (pr_os p4) ph1; p5 = audit ev2 p4
                                 in case cookie_conf_build (uc_cookie_secure c) (uc_cookie_samesite c) (uc_cookie_path c) (uc_cookie_domain c) of
                                     Inl e \<Rightarrow> (BootPanic (Panic e), p5)
                                   | Inr cookies \<Rightarrow> (Serving (app_of cx now a c m ph2 pol2 ps (tls \<noteq> None) cookies), p5)))))))"

end
