(* ===== verification/Reload.thy ===== *)
theory Reload
  imports Startup
begin

text \<open>
  The admin routes over the whole state (crates/hakobackend-server/src/main.rs): the reload, the
  read-back of the configuration, and the readiness probe. The sockets and requests that run at the
  same time see the state before or after a reload; the snapshot they share is in \<open>Snapshots\<close>.
\<close>

section \<open>The snapshot of a request\<close>

definition hot_fetch :: "os \<Rightarrow> 's app \<Rightarrow> 's hot_view \<times> 's app \<times> audit_event list" where
  "hot_fetch h ap = (let (pol, ph, ev) = policy_hot_get h (as_policy ap) in
     (\<lparr>ht_policy = pol, ht_dbs = as_dbs ap, ht_auth = as_auth ap, ht_service = as_service ap, ht_local = as_local ap\<rparr>,
      ap\<lparr>as_policy := ph\<rparr>, ev))"

definition hot :: "instant \<Rightarrow> 's process \<times> 's app \<Rightarrow> 's hot_view \<times> 's process \<times> 's app" where
  "hot now st = (let (p, ap) = st in
     if hc_fresh now (as_hot ap) then (hc_hot (as_hot ap), p, ap)
     else (let (fetched, ap1, ev) = hot_fetch (pr_os p) ap; (out, c) = hc_publish now fetched (as_hot ap1)
           in (out, audit ev p, ap1\<lparr>as_hot := c\<rparr>)))"

section \<open>Reading the configuration back\<close>

definition set_mark :: "bool \<Rightarrow> json" where
  "set_mark b = JStr (if b then ''[set]'' else ''[unset]'')"

definition admin_config_body :: "ub_config \<Rightarrow> bool \<Rightarrow> json" where
  "admin_config_body c jwt = JObj
     [(''config'', config_public (config_snapshot c)),
      (''config_path'', JStr (uc_source c)),
      (''secrets'', JObj [(''file_sign_secret'', set_mark (uc_file_sign_secret c \<noteq> [])), (''local_jwt_secret'', set_mark jwt),
         (''service_keys'', jnat (length (uc_service_keys c)))]),
      (''source'', JStr (if uc_source c = [] then ''default+flags'' else ''file+flags''))]"

definition admin_config :: "auth_context option \<Rightarrow> 's process \<times> 's app \<Rightarrow> (config_panic, response) result" where
  "admin_config auth st = (let (p, ap) = st in
     if \<not> is_admin auth (as_admins ap) then Inr forbidden
     else case resolve_config (pr_os p) (as_cli ap) of
       Inl x \<Rightarrow> Inl x
     | Inr c \<Rightarrow> Inr (resp 200 (BJson (admin_config_body c (env_nonempty (pr_os p) ''UB_LOCAL_JWT_SECRET'' \<noteq> None)))))"

section \<open>Draining the coalescer\<close>

text \<open>One pending body into the databases of the snapshot, and the document on the bus.\<close>

definition drain_write :: "int \<Rightarrow> (string, 's handle) dict \<Rightarrow> 's process \<Rightarrow> doc_key \<Rightarrow> data \<Rightarrow> bool \<times> 's process" where
  "drain_write unix m p key body =
     (let (coll, i) = key; (dbname, stored) = flush_target (dkeys m) coll in
      case dget m dbname of
        None \<Rightarrow> (False, p)
      | Some hn \<Rightarrow>
          (let d = serving unix hn; (r, s) = db_set d (pr_store p (hn_store hn)) stored i \<lparr>d_id = i, d_data = body\<rparr> True;
               p1 = p\<lparr>pr_store := (pr_store p)(hn_store hn := s)\<rparr>
           in (is_ok r, (case db_get d s stored i of
                Inr (Some x) \<Rightarrow> p1\<lparr>pr_bus := pr_bus p1 @ [(coll, put_change coll i (Some x))]\<rparr>
              | _ \<Rightarrow> p1))))"

section \<open>The reload\<close>

definition reload_message :: "ub_config \<Rightarrow> string" where
  "reload_message c = ''reload ok: driver='' @ uc_driver c @ '' data='' @ uc_data c @ '' auth='' @ unwrap_or ''off'' (uc_auth c)"

definition reload_refused :: "string \<Rightarrow> string \<Rightarrow> string \<Rightarrow> 's process \<times> 's app \<Rightarrow> (config_panic, response) result \<times> 's process \<times> 's app" where
  "reload_refused admin ip e st = (Inr (err 400 e), audit [reload_event admin ip False e] (fst st), snd st)"

text \<open>The swap of what the configuration opened, and of the scalar settings.\<close>

definition swap_opened :: "(string, 's handle) dict \<Rightarrow> 's providers \<Rightarrow> 's app \<Rightarrow> 's app" where
  "swap_opened m ps ap = (let (chain, l, g) = ps in
     ap\<lparr>as_dbs := m, as_auth := chain, as_local := l, as_replay := [], as_github := g,
        as_tokens := tc_clear (as_tokens ap), as_hot := hc_invalidate (as_hot ap)\<rparr>)"

definition swap_settings :: "'s openers \<Rightarrow> ub_config \<Rightarrow> 's app \<Rightarrow> 's app" where
  "swap_settings cx c ap =
     ap\<lparr>as_global := set_quota (quota_of (uc_limit_global c)) (as_global ap), as_strict := set_quota (quota_of (uc_limit_auth c)) (as_strict ap),
        as_service := service_build cx c, as_aliases := uc_aliases c,
        as_read_only := uc_read_only c, as_max_batch := uc_max_batch_ops c, as_caps := caps_of c\<rparr>"

definition drain_pending :: "int \<Rightarrow> (string, 's handle) dict \<Rightarrow> 's process \<times> 's app \<Rightarrow> 's process \<times> 's app" where
  "drain_pending unix m st = (let (p, ap) = st; (n, co, p1) = co_flush_all (drain_write unix m) (as_pending ap) 0 p
     in (p1, ap\<lparr>as_pending := co\<rparr>))"

definition reload_body :: "ub_config \<Rightarrow> string list \<Rightarrow> string list \<Rightarrow> json" where
  "reload_body c applied restart = JObj
     [(''applied'', jstrs applied), (''message'', JStr (reload_message c)), (''ok'', JBool True), (''requires_restart'', jstrs restart),
      (''watched'', jstrs (filter (\<lambda>x. x \<noteq> []) (uc_source c # (case uc_rules c of Some r \<Rightarrow> [r] | None \<Rightarrow> []))))]"

text \<open>What follows once databases and providers are open.\<close>

definition reload_apply :: "'s openers \<Rightarrow> int \<Rightarrow> instant \<Rightarrow> string \<Rightarrow> string \<Rightarrow> ub_config \<Rightarrow> (string, 's handle) dict \<Rightarrow> 's providers \<Rightarrow>
    's process \<times> 's app \<Rightarrow> response \<times> 's process \<times> 's app" where
  "reload_apply cx unix now admin ip c m ps st =
     (let (h1, p1, ap1) = hot now (fst st, swap_opened m ps (snd st));
          (p2, ap2) = drain_pending unix (ht_dbs h1) (p1, ap1);
          (h2, p3, ap3) = hot now (p2, swap_settings cx c ap2);
          p4 = auto_provision_all unix (ht_dbs h2) (ht_policy h2) (uc_indexes c) p3;
          snapshot = config_snapshot c; (applied, restart) = reload_diff (as_last ap3) snapshot
      in (resp 200 (BJson (reload_body c applied restart)), audit [reload_event admin ip True (reload_message c)] p4,
          ap3\<lparr>as_last := applied_snapshot (as_last ap3) snapshot\<rparr>))"

definition reload :: "'s openers \<Rightarrow> int \<Rightarrow> instant \<Rightarrow> auth_context option \<Rightarrow> string \<Rightarrow> 's process \<times> 's app \<Rightarrow>
    (config_panic, response) result \<times> 's process \<times> 's app" where
  "reload cx unix now auth ip st =
     (let (p, ap) = st; admin = (case auth of Some a \<Rightarrow> uid a | None \<Rightarrow> ''-'') in
      if \<not> is_admin auth (as_admins ap) then (Inr forbidden, audit [reload_event admin ip False ''forbidden''] p, ap)
      else case resolve_config (pr_os p) (as_cli ap) of
        Inl x \<Rightarrow> (Inl x, p, ap)
      | Inr c \<Rightarrow> (case open_dbs cx c (on_os (bridge_public_url c) p) of
          (Inl e, p1) \<Rightarrow> reload_refused admin ip e (p1, ap)
        | (Inr m, p1) \<Rightarrow>
            (let (h0, p2, ap1) = hot now (p1, ap);
                 p3 = set_audit_level c (on_os (bridge_local_env c) p2);
                 db = serving unix (the (dget m ''default''))
             in case open_auth_result cx (pr_os p3) (uc_auth c) db (p_identity (ht_policy h0)) of
                 Inl e \<Rightarrow> reload_refused admin ip e (p3, ap1)
               | Inr ps \<Rightarrow> (case reload_apply cx unix now admin ip c m ps (p3, ap1) of (r, st') \<Rightarrow> (Inr r, st')))))"

section \<open>Health and readiness\<close>

definition health :: response where
  "health = resp 200 (BRaw (''{'' @ [CHR 34] @ ''db'' @ [CHR 34] @ '':'' @ [CHR 34] @ ''hakodb'' @ [CHR 34] @ '',''
     @ [CHR 34] @ ''status'' @ [CHR 34] @ '':'' @ [CHR 34] @ ''ok'' @ [CHR 34] @ ''}''))"

definition READY_CACHE_TTL :: nat where "READY_CACHE_TTL = nanos"

definition ready :: "int \<Rightarrow> instant \<Rightarrow> 's process \<times> 's app \<Rightarrow> response \<times> 's process \<times> 's app" where
  "ready unix now st =
     (let hit = (case as_ready (snd st) of Some (t, b) \<Rightarrow> if now - t < READY_CACHE_TTL then Some b else None | None \<Rightarrow> None);
          (b, st') = (case hit of
            Some b \<Rightarrow> (b, st)
          | None \<Rightarrow>
              (let (h, p, ap) = hot now st; hn = the (dget (ht_dbs h) ''default'');
                   b = is_ok (db_list_collections (serving unix hn) (pr_store p (hn_store hn)))
               in (b, p, ap\<lparr>as_ready := Some (now, b)\<rparr>)))
      in (if b then resp 200 (BJson (JObj [(''ready'', JBool True)])) else err 503 ''not ready'', st'))"

end
