(* ===== verification/ConfigProofs.thy ===== *)
theory ConfigProofs
  imports Reload AccountProofs
begin

text \<open>
  What the views of a configuration show: the redacted view is the same whatever the secrets are,
  and the report of a reload names exactly what differs from the running state.
\<close>

section \<open>A concrete server\<close>

definition demo_os :: os where
  "demo_os = \<lparr>os_env = (\<lambda>_. None), os_read = (\<lambda>_. Inl ''absent''), os_stat = (\<lambda>_. False), os_mtime = (\<lambda>_. Some 1),
     os_toml = (\<lambda>_. Inl ''no table''), os_toml_aliases = (\<lambda>_. Inr []), os_toml_indexes = (\<lambda>_. Inr []),
     os_policy = (\<lambda>_. Inr policy_open), os_custom = (\<lambda>_. Inl ''absent'')\<rparr>"

definition demo_args :: args where
  "demo_args = \<lparr>ag_config = None, ag_driver = None, ag_data = None, ag_rules = None, ag_auth = None, ag_host = None, ag_port = None,
     ag_sock = None, ag_allowed_hosts = [], ag_cors_allowed_origins = [], ag_body_limit_mb = None, ag_sync_serve = None, ag_sync_peer = [],
     ag_admin_uids = [''local:root''], ag_public_url = None, ag_limit_global = None, ag_limit_global_burst = None, ag_limit_auth = None,
     ag_limit_auth_burst = None, ag_trust_proxy = False, ag_tls_cert = None, ag_tls_key = None, ag_http2 = False, ag_validate = False,
     ag_print_default_config = False, ag_coalesce_writes = False, ag_no_local_register = False, ag_read_only = False, ag_compress = False,
     ag_wstats = False, ag_benchmark = False\<rparr>"

definition demo_openers :: "mem_db openers" where
  "demo_openers = \<lparr>op_open = (\<lambda>d path s. (Inr (mem_driver 1), s)), op_sync = (\<lambda>_ _ s. (Inr (), s)),
     op_cluster = (\<lambda>_ _ s. (Inl ''no cluster'', s)), op_sha = (\<lambda>k. k), op_local = (\<lambda>_. demo_la),
     op_builtin = (\<lambda>_. Inl ''none''), op_github = (\<lambda>_ _. demo_github),
     op_bench = (\<lambda>_ s. (Inr (), s))\<rparr>"

definition demo_process :: "os \<Rightarrow> mem_db process" where
  "demo_process h = \<lparr>pr_os = h, pr_store = (\<lambda>_. mem_new), pr_level = 2, pr_sweepers = [], pr_log = [], pr_bus = []\<rparr>"

definition demo_config :: "os \<Rightarrow> ub_config" where
  "demo_config h = merge_config h demo_args file_default (''0.0.0.0'', 3000) [] None [] []"

text \<open>Environments that set no variable the start reads but the signing secret.\<close>

definition demo_secret :: "string \<Rightarrow> os" where
  "demo_secret s = demo_os\<lparr>os_env := (\<lambda>k. if k = ''UB_FILE_SIGN_SECRET'' then Some s else None)\<rparr>"

lemma demo_resolve: "resolve_config (demo_secret s) demo_args = Inr (demo_config (demo_secret s))"
  by (simp add: resolve_config_def load_config_def config_path_def env_config_def demo_secret_def demo_os_def demo_args_def
      file_default_def listen_of_def aliases_of_def compile_all_def tailer_of_def service_keys_of_def service_allow_of_def demo_config_def)

lemma demo_config_fields:
  "uc_driver (demo_config h) = ''hako''" "uc_data (demo_config h) = ''./data/hako.ub''" "uc_sync_serve (demo_config h) = None"
  "uc_sync_peer (demo_config h) = []" "uc_ttl_sweep_secs (demo_config h) = 300" "uc_cluster_tailer (demo_config h) = None"
  "uc_databases (demo_config h) = []" "uc_rules (demo_config h) = None" "uc_auth (demo_config h) = None" "uc_indexes (demo_config h) = []"
  "uc_tls_cert (demo_config h) = None" "uc_tls_key (demo_config h) = None" "uc_cookie_secure (demo_config h) = True"
  "uc_cookie_samesite (demo_config h) = ''Strict''" "uc_local_cookies (demo_config h) = True" "uc_admin_uids (demo_config h) = [''local:root'']"
  "uc_public_url (demo_config h) = None" "uc_audit_level (demo_config h) = ''all''" "\<not> uc_benchmark (demo_config h)" "uc_service_keys (demo_config h) = []"
  by (simp_all add: demo_config_def merge_config_def demo_args_def file_default_def opt_or_def Let_def)

lemma demo_opened: "open_dbs demo_openers (demo_config h) p =
    (Inr [(''default'', \<lparr>hn_driver = mem_driver 1, hn_store = ''./data/hako.ub''\<rparr>)], p\<lparr>pr_sweepers := pr_sweepers p @ [(''./data/hako.ub'', 300)]\<rparr>)"
  by (simp add: open_dbs_def open_driver_def open_raw_def demo_config_fields demo_openers_def)

lemma demo_public: "bridge_public_url (demo_config h) = id"
  by (auto simp: bridge_public_url_def demo_config_fields set_env_if_unset_def split: option.splits)

lemma demo_auth: "open_auth_result demo_openers (bridge_local_env c (demo_secret s)) None db ident =
    Inr (([], \<lparr>uid_field = None, email_field = None\<rparr>), None, None)"
  by (simp add: open_auth_result_def auth_spec_parse_def trim_def trim_by_def is_space_def ch_def open_chain_def github_build_def from_env_def
      env_nonempty_def bridge_local_env_def set_env_if_unset_def demo_secret_def demo_os_def split: option.splits)

lemma demo_boot: "\<exists>ap q. async_main demo_openers 0 0 demo_args (demo_process (demo_secret s)) = (Serving ap, q) \<and> as_cli ap = demo_args
    \<and> as_admins ap = [''local:root''] \<and> as_pending ap = []
    \<and> as_policy ap = policy_hot_new (demo_secret s) None \<and> ht_policy (hc_hot (as_hot ap)) = policy_open"
proof -
  have "\<not> ag_validate demo_args \<and> \<not> ag_print_default_config demo_args \<and> \<not> ag_benchmark demo_args" by (simp add: demo_args_def)
  then show ?thesis
    by (simp add: async_main_def demo_process_def demo_resolve demo_opened demo_config_fields validate_local_modes_def demo_public on_os_def
        policy_hot_new_def demo_auth set_audit_level_def parse_level_def tls_pair_def cookie_conf_build_def app_of_def Let_def
        policy_hot_get_def hot_cache_new_def split: sum.splits)
qed

section \<open>Redaction\<close>

lemma redact_dict: "redact (JObj (dict_of es)) = JObj (dict_of (map (\<lambda>(k, v). (k, if k \<in> set SECRET_KEYS then secret_mark v else redact v)) es))"
proof -
  let ?f = "\<lambda>k v. if k \<in> set SECRET_KEYS then secret_mark v else redact v"
  let ?g = "map (\<lambda>(k, v). (k, ?f k v)) :: (string \<times> json) list \<Rightarrow> (string \<times> json) list"
  have "?g (dput k v m) = dput k (?f k v) (?g m)" for k v m
    by (induction k v m rule: dput.induct) auto
  then have "?g (dextend m es) = dextend (?g m) (?g es)" for m
    by (induction es arbitrary: m) (auto simp: dextend_Cons)
  from this [of "[]"] show ?thesis by (simp add: dict_of_def)
qed

text \<open>Two lists of entries that agree but for the value at one key.\<close>

definition agree_but :: "string \<Rightarrow> (string \<times> json) list \<Rightarrow> (string \<times> json) list \<Rightarrow> bool" where
  "agree_but x = list_all2 (\<lambda>(k, v) (j, w). k = j \<and> (k \<noteq> x \<longrightarrow> v = w))"

lemma agree_but_get: "agree_but x es fs \<Longrightarrow> k \<noteq> x \<Longrightarrow> map_of (rev es) k = map_of (rev fs) k"
proof -
  have "map_of es k = map_of fs k" if "agree_but x es fs" "k \<noteq> x" for es fs
    using that unfolding agree_but_def by (induction rule: list_all2_induct) auto
  moreover have "agree_but x es fs \<Longrightarrow> agree_but x (rev es) (rev fs)" unfolding agree_but_def by simp
  ultimately show "agree_but x es fs \<Longrightarrow> k \<noteq> x \<Longrightarrow> map_of (rev es) k = map_of (rev fs) k" by blast
qed

lemma agree_but_dput: "agree_but x es fs \<Longrightarrow> dput x v (dict_of es) = dput x v (dict_of fs)"
  by (rule dict_ext) (auto simp: dict_of_def dget_dextend agree_but_get)

text \<open>Tailers that differ in their keys and tokens only, not in whether these are set.\<close>

fun same_tailer :: "cluster_tailer option \<Rightarrow> cluster_tailer option \<Rightarrow> bool" where
  "same_tailer None None \<longleftrightarrow> True"
| "same_tailer (Some (Mesh n k p)) (Some (Mesh n' k' p')) \<longleftrightarrow> n = n' \<and> p = p' \<and> (k = [] \<longleftrightarrow> k' = [])"
| "same_tailer (Some (Cloud m c a n k u b)) (Some (Cloud m' c' a' n' k' u' b')) \<longleftrightarrow>
     m = m' \<and> c = c' \<and> n = n' \<and> u = u' \<and> b = b' \<and> (a = [] \<longleftrightarrow> a' = []) \<and> (k = [] \<longleftrightarrow> k' = [])"
| "same_tailer _ _ \<longleftrightarrow> False"

lemma redact_tailer: "same_tailer t t' \<Longrightarrow> redact (tailer_json t') = redact (tailer_json t)"
  by (induction t t' rule: same_tailer.induct) (auto simp: SECRET_KEYS_def secret_mark_def)

lemma redact_strs: "redact (jstrs xs) = jstrs xs"
  by (induction xs) auto

text \<open>The entries of the redacted view.\<close>

definition public_entries :: "ub_config \<Rightarrow> (string \<times> json) list" where
  "public_entries c = map (\<lambda>(k, v). (k, if k \<in> set SECRET_KEYS then secret_mark v else redact v)) (snapshot_entries c)"

lemma redact_snapshot: "redact (config_snapshot c) = JObj (dict_of (public_entries c))"
  by (simp only: config_snapshot_def redact_dict public_entries_def)

lemma public_service_keys: "dget (dict_of (public_entries c)) ''service_keys'' = Some (jstrs (uc_service_keys c))"
  by (simp add: dict_of_def dget_dextend public_entries_def snapshot_entries_def SECRET_KEYS_def redact_strs)

lemma config_public_snapshot:
  "config_public (config_snapshot c) =
     JObj (dput ''service_keys'' (JObj [(''count'', jnat (length (uc_service_keys c)))]) (dict_of (public_entries c)))"
  by (simp add: config_public_def redact_snapshot public_service_keys)

lemma config_public_hides:
  assumes "s = [] \<longleftrightarrow> uc_file_sign_secret c = []" "length ks = length (uc_service_keys c)" "same_tailer (uc_cluster_tailer c) t"
  shows "config_public (config_snapshot (c\<lparr>uc_file_sign_secret := s, uc_service_keys := ks, uc_cluster_tailer := t\<rparr>)) =
    config_public (config_snapshot c)"
proof -
  have "agree_but ''service_keys'' (public_entries (c\<lparr>uc_file_sign_secret := s, uc_service_keys := ks, uc_cluster_tailer := t\<rparr>)) (public_entries c)"
    using assms(1) redact_tailer [OF assms(3)]
    by (simp add: agree_but_def public_entries_def snapshot_entries_def SECRET_KEYS_def secret_mark_def)
  then show ?thesis using assms(2) by (simp add: config_public_snapshot agree_but_dput)
qed

text \<open>
  C18. The answer of the configuration read-back is the same for two configurations that differ in
  the signing secret, the service keys and the keys and tokens of the cluster bridge only, as long
  as the same ones are set and there are as many service keys: no caller, an admin neither, learns
  more about them.
\<close>

theorem admin_config_hides_secrets:
  assumes "resolve_config (pr_os p) (as_cli ap) = Inr c"
    and "resolve_config (pr_os q) (as_cli ap) = Inr (c\<lparr>uc_file_sign_secret := s, uc_service_keys := ks, uc_cluster_tailer := t\<rparr>)"
    and "s = [] \<longleftrightarrow> uc_file_sign_secret c = []" "length ks = length (uc_service_keys c)" "same_tailer (uc_cluster_tailer c) t"
    and "env_nonempty (pr_os q) ''UB_LOCAL_JWT_SECRET'' = None \<longleftrightarrow> env_nonempty (pr_os p) ''UB_LOCAL_JWT_SECRET'' = None"
  shows "admin_config auth (q, ap) = admin_config auth (p, ap)"
  using assms config_public_hides [OF assms(3-5)]
  by (auto simp: admin_config_def admin_config_body_def)

lemma admin_config_hides_secrets_witness:
  "\<exists>ap. as_admins ap = [''local:root''] \<and>
    admin_config (Some \<lparr>uid = ''local:root'', extra = []\<rparr>) (demo_process (demo_secret ''two''), ap) =
    admin_config (Some \<lparr>uid = ''local:root'', extra = []\<rparr>) (demo_process (demo_secret ''one''), ap)"
proof -
  obtain ap q where ap: "async_main demo_openers 0 0 demo_args (demo_process (demo_secret ''one'')) = (Serving ap, q)" "as_cli ap = demo_args"
    "as_admins ap = [''local:root'']" using demo_boot by blast
  let ?c = "demo_config (demo_secret ''one'')"
  have two: "demo_config (demo_secret ''two'') = ?c\<lparr>uc_file_sign_secret := ''two'', uc_service_keys := [], uc_cluster_tailer := None\<rparr>"
    by (simp add: demo_config_def merge_config_def demo_secret_def demo_os_def demo_args_def file_default_def file_secret_of_def
        config_path_def env_config_def trim_def trim_by_def is_space_def ch_def Let_def)
  have s: "uc_file_sign_secret ?c = ''one''"
    by (simp add: demo_config_def merge_config_def demo_secret_def file_secret_of_def trim_def trim_by_def is_space_def ch_def Let_def)
  have "admin_config (Some \<lparr>uid = ''local:root'', extra = []\<rparr>) (demo_process (demo_secret ''two''), ap) =
    admin_config (Some \<lparr>uid = ''local:root'', extra = []\<rparr>) (demo_process (demo_secret ''one''), ap)"
    by (rule admin_config_hides_secrets [where c = ?c and s = "''two''" and ks = "[]" and t = None])
      (simp_all add: demo_process_def ap(2) demo_resolve two [symmetric] s demo_config_fields, simp_all add: demo_secret_def env_nonempty_def)
  then show ?thesis using ap(3) by blast
qed

text \<open>
  The secrets among the fields are hidden; a password in the address of a database is not one of
  them: \<open>data\<close> is shown as it is.
\<close>

lemma address_in_view: "jget (config_public (config_snapshot c)) ''data'' = Some (JStr (uc_data c))"
  by (simp add: config_public_snapshot jget_def dict_of_def dget_dextend public_entries_def snapshot_entries_def SECRET_KEYS_def)

section \<open>What a reload reports\<close>

lemma dkeys_dput: "dkeys m = dkeys m' \<Longrightarrow> dkeys (dput k v m) = dkeys (dput k v' m')"
proof (induction k v m arbitrary: m' rule: dput.induct)
  case (2 k v j x m)
  then obtain x' m'' where "m' = (j, x') # m''" "dkeys m = dkeys m''" by (cases m') (auto simp: dkeys_def)
  then show ?case using "2.IH" by (auto simp: dkeys_def)
qed (simp add: dkeys_def)

lemma dkeys_dextend: "dkeys m = dkeys m' \<Longrightarrow> map fst es = map fst fs \<Longrightarrow> dkeys (dextend m es) = dkeys (dextend m' fs)"
proof (induction es arbitrary: m m' fs)
  case (Cons e es)
  obtain k v where e: "e = (k, v)" by force
  then obtain v' fs' where f: "fs = (k, v') # fs'" "map fst es = map fst fs'" using Cons.prems(2) by (cases fs) auto
  show ?case using Cons.IH [OF dkeys_dput [OF Cons.prems(1)] f(2)] by (simp add: e f(1) dextend_Cons)
qed simp

definition snap :: "ub_config \<Rightarrow> (string, json) dict" where
  "snap c = dict_of (snapshot_entries c)"

lemma config_snapshot_snap: "config_snapshot c = JObj (snap c)"
  by (simp add: config_snapshot_def snap_def)

lemma snap_ok: "dict_ok (snap c)"
  by (simp add: snap_def)

lemma snap_keys: "dkeys (snap c) = dkeys (snap c')"
  unfolding snap_def dict_of_def by (rule dkeys_dextend) (simp_all add: snapshot_entries_def)

text \<open>After a boot with \<open>b\<close> and reloads of \<open>cs\<close>: what is remembered is \<open>b\<close> where a reload applies nothing, else the last.\<close>

definition effective :: "ub_config \<Rightarrow> ub_config list \<Rightarrow> json \<Rightarrow> bool" where
  "effective b cs v \<longleftrightarrow> (\<exists>m. v = JObj m \<and> dict_ok m \<and> dkeys m = dkeys (snap b)
     \<and> (\<forall>k. dget m k = (if k \<in> set RELOADABLE then dget (snap (last (b # cs))) k else dget (snap b) k)))"

lemma effective_boot: "effective b [] (config_snapshot b)"
  by (auto simp: effective_def config_snapshot_snap snap_ok)

lemma dget_None_keys: "dget m k = None \<longleftrightarrow> k \<notin> set (dkeys m)"
  by (simp add: dkeys_def map_of_eq_None_iff)

lemma effective_step: "effective b cs v \<Longrightarrow> effective b (cs @ [c]) (applied_snapshot v (config_snapshot c))"
proof -
  assume "effective b cs v"
  then obtain m where m: "v = JObj m" "dict_ok m" "dkeys m = dkeys (snap b)"
    "\<And>k. dget m k = (if k \<in> set RELOADABLE then dget (snap (last (b # cs))) k else dget (snap b) k)" by (auto simp: effective_def)
  let ?f = "filter (\<lambda>(k, v). k \<notin> set RELOADABLE) m" and ?n = "dextend (snap c) (filter (\<lambda>(k, v). k \<notin> set RELOADABLE) m)"
  have f: "dict_ok ?f" using m(2) by (rule dict_ok_filter)
  have fk: "dget ?f k = (if k \<in> set RELOADABLE then None else dget m k)" for k
    using m(2) by (induction m) (auto simp: dict_ok_Cons map_of_eq_None_iff)
  have g: "dget ?n k = (if k \<in> set RELOADABLE then dget (snap c) k else dget (snap b) k)" for k
  proof -
    have "dget (snap c) k = None \<longleftrightarrow> dget (snap b) k = None" using snap_keys [of c b] by (simp only: dget_None_keys)
    then show ?thesis unfolding dget_dextend_dict [OF f] fk by (auto simp: m(4) split: option.splits)
  qed
  have k: "dkeys ?n = dkeys (snap b)"
  proof (rule sorted_distinct_set_unique)
    show "set (dkeys ?n) = set (dkeys (snap b))"
      using g snap_keys [of c b] by (auto simp: set_eq_iff) (metis dget_None_keys)+
  qed (use snap_ok [of b] dict_ok_dextend [OF snap_ok [of c], of ?f] in \<open>auto simp: dict_ok_def dkeys_def strict_sorted_iff\<close>)
  show ?thesis using k g by (auto simp: effective_def applied_snapshot_def m(1) config_snapshot_snap snap_ok)
qed

lemma effective_diff:
  assumes "effective b cs v" "reload_diff v (config_snapshot c) = (applied, restart)"
  shows "sorted applied \<and> distinct applied \<and> sorted restart \<and> distinct restart
    \<and> set applied = {k \<in> set RELOADABLE. dget (snap (last (b # cs))) k \<noteq> dget (snap c) k}
    \<and> set restart = {k. k \<notin> set RELOADABLE \<and> dget (snap b) k \<noteq> dget (snap c) k}"
proof -
  obtain m where m: "v = JObj m" "\<And>k. dget m k = (if k \<in> set RELOADABLE then dget (snap (last (b # cs))) k else dget (snap b) k)"
    using assms(1) by (auto simp: effective_def)
  let ?ks = "changed_keys m (snap c)"
  have ks: "sorted ?ks \<and> distinct ?ks \<and> set ?ks = {k. dget m k \<noteq> dget (snap c) k}"
    by (auto simp: changed_keys_def sorted_wrt_filter) (metis dget_None_keys)+
  have "applied = filter (\<lambda>k. k \<in> set RELOADABLE) ?ks" "restart = filter (\<lambda>k. k \<notin> set RELOADABLE) ?ks"
    using assms(2) by (auto simp: reload_diff_def m(1) config_snapshot_snap)
  then show ?thesis using ks m(2) by (auto simp: sorted_wrt_filter)
qed

section \<open>Reloads\<close>

text \<open>What a snapshot of a request changes: the policy that follows its file, the cache, the log.\<close>

lemma hot_keeps:
  assumes "hot now (p, ap) = (h, p', ap')"
  obtains ph hc lg where "ap' = ap\<lparr>as_policy := ph, as_hot := hc\<rparr>" "p' = p\<lparr>pr_log := lg\<rparr>"
proof -
  have "ap' = ap\<lparr>as_policy := as_policy ap', as_hot := as_hot ap'\<rparr>" "p' = p\<lparr>pr_log := pr_log p'\<rparr>"
    using assms by (auto simp: hot_def hot_fetch_def audit_def Let_def split: if_splits prod.splits)
  then show ?thesis by (rule that)
qed

lemma reload_200:
  assumes "reload cx unix now auth ip (p, ap) = (Inr r, p', ap')" "r_status r = 200" "resolve_config (pr_os p) (as_cli ap) = Inr c"
  obtains m p1 h0 p2 ap1 p3 ps where "is_admin auth (as_admins ap)" "open_dbs cx c (on_os (bridge_public_url c) p) = (Inr m, p1)"
    "hot now (p1, ap) = (h0, p2, ap1)" "p3 = set_audit_level c (on_os (bridge_local_env c) p2)"
    "open_auth_result cx (pr_os p3) (uc_auth c) (serving unix (the (dget m ''default''))) (p_identity (ht_policy h0)) = Inr ps"
    "reload_apply cx unix now (case auth of Some a \<Rightarrow> uid a | None \<Rightarrow> ''-'') ip c m ps (p3, ap1) = (r, p', ap')"
proof -
  have 1: "is_admin auth (as_admins ap)" using assms by (auto simp: reload_def Let_def forbidden_def err_def resp_def split: if_splits)
  obtain m p1 where 2: "open_dbs cx c (on_os (bridge_public_url c) p) = (Inr m, p1)"
    using assms 1 by (auto simp: reload_def Let_def reload_refused_def err_def resp_def split: prod.splits sum.splits)
  obtain h0 p2 ap1 where 3: "hot now (p1, ap) = (h0, p2, ap1)" by (metis prod_cases3)
  define p3 where "p3 = set_audit_level c (on_os (bridge_local_env c) p2)"
  obtain ps where 4: "open_auth_result cx (pr_os p3) (uc_auth c) (serving unix (the (dget m ''default''))) (p_identity (ht_policy h0)) = Inr ps"
    using assms 1 2 3 by (auto simp: reload_def Let_def reload_refused_def err_def resp_def p3_def split: prod.splits sum.splits)
  have "reload_apply cx unix now (case auth of Some a \<Rightarrow> uid a | None \<Rightarrow> ''-'') ip c m ps (p3, ap1) = (r, p', ap')"
    using assms 1 2 3 4 by (auto simp: reload_def Let_def p3_def split: prod.splits)
  then show ?thesis using that [OF 1 2 3 p3_def 4] by blast
qed

lemma set_level_keeps: "pr_store (set_audit_level c p) = pr_store p \<and> pr_os (set_audit_level c p) = pr_os p"
  by (simp add: set_audit_level_def split: sum.splits)

lemma reload_apply_last:
  assumes "reload_apply cx unix now admin ip c m ps (p, ap) = (r, p', ap')"
  obtains ks rs where "r = resp 200 (BJson (reload_body c ks rs))" "reload_diff (as_last ap) (config_snapshot c) = (ks, rs)"
    "as_last ap' = applied_snapshot (as_last ap) (config_snapshot c)"
proof -
  obtain h1 p1 ap1 where 1: "hot now (p, swap_opened m ps ap) = (h1, p1, ap1)" by (metis prod_cases3)
  obtain p2 ap2 where 2: "drain_pending unix (ht_dbs h1) (p1, ap1) = (p2, ap2)" by force
  obtain h2 p3 ap3 where 3: "hot now (p2, swap_settings cx c ap2) = (h2, p3, ap3)" by (metis prod_cases3)
  obtain ks rs where d: "reload_diff (as_last ap) (config_snapshot c) = (ks, rs)" by force
  obtain ph1 hc1 lg1 where k1: "ap1 = (swap_opened m ps ap)\<lparr>as_policy := ph1, as_hot := hc1\<rparr>" by (rule hot_keeps [OF 1])
  obtain ph3 hc3 lg3 where k3: "ap3 = (swap_settings cx c ap2)\<lparr>as_policy := ph3, as_hot := hc3\<rparr>" by (rule hot_keeps [OF 3])
  have "as_last ap2 = as_last ap1" using 2 by (auto simp: drain_pending_def Let_def split: prod.splits)
  then have "as_last ap3 = as_last ap" by (simp add: k1 k3 swap_opened_def swap_settings_def split: prod.splits)
  with assms 1 2 3 d have "r = resp 200 (BJson (reload_body c ks rs))" "ap' = ap3\<lparr>as_last := applied_snapshot (as_last ap) (config_snapshot c)\<rparr>"
    by (simp_all add: reload_apply_def Let_def)
  then show ?thesis using that d by simp
qed

text \<open>The life of a server: its boot, its reloads, and whatever leaves the remembered configuration alone.\<close>

inductive lived :: "'s openers \<Rightarrow> ub_config \<Rightarrow> ub_config list \<Rightarrow> 's app \<Rightarrow> bool" for cx :: "'s openers" where
  boot: "async_main cx unix now a p = (Serving ap, p') \<Longrightarrow> resolve_config (pr_os p) a = Inr b \<Longrightarrow> lived cx b [] ap"
| reload: "lived cx b cs ap \<Longrightarrow> reload cx unix now auth ip (p, ap) = (Inr r, p', ap') \<Longrightarrow> r_status r = 200 \<Longrightarrow>
    resolve_config (pr_os p) (as_cli ap) = Inr c \<Longrightarrow> lived cx b (cs @ [c]) ap'"
| other: "lived cx b cs ap \<Longrightarrow> as_last ap' = as_last ap \<Longrightarrow> lived cx b cs ap'"

lemma boot_last:
  assumes "async_main cx unix now a p = (Serving ap, p')" "resolve_config (pr_os p) a = Inr b"
  shows "as_last ap = config_snapshot b"
  using assms by (auto simp: async_main_def app_of_def Let_def split: if_splits prod.splits sum.splits)

lemma lived_effective: "lived cx b cs ap \<Longrightarrow> effective b cs (as_last ap)"
proof (induction rule: lived.induct)
  case (boot unix now a p ap p' b)
  then show ?case using boot_last effective_boot by metis
next
  case (reload b cs ap unix now auth ip p r p' ap' c)
  obtain m p1 h0 p2 ap1 p3 ps where *: "hot now (p1, ap) = (h0, p2, ap1)"
    "reload_apply cx unix now (case auth of Some a \<Rightarrow> uid a | None \<Rightarrow> ''-'') ip c m ps (p3, ap1) = (r, p', ap')"
    by (rule reload_200 [OF reload(2-4)])
  obtain ph hc lg where "ap1 = ap\<lparr>as_policy := ph, as_hot := hc\<rparr>" by (rule hot_keeps [OF *(1)])
  then have "effective b cs (as_last ap1)" using reload.IH by simp
  moreover obtain ks rs where "as_last ap' = applied_snapshot (as_last ap1) (config_snapshot c)" by (rule reload_apply_last [OF *(2)])
  ultimately show ?case using effective_step by simp
next
  case (other b cs ap ap')
  then show ?case by simp
qed

text \<open>
  C37. However often a server was reloaded since it was booted, a reload that succeeds reports as
  applied exactly the reloadable settings that differ from the last configuration applied, and as
  needing a restart exactly the others that differ from the configuration it was booted with: a
  change that needs one stays reported until there is one. Both lists are sorted and name each once.
\<close>

theorem reload_reports_what_differs:
  assumes "lived cx b cs ap" "reload cx unix now auth ip (p, ap) = (Inr r, p', ap')" "r_status r = 200"
    and "resolve_config (pr_os p) (as_cli ap) = Inr c"
  shows "\<exists>applied restart. r = resp 200 (BJson (reload_body c applied restart))
    \<and> sorted applied \<and> distinct applied \<and> sorted restart \<and> distinct restart
    \<and> set applied = {k \<in> set RELOADABLE. jget (config_snapshot (last (b # cs))) k \<noteq> jget (config_snapshot c) k}
    \<and> set restart = {k. k \<notin> set RELOADABLE \<and> jget (config_snapshot b) k \<noteq> jget (config_snapshot c) k}"
proof -
  obtain m p1 h0 p2 ap1 p3 ps where *: "hot now (p1, ap) = (h0, p2, ap1)"
    "reload_apply cx unix now (case auth of Some a \<Rightarrow> uid a | None \<Rightarrow> ''-'') ip c m ps (p3, ap1) = (r, p', ap')"
    by (rule reload_200 [OF assms(2-4)])
  obtain ph hc lg where "ap1 = ap\<lparr>as_policy := ph, as_hot := hc\<rparr>" by (rule hot_keeps [OF *(1)])
  then have e: "effective b cs (as_last ap1)" using lived_effective [OF assms(1)] by simp
  obtain ks rs where r: "r = resp 200 (BJson (reload_body c ks rs))" "reload_diff (as_last ap1) (config_snapshot c) = (ks, rs)"
    by (rule reload_apply_last [OF *(2)])
  show ?thesis
    using effective_diff [OF e r(2)] r(1) by (intro exI [of _ ks] exI [of _ rs]) (simp add: jget_def config_snapshot_snap)
qed

lemma reload_apply_200: "reload_apply cx unix now admin ip c m ps st = (r, st') \<Longrightarrow> r_status r = 200"
  by (auto simp: reload_apply_def resp_def Let_def split: prod.splits)

abbreviation root_user :: auth_context where
  "root_user \<equiv> \<lparr>uid = ''local:root'', extra = []\<rparr>"

lemma demo_reload:
  assumes "as_cli ap = demo_args" "as_admins ap = [''local:root'']"
  obtains r p' ap' where "reload demo_openers 0 0 (Some root_user) ''ip'' (demo_process (demo_secret s), ap) = (Inr r, p', ap')" "r_status r = 200"
proof -
  let ?c = "demo_config (demo_secret s)"
  obtain p1 where p1: "open_dbs demo_openers ?c (demo_process (demo_secret s)) =
      (Inr [(''default'', \<lparr>hn_driver = mem_driver 1, hn_store = ''./data/hako.ub''\<rparr>)], p1)" "pr_os p1 = demo_secret s"
    using demo_opened by (auto simp: demo_process_def)
  obtain h0 p2 ap1 where h: "hot 0 (p1, ap) = (h0, p2, ap1)" by (metis prod_cases3)
  obtain ph hc lg where k: "p2 = p1\<lparr>pr_log := lg\<rparr>" by (rule hot_keeps [OF h])
  let ?p3 = "set_audit_level ?c (on_os (bridge_local_env ?c) p2)"
  have o3: "pr_os ?p3 = bridge_local_env ?c (demo_secret s)" using k p1(2) by (simp add: on_os_def set_level_keeps)
  obtain r st where a: "reload_apply demo_openers 0 0 ''local:root'' ''ip'' ?c [(''default'', \<lparr>hn_driver = mem_driver 1, hn_store = ''./data/hako.ub''\<rparr>)]
      (([], \<lparr>uid_field = None, email_field = None\<rparr>), None, None) (?p3, ap1) = (r, st)" by (metis surj_pair)
  have b: "on_os (bridge_public_url ?c) (demo_process (demo_secret s)) = demo_process (demo_secret s)" "pr_os (demo_process (demo_secret s)) = demo_secret s"
    by (simp_all add: on_os_def demo_public demo_process_def)
  have "is_admin (Some root_user) (as_admins ap)" by (simp add: is_admin_def assms(2))
  then have "reload demo_openers 0 0 (Some root_user) ''ip'' (demo_process (demo_secret s), ap) = (Inr r, st)"
    by (simp add: reload_def Let_def b assms(1) demo_resolve p1(1) h o3 demo_config_fields demo_auth a del: One_nat_def)
  then show ?thesis using that reload_apply_200 [OF a] by (metis surj_pair)
qed

lemma reload_reports_what_differs_witness:
  "\<exists>b c applied restart (ap :: mem_db app) p' ap'. lived demo_openers b [] ap
    \<and> reload demo_openers 0 0 (Some root_user) ''ip'' (demo_process (demo_secret ''two''), ap) = (Inr (resp 200 (BJson (reload_body c applied restart))), p', ap')
    \<and> ''file_sign_secret'' \<in> set restart"
proof -
  let ?b = "demo_config (demo_secret ''one'')" and ?c = "demo_config (demo_secret ''two'')"
  obtain ap q where ap: "async_main demo_openers 0 0 demo_args (demo_process (demo_secret ''one'')) = (Serving ap, q)" "as_cli ap = demo_args"
    "as_admins ap = [''local:root'']" using demo_boot by blast
  have l: "lived demo_openers ?b [] ap" by (rule lived.boot [OF ap(1)]) (simp add: demo_process_def demo_resolve)
  obtain r p' ap' where r: "reload demo_openers 0 0 (Some root_user) ''ip'' (demo_process (demo_secret ''two''), ap) = (Inr r, p', ap')" "r_status r = 200"
    by (rule demo_reload [OF ap(2,3)])
  have res: "resolve_config (pr_os (demo_process (demo_secret ''two''))) (as_cli ap) = Inr ?c" by (simp add: demo_process_def ap(2) demo_resolve)
  have "jget (config_snapshot ?b) ''file_sign_secret'' \<noteq> jget (config_snapshot ?c) ''file_sign_secret''"
    by (simp add: config_snapshot_def jget_def dict_of_def dget_dextend snapshot_entries_def)
      (simp add: demo_config_def merge_config_def demo_secret_def file_secret_of_def trim_def trim_by_def is_space_def ch_def Let_def)
  then have "''file_sign_secret'' \<in> {k. k \<notin> set RELOADABLE \<and> jget (config_snapshot ?b) k \<noteq> jget (config_snapshot ?c) k}"
    by (simp add: RELOADABLE_def)
  moreover obtain applied restart where "r = resp 200 (BJson (reload_body ?c applied restart))"
    "set restart = {k. k \<notin> set RELOADABLE \<and> jget (config_snapshot ?b) k \<noteq> jget (config_snapshot ?c) k}"
    using reload_reports_what_differs [OF l r res] by blast
  ultimately show ?thesis using r(1) l by blast
qed

end
