(* ===== verification/ReloadProofs.thy ===== *)
theory ReloadProofs
  imports ConfigProofs
begin

text \<open>
  What a reload does to the running state: all of it or nothing, and what a restart would give. And
  the policy that is served follows its file.
\<close>

section \<open>The policy follows its file\<close>

fun policy_gets :: "os list \<Rightarrow> policy_hot \<Rightarrow> policy_file list" where
  "policy_gets [] ph = []"
| "policy_gets (h # hs) ph = (case policy_hot_get h ph of (f, ph', _) \<Rightarrow> f # policy_gets hs ph')"

text \<open>The specification: the last version of the file that could be loaded.\<close>

fun last_good :: "string \<Rightarrow> policy_file \<Rightarrow> os list \<Rightarrow> policy_file list" where
  "last_good path cur [] = []"
| "last_good path cur (h # hs) = (let f = (case os_policy h path of Inr f \<Rightarrow> f | Inl _ \<Rightarrow> cur) in f # last_good path f hs)"

text \<open>The time stamp of the file tells its versions apart.\<close>

definition stamps_tell :: "string \<Rightarrow> os set \<Rightarrow> bool" where
  "stamps_tell path S \<longleftrightarrow> (\<forall>h \<in> S. \<forall>h' \<in> S. os_mtime h path = os_mtime h' path \<longrightarrow> os_policy h path = os_policy h' path)"

lemma policy_gets_good:
  assumes "ph_path ph = Some path" "ph_policy ph = cur"
    and "first \<in> S" "ph_mtime ph = os_mtime first path" "\<And>f. os_policy first path = Inr f \<Longrightarrow> f = cur"
    and "stamps_tell path S" "set hs \<subseteq> S"
  shows "policy_gets hs ph = last_good path cur hs"
  using assms
proof (induction hs arbitrary: ph cur first)
  case (Cons h hs)
  have hs: "set hs \<subseteq> S" "h \<in> S" using Cons.prems(7) by auto
  have unchanged: "policy_gets hs ph = last_good path cur hs" by (rule Cons.IH [OF Cons.prems(1-6) hs(1)])
  show ?case
  proof (cases "ph_mtime ph = os_mtime h path")
    case True
    then have eq: "os_policy h path = os_policy first path"
      using Cons.prems(6,3) hs(2) trans [OF True [symmetric] Cons.prems(4)] unfolding stamps_tell_def by blast
    show ?thesis
    proof (cases "os_policy first path")
      case (Inl e)
      then show ?thesis using True eq unchanged Cons.prems(1,2) by (simp add: policy_hot_get_def)
    next
      case (Inr f)
      then show ?thesis using True eq unchanged Cons.prems(1,2) Cons.prems(5) [OF Inr] by (simp add: policy_hot_get_def)
    qed
  next
    case False
    show ?thesis
    proof (cases "os_policy h path")
      case (Inl e)
      then show ?thesis using unchanged Cons.prems(1,2) False by (simp add: policy_hot_get_def Let_def)
    next
      case (Inr f)
      have "policy_gets hs (ph\<lparr>ph_mtime := os_mtime h path, ph_policy := f\<rparr>) = last_good path f hs"
        by (rule Cons.IH [OF _ _ hs(2) _ _ Cons.prems(6) hs(1)]) (simp_all add: Cons.prems(1) Inr)
      then show ?thesis using Cons.prems(1) False Inr by (simp add: policy_hot_get_def Let_def)
    qed
  qed
qed simp


text \<open>A policy is loaded, broken, and mended.\<close>

definition demo_file :: "nat \<Rightarrow> policy_file option \<Rightarrow> os" where
  "demo_file t f = demo_os\<lparr>os_mtime := (\<lambda>_. Some t), os_policy := (\<lambda>_. case f of Some x \<Rightarrow> Inr x | None \<Rightarrow> Inl ''bad'')\<rparr>"


text \<open>
  Only the start has nothing to keep: with a file that cannot be loaded then, every request is
  judged by the open policy until the time stamp of the file changes.
\<close>

lemma broken_policy_opens:
  assumes "os_policy h path = Inl e" "os_mtime h' path = os_mtime h path"
  shows "fst (policy_hot_get h' (policy_hot_new h (Some path))) = policy_open"
  using assms by (simp add: policy_hot_get_def policy_hot_new_def)

section \<open>All or nothing\<close>

lemma open_driver_keeps:
  assumes "open_driver cx driver path serve peers ttl tailer p = (r, p')"
  shows "pr_bus p' = pr_bus p \<and> pr_os p' = pr_os p \<and> pr_level p' = pr_level p \<and> (\<forall>x. x \<noteq> path \<longrightarrow> pr_store p' x = pr_store p x)"
  using assms by (auto simp: open_driver_def split: prod.splits sum.splits)

lemma open_extras_keeps:
  "open_extras cx driver serve peers ttl ds m p = (r, p') \<Longrightarrow>
   pr_bus p' = pr_bus p \<and> pr_os p' = pr_os p \<and> pr_level p' = pr_level p \<and> (\<forall>x. x \<notin> snd ` set ds \<longrightarrow> pr_store p' x = pr_store p x)"
proof (induction cx driver serve peers ttl ds m p arbitrary: r p' rule: open_extras.induct)
  case (2 cx driver serve peers ttl n path rest m p)
  obtain r1 p1 where o: "open_driver cx driver path serve peers ttl None p = (r1, p1)" by force
  note k = open_driver_keeps [OF o]
  show ?case
  proof (cases r1)
    case (Inl e)
    then show ?thesis using "2.prems" o k by simp
  next
    case (Inr hn)
    then show ?thesis using "2.prems" "2.IH" [OF o [symmetric] Inr] o k by simp
  qed
qed simp

lemma open_dbs_keeps:
  assumes "open_dbs cx c p = (r, p')"
  shows "pr_bus p' = pr_bus p \<and> pr_os p' = pr_os p \<and> pr_level p' = pr_level p
    \<and> (\<forall>x. x \<notin> insert (uc_data c) (snd ` set (uc_databases c)) \<longrightarrow> pr_store p' x = pr_store p x)"
proof -
  obtain r1 p1 where o: "open_driver cx (uc_driver c) (uc_data c) (uc_sync_serve c) (uc_sync_peer c) (uc_ttl_sweep_secs c) (uc_cluster_tailer c) p = (r1, p1)"
    by force
  show ?thesis
    using assms o open_driver_keeps [OF o] by (cases r1) (auto simp: open_dbs_def dest!: open_extras_keeps)
qed

text \<open>
  C16. A reload that is not answered with 200, be it forbidden, refused, or ended by a panic over the
  configuration, leaves the whole state of the routes as it was: databases, providers, tokens,
  pending writes, limits, service keys, aliases, switches and the remembered configuration. At most
  the policy file was looked at and the snapshot refreshed, as any request does. Nothing is sent to
  subscribers, and no store is touched but those the new configuration opens.
\<close>

theorem reload_all_or_nothing:
  assumes "reload cx unix now auth ip (p, ap) = (res, p', ap')" "\<And>r. res = Inr r \<Longrightarrow> r_status r \<noteq> 200"
  shows "(\<exists>ph hc. ap' = ap\<lparr>as_policy := ph, as_hot := hc\<rparr>) \<and> (ap' = ap \<or> (\<exists>p1 h p2. hot now (p1, ap) = (h, p2, ap')))
    \<and> pr_bus p' = pr_bus p
    \<and> (\<forall>x. (\<forall>c. resolve_config (pr_os p) (as_cli ap) = Inr c \<longrightarrow> x \<notin> insert (uc_data c) (snd ` set (uc_databases c)))
        \<longrightarrow> pr_store p' x = pr_store p x)"
proof -
  have same: "\<exists>ph hc. ap = ap\<lparr>as_policy := ph, as_hot := hc\<rparr>" by (rule exI [of _ "as_policy ap"], rule exI [of _ "as_hot ap"]) simp
  show ?thesis
  proof (cases "is_admin auth (as_admins ap)")
    case False
    then show ?thesis using assms(1) same by (auto simp: reload_def Let_def audit_def)
  next
    case adm: True
    show ?thesis
    proof (cases "resolve_config (pr_os p) (as_cli ap)")
      case (Inl x)
      then show ?thesis using assms(1) adm same by (auto simp: reload_def Let_def)
    next
      case c: (Inr c)
      obtain r1 p1 where o: "open_dbs cx c (on_os (bridge_public_url c) p) = (r1, p1)" by force
      note ok = open_dbs_keeps [OF o]
      show ?thesis
      proof (cases r1)
        case (Inl e)
        then show ?thesis
          using assms(1) adm c o ok same by (auto simp: reload_def Let_def reload_refused_def audit_def on_os_def)
      next
        case m: (Inr m)
        obtain h0 p2 ap1 where h: "hot now (p1, ap) = (h0, p2, ap1)" by (metis prod_cases3)
        obtain ph hc lg where k: "ap1 = ap\<lparr>as_policy := ph, as_hot := hc\<rparr>" "p2 = p1\<lparr>pr_log := lg\<rparr>" by (rule hot_keeps [OF h])
        define p3 where "p3 = set_audit_level c (on_os (bridge_local_env c) p2)"
        have p3: "pr_bus p3 = pr_bus p1 \<and> pr_store p3 = pr_store p1"
          using k(2) by (simp add: p3_def set_audit_level_def on_os_def split: sum.splits)
        show ?thesis
        proof (cases "open_auth_result cx (pr_os p3) (uc_auth c) (serving unix (the (dget m ''default''))) (p_identity (ht_policy h0))")
          case (Inl e)
          then have "res = Inr (err 400 e)" "p' = audit [reload_event (case auth of Some a \<Rightarrow> uid a | None \<Rightarrow> ''-'') ip False e] p3" "ap' = ap1"
            using assms(1) adm c o m h by (auto simp: reload_def Let_def reload_refused_def p3_def)
          then show ?thesis using p3 ok c k(1) h by (auto simp: audit_def on_os_def)
        next
          case (Inr ps)
          obtain r st' where a: "reload_apply cx unix now (case auth of Some a \<Rightarrow> uid a | None \<Rightarrow> ''-'') ip c m ps (p3, ap1) = (r, st')" by (metis surj_pair)
          then have "res = Inr r" using assms(1) adm c o m h Inr by (auto simp: reload_def Let_def p3_def)
          then show ?thesis using assms(2) reload_apply_200 [OF a] by blast
        qed
      qed
    qed
  qed
qed

lemma reload_all_or_nothing_witness:
  "\<exists>(ap :: mem_db app) p'. reload demo_openers 0 0 (Some \<lparr>uid = ''u'', extra = []\<rparr>) ''ip'' (demo_process (demo_secret ''one''), ap) = (Inr forbidden, p', ap)
    \<and> pr_store p' ''x'' = mem_new"
proof -
  obtain ap q where ap: "async_main demo_openers 0 0 demo_args (demo_process (demo_secret ''one'')) = (Serving ap, q)" "as_cli ap = demo_args"
    "as_admins ap = [''local:root'']" using demo_boot by blast
  have "\<not> is_admin (Some \<lparr>uid = ''u'', extra = []\<rparr>) (as_admins ap)" by (simp add: is_admin_def ap(3))
  then obtain p' where r: "reload demo_openers 0 0 (Some \<lparr>uid = ''u'', extra = []\<rparr>) ''ip'' (demo_process (demo_secret ''one''), ap) = (Inr forbidden, p', ap)"
    by (simp add: reload_def Let_def)
  have "\<forall>x. (\<forall>c. resolve_config (pr_os (demo_process (demo_secret ''one''))) (as_cli ap) = Inr c \<longrightarrow> x \<notin> insert (uc_data c) (snd ` set (uc_databases c)))
      \<longrightarrow> pr_store p' x = pr_store (demo_process (demo_secret ''one'')) x"
    using reload_all_or_nothing [OF r] by (simp add: forbidden_def err_def resp_def)
  then have "pr_store p' ''x'' = mem_new" by (simp add: ap(2) demo_process_def demo_resolve demo_config_fields)
  then show ?thesis using r by blast
qed

text \<open>
  The environment and the audit level are outside of that state: they are set before the providers
  are opened, and a refusal does not set them back.
\<close>

lemma refused_reload_sets_level:
  assumes "is_admin auth (as_admins ap)" "resolve_config (pr_os p) (as_cli ap) = Inr c" "open_dbs cx c (on_os (bridge_public_url c) p) = (Inr m, p1)"
    and "\<And>h ident. open_auth_result cx h (uc_auth c) (serving unix (the (dget m ''default''))) ident = Inl e" "parse_level (uc_audit_level c) = Inr l"
  shows "\<exists>p' ap'. reload cx unix now auth ip (p, ap) = (Inr (err 400 e), p', ap') \<and> pr_level p' = l"
  using assms by (auto simp: reload_def reload_refused_def audit_def set_audit_level_def Let_def split: prod.splits)

text \<open>A configuration file that cannot be read ends the handler with a panic, not with a 400.\<close>

lemma unreadable_config_panics:
  assumes "is_admin auth (as_admins ap)" "ag_config (as_cli ap) = Some path" "os_read (pr_os p) path = Inl e"
  shows "reload cx unix now auth ip (p, ap) = (Inl (Panic (''[ub] could not read config '' @ path)), p, ap)"
  using assms by (simp add: reload_def resolve_config_def load_config_def config_path_def load_file_def)

text \<open>The sweepers of the databases before stay: every open adds to them and nothing takes one away.\<close>

lemma open_driver_sweepers: "open_driver cx driver path serve peers ttl tailer p = (r, p') \<Longrightarrow> \<exists>more. pr_sweepers p' = pr_sweepers p @ more"
  by (auto simp: open_driver_def split: prod.splits sum.splits)

lemma open_extras_sweepers: "open_extras cx driver serve peers ttl ds m p = (r, p') \<Longrightarrow> \<exists>more. pr_sweepers p' = pr_sweepers p @ more"
proof (induction cx driver serve peers ttl ds m p arbitrary: r p' rule: open_extras.induct)
  case (2 cx driver serve peers ttl n path rest m p)
  obtain r1 p1 where o: "open_driver cx driver path serve peers ttl None p = (r1, p1)" by force
  obtain new where "pr_sweepers p1 = pr_sweepers p @ new" using open_driver_sweepers [OF o] by blast
  then show ?case using "2.prems" "2.IH" [OF o [symmetric]] o by (cases r1) fastforce+
qed simp

lemma sweepers_pile_up:
  assumes "open_dbs cx c p = (Inr m, p')"
  shows "\<exists>more. pr_sweepers p' = pr_sweepers p @ more \<and> (0 < uc_ttl_sweep_secs c \<longrightarrow> more \<noteq> [])"
proof -
  obtain r1 p1 where o: "open_driver cx (uc_driver c) (uc_data c) (uc_sync_serve c) (uc_sync_peer c) (uc_ttl_sweep_secs c) (uc_cluster_tailer c) p = (r1, p1)"
    by force
  obtain hn where hn: "r1 = Inr hn" using assms o by (cases r1) (auto simp: open_dbs_def)
  then have new: "pr_sweepers p1 = pr_sweepers p @ (if 0 < uc_ttl_sweep_secs c then [(uc_data c, uc_ttl_sweep_secs c)] else [])"
    using o by (auto simp: open_driver_def split: prod.splits sum.splits)
  then show ?thesis using assms o hn open_extras_sweepers by (fastforce simp: open_dbs_def)
qed

section \<open>A reload is a restart\<close>

lemma open_driver_on_os:
  "open_driver cx driver path serve peers ttl tailer (on_os f p) = apsnd (on_os f) (open_driver cx driver path serve peers ttl tailer p)"
  by (auto simp: open_driver_def on_os_def split: prod.splits sum.splits)

lemma open_extras_on_os:
  "open_extras cx driver serve peers ttl ds m (on_os f p) = apsnd (on_os f) (open_extras cx driver serve peers ttl ds m p)"
proof (induction cx driver serve peers ttl ds m p rule: open_extras.induct)
  case (2 cx driver serve peers ttl n path rest m p)
  obtain r1 p1 where o: "open_driver cx driver path serve peers ttl None p = (r1, p1)" by force
  show ?case using "2.IH" [OF o [symmetric]] by (cases r1) (simp_all add: open_driver_on_os o)
qed simp

lemma open_dbs_on_os: "open_dbs cx c (on_os f p) = apsnd (on_os f) (open_dbs cx c p)"
  by (auto simp: open_dbs_def open_driver_on_os open_extras_on_os split: prod.splits sum.splits)

lemma bridged [simp]:
  "os_mtime (bridge_public_url c h) = os_mtime h" "os_policy (bridge_public_url c h) = os_policy h"
  "os_mtime (bridge_local_env c h) = os_mtime h" "os_policy (bridge_local_env c h) = os_policy h"
proof -
  have *: "os_mtime (set_env_if_unset k v h) = os_mtime h \<and> os_policy (set_env_if_unset k v h) = os_policy h" for k v h
    by (simp add: set_env_if_unset_def split: option.splits)
  then show "os_mtime (bridge_public_url c h) = os_mtime h" "os_policy (bridge_public_url c h) = os_policy h"
    by (simp_all add: bridge_public_url_def)
  show "os_mtime (bridge_local_env c h) = os_mtime h" "os_policy (bridge_local_env c h) = os_policy h"
    by (simp_all add: bridge_local_env_def *)
qed

lemma policy_hot_bridged [simp]:
  "policy_hot_get (bridge_public_url c h) ph = policy_hot_get h ph" "policy_hot_get (bridge_local_env c h) ph = policy_hot_get h ph"
  "policy_hot_new (bridge_public_url c h) path = policy_hot_new h path"
  by (auto simp: policy_hot_get_def policy_hot_new_def Let_def split: option.splits sum.splits)

lemma policy_new_get: "policy_hot_get h (policy_hot_new h path) = (ph_policy (policy_hot_new h path), policy_hot_new h path, [])"
  by (simp add: policy_hot_get_def policy_hot_new_def split: option.splits)

lemma set_level_env [simp]: "pr_store (set_audit_level c p) = pr_store p" "pr_os (set_audit_level c p) = pr_os p"
  by (simp_all add: set_audit_level_def split: sum.splits)

lemma provision_store: "pr_store (auto_provision_all unix m pol decls p) = provision_all unix (dkeys m) pol decls m (pr_store p)"
  by (simp add: auto_provision_all_def)

text \<open>The server serves the policy that is in the file the configuration names.\<close>

definition policy_current :: "instant \<Rightarrow> ub_config \<Rightarrow> 's process \<Rightarrow> 's app \<Rightarrow> bool" where
  "policy_current now c p ap \<longleftrightarrow> (let pol = ph_policy (policy_hot_new (pr_os p) (uc_rules c)) in
     policy_hot_get (pr_os p) (as_policy ap) = (pol, as_policy ap, []) \<and> (hc_fresh now (as_hot ap) \<longrightarrow> ht_policy (hc_hot (as_hot ap)) = pol))"

text \<open>The part of the state a reload replaces.\<close>

definition reloaded :: "'s app \<Rightarrow> (string, 's handle) dict \<times> 's providers \<times> (string list \<times> string list) \<times> path_alias list \<times> bool \<times> nat \<times> rt_caps \<times> replay_cache" where
  "reloaded ap = (as_dbs ap, (as_auth ap, as_local ap, as_github ap), as_service ap, as_aliases ap, as_read_only ap, as_max_batch ap, as_caps ap, as_replay ap)"

lemma reload_apply_result:
  assumes "reload_apply cx unix now admin ip c m ps (p, ap) = (r, p', ap')" "as_pending ap = []"
    and "policy_hot_get (pr_os p) (as_policy ap) = (pol, as_policy ap, [])"
  shows "reloaded ap' = (m, ps, service_build cx c, uc_aliases c, uc_read_only c, uc_max_batch_ops c, caps_of c, [])
    \<and> lm_quota (as_global ap') = quota_of (uc_limit_global c) \<and> lm_quota (as_strict ap') = quota_of (uc_limit_auth c)
    \<and> pr_store p' = provision_all unix (dkeys m) pol (uc_indexes c) m (pr_store p)"
proof -
  obtain chain l g where ps: "ps = (chain, l, g)" by (metis prod_cases3)
  show ?thesis
    using assms
    by (auto simp: reload_apply_def ps hot_def hot_fetch_def swap_opened_def swap_settings_def hc_invalidate_def hc_fresh_def hc_publish_def
        drain_pending_def audit_def provision_store reloaded_def set_quota_def SNAP_TTL_def Let_def split: prod.splits)
qed

text \<open>
  C15. After a successful reload of a server without pending writes, whose policy is that of its
  file, databases, providers, service keys, aliases, switches, limits and stores are what a fresh
  start in the same environment and with the same flags would give.
\<close>

theorem reload_is_restart:
  assumes "reload cx unix now auth ip (p, ap) = (Inr r, p', ap')" "r_status r = 200"
    and "async_main cx unix now (as_cli ap) p = (Serving fresh, q)" "resolve_config (pr_os p) (as_cli ap) = Inr c"
    and "as_pending ap = []" "policy_current now c p ap"
  shows "reloaded ap' = reloaded fresh \<and> lm_quota (as_global ap') = lm_quota (as_global fresh)
    \<and> lm_quota (as_strict ap') = lm_quota (as_strict fresh) \<and> pr_store p' = pr_store q"
proof -
  define pol where "pol = ph_policy (policy_hot_new (pr_os p) (uc_rules c))"
  have cur: "policy_hot_get (pr_os p) (as_policy ap) = (pol, as_policy ap, [])"
    "hc_fresh now (as_hot ap) \<Longrightarrow> ht_policy (hc_hot (as_hot ap)) = pol"
    using assms(6) by (simp_all add: policy_current_def pol_def Let_def)
  obtain m p1 h0 p2 ap1 p3 ps where R: "open_dbs cx c (on_os (bridge_public_url c) p) = (Inr m, p1)"
    "hot now (p1, ap) = (h0, p2, ap1)" "p3 = set_audit_level c (on_os (bridge_local_env c) p2)"
    "open_auth_result cx (pr_os p3) (uc_auth c) (serving unix (the (dget m ''default''))) (p_identity (ht_policy h0)) = Inr ps"
    "reload_apply cx unix now (case auth of Some a \<Rightarrow> uid a | None \<Rightarrow> ''-'') ip c m ps (p3, ap1) = (r, p', ap')"
    by (rule reload_200 [OF assms(1,2,4)])
  obtain p0 where o: "open_dbs cx c p = (Inr m, p0)" "p1 = on_os (bridge_public_url c) p0"
    using R(1) by (auto simp: open_dbs_on_os apsnd_def map_prod_def split: prod.splits)
  have os1: "pr_os p1 = bridge_public_url c (pr_os p)" using open_dbs_keeps [OF o(1)] o(2) by (simp add: on_os_def)
  obtain ph hc lg where k: "ap1 = ap\<lparr>as_policy := ph, as_hot := hc\<rparr>" "p2 = p1\<lparr>pr_log := lg\<rparr>" by (rule hot_keeps [OF R(2)])
  have h0: "ht_policy h0 = pol" "as_policy ap1 = as_policy ap"
    using R(2) cur os1 by (auto simp: hot_def hot_fetch_def hc_publish_def Let_def split: if_splits prod.splits)
  have os3: "pr_os p3 = bridge_local_env c (bridge_public_url c (pr_os p))" using R(3) k(2) os1 by (simp add: on_os_def)
  have st3: "pr_store p3 = pr_store p0" using R(3) k(2) o(2) by (simp add: on_os_def)
  have A: "reloaded ap' = (m, ps, service_build cx c, uc_aliases c, uc_read_only c, uc_max_batch_ops c, caps_of c, [])
    \<and> lm_quota (as_global ap') = quota_of (uc_limit_global c) \<and> lm_quota (as_strict ap') = quota_of (uc_limit_auth c)
    \<and> pr_store p' = provision_all unix (dkeys m) pol (uc_indexes c) m (pr_store p0)"
    using reload_apply_result [OF R(5), of pol] assms(5) cur(1) h0(2) k(1) os3 st3 by simp
  have os0: "pr_os p0 = pr_os p" using open_dbs_keeps [OF o(1)] by simp
  have auth: "open_auth_result cx (bridge_local_env c (bridge_public_url c (pr_os p))) (uc_auth c) (serving unix (the (dget m ''default''))) (p_identity pol) = Inr ps"
    using R(4) os3 h0(1) by simp
  have B: "reloaded fresh = (m, ps, service_build cx c, uc_aliases c, uc_read_only c, uc_max_batch_ops c, caps_of c, [])
    \<and> lm_quota (as_global fresh) = quota_of (uc_limit_global c) \<and> lm_quota (as_strict fresh) = quota_of (uc_limit_auth c)
    \<and> pr_store q = provision_all unix (dkeys m) pol (uc_indexes c) m (pr_store p0)"
    using assms(3,4) o(1) auth
    by (auto simp: async_main_def app_of_def on_os_def os0 policy_new_get audit_def provision_store reloaded_def limiter_new_def Let_def
        auto_provision_all_def pol_def split: if_splits sum.splits prod.splits)
  show ?thesis using A B by simp
qed

lemma reload_is_restart_witness:
  "\<exists>(ap :: mem_db app) p' ap' fresh q r. reload demo_openers 0 0 (Some root_user) ''ip'' (demo_process (demo_secret ''two''), ap) = (Inr r, p', ap')
    \<and> async_main demo_openers 0 0 demo_args (demo_process (demo_secret ''two'')) = (Serving fresh, q) \<and> reloaded ap' = reloaded fresh"
proof -
  let ?c = "demo_config (demo_secret ''two'')"
  obtain ap q0 where ap: "async_main demo_openers 0 0 demo_args (demo_process (demo_secret ''one'')) = (Serving ap, q0)" "as_cli ap = demo_args"
    "as_admins ap = [''local:root'']" "as_pending ap = []" "as_policy ap = policy_hot_new (demo_secret ''one'') None"
    "ht_policy (hc_hot (as_hot ap)) = policy_open" using demo_boot by blast
  obtain fresh q where f: "async_main demo_openers 0 0 demo_args (demo_process (demo_secret ''two'')) = (Serving fresh, q)" using demo_boot by blast
  obtain r p' ap' where r: "reload demo_openers 0 0 (Some root_user) ''ip'' (demo_process (demo_secret ''two''), ap) = (Inr r, p', ap')" "r_status r = 200"
    by (rule demo_reload [OF ap(2,3)])
  have "reloaded ap' = reloaded fresh"
    using reload_is_restart [OF r, of fresh q ?c] f ap
    by (simp add: demo_resolve policy_current_def policy_hot_get_def policy_hot_new_def demo_config_fields) (simp add: demo_process_def demo_resolve)
  then show ?thesis using r(1) f by blast
qed

section \<open>What a reload does not do\<close>

text \<open>
  The service keys are swapped after the snapshot was refreshed for the drain: the snapshot that is
  served from then on, for up to a second after the answer, still holds the keys of before.
\<close>

lemma old_service_keys_served:
  assumes "reload_apply cx unix now admin ip c m ps (p, ap) = (r, p', ap')"
  shows "hc_fresh now (as_hot ap') \<and> ht_service (hc_hot (as_hot ap')) = as_service ap"
  using assms
  by (auto simp: reload_apply_def hot_def hot_fetch_def swap_opened_def swap_settings_def hc_invalidate_def hc_fresh_def hc_publish_def
      drain_pending_def SNAP_TTL_def Let_def split: prod.splits)

text \<open>
  What the drain cannot store is gone, unlike in a flush: afterwards nothing is pending, whatever
  the driver answered.
\<close>

lemma drained_is_gone: "fst (snd (co_flush_all f co k s)) = []"
  by (induction f co k s rule: co_flush_all.induct) (auto split: prod.splits bool.splits)

lemma refused_drain_loses:
  assumes "\<And>s. db_set (serving unix hn) s ''c'' ''i'' \<lparr>d_id = ''i'', d_data = body\<rparr> True = (Inl e, s)" "\<And>s. db_get (serving unix hn) s ''c'' ''i'' = Inr None"
    and "as_pending ap = [((''c'', ''i''), pd)]" "pd_body pd = body"
  shows "drain_pending unix [(''default'', hn)] (p, ap) = (p, ap\<lparr>as_pending := []\<rparr>)"
proof -
  have "p\<lparr>pr_store := (pr_store p)(x := pr_store p x)\<rparr> = p" for x by simp
  then show ?thesis using assms
    by (simp add: drain_pending_def drain_write_def flush_target_def Let_def split: bool.splits)
qed

text \<open>The settings of the local accounts go into the environment once: later ones of the file do not count.\<close>

lemma set_env_sticky: "os_env (set_env_if_unset k (Some v) h) k = Some (case os_env h k of Some w \<Rightarrow> w | None \<Rightarrow> v)"
  by (simp add: set_env_if_unset_def split: option.splits)

lemma set_env_other: "j \<noteq> k \<Longrightarrow> os_env (set_env_if_unset j v h) k = os_env h k"
  by (simp add: set_env_if_unset_def split: option.splits)

lemma bridge_is_sticky:
  "os_env (bridge_local_env c' (bridge_local_env c h)) ''UB_LOCAL_ACCESS_TTL'' = os_env (bridge_local_env c h) ''UB_LOCAL_ACCESS_TTL''"
  by (simp add: bridge_local_env_def set_env_other set_env_sticky)

text \<open>A level that is no level leaves the one before, not "all" as is printed.\<close>

lemma unknown_level_keeps: "pr_level (set_audit_level (c\<lparr>uc_audit_level := ''al''\<rparr>) p) = pr_level p"
  by (simp add: set_audit_level_def parse_level_def)

text \<open>The floors of the dry validation are not floors of a start: with \<open>max_batch_ops = 0\<close> a server serves.\<close>

lemma floor_not_enforced:
  assumes "async_main cx unix now a p = (Serving ap, q)" "resolve_config (pr_os p) a = Inr c" "uc_max_batch_ops c = 0"
  shows "as_max_batch ap = 0 \<and> check_floors c \<noteq> Inr ()"
  using assms by (auto simp: async_main_def app_of_def check_floors_def Let_def split: if_splits prod.splits sum.splits)

text \<open>Without a file the plain listener of the loopback is off, with an empty one it is on.\<close>

lemma default_of_default: "fc_plain_loopback file_default \<noteq> default_plain_loopback"
  by (simp add: file_default_def default_plain_loopback_def)

text \<open>The replay cache starts anew: a proof accepted before a reload is accepted again after it.\<close>

lemma reload_forgets_proofs:
  assumes "reload_apply cx unix now admin ip c m ps (p, ap) = (r, p', ap')"
  shows "fst (replay_check later jti (as_replay ap')) = Inr ()"
proof -
  have "as_replay ap' = []"
    using assms
    by (auto simp: reload_apply_def hot_def hot_fetch_def swap_opened_def swap_settings_def drain_pending_def Let_def split: prod.splits if_splits)
  then show ?thesis by (simp add: replay_check_def dretain_def REPLAY_CAP_def)
qed

end
