(* ===== verification/Snapshots.thy ===== *)
theory Snapshots
  imports Startup
begin

text \<open>
  The hot snapshot under concurrency (crates/hakobackend-server/src/main.rs, \<open>HotCache::get\<close>): any
  number of requests refresh it at the same time, each reading the parts one after the other while
  the rest of the server changes them. \<open>W t\<close> is what the state holds at instant \<open>t\<close>; no refresh
  takes longer than \<open>D\<close>.
\<close>

section \<open>Steps\<close>

datatype hot_part = PolicyPart | DbPart | DbsPart | AuthPart | ServicePart | LocalPart

definition FETCH_ORDER :: "hot_part list" where
  "FETCH_ORDER = [PolicyPart, DbPart, DbsPart, AuthPart, ServicePart, LocalPart]"

record 'v fetch =
  ft_since :: instant
  ft_got :: "(hot_part \<times> 'v) list"

record 'v snaps =
  sn_now :: instant
  sn_cache :: "(hot_part \<Rightarrow> 'v) hot_cache"
  sn_fetches :: "'v fetch list"
  sn_served :: "(instant \<times> (hot_part \<Rightarrow> 'v)) list"

definition fetched :: "'v fetch \<Rightarrow> hot_part \<Rightarrow> 'v" where
  "fetched f part = the (map_of (ft_got f) part)"

inductive snap_reach :: "(instant \<Rightarrow> hot_part \<Rightarrow> 'v) \<Rightarrow> nat \<Rightarrow> 'v snaps \<Rightarrow> bool" for W :: "instant \<Rightarrow> hot_part \<Rightarrow> 'v" and D :: nat where
  start: "snap_reach W D \<lparr>sn_now = t, sn_cache = hot_cache_new t (W t), sn_fetches = [], sn_served = []\<rparr>"
| tick: "snap_reach W D s \<Longrightarrow> sn_now s \<le> t \<Longrightarrow> snap_reach W D (s\<lparr>sn_now := t\<rparr>)"
| hit: "snap_reach W D s \<Longrightarrow> hc_fresh (sn_now s) (sn_cache s) \<Longrightarrow>
    snap_reach W D (s\<lparr>sn_served := (sn_now s, hc_hot (sn_cache s)) # sn_served s\<rparr>)"
| miss: "snap_reach W D s \<Longrightarrow> \<not> hc_fresh (sn_now s) (sn_cache s) \<Longrightarrow>
    snap_reach W D (s\<lparr>sn_fetches := \<lparr>ft_since = sn_now s, ft_got = []\<rparr> # sn_fetches s\<rparr>)"
| collect: "snap_reach W D s \<Longrightarrow> sn_fetches s = xs @ f # ys \<Longrightarrow> map fst (ft_got f) @ part # rest = FETCH_ORDER \<Longrightarrow>
    snap_reach W D (s\<lparr>sn_fetches := xs @ f\<lparr>ft_got := ft_got f @ [(part, W (sn_now s) part)]\<rparr> # ys\<rparr>)"
| publish: "snap_reach W D s \<Longrightarrow> sn_fetches s = xs @ f # ys \<Longrightarrow> map fst (ft_got f) = FETCH_ORDER \<Longrightarrow> sn_now s - ft_since f \<le> D \<Longrightarrow>
    hc_publish (sn_now s) (fetched f) (sn_cache s) = (out, c) \<Longrightarrow>
    snap_reach W D (s\<lparr>sn_cache := c, sn_fetches := xs @ ys, sn_served := (sn_now s, out) # sn_served s\<rparr>)"
| invalidate: "snap_reach W D s \<Longrightarrow> snap_reach W D (s\<lparr>sn_cache := hc_invalidate (sn_cache s)\<rparr>)"

section \<open>Staleness\<close>

text \<open>Every part was current within the last \<open>k\<close>.\<close>

definition recent :: "(instant \<Rightarrow> hot_part \<Rightarrow> 'v) \<Rightarrow> nat \<Rightarrow> instant \<Rightarrow> (hot_part \<Rightarrow> 'v) \<Rightarrow> bool" where
  "recent W k t hot \<longleftrightarrow> (\<forall>part. \<exists>u. u \<le> t \<and> t \<le> u + k \<and> hot part = W u part)"

definition fetch_ok :: "(instant \<Rightarrow> hot_part \<Rightarrow> 'v) \<Rightarrow> instant \<Rightarrow> 'v fetch \<Rightarrow> bool" where
  "fetch_ok W t f \<longleftrightarrow> ft_since f \<le> t \<and> (\<forall>(part, v) \<in> set (ft_got f). \<exists>u. ft_since f \<le> u \<and> u \<le> t \<and> v = W u part)"

definition snap_ok_at :: "(instant \<Rightarrow> hot_part \<Rightarrow> 'v) \<Rightarrow> nat \<Rightarrow> 'v snaps \<Rightarrow> bool" where
  "snap_ok_at W D s \<longleftrightarrow> (\<forall>t. hc_at (sn_cache s) = Some t \<longrightarrow> t \<le> sn_now s \<and> recent W D t (hc_hot (sn_cache s)))
     \<and> (\<forall>f \<in> set (sn_fetches s). fetch_ok W (sn_now s) f)
     \<and> (\<forall>(t, hot) \<in> set (sn_served s). \<forall>part. \<exists>u. u \<le> t \<and> t < u + SNAP_TTL + D \<and> hot part = W u part)"

lemma fetch_ok_later: "fetch_ok W t f \<Longrightarrow> t \<le> t' \<Longrightarrow> fetch_ok W t' f"
  unfolding fetch_ok_def by (fastforce dest: le_trans)

lemma fetched_recent:
  assumes "fetch_ok W t f" "map fst (ft_got f) = FETCH_ORDER" "t - ft_since f \<le> D"
  shows "recent W D t (fetched f)"
  unfolding recent_def
proof
  fix part
  have "part \<in> set FETCH_ORDER" by (cases part) (simp_all add: FETCH_ORDER_def)
  then have "part \<in> fst ` set (ft_got f)" using assms(2) by (metis list.set_map)
  then obtain v where v: "map_of (ft_got f) part = Some v" by (metis map_of_eq_None_iff not_Some_eq)
  then obtain u where "ft_since f \<le> u" "u \<le> t" "v = W u part" using assms(1) map_of_SomeD [OF v] unfolding fetch_ok_def by blast
  then show "\<exists>u. u \<le> t \<and> t \<le> u + D \<and> fetched f part = W u part" using assms(3) v by (intro exI [of _ u]) (auto simp: fetched_def)
qed

lemma fresh_served:
  assumes "hc_fresh now c" "hc_at c = Some t" "t \<le> now" "recent W D t (hc_hot c)"
  shows "\<exists>u. u \<le> now \<and> now < u + SNAP_TTL + D \<and> hc_hot c part = W u part"
proof -
  obtain u where "u \<le> t" "t \<le> u + D" "hc_hot c part = W u part" using assms(4) unfolding recent_def by blast
  moreover have "now - t < SNAP_TTL" using assms(1,2) by (simp add: hc_fresh_def)
  ultimately show ?thesis using assms(3) by (intro exI [of _ u]) auto
qed

text \<open>
  C38. However many requests refresh it at the same time, and whatever changes in between, every
  part of every snapshot a request is served was current less than one second and the duration of a
  refresh before.
\<close>

theorem snapshots_are_recent:
  assumes "snap_reach W D s" "(t, hot) \<in> set (sn_served s)"
  shows "\<exists>u. u \<le> t \<and> t < u + SNAP_TTL + D \<and> hot part = W u part"
proof -
  have "snap_ok_at W D s"
    using assms(1)
  proof (induction rule: snap_reach.induct)
    case (start t)
    then show ?case by (auto simp: snap_ok_at_def hot_cache_new_def recent_def)
  next
    case (tick s t)
    then show ?case by (fastforce simp: snap_ok_at_def intro: fetch_ok_later le_trans)
  next
    case (hit s)
    then obtain t where "hc_at (sn_cache s) = Some t" by (auto simp: hc_fresh_def split: option.splits)
    then show ?case using hit fresh_served [OF hit(2)] by (auto simp: snap_ok_at_def)
  next
    case (miss s)
    then show ?case by (auto simp: snap_ok_at_def fetch_ok_def)
  next
    case (collect s xs f ys part rest)
    then have "fetch_ok W (sn_now s) f" by (simp add: snap_ok_at_def)
    then have "fetch_ok W (sn_now s) (f\<lparr>ft_got := ft_got f @ [(part, W (sn_now s) part)]\<rparr>)" by (auto simp: fetch_ok_def)
    then show ?case using collect by (auto simp: snap_ok_at_def)
  next
    case (publish s xs f ys out c)
    have r: "recent W D (sn_now s) (fetched f)"
      by (rule fetched_recent) (use publish in \<open>auto simp: snap_ok_at_def\<close>)
    show ?case
    proof (cases "hc_fresh (sn_now s) (sn_cache s)")
      case True
      then obtain t where "hc_at (sn_cache s) = Some t" by (auto simp: hc_fresh_def split: option.splits)
      then show ?thesis using True publish fresh_served [OF True] by (auto simp: snap_ok_at_def hc_publish_def)
    next
      case False
      have "\<exists>u. u \<le> sn_now s \<and> sn_now s < u + SNAP_TTL + D \<and> fetched f part = W u part" for part
      proof -
        obtain u where "u \<le> sn_now s" "sn_now s \<le> u + D" "fetched f part = W u part" using r unfolding recent_def by blast
        then show ?thesis by (intro exI [of _ u]) (auto simp: SNAP_TTL_def)
      qed
      then show ?thesis using False publish r by (auto simp: snap_ok_at_def hc_publish_def)
    qed
  next
    case (invalidate s)
    then show ?case by (auto simp: snap_ok_at_def hc_invalidate_def)
  qed
  then show ?thesis using assms(2) by (auto simp: snap_ok_at_def)
qed

lemma snapshots_are_recent_witness:
  "\<exists>s. snap_reach (\<lambda>(t :: nat) (_ :: hot_part). if t < 5 then 0 else (1 :: nat)) 0 s \<and> sn_served s = [(3, \<lambda>_. 0)]
    \<and> (\<exists>u. u \<le> (3 :: nat) \<and> 3 < u + SNAP_TTL \<and> 0 = (if u < 5 then 0 else (1 :: nat)))"
proof -
  let ?W = "\<lambda>(t :: nat) (_ :: hot_part). if t < 5 then 0 else (1 :: nat)"
  define s where "s = \<lparr>sn_now = 3, sn_cache = hot_cache_new 0 (?W 0), sn_fetches = [], sn_served = [(3, \<lambda>_. 0)]\<rparr>"
  have "snap_reach ?W 0 s"
    using snap_reach.hit [OF snap_reach.tick [OF snap_reach.start [of ?W 0 0], of 3]]
    by (simp add: s_def hot_cache_new_def hc_fresh_def SNAP_TTL_def)
  moreover from this have "\<exists>u. u \<le> 3 \<and> 3 < u + SNAP_TTL + 0 \<and> (\<lambda>_. 0) PolicyPart = ?W u PolicyPart"
    by (rule snapshots_are_recent) (simp add: s_def)
  ultimately show ?thesis by (intro exI [of _ s]) (simp add: s_def)
qed

section \<open>What an invalidation does not do\<close>

text \<open>
  It does not reach a refresh that is under way: what was read before is published after it as a
  fresh snapshot, and served for a second more.
\<close>

lemma refresh_survives_invalidation:
  assumes "snap_reach W D s" "sn_fetches s = xs @ f # ys" "map fst (ft_got f) = FETCH_ORDER" "sn_now s - ft_since f \<le> D"
  shows "\<exists>s'. snap_reach W D s' \<and> sn_now s' = sn_now s \<and> sn_cache s' = \<lparr>hc_at = Some (sn_now s), hc_hot = fetched f\<rparr>
    \<and> hc_fresh (sn_now s + 999999999) (sn_cache s')"
proof -
  let ?i = "s\<lparr>sn_cache := hc_invalidate (sn_cache s)\<rparr>"
  have "snap_reach W D ?i" by (rule snap_reach.invalidate [OF assms(1)])
  then have "snap_reach W D (?i\<lparr>sn_cache := \<lparr>hc_at = Some (sn_now s), hc_hot = fetched f\<rparr>, sn_fetches := xs @ ys,
      sn_served := (sn_now s, fetched f) # sn_served s\<rparr>)"
    using snap_reach.publish [of W D ?i xs f ys "fetched f"] assms(2-4)
    by (simp add: hc_publish_def hc_fresh_def hc_invalidate_def)
  then show ?thesis by (fastforce simp: hc_fresh_def SNAP_TTL_def)
qed

end
