(* ===== verification/Hako.thy ===== *)
theory Hako
  imports Database
begin

text \<open>
  The HakoDB driver, the default one (crates/hakobackend-db-hako/src/lib.rs). The engine is another
  crate: its values are a datatype with the constructors the driver makes and reads, and the engine
  is a record of the calls the driver makes, over the state of the engine. Where an operation calls
  it more than once, other tasks run in between: \<open>V n\<close> is the state its \<open>n\<close>-th read finds. The
  JSON printer is a parameter too. The peering over sockets and the threads of the change feed are
  not modelled; what the feed makes of one event is.
\<close>

section \<open>Values\<close>

datatype hvalue = HNull | HBool bool | HInt int | HFloat f64 | HString string | HArray "hvalue list"
  | HMap "(string \<times> hvalue) list" | HReference string string | HBinary string

type_synonym hdoc = "(string, hvalue) dict"

definition reference_of :: "(string, json) dict \<Rightarrow> (string \<times> string) option" where
  "reference_of m = (case Option.bind (dget m ''__ref__'') as_str of
     None \<Rightarrow> None
   | Some path \<Rightarrow> (case split_once (CHR ''/'') path of
       Some (c, i) \<Rightarrow> if c \<noteq> [] \<and> i \<noteq> [] then Some (c, i) else None
     | None \<Rightarrow> None))"

text \<open>A number that is no \<open>i64\<close> is a float; a number always has a float value, so it is never printed.\<close>

fun json_to_value :: "json \<Rightarrow> hvalue" where
  "json_to_value JNull = HNull"
| "json_to_value (JBool b) = HBool b"
| "json_to_value (JNum n) = (case as_i64 (JNum n) of Some i \<Rightarrow> HInt i | None \<Rightarrow> HFloat (num_f64 n))"
| "json_to_value (JStr s) = HString s"
| "json_to_value (JArr a) = HArray (map json_to_value a)"
| "json_to_value (JObj m) = (case reference_of m of
     Some (c, i) \<Rightarrow> HReference c i
   | None \<Rightarrow> HMap (map (\<lambda>(k, v). (k, json_to_value v)) m))"

section \<open>The engine\<close>

datatype hk_op = HkEq | HkNe | HkGt | HkLt | HkGte | HkLte | HkArrayContains | HkArrayContainsAny | HkIn

record hk_filter =
  hf_field :: string
  hf_op :: hk_op
  hf_value :: hvalue

datatype hk_aggregate = HkCount | HkSum string | HkAvg string

record hk_query =
  hq_collection :: string
  hq_filters :: "hk_filter list"
  hq_order :: "(string \<times> bool) list"
  hq_limit :: "nat option"
  hq_offset :: "nat option"
  hq_aggregate :: "hk_aggregate option"

definition hk_query_new :: "string \<Rightarrow> hk_query" where
  "hk_query_new c = \<lparr>hq_collection = c, hq_filters = [], hq_order = [], hq_limit = None, hq_offset = None, hq_aggregate = None\<rparr>"

record hk_softdel =
  sd_col :: string
  sd_id :: string
  sd_deleted_at :: int
  sd_scheduled_at :: int
  sd_bytes :: nat

record hk_indexes =
  hl_simple :: "(string, string list) dict"
  hl_secondary :: "(string, string list) dict"
  hl_fts :: "(string, string list) dict"
  hl_composite :: "string list list"
  hl_vector :: "(string, (string \<times> nat) list) dict"
  hl_traverse :: "string list"

record hk_traverse =
  tv_direction :: traverse_direction
  tv_edge_field :: "string option"
  tv_max_depth :: nat
  tv_limit :: nat
  tv_via_edge :: "string option"
  tv_weight_field :: "string option"

record hk_hit =
  hh_collection :: string
  hh_id :: string
  hh_depth :: nat
  hh_cost :: fl
  hh_doc :: hdoc

datatype hk_event = EvPut string | EvDelete string

text \<open>What a transaction did, in its order: the reads with what they found, and the staged writes.\<close>

datatype tx_call = CallGet string string "hdoc option" | CallPut string string hdoc | CallDelete string string

record 's engine =
  en_get :: "'s \<Rightarrow> string \<Rightarrow> string \<Rightarrow> (string, hdoc option) result"
  en_get_json :: "'s \<Rightarrow> string \<Rightarrow> string \<Rightarrow> (string, (nat \<times> string) option) result"
  en_version :: "'s \<Rightarrow> string \<Rightarrow> nat option"
  en_put :: "'s \<Rightarrow> string \<Rightarrow> string \<Rightarrow> hdoc \<Rightarrow> (string, unit) result \<times> 's"
  en_delete :: "'s \<Rightarrow> string \<Rightarrow> string \<Rightarrow> (string, unit) result \<times> 's"
  en_delete_force :: "'s \<Rightarrow> string \<Rightarrow> string \<Rightarrow> (string, unit) result \<times> 's"
  en_restore :: "'s \<Rightarrow> string \<Rightarrow> string \<Rightarrow> (string, unit) result \<times> 's"
  en_query :: "'s \<Rightarrow> hk_query \<Rightarrow> (string, (string \<times> hdoc) list) result"
  en_aggregate :: "'s \<Rightarrow> hk_query \<Rightarrow> (string, (string, f64) dict) result"
  en_list_collections :: "'s \<Rightarrow> (string, string list) result"
  en_restore_available :: "'s \<Rightarrow> string option \<Rightarrow> (string, hk_softdel list) result"
  en_delete_queue :: "'s \<Rightarrow> string option \<Rightarrow> (string, hk_softdel list) result"
  en_sweep_now :: "'s \<Rightarrow> (string, nat) result \<times> 's"
  en_relocate :: "'s \<Rightarrow> string \<Rightarrow> string \<Rightarrow> string list \<Rightarrow> (string, string list \<times> string list) result \<times> 's"
  en_load :: "'s \<Rightarrow> string \<Rightarrow> (string, unit) result \<times> 's"
  en_unload :: "'s \<Rightarrow> string \<Rightarrow> (string, unit) result \<times> 's"
  en_unloaded :: "'s \<Rightarrow> string list"
  en_create_index :: "'s \<Rightarrow> string \<Rightarrow> string \<Rightarrow> (string, unit) result \<times> 's"
  en_create_composite :: "'s \<Rightarrow> string \<Rightarrow> string list \<Rightarrow> (string, unit) result \<times> 's"
  en_create_fts :: "'s \<Rightarrow> string \<Rightarrow> string \<Rightarrow> (string, unit) result \<times> 's"
  en_create_vector :: "'s \<Rightarrow> string \<Rightarrow> string \<Rightarrow> nat \<Rightarrow> vector_metric \<Rightarrow> (string, unit) result \<times> 's"
  en_create_traverse :: "'s \<Rightarrow> string \<Rightarrow> (string, unit) result \<times> 's"
  en_create_edge :: "'s \<Rightarrow> string \<Rightarrow> (string, unit) result \<times> 's"
  en_list_indexes :: "'s \<Rightarrow> string option \<Rightarrow> hk_indexes"
  en_find_paths :: "'s \<Rightarrow> string \<Rightarrow> string \<Rightarrow> hk_traverse \<Rightarrow> (string, hk_hit list) result"
  en_vector_metric :: "'s \<Rightarrow> string \<Rightarrow> string \<Rightarrow> vector_metric option"
  en_find_near :: "'s \<Rightarrow> string \<Rightarrow> string \<Rightarrow> fl list \<Rightarrow> nat \<Rightarrow> (string, (string \<times> hdoc) list) result"
  en_tx_get :: "'s \<Rightarrow> string \<Rightarrow> string \<Rightarrow> (string, hdoc option) result"
  en_commit :: "'s \<Rightarrow> tx_call list \<Rightarrow> (string, unit) result \<times> 's"
  en_to_json :: "hdoc \<Rightarrow> json"
  en_encode :: "fl list \<Rightarrow> string"
  en_decode :: "string \<Rightarrow> fl list option"
  en_distance :: "vector_metric \<Rightarrow> fl list \<Rightarrow> fl list \<Rightarrow> fl"
  en_print :: "json \<Rightarrow> string"

text \<open>The driver: the engine, and the unique and the vector fields of the collections; without its channels and peers.\<close>

record 's hako_db =
  hk_inner :: 's
  hk_unique :: "(string, string list) dict"
  hk_vectors :: "(string, (string \<times> nat) list) dict"

section \<open>Documents\<close>

text \<open>The array of a vector field of exactly the declared length, as \<open>f32\<close> numbers.\<close>

definition vector_of :: "json option \<Rightarrow> nat \<Rightarrow> fl list option" where
  "vector_of v n = (case v of
     Some (JArr items) \<Rightarrow> if length items mod 2 ^ 32 = n then collect_opt (map (\<lambda>x. map_option fl32 (as_f64 x)) items) else None
   | _ \<Rightarrow> None)"

definition to_hako_vector :: "'s engine \<Rightarrow> doc \<Rightarrow> (string \<times> nat) list \<Rightarrow> hdoc" where
  "to_hako_vector E d fs =
     foldl (\<lambda>h (field, n). case vector_of (dget (d_data d) field) n of
         Some v \<Rightarrow> dput field (HBinary (en_encode E v)) h | None \<Rightarrow> h)
       (dict_of (map (\<lambda>(k, v). (k, json_to_value v)) (d_data d))) fs"

definition to_hako :: "'s engine \<Rightarrow> doc \<Rightarrow> hdoc" where
  "to_hako E d = to_hako_vector E d []"

definition hako_to_doc :: "'s engine \<Rightarrow> string \<Rightarrow> hdoc \<Rightarrow> doc" where
  "hako_to_doc E i h = \<lparr>d_id = i, d_data = (case en_to_json E h of JObj m \<Rightarrow> dict_of m | other \<Rightarrow> [(''_value'', other)])\<rparr>"

section \<open>Opening\<close>

definition SCHEMA_COLLECTION :: string where "SCHEMA_COLLECTION = ''__schema''"

definition uniq_collection :: "string \<Rightarrow> string" where
  "uniq_collection coll = ''__uniq_'' @ coll"

definition strings_of :: "hvalue \<Rightarrow> string list" where
  "strings_of v = (case v of
     HArray items \<Rightarrow> filter_map (\<lambda>x. case x of HString s \<Rightarrow> Some s | _ \<Rightarrow> None) items
   | _ \<Rightarrow> [])"

definition load_row :: "(string, string list) dict \<Rightarrow> string \<times> hdoc \<Rightarrow> (string, string list) dict" where
  "load_row m row = (case strip_prefix ''uniq:'' (fst row) of
     None \<Rightarrow> m
   | Some suffix \<Rightarrow> (case dget (snd row) ''fields'' of
       None \<Rightarrow> m
     | Some fs \<Rightarrow> if strings_of fs = [] then m else dput suffix (strings_of fs) m))"

definition load_unique_registry :: "'s engine \<Rightarrow> 's \<Rightarrow> (string, string list) dict" where
  "load_unique_registry E s = (case en_query E s (hk_query_new SCHEMA_COLLECTION) of
     Inl _ \<Rightarrow> []
   | Inr rows \<Rightarrow> foldl load_row [] rows)"

definition load_vector_registry :: "'s engine \<Rightarrow> 's \<Rightarrow> (string, (string \<times> nat) list) dict" where
  "load_vector_registry E s = dict_of (hl_vector (en_list_indexes E s None))"

definition from_db :: "'s engine \<Rightarrow> 's \<Rightarrow> 's hako_db" where
  "from_db E s = \<lparr>hk_inner = s, hk_unique = load_unique_registry E s, hk_vectors = load_vector_registry E s\<rparr>"

definition unique_fields :: "'s hako_db \<Rightarrow> string \<Rightarrow> string list" where
  "unique_fields d c = unwrap_or [] (dget (hk_unique d) c)"

definition vector_fields :: "'s hako_db \<Rightarrow> string \<Rightarrow> (string \<times> nat) list" where
  "vector_fields d c = unwrap_or [] (dget (hk_vectors d) c)"

text \<open>The state after a call of the engine.\<close>

definition on_inner :: "'s hako_db \<Rightarrow> (string, 'a) result \<times> 's \<Rightarrow> 'a app_result \<times> 's hako_db" where
  "on_inner d rs = (map_err Internal (fst rs), d\<lparr>hk_inner := snd rs\<rparr>)"

section \<open>Reading\<close>

definition hako_capabilities :: capabilities where
  "hako_capabilities = \<lparr>cap_driver = ''hako'', supports_watch = True, supports_transactions = True,
     supports_composite = True, supports_fts = True, supports_drop_index = False, supports_unique = True,
     supports_named_index = False, supports_native_aggregation = True, supports_vector = True,
     supports_soft_delete = True\<rparr>"

definition hako_get :: "'s engine \<Rightarrow> 's \<Rightarrow> string \<Rightarrow> string \<Rightarrow> doc option app_result" where
  "hako_get E s c i = map_err Internal (map_sum id (map_option (hako_to_doc E i)) (en_get E s c i))"

definition hako_doc_version :: "'s engine \<Rightarrow> 's \<Rightarrow> string \<Rightarrow> string \<Rightarrow> nat option app_result" where
  "hako_doc_version E s c i = Inr (en_version E s i)"

definition hako_get_json :: "'s engine \<Rightarrow> 's \<Rightarrow> string \<Rightarrow> string \<Rightarrow> raw_doc option app_result" where
  "hako_get_json E s c i = (case en_get_json E s c i of
     Inr (Some (time, inner)) \<Rightarrow> Inr (Some \<lparr>r_version = (case en_version E s i of Some v \<Rightarrow> Some v | None \<Rightarrow> Some time), r_inner = inner\<rparr>)
   | Inr None \<Rightarrow> Inr None
   | Inl e \<Rightarrow> Inl (Internal e))"

fun map_op :: "filter_op \<Rightarrow> hk_op" where
  "map_op Eq = HkEq"
| "map_op Ne = HkNe"
| "map_op Gt = HkGt"
| "map_op Lt = HkLt"
| "map_op Gte = HkGte"
| "map_op Lte = HkLte"
| "map_op ArrayContains = HkArrayContains"
| "map_op ArrayContainsAny = HkArrayContainsAny"
| "map_op InList = HkIn"

definition map_filter :: "filter_rec \<Rightarrow> hk_filter" where
  "map_filter f = \<lparr>hf_field = f_field f, hf_op = map_op (f_op f), hf_value = json_to_value (f_value f)\<rparr>"

definition has_cursor :: "query_options \<Rightarrow> bool" where
  "has_cursor q \<longleftrightarrow> q_start_at q \<noteq> None \<or> q_start_after q \<noteq> None \<or> q_end_at q \<noteq> None \<or> q_end_before q \<noteq> None"

definition filtered :: "string \<Rightarrow> query_options \<Rightarrow> hk_query" where
  "filtered c q = (hk_query_new c)\<lparr>hq_filters := map map_filter (q_filters q)\<rparr>"

definition list_query :: "string \<Rightarrow> query_options \<Rightarrow> hk_query" where
  "list_query c q =
     (let base = (filtered c q)\<lparr>hq_order := map (\<lambda>o'. (o_field o', o_dir o' = Asc)) (q_order_by q)\<rparr>
      in if has_cursor q then base else base\<lparr>hq_limit := q_limit q, hq_offset := q_offset q\<rparr>)"

definition hako_list :: "'s engine \<Rightarrow> 's \<Rightarrow> string \<Rightarrow> query_options \<Rightarrow> doc list app_result" where
  "hako_list E s c q = (case en_query E s (list_query c q) of
     Inl e \<Rightarrow> Inl (Internal e)
   | Inr rows \<Rightarrow> (let docs = map (\<lambda>(i, h). hako_to_doc E i h) rows
       in Inr (if has_cursor q then apply_offset_limit (apply_cursor docs q) q else docs)))"

definition hako_list_collections :: "'s engine \<Rightarrow> 's \<Rightarrow> string list app_result" where
  "hako_list_collections E s = map_err Internal (en_list_collections E s)"

text \<open>Aggregates: the engine's, unless a cursor bounds them.\<close>

definition aggregate_one :: "'s engine \<Rightarrow> 's \<Rightarrow> string \<Rightarrow> string \<Rightarrow> query_options \<Rightarrow> bool \<Rightarrow> f64 app_result" where
  "aggregate_one E s c field q avg =
     (let (aop, key) = (if avg then (HkAvg field, ''avg_'' @ field) else (HkSum field, ''sum_'' @ field))
      in case en_aggregate E s ((filtered c q)\<lparr>hq_aggregate := Some aop\<rparr>) of
          Inl e \<Rightarrow> Inl (Internal e)
        | Inr m \<Rightarrow> Inr (unwrap_or 0 (dget m key)))"

definition hako_sum :: "'s engine \<Rightarrow> 's \<Rightarrow> string \<Rightarrow> string \<Rightarrow> query_options \<Rightarrow> f64 app_result" where
  "hako_sum E s c field q =
     (if has_cursor q then map_sum id (\<lambda>docs. f64_total (field_numbers field docs)) (hako_list E s c q)
      else aggregate_one E s c field q False)"

definition hako_avg :: "'s engine \<Rightarrow> 's \<Rightarrow> string \<Rightarrow> string \<Rightarrow> query_options \<Rightarrow> f64 app_result" where
  "hako_avg E s c field q =
     (if has_cursor q then map_sum id (\<lambda>docs. let nums = field_numbers field docs in
          if nums = [] then 0 else f64_div (f64_total nums) (f64_of_int (int (length nums)))) (hako_list E s c q)
      else aggregate_one E s c field q True)"

text \<open>\<open>as u64\<close> of the engine's float: toward zero, negative numbers are 0, too large ones the largest.\<close>

definition f64_as_u64 :: "f64 \<Rightarrow> nat" where
  "f64_as_u64 x = (if x \<le> 0 then 0 else min (nat \<lfloor>x\<rfloor>) (2 ^ 64 - 1))"

definition hako_count :: "'s engine \<Rightarrow> 's \<Rightarrow> string \<Rightarrow> query_options \<Rightarrow> nat app_result" where
  "hako_count E s c q =
     (if has_cursor q then map_sum id length (hako_list E s c q)
      else (case en_aggregate E s ((filtered c q)\<lparr>hq_aggregate := Some HkCount\<rparr>) of
          Inl e \<Rightarrow> Inl (Internal e)
        | Inr m \<Rightarrow> Inr (f64_as_u64 (unwrap_or 0 (dget m ''count'')))))"

section \<open>Transactions\<close>

record tx_state =
  ts_calls :: "tx_call list"
  ts_staged :: "string \<times> string \<Rightarrow> doc option option"
  ts_reads :: nat

definition tx_begin :: tx_state where
  "tx_begin = \<lparr>ts_calls = [], ts_staged = (\<lambda>_. None), ts_reads = 0\<rparr>"

text \<open>A read finds what this transaction staged, else what is committed.\<close>

definition tx_read :: "'s engine \<Rightarrow> (nat \<Rightarrow> 's) \<Rightarrow> string \<Rightarrow> string \<Rightarrow> tx_state \<Rightarrow> (doc option \<times> tx_state) app_result" where
  "tx_read E V c i t = (case ts_staged t (c, i) of
     Some hit \<Rightarrow> Inr (hit, t)
   | None \<Rightarrow> (case en_tx_get E (V (ts_reads t)) c i of
       Inl e \<Rightarrow> Inl (Internal e)
     | Inr h \<Rightarrow> Inr (map_option (hako_to_doc E i) h,
         t\<lparr>ts_calls := ts_calls t @ [CallGet c i h], ts_reads := Suc (ts_reads t)\<rparr>)))"

definition tx_stage_put :: "string \<Rightarrow> string \<Rightarrow> hdoc \<Rightarrow> doc \<Rightarrow> tx_state \<Rightarrow> tx_state" where
  "tx_stage_put c i h d t = t\<lparr>ts_calls := ts_calls t @ [CallPut c i h], ts_staged := (ts_staged t)((c, i) := Some (Some d))\<rparr>"

definition tx_stage_delete :: "string \<Rightarrow> string \<Rightarrow> tx_state \<Rightarrow> tx_state" where
  "tx_stage_delete c i t = t\<lparr>ts_calls := ts_calls t @ [CallDelete c i], ts_staged := (ts_staged t)((c, i) := Some None)\<rparr>"

text \<open>The key of a value that must be unique; null and absence are exempt.\<close>

fun uniq_key :: "(json \<Rightarrow> string) \<Rightarrow> json \<Rightarrow> string option" where
  "uniq_key print JNull = None"
| "uniq_key print (JBool b) = Some (''b:'' @ (if b then ''true'' else ''false''))"
| "uniq_key print (JNum n) = Some (''n:'' @ print (JNum n))"
| "uniq_key print (JStr s) = Some (''s:'' @ s)"
| "uniq_key print v = Some (''j:'' @ print v)"

definition field_key :: "'s engine \<Rightarrow> doc \<Rightarrow> string \<Rightarrow> string option" where
  "field_key E d f = Option.bind (dget (d_data d) f) (uniq_key (en_print E))"

definition keys_of :: "'s engine \<Rightarrow> string list \<Rightarrow> doc \<Rightarrow> (string \<times> string) list" where
  "keys_of E fs d = filter_map (\<lambda>f. map_option (Pair f) (field_key E d f)) fs"

definition shadow_id :: "string \<Rightarrow> string \<Rightarrow> string" where
  "shadow_id f k = f @ CHR 0x00 # k"

text \<open>The shadows of the old document that the new one does not keep are unlinked.\<close>

definition unlink :: "'s engine \<Rightarrow> string \<Rightarrow> doc option \<Rightarrow> tx_state \<Rightarrow> string \<times> string \<Rightarrow> tx_state" where
  "unlink E scol new t fk =
     (let (f, k) = fk; keep = (case new of Some n \<Rightarrow> field_key E n f = Some k | None \<Rightarrow> False)
      in if keep then t else tx_stage_delete scol (shadow_id f k) t)"

text \<open>The shadows of the new document: held by another document, the value is taken.\<close>

definition shadow_doc :: "string \<Rightarrow> string \<Rightarrow> doc" where
  "shadow_doc sid i = \<lparr>d_id = sid, d_data = [(''holder'', JStr i)]\<rparr>"

definition holder_of :: "doc option \<Rightarrow> string option" where
  "holder_of r = Option.bind r (\<lambda>d. Option.bind (dget (d_data d) ''holder'') as_str)"

fun take_keys :: "'s engine \<Rightarrow> (nat \<Rightarrow> 's) \<Rightarrow> string \<Rightarrow> string \<Rightarrow> (string \<times> string) list \<Rightarrow> tx_state \<Rightarrow> tx_state app_result" where
  "take_keys E V scol i [] t = Inr t"
| "take_keys E V scol i ((f, k) # ks) t =
     (let sid = shadow_id f k in
      case tx_read E V scol sid t of
        Inl e \<Rightarrow> Inl e
      | Inr (r, t1) \<Rightarrow>
          (case holder_of r of
             Some h \<Rightarrow>
               if h \<noteq> i then Inl AlreadyExists
               else take_keys E V scol i ks (tx_stage_put scol sid (to_hako E (shadow_doc sid i)) (shadow_doc sid i) t1)
           | None \<Rightarrow> take_keys E V scol i ks (tx_stage_put scol sid (to_hako E (shadow_doc sid i)) (shadow_doc sid i) t1)))"

definition claim_keys :: "'s engine \<Rightarrow> (nat \<Rightarrow> 's) \<Rightarrow> string list \<Rightarrow> string \<Rightarrow> string \<Rightarrow> doc option \<Rightarrow> doc option \<Rightarrow> tx_state \<Rightarrow> tx_state app_result" where
  "claim_keys E V fs c i old new t =
     (if fs = [] then Inr t
      else (let scol = uniq_collection c;
                t1 = (case old of Some prev \<Rightarrow> foldl (unlink E scol new) t (keys_of E fs prev) | None \<Rightarrow> t)
            in case new of Some next \<Rightarrow> take_keys E V scol i (keys_of E fs next) t1 | None \<Rightarrow> Inr t1))"

text \<open>One operation of a transaction.\<close>

definition hako_tx_op :: "'s engine \<Rightarrow> (nat \<Rightarrow> 's) \<Rightarrow> 's hako_db \<Rightarrow> tx_op \<Rightarrow> tx_state \<Rightarrow> (tx_out \<times> tx_state) app_result" where
  "hako_tx_op E V d p t =
     (let c = t_collection p; i = t_id p in
      case tx_read E V c i t of
        Inl e \<Rightarrow> Inl e
      | Inr (old, t1) \<Rightarrow>
          (case t_kind p of
             TxRead \<Rightarrow> Inr (\<lparr>x_doc = old, x_existed = old \<noteq> None\<rparr>, t1)
           | TxPut merge must_exist \<Rightarrow>
               if must_exist \<and> old = None then Inl NotFound
               else (let base = (if merge then (case old of Some o' \<Rightarrow> d_data o' | None \<Rightarrow> []) else []);
                         x = \<lparr>d_id = i, d_data = dextend base (case t_doc p of Some b \<Rightarrow> d_data b | None \<Rightarrow> [])\<rparr>
                     in case claim_keys E V (unique_fields d c) c i old (Some x)
                            (tx_stage_put c i (to_hako_vector E x (vector_fields d c)) x t1) of
                         Inl e \<Rightarrow> Inl e
                       | Inr t2 \<Rightarrow> Inr (\<lparr>x_doc = Some x, x_existed = old \<noteq> None\<rparr>, t2))
           | TxDelete \<Rightarrow>
               (case claim_keys E V (unique_fields d c) c i old None (tx_stage_delete c i t1) of
                  Inl e \<Rightarrow> Inl e
                | Inr t2 \<Rightarrow> Inr (\<lparr>x_doc = old, x_existed = old \<noteq> None\<rparr>, t2))))"

fun hako_tx_ops :: "'s engine \<Rightarrow> (nat \<Rightarrow> 's) \<Rightarrow> 's hako_db \<Rightarrow> tx_op list \<Rightarrow> tx_state \<Rightarrow> (tx_out list \<times> tx_state) app_result" where
  "hako_tx_ops E V d [] t = Inr ([], t)"
| "hako_tx_ops E V d (p # ops) t = (case hako_tx_op E V d p t of
     Inl e \<Rightarrow> Inl e
   | Inr (x, t1) \<Rightarrow> (case hako_tx_ops E V d ops t1 of
       Inl e \<Rightarrow> Inl e
     | Inr (xs, t2) \<Rightarrow> Inr (x # xs, t2)))"

definition hako_run_transaction :: "'s engine \<Rightarrow> (nat \<Rightarrow> 's) \<Rightarrow> 's hako_db \<Rightarrow> tx_op list \<Rightarrow> tx_out list app_result \<times> 's hako_db" where
  "hako_run_transaction E V d ops = (case hako_tx_ops E V d ops tx_begin of
     Inl e \<Rightarrow> (Inl e, d)
   | Inr (xs, t) \<Rightarrow> (case en_commit E (hk_inner d) (ts_calls t) of
       (Inl e, s) \<Rightarrow> (Inl (Internal e), d\<lparr>hk_inner := s\<rparr>)
     | (Inr _, s) \<Rightarrow> (Inr xs, d\<lparr>hk_inner := s\<rparr>)))"

section \<open>Writing\<close>

text \<open>The document of the last output, which one operation has.\<close>

definition last_doc :: "tx_out list \<Rightarrow> doc option" where
  "last_doc out = (if out = [] then None else x_doc (last out))"

definition hako_set :: "'s engine \<Rightarrow> (nat \<Rightarrow> 's) \<Rightarrow> 's hako_db \<Rightarrow> string \<Rightarrow> string \<Rightarrow> doc \<Rightarrow> bool \<Rightarrow> doc app_result \<times> 's hako_db" where
  "hako_set E V d c i x merge =
     (if unique_fields d c \<noteq> [] then
        (case hako_run_transaction E V d [\<lparr>t_collection = c, t_id = i, t_kind = TxPut merge False, t_doc = Some x\<rparr>] of
           (Inl e, d') \<Rightarrow> (Inl e, d')
         | (Inr out, d') \<Rightarrow> (case last_doc out of Some y \<Rightarrow> (Inr y, d') | None \<Rightarrow> (Inl (Internal ''tx without output''), d')))
      else (case (if merge then hako_get E (V 0) c i else Inr None) of
          Inl e \<Rightarrow> (Inl e, d)
        | Inr old \<Rightarrow>
            (let y = \<lparr>d_id = i, d_data = (if merge then dextend (case old of Some o' \<Rightarrow> d_data o' | None \<Rightarrow> []) (d_data x) else d_data x)\<rparr>
             in case on_inner d (en_put E (hk_inner d) c i (to_hako_vector E y (vector_fields d c))) of
                 (Inl e, d') \<Rightarrow> (Inl e, d')
               | (Inr _, d') \<Rightarrow> (Inr y, d'))))"

text \<open>\<open>nanos\<close> and \<open>pid\<close> in hexadecimal, the id of a document that has none.\<close>

fun hex_nat :: "nat \<Rightarrow> string" where
  "hex_nat n = (if n < 16 then [''0123456789abcdef'' ! n] else hex_nat (n div 16) @ [''0123456789abcdef'' ! (n mod 16)])"

declare hex_nat.simps [simp del]

definition uuid_like :: "nat \<Rightarrow> nat \<Rightarrow> string" where
  "uuid_like ns pid = hex_nat ns @ hex_nat pid"

definition hako_insert :: "'s engine \<Rightarrow> string \<Rightarrow> (nat \<Rightarrow> 's) \<Rightarrow> 's hako_db \<Rightarrow> string \<Rightarrow> doc \<Rightarrow> doc app_result \<times> 's hako_db" where
  "hako_insert E fresh V d c x =
     (let y = (if d_id x = [] then x\<lparr>d_id := fresh\<rparr> else x) in
      case hako_get E (V 0) c (d_id y) of
        Inl e \<Rightarrow> (Inl e, d)
      | Inr (Some _) \<Rightarrow> (Inl AlreadyExists, d)
      | Inr None \<Rightarrow> hako_set E (\<lambda>n. V (Suc n)) d c (d_id y) y False)"

definition hako_delete :: "'s engine \<Rightarrow> (nat \<Rightarrow> 's) \<Rightarrow> 's hako_db \<Rightarrow> string \<Rightarrow> string \<Rightarrow> doc option app_result \<times> 's hako_db" where
  "hako_delete E V d c i =
     (if unique_fields d c \<noteq> [] then
        (case hako_run_transaction E V d [\<lparr>t_collection = c, t_id = i, t_kind = TxDelete, t_doc = None\<rparr>] of
           (Inl e, d') \<Rightarrow> (Inl e, d')
         | (Inr out, d') \<Rightarrow> (Inr (last_doc out), d'))
      else (case hako_get E (V 0) c i of
          Inl e \<Rightarrow> (Inl e, d)
        | Inr prev \<Rightarrow> (case on_inner d (en_delete E (hk_inner d) c i) of
            (Inl e, d') \<Rightarrow> (Inl e, d')
          | (Inr _, d') \<Rightarrow> (Inr prev, d'))))"

definition hako_delete_force :: "'s engine \<Rightarrow> (nat \<Rightarrow> 's) \<Rightarrow> 's hako_db \<Rightarrow> string \<Rightarrow> string \<Rightarrow> doc option app_result \<times> 's hako_db" where
  "hako_delete_force E V d c i = (case hako_delete E V d c i of
     (Inl e, d1) \<Rightarrow> (Inl e, d1)
   | (Inr prev, d1) \<Rightarrow> (case on_inner d1 (en_delete_force E (hk_inner d1) c i) of
       (Inl e, d2) \<Rightarrow> (Inl e, d2)
     | (Inr _, d2) \<Rightarrow> (case on_inner d2 (en_delete_force E (hk_inner d2) ''__hako_softdel'' (c @ ''/'' @ i)) of
         (Inl e, d3) \<Rightarrow> (Inl e, d3)
       | (Inr _, d3) \<Rightarrow> (Inr prev, d3))))"

section \<open>Retention, residency, moves\<close>

definition hk_restore_record :: "hk_softdel \<Rightarrow> restore_record" where
  "hk_restore_record e = \<lparr>rr_col = sd_col e, rr_id = sd_id e, rr_deleted_at = sd_deleted_at e,
     rr_scheduled_at = sd_scheduled_at e, rr_bytes = sd_bytes e\<rparr>"

definition hako_restore :: "'s engine \<Rightarrow> 's hako_db \<Rightarrow> string \<Rightarrow> string \<Rightarrow> doc app_result \<times> 's hako_db" where
  "hako_restore E d c i = (case en_restore_available E (hk_inner d) (Some c) of
     Inl e \<Rightarrow> (Inl (Internal e), d)
   | Inr rows \<Rightarrow>
       if \<not> list_ex (\<lambda>e. sd_id e = i) rows then (Inl NotFound, d)
       else (case en_restore E (hk_inner d) c i of
           (Inl e, s) \<Rightarrow> (Inl (Conflict e), d\<lparr>hk_inner := s\<rparr>)
         | (Inr _, s) \<Rightarrow> (case hako_get E s c i of
             Inl e \<Rightarrow> (Inl e, d\<lparr>hk_inner := s\<rparr>)
           | Inr None \<Rightarrow> (Inl (Internal ''restore: doc missing after restore''), d\<lparr>hk_inner := s\<rparr>)
           | Inr (Some x) \<Rightarrow> (Inr x, d\<lparr>hk_inner := s\<rparr>))))"

definition hako_restore_available :: "'s engine \<Rightarrow> 's \<Rightarrow> string option \<Rightarrow> restore_record list app_result" where
  "hako_restore_available E s c = map_err Internal (map_sum id (map hk_restore_record) (en_restore_available E s c))"

definition hako_delete_queue :: "'s engine \<Rightarrow> 's \<Rightarrow> string option \<Rightarrow> restore_record list app_result" where
  "hako_delete_queue E s c = map_err Internal (map_sum id (map hk_restore_record) (en_delete_queue E s c))"

definition hako_sweep_now :: "'s engine \<Rightarrow> 's hako_db \<Rightarrow> nat app_result \<times> 's hako_db" where
  "hako_sweep_now E d = on_inner d (en_sweep_now E (hk_inner d))"

definition engine_err :: "string \<Rightarrow> app_error" where
  "engine_err m = (if contains_str ''relocate:'' m \<or> contains_str ''unload:'' m then BadRequest m else Internal m)"

definition hako_relocate :: "'s engine \<Rightarrow> 's hako_db \<Rightarrow> string \<Rightarrow> string \<Rightarrow> string list \<Rightarrow> (string list \<times> string list) app_result \<times> 's hako_db" where
  "hako_relocate E d src dst ids = (case en_relocate E (hk_inner d) src dst ids of (r, s) \<Rightarrow> (map_err engine_err r, d\<lparr>hk_inner := s\<rparr>))"

definition hako_load_collection :: "'s engine \<Rightarrow> 's hako_db \<Rightarrow> string \<Rightarrow> unit app_result \<times> 's hako_db" where
  "hako_load_collection E d c = (case en_load E (hk_inner d) c of (r, s) \<Rightarrow> (map_err engine_err r, d\<lparr>hk_inner := s\<rparr>))"

definition hako_unload_collection :: "'s engine \<Rightarrow> 's hako_db \<Rightarrow> string \<Rightarrow> unit app_result \<times> 's hako_db" where
  "hako_unload_collection E d c = (case en_unload E (hk_inner d) c of (r, s) \<Rightarrow> (map_err engine_err r, d\<lparr>hk_inner := s\<rparr>))"

section \<open>Indexes\<close>

definition simple_info :: "string \<Rightarrow> string \<Rightarrow> bool \<Rightarrow> index_info" where
  "simple_info name f u = \<lparr>in_name = name, in_fields = [f], in_unique = u, in_kind = Simple\<rparr>"

text \<open>A unique field: an engine index, the declaration on disk, and the registry.\<close>

definition create_unique :: "'s engine \<Rightarrow> 's hako_db \<Rightarrow> string \<Rightarrow> string option \<Rightarrow> string \<Rightarrow> index_info app_result \<times> 's hako_db" where
  "create_unique E d c name field = (case on_inner d (en_create_index E (hk_inner d) c field) of
     (Inl e, d1) \<Rightarrow> (Inl e, d1)
   | (Inr _, d1) \<Rightarrow> (case on_inner d1 (en_put E (hk_inner d1) SCHEMA_COLLECTION (''uniq:'' @ c) [(''fields'', HArray [HString field])]) of
       (Inl e, d2) \<Rightarrow> (Inl e, d2)
     | (Inr _, d2) \<Rightarrow> (Inr (simple_info (unwrap_or field name) field True), d2\<lparr>hk_unique := dput c [field] (hk_unique d2)\<rparr>)))"

definition hako_create_index :: "'s engine \<Rightarrow> 's hako_db \<Rightarrow> string \<Rightarrow> index_spec \<Rightarrow> index_info app_result \<times> 's hako_db" where
  "hako_create_index E d c spec = (case validate_spec hako_capabilities spec of
     Inl e \<Rightarrow> (Inl e, d)
   | Inr _ \<Rightarrow>
       if ix_unique spec then
         (if ix_kind spec \<noteq> Simple \<or> length (ix_fields spec) \<noteq> 1 then (Inl (BadRequest ''hako unique needs exactly one simple field''), d)
          else create_unique E d c (ix_name spec) (hd (ix_fields spec)))
       else (case ix_kind spec of
           Simple \<Rightarrow> (case ix_fields spec of
               [] \<Rightarrow> (Inl (BadRequest ''index spec needs at least one field''), d)
             | f # _ \<Rightarrow> (case on_inner d (en_create_index E (hk_inner d) c f) of
                 (Inl e, d') \<Rightarrow> (Inl e, d') | (Inr _, d') \<Rightarrow> (Inr (simple_info f f False), d')))
         | Composite \<Rightarrow> (case on_inner d (en_create_composite E (hk_inner d) c (ix_fields spec)) of
               (Inl e, d') \<Rightarrow> (Inl e, d')
             | (Inr _, d') \<Rightarrow> (Inr \<lparr>in_name = unwrap_or (auto_index_name spec) (ix_name spec), in_fields = ix_fields spec,
                 in_unique = False, in_kind = Composite\<rparr>, d'))
         | FullText \<Rightarrow> (case ix_fields spec of
               [] \<Rightarrow> (Inl (BadRequest ''index spec needs at least one field''), d)
             | f # _ \<Rightarrow> (case on_inner d (en_create_fts E (hk_inner d) c f) of
                 (Inl e, d') \<Rightarrow> (Inl e, d')
               | (Inr _, d') \<Rightarrow> (Inr \<lparr>in_name = unwrap_or (auto_index_name spec) (ix_name spec), in_fields = [f],
                   in_unique = False, in_kind = FullText\<rparr>, d')))
         | Vector \<Rightarrow> (Inl (BadRequest ''vector indexes need dim+metric: use POST /api/vector-index''), d)
         | Traverse \<Rightarrow> (Inl (BadRequest ''traverse tracking needs no field: use POST /api/traverse-index''), d)))"

definition hako_create_traverse_index :: "'s engine \<Rightarrow> 's hako_db \<Rightarrow> string \<Rightarrow> index_info app_result \<times> 's hako_db" where
  "hako_create_traverse_index E d c =
     (if c = [] then (Inl (BadRequest ''traverse index needs a collection''), d)
      else (case on_inner d (en_create_traverse E (hk_inner d) c) of
          (Inl e, d') \<Rightarrow> (Inl e, d')
        | (Inr _, d') \<Rightarrow> (Inr \<lparr>in_name = ''traverse('' @ c @ '')'', in_fields = [], in_unique = False, in_kind = Traverse\<rparr>, d')))"

definition hako_create_edge_index :: "'s engine \<Rightarrow> 's hako_db \<Rightarrow> string \<Rightarrow> index_info app_result \<times> 's hako_db" where
  "hako_create_edge_index E d c =
     (if c = [] then (Inl (BadRequest ''edge index needs a collection''), d)
      else (case on_inner d (en_create_edge E (hk_inner d) c) of
          (Inl e, d') \<Rightarrow> (Inl e, d')
        | (Inr _, d') \<Rightarrow> (Inr \<lparr>in_name = ''edge('' @ c @ '')'', in_fields = [''_from'', ''_to''], in_unique = False, in_kind = Traverse\<rparr>, d')))"

definition hako_create_vector_index :: "'s engine \<Rightarrow> 's hako_db \<Rightarrow> string \<Rightarrow> vector_index_spec \<Rightarrow> index_info app_result \<times> 's hako_db" where
  "hako_create_vector_index E d c spec =
     (if vi_dim spec = 0 \<or> 4096 < vi_dim spec then (Inl (BadRequest (''vector dim '' @ show_nat (vi_dim spec) @ '' out of range 1..=4096'')), d)
      else if vi_field spec = [] then (Inl (BadRequest ''vector index needs a field''), d)
      else (case on_inner d (en_create_vector E (hk_inner d) c (vi_field spec) (vi_dim spec) (vi_metric spec)) of
          (Inl e, d') \<Rightarrow> (Inl e, d')
        | (Inr _, d') \<Rightarrow> (Inr \<lparr>in_name = ''vector('' @ vi_field spec @ '')'', in_fields = [vi_field spec], in_unique = False, in_kind = Vector\<rparr>,
            d'\<lparr>hk_vectors := dput c (filter (\<lambda>fd. fst fd \<noteq> vi_field spec) (vector_fields d' c) @ [(vi_field spec, vi_dim spec)]) (hk_vectors d')\<rparr>)))"

definition hako_list_indexes :: "'s engine \<Rightarrow> 's hako_db \<Rightarrow> string \<Rightarrow> index_info list app_result" where
  "hako_list_indexes E d c =
     (let l = en_list_indexes E (hk_inner d) (Some c); uniq = unique_fields d c in
      Inr (map (\<lambda>f. simple_info f f (f \<in> set uniq)) (concat (dvals (hl_simple l)) @ concat (dvals (hl_secondary l)))
         @ map (\<lambda>f. \<lparr>in_name = ''fts('' @ f @ '')'', in_fields = [f], in_unique = False, in_kind = FullText\<rparr>) (concat (dvals (hl_fts l)))
         @ map (\<lambda>fs. \<lparr>in_name = auto_index_name \<lparr>ix_name = None, ix_fields = fs, ix_unique = False, ix_kind = Composite\<rparr>,
             in_fields = fs, in_unique = False, in_kind = Composite\<rparr>) (hl_composite l)
         @ map (\<lambda>fd. \<lparr>in_name = ''vector('' @ fst fd @ '')'', in_fields = [fst fd], in_unique = False, in_kind = Vector\<rparr>)
             (concat (dvals (hl_vector l)))
         @ map (\<lambda>t. \<lparr>in_name = ''traverse('' @ t @ '')'', in_fields = [], in_unique = False, in_kind = Traverse\<rparr>) (hl_traverse l)))"

definition hako_drop_index :: "'s hako_db \<Rightarrow> string \<Rightarrow> string \<Rightarrow> unit app_result \<times> 's hako_db" where
  "hako_drop_index d c name = (Inl (BadRequest ''hako driver has no drop-index API''), d)"

section \<open>Searches\<close>

definition vector_score :: "'s engine \<Rightarrow> vector_metric \<Rightarrow> fl list \<Rightarrow> hvalue option \<Rightarrow> fl" where
  "vector_score E metric q v = (case v of
     Some (HBinary b) \<Rightarrow> (case en_decode E b of
         Some w \<Rightarrow> if length w = length q then en_distance E metric q w else PInf
       | None \<Rightarrow> PInf)
   | _ \<Rightarrow> PInf)"

definition hako_vector_search :: "'s engine \<Rightarrow> 's \<Rightarrow> string \<Rightarrow> string \<Rightarrow> fl list \<Rightarrow> nat \<Rightarrow> vector_metric \<Rightarrow> scored_doc list app_result" where
  "hako_vector_search E s c field q k _ =
     (let metric = unwrap_or Cosine (en_vector_metric E s c field) in
      case en_find_near E s c field q k of
        Inl m \<Rightarrow> Inl (if contains_str ''dim mismatch'' m then BadRequest m else Internal m)
      | Inr rows \<Rightarrow> Inr (map (\<lambda>(i, h). \<lparr>sc_id = i, sc_score = vector_score E metric q (dget h field), sc_doc = hako_to_doc E i h\<rparr>) rows))"

definition hako_traverse_search :: "'s engine \<Rightarrow> 's \<Rightarrow> string \<Rightarrow> string \<Rightarrow> traverse_direction \<Rightarrow> string option \<Rightarrow> string option \<Rightarrow>
    string option \<Rightarrow> nat \<Rightarrow> nat \<Rightarrow> path_hit list app_result" where
  "hako_traverse_search E s c i direction edge via_edge weight max_depth k =
     (case en_find_paths E s c i \<lparr>tv_direction = direction, tv_edge_field = edge, tv_max_depth = max_depth, tv_limit = k,
          tv_via_edge = via_edge, tv_weight_field = weight\<rparr> of
        Inl m \<Rightarrow> Inl (if contains_str ''traverse'' m \<or> contains_str ''create_traverse_index'' m then BadRequest m else Internal m)
      | Inr rows \<Rightarrow> Inr (map (\<lambda>h. \<lparr>ph_collection = hh_collection h, ph_id = hh_id h, ph_depth = hh_depth h, ph_cost = hh_cost h,
          ph_doc = hako_to_doc E (hh_id h) (hh_doc h)\<rparr>) rows))"

section \<open>The change feed and the driver\<close>

text \<open>What the bridge sends for an event of the engine, while somebody listens.\<close>

definition bridge_event :: "'s engine \<Rightarrow> 's \<Rightarrow> string \<Rightarrow> hk_event \<Rightarrow> change option" where
  "bridge_event E s c ev = (case ev of
     EvPut i \<Rightarrow> (case en_get E s c i of
         Inr (Some h) \<Rightarrow> Some \<lparr>ch_collection = c, ch_id = i, ch_kind = Changed, ch_old = None, ch_new = Some (hako_to_doc E i h)\<rparr>
       | _ \<Rightarrow> None)
   | EvDelete i \<Rightarrow> Some \<lparr>ch_collection = c, ch_id = i, ch_kind = Removed, ch_old = None, ch_new = None\<rparr>)"

text \<open>The driver where nothing runs in between; \<open>fresh\<close> is an id made from clock and process.\<close>

definition hako_driver :: "'s engine \<Rightarrow> string \<Rightarrow> 's hako_db driver" where
  "hako_driver E fresh = \<lparr>db_capabilities = hako_capabilities,
     db_list_collections = (\<lambda>d. hako_list_collections E (hk_inner d)),
     db_get = (\<lambda>d. hako_get E (hk_inner d)), db_doc_version = (\<lambda>d. hako_doc_version E (hk_inner d)),
     db_get_json = (\<lambda>d. hako_get_json E (hk_inner d)), db_list = (\<lambda>d. hako_list E (hk_inner d)),
     db_insert = (\<lambda>d. hako_insert E fresh (\<lambda>_. hk_inner d) d), db_set = (\<lambda>d. hako_set E (\<lambda>_. hk_inner d) d),
     db_delete = (\<lambda>d. hako_delete E (\<lambda>_. hk_inner d) d), db_delete_force = (\<lambda>d. hako_delete_force E (\<lambda>_. hk_inner d) d),
     db_count = (\<lambda>d. hako_count E (hk_inner d)), db_sum = (\<lambda>d. hako_sum E (hk_inner d)), db_avg = (\<lambda>d. hako_avg E (hk_inner d)),
     db_run_transaction = (\<lambda>d. hako_run_transaction E (\<lambda>_. hk_inner d) d), db_ensure_collection = (\<lambda>d c. (Inr (), d)),
     db_create_index = hako_create_index E, db_list_indexes = hako_list_indexes E, db_drop_index = hako_drop_index,
     db_relocate = hako_relocate E, db_restore = hako_restore E,
     db_restore_available = (\<lambda>d. hako_restore_available E (hk_inner d)), db_delete_queue = (\<lambda>d. hako_delete_queue E (hk_inner d)),
     db_sweep_now = hako_sweep_now E, db_load_collection = hako_load_collection E, db_unload_collection = hako_unload_collection E,
     db_unloaded_collections = (\<lambda>d. Inr (en_unloaded E (hk_inner d))),
     db_create_vector_index = hako_create_vector_index E, db_vector_search = (\<lambda>d. hako_vector_search E (hk_inner d)),
     db_create_traverse_index = hako_create_traverse_index E, db_create_edge_index = hako_create_edge_index E,
     db_traverse_search = (\<lambda>d. hako_traverse_search E (hk_inner d))\<rparr>"

end
