(* ===== verification/HakoProofs.thy ===== *)
theory HakoProofs
  imports Hako
begin

text \<open>
  What the HakoDB driver makes of an engine with serializable transactions: documents come back as
  they were written, a transaction refines the sequential specification whatever commits in between,
  and no two documents of a collection hold the same value in a unique field.
\<close>

section \<open>Values that come back\<close>

text \<open>The JSON of a value; a reference and a binary are the engine's own and are left out.\<close>

fun value_json :: "hvalue \<Rightarrow> json" where
  "value_json (HBool b) = JBool b"
| "value_json (HInt i) = jint i"
| "value_json (HFloat x) = JNum (NFloat x)"
| "value_json (HString s) = JStr s"
| "value_json (HArray a) = JArr (map value_json a)"
| "value_json (HMap m) = JObj (map (\<lambda>(k, v). (k, value_json v)) m)"
| "value_json _ = JNull"

fun common_value :: "hvalue \<Rightarrow> bool" where
  "common_value (HReference _ _) \<longleftrightarrow> False"
| "common_value (HBinary _) \<longleftrightarrow> False"
| "common_value (HArray a) \<longleftrightarrow> list_all common_value a"
| "common_value (HMap m) \<longleftrightarrow> list_all (\<lambda>e. common_value (snd e)) m"
| "common_value _ \<longleftrightarrow> True"

text \<open>JSON without integers beyond \<open>i64\<close> and without objects that read as a reference.\<close>

fun plain_json :: "json \<Rightarrow> bool" where
  "plain_json (JNum (NInt i)) \<longleftrightarrow> - (2 ^ 63) \<le> i \<and> i < 2 ^ 63"
| "plain_json (JArr a) \<longleftrightarrow> list_all plain_json a"
| "plain_json (JObj m) \<longleftrightarrow> reference_of m = None \<and> list_all (\<lambda>e. plain_json (snd e)) m"
| "plain_json _ \<longleftrightarrow> True"

lemma plain_value: "plain_json v \<Longrightarrow> common_value (json_to_value v) \<and> value_json (json_to_value v) = v"
proof (induction v rule: json_to_value.induct)
  case (3 n)
  then show ?case by (cases n) (auto split: option.splits)
next
  case (5 a)
  then show ?case by (auto simp: list_all_iff comp_def intro: map_idI)
next
  case (6 m)
  then have "\<forall>(k, v) \<in> set m. common_value (json_to_value v) \<and> value_json (json_to_value v) = v"
    by (fastforce simp: list_all_iff)
  then show ?case using 6(2) by (auto simp: list_all_iff comp_def case_prod_unfold intro!: map_idI)
qed auto

text \<open>A document that fits a collection: plain, and without arrays for its vector fields.\<close>

definition fits :: "(string \<times> nat) list \<Rightarrow> doc \<Rightarrow> bool" where
  "fits vs x \<longleftrightarrow> dict_ok (d_data x) \<and> list_all (\<lambda>e. plain_json (snd e)) (d_data x)
     \<and> (\<forall>(f, n) \<in> set vs. vector_of (dget (d_data x) f) n = None)"

lemma dict_of_id: "dict_ok m \<Longrightarrow> dict_of m = m"
  by (simp add: dict_of_def dextend_empty)

lemma no_vectors: "(\<forall>(f, n) \<in> set vs. vector_of (dget (d_data x) f) n = None) \<Longrightarrow>
    to_hako_vector E x vs = dict_of (map (\<lambda>(k, v). (k, json_to_value v)) (d_data x))"
proof -
  have "foldl (\<lambda>h (field, n). case vector_of (dget (d_data x) field) n of Some v \<Rightarrow> dput field (HBinary (en_encode E v)) h | None \<Rightarrow> h) h vs = h"
    if "\<forall>(f, n) \<in> set vs. vector_of (dget (d_data x) f) n = None" for h
    using that by (induction vs arbitrary: h) auto
  then show "(\<forall>(f, n) \<in> set vs. vector_of (dget (d_data x) f) n = None) \<Longrightarrow> ?thesis"
    by (simp add: to_hako_vector_def)
qed

lemma dict_ok_map: "dict_ok (map (\<lambda>(k, v). (k, g v)) m) = dict_ok m"
  by (simp add: dict_ok_def comp_def case_prod_unfold)

lemma fits_extend:
  assumes "fits vs x" "dict_ok b" "list_all (\<lambda>e. plain_json (snd e)) b" "\<forall>(f, n) \<in> set vs. vector_of (dget b f) n = None"
  shows "fits vs \<lparr>d_id = i, d_data = dextend (d_data x) b\<rparr>"
proof -
  have ok: "dict_ok (dextend (d_data x) b)" using assms(1) by (simp add: fits_def)
  have d: "dget (dextend (d_data x) b) k = (case dget b k of None \<Rightarrow> dget (d_data x) k | Some v \<Rightarrow> Some v)" for k
    using assms(2) by (simp add: dget_dextend_dict)
  have "plain_json v" if "(k, v) \<in> set (dextend (d_data x) b)" for k v
  proof -
    have "dget (dextend (d_data x) b) k = Some v" using that ok by (rule dict_ok_snd [rotated])
    then have "(k, v) \<in> set b \<or> (k, v) \<in> set (d_data x)" by (auto simp: d split: option.splits dest: map_of_SomeD)
    then show ?thesis using assms(1,3) by (auto simp: fits_def list_all_iff)
  qed
  moreover have "vector_of (dget (dextend (d_data x) b) f) n = None" if "(f, n) \<in> set vs" for f n
    using that assms(1,4) by (auto simp: d fits_def split: option.splits)
  ultimately show ?thesis using ok by (auto simp: fits_def list_all_iff)
qed

section \<open>The engine\<close>

fun apply_call :: "(string \<times> string \<Rightarrow> hdoc option) \<Rightarrow> tx_call \<Rightarrow> string \<times> string \<Rightarrow> hdoc option" where
  "apply_call K (CallGet c i h) = K"
| "apply_call K (CallPut c i h) = K((c, i) := Some h)"
| "apply_call K (CallDelete c i) = K((c, i) := None)"

definition replay :: "tx_call list \<Rightarrow> (string \<times> string \<Rightarrow> hdoc option) \<Rightarrow> string \<times> string \<Rightarrow> hdoc option" where
  "replay calls K = foldl apply_call K calls"

definition reads_hold :: "(string \<times> string \<Rightarrow> hdoc option) \<Rightarrow> tx_call list \<Rightarrow> bool" where
  "reads_hold K calls \<longleftrightarrow> (\<forall>c i h. CallGet c i h \<in> set calls \<longrightarrow> K (c, i) = h)"

text \<open>
  What is relied on: the engine keeps documents, puts and deletes take effect or do not, values
  without references and binaries come back as JSON, and a commit succeeds only if what the
  transaction read is still what is kept, and then all its writes take effect.
\<close>

locale hako_engine =
  fixes E :: "'s engine"
    and kept :: "'s \<Rightarrow> string \<times> string \<Rightarrow> hdoc option"
    and I :: "'s \<Rightarrow> bool"
  assumes get_kept: "I s \<Longrightarrow> en_get E s c i = Inr (kept s (c, i))"
    and put_kept: "I s \<Longrightarrow> en_put E s c i h = (r, s') \<Longrightarrow> I s' \<and>
      kept s' = (case r of Inl _ \<Rightarrow> kept s | Inr _ \<Rightarrow> (kept s)((c, i) := Some h))"
    and delete_kept: "I s \<Longrightarrow> en_delete E s c i = (r, s') \<Longrightarrow> I s' \<and>
      kept s' = (case r of Inl _ \<Rightarrow> kept s | Inr _ \<Rightarrow> (kept s)((c, i) := None))"
    and force_kept: "I s \<Longrightarrow> en_delete_force E s c i = (r, s') \<Longrightarrow> I s' \<and>
      kept s' = (case r of Inl _ \<Rightarrow> kept s | Inr _ \<Rightarrow> (kept s)((c, i) := None))"
    and index_kept: "I s \<Longrightarrow> en_create_index E s c f = (r, s') \<Longrightarrow> I s' \<and> kept s' = kept s"
    and commit_kept: "I s \<Longrightarrow> en_commit E s calls = (r, s') \<Longrightarrow> I s' \<and>
      (case r of Inl _ \<Rightarrow> kept s' = kept s | Inr _ \<Rightarrow> reads_hold (kept s) calls \<and> kept s' = replay calls (kept s))"
    and json_kept: "list_all (\<lambda>e. common_value (snd e)) h \<Longrightarrow> en_to_json E h = JObj (map (\<lambda>(k, v). (k, value_json v)) h)"
begin

lemma stored_comes_back:
  assumes "fits vs x"
  shows "hako_to_doc E i (to_hako_vector E x vs) = \<lparr>d_id = i, d_data = d_data x\<rparr>"
proof -
  have ok: "dict_ok (d_data x)" and p: "\<forall>(k, v) \<in> set (d_data x). plain_json v"
    using assms by (auto simp: fits_def list_all_iff)
  have "to_hako_vector E x vs = map (\<lambda>(k, v). (k, json_to_value v)) (d_data x)"
    using assms by (simp add: fits_def no_vectors dict_of_id dict_ok_map)
  moreover have "list_all (\<lambda>e. common_value (snd e)) (map (\<lambda>(k, v). (k, json_to_value v)) (d_data x))"
    using p plain_value by (auto simp: list_all_iff)
  moreover have "map (\<lambda>(k, v). (k, value_json v)) (map (\<lambda>(k, v). (k, json_to_value v)) (d_data x)) = d_data x"
    using p plain_value by (auto simp: comp_def intro!: map_idI)
  ultimately show ?thesis using ok by (simp add: hako_to_doc_def json_kept dict_of_id)
qed

end

section \<open>The overlay of a transaction\<close>

text \<open>What a transaction finds over the documents \<open>K\<close> of the engine it commits on.\<close>

definition over :: "'s engine \<Rightarrow> (string \<times> string \<Rightarrow> hdoc option) \<Rightarrow> tx_state \<Rightarrow> docs" where
  "over E K t = (\<lambda>(c, i). case ts_staged t (c, i) of Some hit \<Rightarrow> hit | None \<Rightarrow> map_option (hako_to_doc E i) (K (c, i)))"

definition docs_of :: "'s engine \<Rightarrow> (string \<times> string \<Rightarrow> hdoc option) \<Rightarrow> docs" where
  "docs_of E K = (\<lambda>(c, i). map_option (hako_to_doc E i) (K (c, i)))"

text \<open>The staged writes are those the engine will apply.\<close>

definition synced :: "'s engine \<Rightarrow> (string \<times> string \<Rightarrow> hdoc option) \<Rightarrow> tx_state \<Rightarrow> bool" where
  "synced E K t \<longleftrightarrow> docs_of E (replay (ts_calls t) K) = over E K t"

definition extends :: "tx_state \<Rightarrow> tx_state \<Rightarrow> bool" where
  "extends t t' \<longleftrightarrow> (\<exists>more. ts_calls t' = ts_calls t @ more)"

lemma extends_refl [simp]: "extends t t"
  by (simp add: extends_def)

lemma extends_trans [trans]: "extends t t1 \<Longrightarrow> extends t1 t2 \<Longrightarrow> extends t t2"
  by (auto simp: extends_def)

lemma extends_reads: "extends t t' \<Longrightarrow> reads_hold K (ts_calls t') \<Longrightarrow> reads_hold K (ts_calls t)"
  by (auto simp: extends_def reads_hold_def)

lemma replay_snoc [simp]: "replay (calls @ [x]) K = apply_call (replay calls K) x"
  by (simp add: replay_def)

lemma begin_over: "over E K tx_begin = docs_of E K" "synced E K tx_begin"
  by (simp_all add: over_def docs_of_def synced_def tx_begin_def replay_def)

lemma put_over: "over E K (tx_stage_put c i h x t) = (over E K t)((c, i) := Some x)"
  by (auto simp: over_def tx_stage_put_def fun_eq_iff)

lemma delete_over: "over E K (tx_stage_delete c i t) = (over E K t)((c, i) := None)"
  by (auto simp: over_def tx_stage_delete_def fun_eq_iff)

lemma docs_of_upd: "docs_of E (K((c, i) := h)) = (docs_of E K)((c, i) := map_option (hako_to_doc E i) h)"
  by (auto simp: docs_of_def fun_eq_iff)

lemma put_synced: "synced E K t \<Longrightarrow> hako_to_doc E i h = x \<Longrightarrow> synced E K (tx_stage_put c i h x t)"
  unfolding synced_def put_over by (simp add: tx_stage_put_def docs_of_upd)

lemma delete_synced: "synced E K t \<Longrightarrow> synced E K (tx_stage_delete c i t)"
  unfolding synced_def delete_over by (simp add: tx_stage_delete_def docs_of_upd)

lemma stage_extends [simp]: "extends t (tx_stage_put c i h x t)" "extends t (tx_stage_delete c i t)"
  by (simp_all add: extends_def tx_stage_put_def tx_stage_delete_def)

text \<open>A read that still holds when the transaction commits is a read of what it commits on.\<close>

lemma read_extends: "tx_read E V c i t = Inr (r, t') \<Longrightarrow> extends t t'"
  by (auto simp: tx_read_def extends_def split: option.splits sum.splits)

lemma read_over:
  assumes "tx_read E V c i t = Inr (r, t')" "reads_hold K (ts_calls t')"
  shows "r = over E K t (c, i) \<and> over E K t' = over E K t \<and> (synced E K t \<longrightarrow> synced E K t')"
  using assms by (auto simp: tx_read_def over_def synced_def reads_hold_def split: option.splits sum.splits)

section \<open>Claims of unique values\<close>

lemma unlink_over: "over E K (foldl (unlink E scol new) t ks) (c, j) =
    (if c = scol \<and> (\<exists>(f, k) \<in> set ks. j = shadow_id f k \<and> \<not> (case new of Some n \<Rightarrow> field_key E n f = Some k | None \<Rightarrow> False))
     then None else over E K t (c, j))"
  by (induction ks arbitrary: t) (auto simp: unlink_def Let_def delete_over split: prod.splits)

lemma unlink_synced: "synced E K t \<Longrightarrow> synced E K (foldl (unlink E scol new) t ks)"
  by (induction ks arbitrary: t) (auto simp: unlink_def Let_def delete_synced split: prod.splits)

lemma unlink_extends: "extends t (foldl (unlink E scol new) t ks)"
proof (induction ks arbitrary: t)
  case (Cons fk ks)
  have "extends t (unlink E scol new t fk)" by (simp add: unlink_def Let_def split: prod.splits)
  then show ?case using Cons [of "unlink E scol new t fk"] extends_trans by fastforce
qed simp

lemma holder_shadow [simp]: "holder_of (Some (shadow_doc sid i)) = Some i" "holder_of None = None"
  by (simp_all add: holder_of_def shadow_doc_def)

lemma take_Cons:
  assumes "take_keys E V scol i ((f, k) # ks) t = Inr t'"
  obtains r t1 where "tx_read E V scol (shadow_id f k) t = Inr (r, t1)" "holder_of r \<in> {None, Some i}"
    "take_keys E V scol i ks (tx_stage_put scol (shadow_id f k) (to_hako E (shadow_doc (shadow_id f k) i)) (shadow_doc (shadow_id f k) i) t1) = Inr t'"
  using assms by (auto simp: Let_def split: sum.splits option.splits if_splits)

lemma take_extends: "take_keys E V scol i ks t = Inr t' \<Longrightarrow> extends t t'"
proof (induction ks arbitrary: t)
  case (Cons fk ks)
  obtain f k where [simp]: "fk = (f, k)" by force
  obtain r t1 where r: "tx_read E V scol (shadow_id f k) t = Inr (r, t1)"
    "take_keys E V scol i ks (tx_stage_put scol (shadow_id f k) (to_hako E (shadow_doc (shadow_id f k) i)) (shadow_doc (shadow_id f k) i) t1) = Inr t'"
    by (rule take_Cons [OF Cons.prems [unfolded \<open>fk = (f, k)\<close>]])
  show ?case using Cons.IH [OF r(2)] read_extends [OF r(1)] extends_trans stage_extends(1) by blast
qed simp

lemma claim_extends: "claim_keys E V fs c i old new t = Inr t' \<Longrightarrow> extends t t'"
  using unlink_extends take_extends extends_trans
  by (fastforce simp: claim_keys_def Let_def split: if_splits option.splits)

lemma keys_of_iff: "(f, k) \<in> set (keys_of E fs x) \<longleftrightarrow> f \<in> set fs \<and> field_key E x f = Some k"
  by (auto simp: keys_of_def set_filter_map)

text \<open>Every value of a unique field is claimed by the document that has it.\<close>

definition claimed :: "'s engine \<Rightarrow> string list \<Rightarrow> string \<Rightarrow> docs \<Rightarrow> bool" where
  "claimed E fs c M \<longleftrightarrow> (\<forall>i x f k. M (c, i) = Some x \<longrightarrow> f \<in> set fs \<longrightarrow> field_key E x f = Some k \<longrightarrow>
     holder_of (M (uniq_collection c, shadow_id f k)) = Some i)"

lemma claimed_unique:
  assumes "claimed E fs c M" "M (c, i) = Some x" "M (c, j) = Some y" "f \<in> set fs" "field_key E x f = Some k" "field_key E y f = Some k"
  shows "i = j"
proof -
  have "holder_of (M (uniq_collection c, shadow_id f k)) = Some i" "holder_of (M (uniq_collection c, shadow_id f k)) = Some j"
    using assms unfolding claimed_def by blast+
  then show ?thesis by simp
qed

context hako_engine
begin

lemma shadow_back: "hako_to_doc E sid (to_hako E (shadow_doc sid i)) = shadow_doc sid i"
  using stored_comes_back [of "[]" "shadow_doc sid i" sid]
  by (simp add: to_hako_def fits_def shadow_doc_def dict_ok_def)

lemma take_over:
  assumes "take_keys E V scol i ks t = Inr t'" "reads_hold K (ts_calls t')"
  shows "(\<forall>c j. over E K t' (c, j) = (if c = scol \<and> (\<exists>(f, k) \<in> set ks. j = shadow_id f k) then Some (shadow_doc j i) else over E K t (c, j)))
    \<and> (\<forall>(f, k) \<in> set ks. holder_of (over E K t (scol, shadow_id f k)) \<in> {None, Some i}) \<and> (synced E K t \<longrightarrow> synced E K t')"
  using assms
proof (induction ks arbitrary: t)
  case (Cons fk ks)
  obtain f k where [simp]: "fk = (f, k)" by force
  define sid where "sid = shadow_id f k"
  define t2 where "t2 t1 = tx_stage_put scol sid (to_hako E (shadow_doc sid i)) (shadow_doc sid i) t1" for t1
  obtain r t1 where r: "tx_read E V scol sid t = Inr (r, t1)" "holder_of r \<in> {None, Some i}" "take_keys E V scol i ks (t2 t1) = Inr t'"
    using take_Cons [OF Cons.prems(1) [unfolded \<open>fk = (f, k)\<close>]] unfolding t2_def sid_def by metis
  have rh: "reads_hold K (ts_calls t1)"
    using Cons.prems(2) take_extends [OF r(3)] extends_reads extends_trans stage_extends(1) unfolding t2_def by blast
  note ro = read_over [OF r(1) rh]
  have o2: "over E K (t2 t1) = (over E K t)((scol, sid) := Some (shadow_doc sid i))"
    using ro by (simp add: t2_def put_over)
  have s2: "synced E K t \<Longrightarrow> synced E K (t2 t1)" using ro by (simp add: t2_def put_synced shadow_back)
  note IH = Cons.IH [OF r(3) Cons.prems(2)]
  have h: "holder_of (over E K t (scol, sid)) \<in> {None, Some i}" using ro r(2) by simp
  have "holder_of (over E K t (scol, shadow_id f' k')) \<in> {None, Some i}" if "(f', k') \<in> set ks" for f' k'
  proof (cases "shadow_id f' k' = sid")
    case False
    then have "over E K t (scol, shadow_id f' k') = over E K (t2 t1) (scol, shadow_id f' k')" by (simp add: o2)
    then show ?thesis using IH that by auto
  qed (use h in simp)
  then show ?case using IH h s2 by (auto simp: o2 sid_def)
qed simp

text \<open>A claim keeps the values claimed: the document before is replaced by the one after.\<close>

lemma claim_over:
  assumes "claim_keys E V fs c i old new t = Inr t'" "reads_hold K (ts_calls t')" "synced E K t"
  shows "synced E K t' \<and> (\<forall>c' j. c' \<noteq> uniq_collection c \<longrightarrow> over E K t' (c', j) = over E K t (c', j))
    \<and> (fs = [] \<longrightarrow> over E K t' = over E K t)"
proof -
  define t1 where "t1 = (case old of Some prev \<Rightarrow> foldl (unlink E (uniq_collection c) new) t (keys_of E fs prev) | None \<Rightarrow> t)"
  have t1: "synced E K t1" "c' \<noteq> uniq_collection c \<Longrightarrow> over E K t1 (c', j) = over E K t (c', j)" for c' j
    using assms(3) by (auto simp: t1_def unlink_synced unlink_over split: option.splits)
  have cl: "claim_keys E V fs c i old new t = (if fs = [] then Inr t
      else case new of Some next \<Rightarrow> take_keys E V (uniq_collection c) i (keys_of E fs next) t1 | None \<Rightarrow> Inr t1)"
    unfolding claim_keys_def t1_def Let_def by simp
  show ?thesis
  proof (cases "fs = [] \<or> new = None")
    case True
    then show ?thesis using assms(1,3) t1 by (auto simp: cl split: if_splits)
  next
    case False
    then obtain next' where n: "new = Some next'" "fs \<noteq> []" by blast
    then have "take_keys E V (uniq_collection c) i (keys_of E fs next') t1 = Inr t'"
      using assms(1) [unfolded cl] by simp
    from take_over [OF this assms(2)] show ?thesis using t1 n by auto
  qed
qed

lemma claim_claimed:
  assumes "claim_keys E V fs c i old new t = Inr t'" "reads_hold K (ts_calls t')" "c \<noteq> uniq_collection c"
    and M: "claimed E fs c M" "M (c, i) = old" and t: "over E K t = M((c, i) := new)"
  shows "claimed E fs c (over E K t')"
proof (cases "fs = []")
  case True
  then show ?thesis by (simp add: claimed_def)
next
  case False
  let ?u = "uniq_collection c"
  define t1 where "t1 = (case old of Some prev \<Rightarrow> foldl (unlink E ?u new) t (keys_of E fs prev) | None \<Rightarrow> t)"
  have cl: "claim_keys E V fs c i old new t = (case new of Some next \<Rightarrow> take_keys E V ?u i (keys_of E fs next) t1 | None \<Rightarrow> Inr t1)"
    using False unfolding claim_keys_def t1_def Let_def by simp
  have doc1: "over E K t1 (c, j) = (M((c, i) := new)) (c, j)" for j
    using assms(3) t by (auto simp: t1_def unlink_over split: option.splits)
  have others: "holder_of (over E K t1 (?u, shadow_id f k)) = Some j"
    if "M (c, j) = Some x" "j \<noteq> i" "f \<in> set fs" "field_key E x f = Some k" for j x f k
  proof -
    have h: "holder_of (M (?u, shadow_id f k)) = Some j" using M(1) that unfolding claimed_def by blast
    have "\<not> (\<exists>prev. old = Some prev \<and> (\<exists>(f', k') \<in> set (keys_of E fs prev). shadow_id f k = shadow_id f' k'))"
    proof
      assume "\<exists>prev. old = Some prev \<and> (\<exists>(f', k') \<in> set (keys_of E fs prev). shadow_id f k = shadow_id f' k')"
      then obtain prev f' k' where p: "old = Some prev" "f' \<in> set fs" "field_key E prev f' = Some k'" "shadow_id f k = shadow_id f' k'"
        by (auto simp: keys_of_iff)
      then have "holder_of (M (?u, shadow_id f' k')) = Some i" using M unfolding claimed_def by blast
      then show False using h that(2) p(4) by simp
    qed
    then have "over E K t1 (?u, shadow_id f k) = over E K t (?u, shadow_id f k)"
      by (auto simp: t1_def unlink_over split: option.splits)
    then show ?thesis using h t assms(3) by auto
  qed
  show ?thesis
  proof (cases new)
    case None
    then have "t' = t1" using assms(1) cl by simp
    then show ?thesis using others doc1 None by (auto simp: claimed_def split: if_splits)
  next
    case (Some x)
    then have tk: "take_keys E V ?u i (keys_of E fs x) t1 = Inr t'" using assms(1) cl by simp
    note to = take_over [OF tk assms(2)]
    have doc': "over E K t' (c, j) = (M((c, i) := new)) (c, j)" for j using to doc1 assms(3) by auto
    show ?thesis
      unfolding claimed_def
    proof (intro allI impI)
      fix j y f k
      assume y: "over E K t' (c, j) = Some y" "f \<in> set fs" "field_key E y f = Some k"
      show "holder_of (over E K t' (?u, shadow_id f k)) = Some j"
      proof (cases "j = i")
        case True
        then have "(f, k) \<in> set (keys_of E fs x)" using y doc' Some by (simp add: keys_of_iff)
        then show ?thesis using to True by auto
      next
        case False
        then have m: "M (c, j) = Some y" using y(1) doc' by simp
        note o = others [OF m False y(2,3)]
        have "\<not> (\<exists>(f', k') \<in> set (keys_of E fs x). shadow_id f k = shadow_id f' k')"
          using to o False by fastforce
        then show ?thesis using to o by auto
      qed
    qed
  qed
qed

end

section \<open>Operations\<close>

text \<open>The collections clients address; those of the driver itself are reserved.\<close>

definition unreserved :: "string \<Rightarrow> bool" where
  "unreserved c \<longleftrightarrow> \<not> starts_with ''__'' c"

definition user_docs :: "docs \<Rightarrow> docs" where
  "user_docs M = (\<lambda>(c, i). if unreserved c then M (c, i) else None)"

definition all_fit :: "'s hako_db \<Rightarrow> docs \<Rightarrow> bool" where
  "all_fit d M \<longleftrightarrow> (\<forall>c i x. unreserved c \<longrightarrow> M (c, i) = Some x \<longrightarrow> d_id x = i \<and> fits (vector_fields d c) x)"

text \<open>Every unique field of an unreserved collection is claimed.\<close>

definition all_claimed :: "'s engine \<Rightarrow> 's hako_db \<Rightarrow> docs \<Rightarrow> bool" where
  "all_claimed E d M \<longleftrightarrow> (\<forall>c. unreserved c \<longrightarrow> claimed E (unique_fields d c) c M)"

definition sound :: "'s engine \<Rightarrow> 's hako_db \<Rightarrow> docs \<Rightarrow> bool" where
  "sound E d M \<longleftrightarrow> all_fit d M \<and> all_claimed E d M"

definition op_fits :: "'s hako_db \<Rightarrow> tx_op \<Rightarrow> bool" where
  "op_fits d p \<longleftrightarrow> unreserved (t_collection p) \<and> (case t_doc p of None \<Rightarrow> True | Some b \<Rightarrow> fits (vector_fields d (t_collection p)) b)"

lemma uniq_reserved: "unreserved c \<Longrightarrow> c \<noteq> uniq_collection c'"
  by (auto simp: unreserved_def uniq_collection_def starts_with_iff)

lemma uniq_inject [simp]: "uniq_collection c = uniq_collection c' \<longleftrightarrow> c = c'"
  by (simp add: uniq_collection_def)

lemma fits_empty: "fits vs \<lparr>d_id = i, d_data = []\<rparr>"
  by (auto simp: fits_def dict_ok_def vector_of_def)

lemma fits_data: "fits vs \<lparr>d_id = i, d_data = d_data x\<rparr> = fits vs x"
  by (simp add: fits_def)

lemma fits_put:
  assumes "all_fit d M" "op_fits d p" "M (t_collection p, t_id p) = old"
  shows "fits (vector_fields d (t_collection p))
    \<lparr>d_id = t_id p, d_data = dextend (if merge then (case old of Some o' \<Rightarrow> d_data o' | None \<Rightarrow> []) else [])
       (case t_doc p of Some b \<Rightarrow> d_data b | None \<Rightarrow> [])\<rparr>"
proof -
  let ?vs = "vector_fields d (t_collection p)"
  define base where "base = (if merge then (case old of Some o' \<Rightarrow> d_data o' | None \<Rightarrow> []) else [])"
  define b where "b = (case t_doc p of Some b \<Rightarrow> d_data b | None \<Rightarrow> [])"
  have old: "fits ?vs o'" if "old = Some o'" for o' using that assms unfolding all_fit_def op_fits_def by blast
  have "fits ?vs \<lparr>d_id = t_id p, d_data = base\<rparr>"
    using fits_empty [of ?vs] old by (auto simp: base_def fits_data split: option.split)
  moreover have "dict_ok b \<and> list_all (\<lambda>e. plain_json (snd e)) b \<and> (\<forall>(f, n) \<in> set ?vs. vector_of (dget b f) n = None)"
    using assms(2) fits_empty [of ?vs] by (auto simp: b_def op_fits_def fits_def split: option.splits)
  ultimately show ?thesis using fits_extend [of ?vs "\<lparr>d_id = t_id p, d_data = base\<rparr>" b "t_id p"] by (simp add: base_def b_def)
qed

context hako_engine
begin

lemma write_sound:
  assumes ta: "over E K ta = M((c, i) := new)" "synced E K ta"
    and cl: "claim_keys E V (unique_fields d c) c i (M (c, i)) new ta = Inr t'" "reads_hold K (ts_calls t')"
    and M: "sound E d M" "unreserved c"
    and new: "\<And>x. new = Some x \<Longrightarrow> d_id x = i \<and> fits (vector_fields d c) x"
  shows "synced E K t' \<and> sound E d (over E K t') \<and> user_docs (over E K t') = (user_docs M)((c, i) := new)"
proof -
  note co = claim_over [OF cl ta(2)]
  have docs: "over E K t' (c', j) = (M((c, i) := new)) (c', j)" if "c' \<noteq> uniq_collection c" for c' j
    using co that ta(1) by simp
  have un: "user_docs (over E K t') = (user_docs M)((c, i) := new)"
    using docs uniq_reserved M(2) by (auto simp: user_docs_def fun_eq_iff)
  have fit: "all_fit d (over E K t')"
    using M(1) docs uniq_reserved new by (auto simp: all_fit_def sound_def split: if_splits)
  have "claimed E (unique_fields d c') c' (over E K t')" if c': "unreserved c'" for c'
  proof (cases "c' = c")
    case True
    have "claimed E (unique_fields d c) c M" using M by (simp add: sound_def all_claimed_def)
    then show ?thesis using claim_claimed [OF cl uniq_reserved [OF M(2)] _ refl ta(1)] True by simp
  next
    case False
    have "claimed E (unique_fields d c') c' M" using M(1) c' by (simp add: sound_def all_claimed_def)
    moreover have "over E K t' (c', j) = M (c', j)" "over E K t' (uniq_collection c', j) = M (uniq_collection c', j)" for j
      using docs [of c'] docs [of "uniq_collection c'"] False uniq_reserved [OF c'] uniq_reserved [OF M(2)] by auto
    ultimately show ?thesis by (simp add: claimed_def)
  qed
  then show ?thesis using co un fit by (simp add: sound_def all_claimed_def)
qed

lemma tx_op_sound:
  assumes "hako_tx_op E V d p t = Inr (x, t')" "reads_hold K (ts_calls t')" "synced E K t" "sound E d (over E K t)" "op_fits d p"
  shows "synced E K t' \<and> sound E d (over E K t') \<and> spec_tx_op (user_docs (over E K t)) p = Some (x, user_docs (over E K t'))"
proof -
  let ?c = "t_collection p" and ?i = "t_id p" and ?M = "over E K t"
  have c: "unreserved ?c" using assms(5) by (simp add: op_fits_def)
  obtain old t1 where r: "tx_read E V ?c ?i t = Inr (old, t1)" using assms(1) by (auto simp: hako_tx_op_def Let_def split: sum.splits)
  note op = assms(1) [unfolded hako_tx_op_def Let_def r sum.case prod.case]
  have ur: "user_docs ?M (?c, ?i) = ?M (?c, ?i)" using c by (simp add: user_docs_def)
  show ?thesis
  proof (cases "t_kind p")
    case TxRead
    then have t': "t' = t1" "x = \<lparr>x_doc = old, x_existed = old \<noteq> None\<rparr>" using op by auto
    then show ?thesis using read_over [OF r] assms TxRead by (auto simp: spec_tx_op_def Let_def ur)
  next
    case (TxPut merge must_exist)
    define y where "y = \<lparr>d_id = ?i, d_data = dextend (if merge then (case old of Some o' \<Rightarrow> d_data o' | None \<Rightarrow> []) else [])
      (case t_doc p of Some b \<Rightarrow> d_data b | None \<Rightarrow> [])\<rparr>"
    define ta where "ta = tx_stage_put ?c ?i (to_hako_vector E y (vector_fields d ?c)) y t1"
    have me: "must_exist \<longrightarrow> old \<noteq> None" and cl: "claim_keys E V (unique_fields d ?c) ?c ?i old (Some y) ta = Inr t'"
      and x: "x = \<lparr>x_doc = Some y, x_existed = old \<noteq> None\<rparr>"
      using op TxPut unfolding y_def ta_def by (auto split: if_splits sum.splits)
    have "reads_hold K (ts_calls t1)"
      using assms(2) claim_extends [OF cl] extends_reads extends_trans stage_extends(1) unfolding ta_def by blast
    note ro = read_over [OF r this]
    have fy: "fits (vector_fields d ?c) y" unfolding y_def by (rule fits_put) (use assms ro in \<open>auto simp: sound_def\<close>)
    have ta: "over E K ta = ?M((?c, ?i) := Some y)" "synced E K ta"
      using ro assms(3) stored_comes_back [OF fy, of ?i] by (simp_all add: ta_def put_over put_synced y_def)
    have cl': "claim_keys E V (unique_fields d ?c) ?c ?i (?M (?c, ?i)) (Some y) ta = Inr t'" using cl ro by simp
    have sp: "spec_put (user_docs ?M) ?c ?i (case t_doc p of None \<Rightarrow> [] | Some d \<Rightarrow> d_data d) merge = y"
      using ro by (auto simp: spec_put_def y_def ur split: option.splits)
    show ?thesis
      using write_sound [OF ta cl' assms(2,4) c] fy me ro sp TxPut x by (auto simp: spec_tx_op_def Let_def ur y_def)
  next
    case TxDelete
    define ta where "ta = tx_stage_delete ?c ?i t1"
    have cl: "claim_keys E V (unique_fields d ?c) ?c ?i old None ta = Inr t'" and x: "x = \<lparr>x_doc = old, x_existed = old \<noteq> None\<rparr>"
      using op TxDelete unfolding ta_def by (auto split: sum.splits)
    have "reads_hold K (ts_calls t1)"
      using assms(2) claim_extends [OF cl] extends_reads extends_trans stage_extends(2) unfolding ta_def by blast
    note ro = read_over [OF r this]
    have ta: "over E K ta = ?M((?c, ?i) := None)" "synced E K ta"
      using ro assms(3) by (simp_all add: ta_def delete_over delete_synced)
    have cl': "claim_keys E V (unique_fields d ?c) ?c ?i (?M (?c, ?i)) None ta = Inr t'" using cl ro by simp
    show ?thesis
      using write_sound [OF ta cl' assms(2,4) c] ro TxDelete x by (auto simp: spec_tx_op_def Let_def ur)
  qed
qed

lemma op_extends: "hako_tx_op E V d p t = Inr (x, t') \<Longrightarrow> extends t t'"
  by (auto simp: hako_tx_op_def Let_def split: sum.splits tx_kind.splits if_splits dest!: read_extends claim_extends)
    (meson extends_trans stage_extends)+

lemma ops_extends: "hako_tx_ops E V d ops t = Inr (xs, t') \<Longrightarrow> extends t t'"
proof (induction ops arbitrary: t xs)
  case (Cons p ops)
  obtain x t1 ys where "hako_tx_op E V d p t = Inr (x, t1)" "hako_tx_ops E V d ops t1 = Inr (ys, t')"
    using Cons.prems by (auto split: sum.splits)
  then show ?case using op_extends Cons.IH extends_trans by blast
qed simp

lemma tx_ops_sound:
  assumes "hako_tx_ops E V d ops t = Inr (xs, t')" "reads_hold K (ts_calls t')" "synced E K t" "sound E d (over E K t)" "\<forall>p \<in> set ops. op_fits d p"
  shows "synced E K t' \<and> sound E d (over E K t') \<and> spec_tx (user_docs (over E K t)) ops = Some (xs, user_docs (over E K t'))"
  using assms
proof (induction ops arbitrary: t xs)
  case (Cons p ops)
  obtain x t1 ys where o: "hako_tx_op E V d p t = Inr (x, t1)" "hako_tx_ops E V d ops t1 = Inr (ys, t')" "xs = x # ys"
    using Cons.prems(1) by (auto split: sum.splits)
  have p: "op_fits d p" "\<forall>p \<in> set ops. op_fits d p" using Cons.prems(5) by auto
  have rh: "reads_hold K (ts_calls t1)" using Cons.prems(2) ops_extends [OF o(2)] extends_reads by blast
  note one = tx_op_sound [OF o(1) rh Cons.prems(3,4) p(1)]
  show ?case using one Cons.IH [OF o(2) Cons.prems(2) _ _ p(2)] o(3) by simp
qed simp

text \<open>A transaction as a whole.\<close>

lemma run_sound:
  assumes "I (hk_inner d)" "sound E d (docs_of E (kept (hk_inner d)))" "\<forall>p \<in> set ops. op_fits d p"
    and "hako_run_transaction E V d ops = (r, d')"
  shows "I (hk_inner d') \<and> hk_unique d' = hk_unique d \<and> hk_vectors d' = hk_vectors d
    \<and> sound E d (docs_of E (kept (hk_inner d')))
    \<and> (case r of Inl e \<Rightarrow> kept (hk_inner d') = kept (hk_inner d)
       | Inr xs \<Rightarrow> spec_tx (user_docs (docs_of E (kept (hk_inner d)))) ops = Some (xs, user_docs (docs_of E (kept (hk_inner d')))))"
proof (cases "hako_tx_ops E V d ops tx_begin")
  case (Inl e)
  then show ?thesis using assms by (auto simp: hako_run_transaction_def)
next
  case (Inr xt)
  obtain xs t where xt: "xt = (xs, t)" by force
  obtain rc s where cm: "en_commit E (hk_inner d) (ts_calls t) = (rc, s)" by force
  note ck = commit_kept [OF assms(1) cm]
  show ?thesis
  proof (cases rc)
    case (Inl e)
    then show ?thesis using assms Inr xt cm ck by (auto simp: hako_run_transaction_def)
  next
    case ok: (Inr u)
    then have rh: "reads_hold (kept (hk_inner d)) (ts_calls t)" and ks: "kept s = replay (ts_calls t) (kept (hk_inner d))"
      using ck by auto
    have "synced E (kept (hk_inner d)) t \<and> sound E d (over E (kept (hk_inner d)) t)
      \<and> spec_tx (user_docs (docs_of E (kept (hk_inner d)))) ops = Some (xs, user_docs (over E (kept (hk_inner d)) t))"
      using tx_ops_sound [OF Inr [unfolded xt] rh begin_over(2)] assms(2,3) by (simp add: begin_over)
    then have "sound E d (docs_of E (kept s))" "spec_tx (user_docs (docs_of E (kept (hk_inner d)))) ops = Some (xs, user_docs (docs_of E (kept s)))"
      by (simp_all add: synced_def ks)
    then show ?thesis using assms(4) Inr xt cm ck ok by (auto simp: hako_run_transaction_def)
  qed
qed

lemma get_docs: "I s \<Longrightarrow> hako_get E s c i = Inr (docs_of E (kept s) (c, i))"
  by (simp add: hako_get_def get_kept docs_of_def)

end

section \<open>The life of a database\<close>

text \<open>What the reads of an operation find: documents of states in between.\<close>

definition seen :: "'s engine \<Rightarrow> ('s \<Rightarrow> string \<times> string \<Rightarrow> hdoc option) \<Rightarrow> ('s \<Rightarrow> bool) \<Rightarrow> 's hako_db \<Rightarrow> (nat \<Rightarrow> 's) \<Rightarrow> bool" where
  "seen E kept I d V \<longleftrightarrow> (\<forall>n. I (V n) \<and> all_fit d (docs_of E (kept (V n))))"

text \<open>
  The operations of the driver one after the other, on documents that fit, each with reads that may
  be of other states. A unique field is declared while its collection is empty.
\<close>

inductive hako_reach :: "'s engine \<Rightarrow> ('s \<Rightarrow> string \<times> string \<Rightarrow> hdoc option) \<Rightarrow> ('s \<Rightarrow> bool) \<Rightarrow> 's hako_db \<Rightarrow> 's hako_db \<Rightarrow> bool"
  for E :: "'s engine" and kept and I and d0 where
  start: "hako_reach E kept I d0 d0"
| set: "hako_reach E kept I d0 d \<Longrightarrow> unreserved c \<Longrightarrow> fits (vector_fields d c) x \<Longrightarrow> seen E kept I d V \<Longrightarrow>
    hako_set E V d c i x merge = (r, d') \<Longrightarrow> hako_reach E kept I d0 d'"
| insert: "hako_reach E kept I d0 d \<Longrightarrow> unreserved c \<Longrightarrow> fits (vector_fields d c) x \<Longrightarrow> seen E kept I d V \<Longrightarrow>
    hako_insert E fresh V d c x = (r, d') \<Longrightarrow> hako_reach E kept I d0 d'"
| delete: "hako_reach E kept I d0 d \<Longrightarrow> unreserved c \<Longrightarrow> hako_delete E V d c i = (ro, d') \<Longrightarrow> hako_reach E kept I d0 d'"
| force: "hako_reach E kept I d0 d \<Longrightarrow> unreserved c \<Longrightarrow> hako_delete_force E V d c i = (ro, d') \<Longrightarrow> hako_reach E kept I d0 d'"
| transaction: "hako_reach E kept I d0 d \<Longrightarrow> \<forall>p \<in> set ops. op_fits d p \<Longrightarrow> hako_run_transaction E V d ops = (rt, d') \<Longrightarrow>
    hako_reach E kept I d0 d'"
| declared: "hako_reach E kept I d0 d \<Longrightarrow> ix_unique spec \<Longrightarrow> \<forall>i. kept (hk_inner d) (c, i) = None \<Longrightarrow>
    hako_create_index E d c spec = (rx, d') \<Longrightarrow> hako_reach E kept I d0 d'"

lemma sound_plain:
  assumes "sound E d M" "\<And>c'. c \<noteq> uniq_collection c'" "unique_fields d c = [] \<or> new = None \<or> \<not> unreserved c"
    and "\<And>x. unreserved c \<Longrightarrow> new = Some x \<Longrightarrow> d_id x = i \<and> fits (vector_fields d c) x"
  shows "sound E d (M((c, i) := new))"
proof -
  have u: "uniq_collection c' \<noteq> c" for c' using assms(2) by metis
  have "all_fit d (M((c, i) := new))" using assms(1,4) by (auto simp: sound_def all_fit_def)
  moreover have "claimed E (unique_fields d c') c' (M((c, i) := new))" if "unreserved c'" for c'
  proof -
    have "claimed E (unique_fields d c') c' M" using assms(1) that by (simp add: sound_def all_claimed_def)
    then show ?thesis using assms(3) that u by (cases "c' = c") (auto simp: claimed_def)
  qed
  ultimately show ?thesis by (simp add: sound_def all_claimed_def)
qed

lemma sound_same: "unique_fields d' = unique_fields d \<Longrightarrow> vector_fields d' = vector_fields d \<Longrightarrow> sound E d' M = sound E d M"
  by (simp add: sound_def all_fit_def all_claimed_def)

lemma inner_fields [simp]: "unique_fields (d\<lparr>hk_inner := s\<rparr>) = unique_fields d" "vector_fields (d\<lparr>hk_inner := s\<rparr>) = vector_fields d"
  by (simp_all add: unique_fields_def vector_fields_def fun_eq_iff)


abbreviation held :: "'s engine \<Rightarrow> ('s \<Rightarrow> string \<times> string \<Rightarrow> hdoc option) \<Rightarrow> 's hako_db \<Rightarrow> docs" where
  "held E kept d \<equiv> docs_of E (kept (hk_inner d))"

definition hako_ok :: "'s engine \<Rightarrow> ('s \<Rightarrow> string \<times> string \<Rightarrow> hdoc option) \<Rightarrow> ('s \<Rightarrow> bool) \<Rightarrow> 's hako_db \<Rightarrow> bool" where
  "hako_ok E kept I d \<longleftrightarrow> I (hk_inner d) \<and> sound E d (held E kept d)"

context hako_engine
begin

lemma run_ok:
  assumes "hako_ok E kept I d" "\<forall>p \<in> set ops. op_fits d p" "hako_run_transaction E V d ops = (r, d')"
  shows "hako_ok E kept I d' \<and> unique_fields d' = unique_fields d \<and> vector_fields d' = vector_fields d
    \<and> (case r of Inl e \<Rightarrow> kept (hk_inner d') = kept (hk_inner d)
       | Inr xs \<Rightarrow> spec_tx (user_docs (held E kept d)) ops = Some (xs, user_docs (held E kept d')))"
proof -
  have "I (hk_inner d)" "sound E d (held E kept d)" using assms(1) by (simp_all add: hako_ok_def)
  note r = run_sound [OF this assms(2,3)]
  then have "unique_fields d' = unique_fields d" "vector_fields d' = vector_fields d" by (simp_all add: unique_fields_def vector_fields_def fun_eq_iff)
  then show ?thesis using r sound_same by (auto simp: hako_ok_def)
qed

lemma set_ok:
  assumes ok: "hako_ok E kept I d" and x: "unreserved c" "fits (vector_fields d c) x" and V: "merge \<longrightarrow> seen E kept I d V"
    and set: "hako_set E V d c i x merge = (r, d')"
  shows "hako_ok E kept I d' \<and> unique_fields d' = unique_fields d \<and> vector_fields d' = vector_fields d
    \<and> (case r of Inl e \<Rightarrow> True | Inr y \<Rightarrow> d_id y = i \<and> (\<not> merge \<longrightarrow> d_data y = d_data x)
         \<and> user_docs (held E kept d') = (user_docs (held E kept d))((c, i) := Some y))"
proof (cases "unique_fields d c = []")
  case False
  let ?op = "\<lparr>t_collection = c, t_id = i, t_kind = TxPut merge False, t_doc = Some x\<rparr>"
  obtain rt d1 where t: "hako_run_transaction E V d [?op] = (rt, d1)" by force
  have "\<forall>p \<in> set [?op]. op_fits d p" using x by (simp add: op_fits_def)
  note ro = run_ok [OF ok this t]
  have "dict_ok (d_data x)" using x(2) by (simp add: fits_def)
  then show ?thesis using set False t ro
    by (auto simp: hako_set_def last_doc_def spec_tx_op_def spec_put_def Let_def dextend_empty split: sum.splits option.splits if_splits)
next
  case True
  obtain base where base: "(if merge then hako_get E (V 0) c i else Inr None) = Inr base"
      "\<And>o'. base = Some o' \<Longrightarrow> merge \<and> fits (vector_fields d c) o'"
  proof (cases merge)
    case True
    then have "I (V 0)" "all_fit d (docs_of E (kept (V 0)))" using V by (auto simp: seen_def)
    then show ?thesis using that [of "docs_of E (kept (V 0)) (c, i)"] True x(1) get_docs by (auto simp: all_fit_def)
  qed (use that in auto)
  define y where "y = \<lparr>d_id = i, d_data = (if merge then dextend (case base of Some o' \<Rightarrow> d_data o' | None \<Rightarrow> []) (d_data x) else d_data x)\<rparr>"
  have fy: "fits (vector_fields d c) y"
  proof (cases merge)
    case True
    have "fits (vector_fields d c) \<lparr>d_id = i, d_data = (case base of Some o' \<Rightarrow> d_data o' | None \<Rightarrow> [])\<rparr>"
      using base(2) fits_empty [of "vector_fields d c"] by (auto simp: fits_data split: option.split)
    moreover have "dict_ok (d_data x)" "list_all (\<lambda>e. plain_json (snd e)) (d_data x)"
      "\<forall>(f, n) \<in> set (vector_fields d c). vector_of (dget (d_data x) f) n = None"
      using x(2) unfolding fits_def by blast+
    ultimately show ?thesis using fits_extend [of "vector_fields d c" "\<lparr>d_id = i, d_data = (case base of Some o' \<Rightarrow> d_data o' | None \<Rightarrow> [])\<rparr>" "d_data x" i] True
      by (simp add: y_def)
  qed (use x(2) in \<open>simp add: y_def fits_data\<close>)
  obtain rp s where p: "en_put E (hk_inner d) c i (to_hako_vector E y (vector_fields d c)) = (rp, s)" by force
  note pk = put_kept [OF ok [unfolded hako_ok_def, THEN conjunct1] p]
  have "hako_set E V d c i x merge = (case on_inner d (en_put E (hk_inner d) c i (to_hako_vector E y (vector_fields d c))) of
      (Inl e, d') \<Rightarrow> (Inl e, d') | (Inr _, d') \<Rightarrow> (Inr y, d'))"
    unfolding hako_set_def base(1) y_def Let_def using True by simp
  then have d': "d' = d\<lparr>hk_inner := s\<rparr>" and r: "r = (case rp of Inl e \<Rightarrow> Inl (Internal e) | Inr _ \<Rightarrow> Inr y)"
    using set p by (cases rp; simp add: on_inner_def)+
  show ?thesis
  proof (cases rp)
    case (Inl e)
    then show ?thesis using pk ok r d' sound_same [of d' d] by (simp add: hako_ok_def)
  next
    case (Inr u)
    then have h: "held E kept d' = (held E kept d)((c, i) := Some y)"
      using pk d' stored_comes_back [OF fy, of i] by (simp add: docs_of_upd y_def)
    have sd: "sound E d' M = sound E d M" for M by (rule sound_same) (simp_all add: d')
    have "sound E d ((held E kept d)((c, i) := Some y))"
      by (rule sound_plain) (use ok uniq_reserved [OF x(1)] True fy in \<open>auto simp: hako_ok_def y_def\<close>)
    then have "sound E d' (held E kept d')" by (simp add: h sd)
    moreover have "I (hk_inner d')" using pk by (simp add: d')
    moreover have "user_docs (held E kept d') = (user_docs (held E kept d))((c, i) := Some y)"
      unfolding h using x(1) by (auto simp: user_docs_def fun_eq_iff)
    moreover have "r = Inr y" "d_id y = i" "\<not> merge \<longrightarrow> d_data y = d_data x" using r Inr by (simp_all add: y_def)
    moreover have "unique_fields d' = unique_fields d" "vector_fields d' = vector_fields d" by (simp_all add: d')
    ultimately show ?thesis unfolding hako_ok_def by simp
  qed
qed

lemma drop_ok:
  assumes "hako_ok E kept I d" "\<And>c'. c \<noteq> uniq_collection c'" "I s" "kept s = (kept (hk_inner d))((c, i) := None)"
  shows "hako_ok E kept I (d\<lparr>hk_inner := s\<rparr>)"
  using assms sound_plain [of E d "held E kept d" c None i]
  by (simp add: hako_ok_def docs_of_upd sound_same [of "d\<lparr>hk_inner := s\<rparr>" d])

lemma keep_ok: "hako_ok E kept I d \<Longrightarrow> I s \<Longrightarrow> kept s = kept (hk_inner d) \<Longrightarrow> hako_ok E kept I (d\<lparr>hk_inner := s\<rparr>)"
  by (simp add: hako_ok_def sound_same [of "d\<lparr>hk_inner := s\<rparr>" d])

lemma delete_ok:
  assumes "hako_ok E kept I d" "unreserved c" "hako_delete E V d c i = (r, d')"
  shows "hako_ok E kept I d'"
proof (cases "unique_fields d c = []")
  case False
  let ?op = "\<lparr>t_collection = c, t_id = i, t_kind = TxDelete, t_doc = None\<rparr>"
  obtain rt d1 where t: "hako_run_transaction E V d [?op] = (rt, d1)" by force
  have "\<forall>p \<in> set [?op]. op_fits d p" using assms(2) by (simp add: op_fits_def)
  from run_ok [OF assms(1) this t] show ?thesis using assms(3) False t by (auto simp: hako_delete_def split: sum.splits)
next
  case True
  obtain rp s where p: "en_delete E (hk_inner d) c i = (rp, s)" by force
  note pk = delete_kept [OF assms(1) [unfolded hako_ok_def, THEN conjunct1] p]
  have "d' = d \<or> d' = d\<lparr>hk_inner := s\<rparr>" using assms(3) True p by (auto simp: hako_delete_def on_inner_def split: sum.splits)
  then show ?thesis using pk assms(1) keep_ok drop_ok [OF assms(1) uniq_reserved [OF assms(2)]] by (auto split: sum.splits)
qed

lemma force_ok:
  assumes "hako_ok E kept I d" "\<And>c'. c \<noteq> uniq_collection c'" "on_inner d (en_delete_force E (hk_inner d) c i) = (r, d')"
  shows "hako_ok E kept I d'"
proof -
  obtain rp s where p: "en_delete_force E (hk_inner d) c i = (rp, s)" by force
  note pk = force_kept [OF assms(1) [unfolded hako_ok_def, THEN conjunct1] p]
  have "d' = d\<lparr>hk_inner := s\<rparr>" using assms(3) p by (auto simp: on_inner_def)
  then show ?thesis using pk assms(1) keep_ok drop_ok [OF assms(1,2)] by (auto split: sum.splits)
qed

lemma declare_ok:
  assumes "hako_ok E kept I d" "ix_unique spec" "\<forall>i. kept (hk_inner d) (c, i) = None" "hako_create_index E d c spec = (r, d')"
  shows "hako_ok E kept I d'"
proof -
  let ?f = "hd (ix_fields spec)"
  obtain ri s1 where ci: "en_create_index E (hk_inner d) c ?f = (ri, s1)" by force
  note ik = index_kept [OF assms(1) [unfolded hako_ok_def, THEN conjunct1] ci]
  let ?h = "[(''fields'', HArray [HString ?f])]"
  obtain rp s2 where ep: "en_put E s1 SCHEMA_COLLECTION (''uniq:'' @ c) ?h = (rp, s2)" by force
  note pk = put_kept [OF ik [THEN conjunct1] ep]
  have ok1: "hako_ok E kept I (d\<lparr>hk_inner := s1\<rparr>)" using keep_ok [OF assms(1)] ik by simp
  have res: "\<not> unreserved SCHEMA_COLLECTION" "SCHEMA_COLLECTION \<noteq> uniq_collection c'" for c'
    by (simp_all add: SCHEMA_COLLECTION_def unreserved_def uniq_collection_def starts_with_iff)
  have ok2: "hako_ok E kept I (d\<lparr>hk_inner := s2\<rparr>)"
  proof (cases rp)
    case (Inl e)
    then show ?thesis using keep_ok [OF assms(1)] ik pk by simp
  next
    case (Inr u)
    then have "held E kept (d\<lparr>hk_inner := s2\<rparr>) = (held E kept d)((SCHEMA_COLLECTION, ''uniq:'' @ c) := Some (hako_to_doc E (''uniq:'' @ c) ?h))"
      using ik pk by (simp add: docs_of_upd)
    then show ?thesis
      using sound_plain [of E d "held E kept d" SCHEMA_COLLECTION] assms(1) res pk Inr by (simp add: hako_ok_def sound_same [of "d\<lparr>hk_inner := s2\<rparr>" d])
  qed
  have empty: "kept s2 (c, i) = None" if "c \<noteq> SCHEMA_COLLECTION" for i
    using assms(3) ik pk that by (auto split: sum.splits)
  let ?d3 = "d\<lparr>hk_inner := s2, hk_unique := dput c [?f] (hk_unique d)\<rparr>"
  have uf: "unique_fields ?d3 c' = (if c' = c then [?f] else unique_fields d c')" for c' by (simp add: unique_fields_def)
  have "hako_ok E kept I ?d3"
  proof -
    have s: "sound E d (docs_of E (kept s2))" "I s2" using ok2 sound_same [of "d\<lparr>hk_inner := s2\<rparr>" d] by (simp_all add: hako_ok_def)
    have "claimed E (unique_fields ?d3 c') c' (docs_of E (kept s2))" if "unreserved c'" for c'
    proof (cases "c' = c")
      case True
      then have "docs_of E (kept s2) (c', i) = None" for i using empty that res(1) by (auto simp: docs_of_def)
      then show ?thesis by (simp add: claimed_def)
    next
      case False
      then show ?thesis using s(1) that uf by (simp add: sound_def all_claimed_def)
    qed
    moreover have "all_fit ?d3 (docs_of E (kept s2))" using s(1) by (simp add: sound_def all_fit_def vector_fields_def)
    ultimately show ?thesis using s(2) by (simp add: hako_ok_def sound_def all_claimed_def)
  qed
  then have "hako_ok E kept I (snd (create_unique E d c (ix_name spec) ?f))"
    using ok1 ok2 ci ep by (cases ri; cases rp) (simp_all add: create_unique_def on_inner_def)
  then show ?thesis using assms by (auto simp: hako_create_index_def split: sum.splits if_splits)
qed

lemma reach_ok: "hako_reach E kept I d0 d \<Longrightarrow> hako_ok E kept I d0 \<Longrightarrow> hako_ok E kept I d"
proof (induction rule: hako_reach.induct)
  case (set d c x V i merge r d')
  then show ?case using set_ok by blast
next
  case (insert d c x V fresh r d')
  define y where "y = (if d_id x = [] then x\<lparr>d_id := fresh\<rparr> else x)"
  have fy: "fits (vector_fields d c) y" using insert(3) by (simp add: fits_def y_def)
  have "d' = d \<or> hako_set E (\<lambda>n. V (Suc n)) d c (d_id y) y False = (r, d')"
    using insert(5) unfolding hako_insert_def Let_def y_def [symmetric] by (auto split: sum.splits option.splits)
  then show ?case
  proof
    assume h: "hako_set E (\<lambda>n. V (Suc n)) d c (d_id y) y False = (r, d')"
    show ?thesis using set_ok [OF insert.IH [OF insert.prems] insert(2) fy _ h] by simp
  qed (use insert.IH insert.prems in simp)
next
  case (force d c V i ro d')
  have s: "''__hako_softdel'' \<noteq> uniq_collection c'" for c' by (simp add: uniq_collection_def)
  obtain r1 d1 where 1: "hako_delete E V d c i = (r1, d1)" by force
  have ok1: "hako_ok E kept I d1" using delete_ok [OF force.IH [OF force.prems] force(2) 1] .
  obtain r2 d2 where 2: "on_inner d1 (en_delete_force E (hk_inner d1) c i) = (r2, d2)" by force
  have ok2: "hako_ok E kept I d2" by (rule force_ok [OF ok1 uniq_reserved [OF force(2)] 2])
  obtain r3 d3 where 3: "on_inner d2 (en_delete_force E (hk_inner d2) ''__hako_softdel'' (c @ ''/'' @ i)) = (r3, d3)" by force
  have ok3: "hako_ok E kept I d3" by (rule force_ok [OF ok2 s 3])
  show ?case using force(3) 1 2 3 ok1 ok2 ok3 by (auto simp: hako_delete_force_def split: sum.splits)
qed (use delete_ok run_ok declare_ok in blast)+

lemma empty_ok: "I (hk_inner d) \<Longrightarrow> kept (hk_inner d) = (\<lambda>_. None) \<Longrightarrow> hako_ok E kept I d"
  by (simp add: hako_ok_def sound_def all_fit_def all_claimed_def claimed_def docs_of_def)

end

end
