(* ===== verification/HakoGuarantees.thy ===== *)
theory HakoGuarantees
  imports HakoProofs
begin

text \<open>
  The properties of the HakoDB driver over any lawful engine, on an engine given by a function of
  collection and id, and what the driver does not do.
\<close>

section \<open>An engine\<close>

type_synonym hk_map = "string \<times> string \<Rightarrow> hdoc option"

definition call_holds :: "hk_map \<Rightarrow> tx_call \<Rightarrow> bool" where
  "call_holds K x \<longleftrightarrow> (case x of CallGet c i h \<Rightarrow> K (c, i) = h | _ \<Rightarrow> True)"

lemma reads_hold_all: "reads_hold K calls \<longleftrightarrow> list_all (call_holds K) calls"
  unfolding reads_hold_def list_all_iff call_holds_def
  by (auto split: tx_call.splits)

text \<open>Documents as a function; commits check their reads. It has no deleted documents, no indexes and no search.\<close>

definition map_engine :: "hk_map engine" where
  "map_engine = \<lparr>
     en_get = (\<lambda>s c i. Inr (s (c, i))), en_get_json = (\<lambda>s c i. Inr None), en_version = (\<lambda>s i. None),
     en_put = (\<lambda>s c i h. (Inr (), s((c, i) := Some h))), en_delete = (\<lambda>s c i. (Inr (), s((c, i) := None))),
     en_delete_force = (\<lambda>s c i. (Inr (), s((c, i) := None))), en_restore = (\<lambda>s c i. (Inl ''no record'', s)),
     en_query = (\<lambda>s q. Inr []), en_aggregate = (\<lambda>s q. Inr []), en_list_collections = (\<lambda>s. Inr []),
     en_restore_available = (\<lambda>s c. Inr []), en_delete_queue = (\<lambda>s c. Inr []), en_sweep_now = (\<lambda>s. (Inr 0, s)),
     en_relocate = (\<lambda>s a b ids. (Inl ''relocate: unsupported'', s)), en_load = (\<lambda>s c. (Inr (), s)), en_unload = (\<lambda>s c. (Inr (), s)),
     en_unloaded = (\<lambda>s. []), en_create_index = (\<lambda>s c f. (Inr (), s)), en_create_composite = (\<lambda>s c fs. (Inr (), s)),
     en_create_fts = (\<lambda>s c f. (Inr (), s)), en_create_vector = (\<lambda>s c f n m. (Inr (), s)),
     en_create_traverse = (\<lambda>s c. (Inr (), s)), en_create_edge = (\<lambda>s c. (Inr (), s)),
     en_list_indexes = (\<lambda>s c. \<lparr>hl_simple = [], hl_secondary = [], hl_fts = [], hl_composite = [], hl_vector = [], hl_traverse = []\<rparr>),
     en_find_paths = (\<lambda>s c i t. Inr []), en_vector_metric = (\<lambda>s c f. None), en_find_near = (\<lambda>s c f q k. Inr []),
     en_tx_get = (\<lambda>s c i. Inr (s (c, i))),
     en_commit = (\<lambda>s calls. if list_all (call_holds s) calls then (Inr (), replay calls s) else (Inl ''conflict'', s)),
     en_to_json = (\<lambda>h. JObj (map (\<lambda>(k, v). (k, value_json v)) h)),
     en_encode = (\<lambda>v. []), en_decode = (\<lambda>b. None), en_distance = vector_distance, en_print = (\<lambda>v. ''?'')\<rparr>"

interpretation hkmap: hako_engine map_engine "\<lambda>s. s" "\<lambda>_. True"
  by unfold_locales (auto simp: map_engine_def reads_hold_all split: if_splits)

section \<open>Properties\<close>


text \<open>
  C26. A transaction whose commit succeeds returns and stores what its operations do one after the
  other on the documents it commits on, whatever other tasks committed while it ran; one that fails
  changes no document.
\<close>

theorem hako_transaction_serial:
  assumes "hako_engine E kept I" "I (hk_inner d0)" "kept (hk_inner d0) = (\<lambda>_. None)" "hako_reach E kept I d0 d"
    and "\<forall>p \<in> set ops. op_fits d p" "hako_run_transaction E V d ops = (r, d')"
  shows "case r of Inl e \<Rightarrow> \<forall>c i. hako_get E (hk_inner d') c i = hako_get E (hk_inner d) c i
    | Inr xs \<Rightarrow> spec_tx (user_docs (held E kept d)) ops = Some (xs, user_docs (held E kept d'))"
proof -
  have ok: "hako_ok E kept I d"
    by (rule hako_engine.reach_ok [OF assms(1,4)]) (rule hako_engine.empty_ok [OF assms(1-3)])
  note run = hako_engine.run_ok [OF assms(1) ok assms(5,6)]
  then have "I (hk_inner d)" "I (hk_inner d')" using ok by (simp_all add: hako_ok_def)
  then show ?thesis using run hako_engine.get_docs [OF assms(1)] by (auto simp: docs_of_def split: sum.splits)
qed

text \<open>
  C27. What a successful write answers is what the next read returns, to the last value, for documents
  of values the engine has; a plain PUT stores the body it was given, and no other document of any
  collection of the clients changes.
\<close>

theorem hako_set_comes_back:
  assumes "hako_engine E kept I" "I (hk_inner d0)" "kept (hk_inner d0) = (\<lambda>_. None)" "hako_reach E kept I d0 d"
    and "unreserved c" "fits (vector_fields d c) x" "merge \<longrightarrow> seen E kept I d V" "hako_set E V d c i x merge = (Inr y, d')"
  shows "hako_get E (hk_inner d') c i = Inr (Some y) \<and> d_id y = i \<and> (\<not> merge \<longrightarrow> d_data y = d_data x)
    \<and> (\<forall>c' j. unreserved c' \<longrightarrow> (c', j) \<noteq> (c, i) \<longrightarrow> hako_get E (hk_inner d') c' j = hako_get E (hk_inner d) c' j)"
proof -
  have ok: "hako_ok E kept I d"
    by (rule hako_engine.reach_ok [OF assms(1,4)]) (rule hako_engine.empty_ok [OF assms(1-3)])
  note set = hako_engine.set_ok [OF assms(1) ok assms(5-8)]
  then have u: "user_docs (held E kept d') = (user_docs (held E kept d))((c, i) := Some y)" by simp
  have at: "held E kept d' (c', j) = (if (c', j) = (c, i) then Some y else held E kept d (c', j))" if "unreserved c'" for c' j
    using fun_cong [OF u, of "(c', j)"] that by (auto simp: user_docs_def)
  have "I (hk_inner d)" "I (hk_inner d')" using ok set by (simp_all add: hako_ok_def)
  then show ?thesis using set assms(5) at hako_engine.get_docs [OF assms(1)] by auto
qed

section \<open>A database with a unique field\<close>

definition demo_hako :: "hk_map hako_db" where
  "demo_hako = \<lparr>hk_inner = (\<lambda>_. None), hk_unique = [(''users'', [''email''])], hk_vectors = []\<rparr>"

definition demo_user :: "string \<Rightarrow> doc" where
  "demo_user i = \<lparr>d_id = i, d_data = [(''email'', JStr ''x'')]\<rparr>"

definition demo_hako_one :: "hk_map hako_db" where
  "demo_hako_one = snd (hako_set map_engine (\<lambda>_. hk_inner demo_hako) demo_hako ''users'' ''a'' (demo_user ''a'') False)"

lemma demo_user_fits: "fits (vector_fields demo_hako c) (demo_user i)"
  by (simp add: fits_def vector_fields_def demo_hako_def demo_user_def dict_ok_def)

lemma demo_unreserved: "unreserved ''users''"
  by (simp add: unreserved_def starts_with_def)

lemma demo_hako_set: "fst (hako_set map_engine (\<lambda>_. hk_inner demo_hako) demo_hako ''users'' ''a'' (demo_user ''a'') False) = Inr (demo_user ''a'')"
  by code_simp

lemma demo_hako_taken: "fst (hako_set map_engine (\<lambda>_. hk_inner demo_hako_one) demo_hako_one ''users'' ''b'' (demo_user ''b'') False) = Inl AlreadyExists"
  by code_simp

lemma demo_hako_get: "hako_get map_engine (hk_inner demo_hako_one) ''users'' ''a'' = Inr (Some (demo_user ''a''))"
  by code_simp

lemma demo_hako_email: "''email'' \<in> set (unique_fields demo_hako_one ''users'')" "field_key map_engine (demo_user ''a'') ''email'' = Some ''s:x''"
  by code_simp+

lemma demo_set_pair: "hako_set map_engine (\<lambda>_. hk_inner demo_hako) demo_hako ''users'' ''a'' (demo_user ''a'') False = (Inr (demo_user ''a''), demo_hako_one)"
  by (rule prod_eqI) (simp_all add: demo_hako_set demo_hako_one_def)

lemma demo_seen: "seen map_engine (\<lambda>s. s) (\<lambda>_. True) demo_hako (\<lambda>_. hk_inner demo_hako)"
  by (simp add: seen_def all_fit_def docs_of_def demo_hako_def)

lemma demo_empty: "(\<lambda>s. s) (hk_inner demo_hako) = (\<lambda>_. None)"
  by (simp add: demo_hako_def)

lemma demo_hako_reach: "hako_reach map_engine (\<lambda>s. s) (\<lambda>_. True) demo_hako demo_hako_one"
  by (rule hako_reach.set [OF hako_reach.start demo_unreserved demo_user_fits demo_seen demo_set_pair])


lemma demo_tx_runs: "case fst (hako_run_transaction map_engine (\<lambda>_. hk_inner demo_hako) demo_hako [demo_put ''a'' (jint 1), demo_put ''a'' (jint 2)]) of
    Inl e \<Rightarrow> False | Inr xs \<Rightarrow> length xs = 2"
  by code_simp

lemma hako_transaction_serial_witness:
  "\<exists>xs d'. hako_run_transaction map_engine (\<lambda>_. hk_inner demo_hako) demo_hako [demo_put ''a'' (jint 1), demo_put ''a'' (jint 2)] = (Inr xs, d')
     \<and> spec_tx (\<lambda>_. None) [demo_put ''a'' (jint 1), demo_put ''a'' (jint 2)] = Some (xs, user_docs (held map_engine (\<lambda>s. s) d'))"
proof -
  let ?ops = "[demo_put ''a'' (jint 1), demo_put ''a'' (jint 2)]"
  obtain r d' where r: "hako_run_transaction map_engine (\<lambda>_. hk_inner demo_hako) demo_hako ?ops = (r, d')" by force
  obtain xs where xs: "r = Inr xs" using demo_tx_runs r by (cases r) auto
  have f: "\<forall>p \<in> set ?ops. op_fits demo_hako p"
    by (simp add: op_fits_def demo_put_def unreserved_def starts_with_def fits_def vector_fields_def demo_hako_def dict_ok_def)
  have e: "user_docs (held map_engine (\<lambda>s. s) demo_hako) = (\<lambda>_. None)"
    by (auto simp: user_docs_def docs_of_def demo_hako_def fun_eq_iff)
  show ?thesis
    using hako_transaction_serial [OF hkmap.hako_engine_axioms _ demo_empty hako_reach.start f r] r by (simp add: xs e)
qed

lemma hako_set_comes_back_witness:
  "hako_get map_engine (hk_inner demo_hako_one) ''users'' ''a'' = Inr (Some (demo_user ''a''))
     \<and> hako_get map_engine (hk_inner demo_hako_one) ''users'' ''b'' = hako_get map_engine (hk_inner demo_hako) ''users'' ''b''"
  using hako_set_comes_back [OF hkmap.hako_engine_axioms _ demo_empty hako_reach.start demo_unreserved demo_user_fits _ demo_set_pair] demo_unreserved
  by simp

section \<open>What the driver does not do\<close>

text \<open>A second unique field of a collection takes the place of the first: its values are no longer checked.\<close>

lemma second_unique_replaces:
  "case hako_create_index map_engine demo_hako ''users'' \<lparr>ix_name = None, ix_fields = [''login''], ix_unique = True, ix_kind = Simple\<rparr> of
     (Inr _, d) \<Rightarrow> unique_fields demo_hako ''users'' = [''email''] \<and> unique_fields d ''users'' = [''login''] | _ \<Rightarrow> False"
  by code_simp

text \<open>Declaring a field unique looks at no document: two that have the same value stay, and nothing is claimed for them.\<close>

definition two_same :: "hk_map hako_db" where
  "two_same = (let none = demo_hako\<lparr>hk_unique := []\<rparr>;
     one = snd (hako_set map_engine (\<lambda>_. hk_inner none) none ''users'' ''a'' (demo_user ''a'') False)
   in snd (hako_set map_engine (\<lambda>_. hk_inner one) one ''users'' ''b'' (demo_user ''b'') False))"

lemma existing_duplicates_stay:
  "case hako_create_index map_engine two_same ''users'' \<lparr>ix_name = None, ix_fields = [''email''], ix_unique = True, ix_kind = Simple\<rparr> of
     (Inr _, d) \<Rightarrow> unique_fields d ''users'' = [''email'']
       \<and> hako_get map_engine (hk_inner d) ''users'' ''a'' = Inr (Some (demo_user ''a''))
       \<and> hako_get map_engine (hk_inner d) ''users'' ''b'' = Inr (Some (demo_user ''b''))
       \<and> fst (hako_set map_engine (\<lambda>_. hk_inner d) d ''users'' ''c'' (demo_user ''c'') False) = Inr (demo_user ''c'')
   | _ \<Rightarrow> False"
  by code_simp

text \<open>
  Restoring a document is left to the engine alone: the claims that its removal gave up are not
  taken again, so its values may be those of another document by then.
\<close>

lemma restore_claims_nothing:
  "hako_restore E d c i = (Inr x, d') \<Longrightarrow> hk_inner d' = snd (en_restore E (hk_inner d) c i) \<and> hk_unique d' = hk_unique d"
  by (auto simp: hako_restore_def split: sum.splits prod.splits if_splits option.splits)

text \<open>An object with a reference is stored as the reference: its other members are gone.\<close>

lemma reference_drops_members:
  "json_to_value (JObj [(''__ref__'', JStr ''a/b''), (''note'', JStr ''kept?'')]) = json_to_value (JObj [(''__ref__'', JStr ''a/b'')])"
  by code_simp

text \<open>A PATCH outside of unique collections reads and writes in two steps: of two at the same time, one is lost.\<close>

lemma concurrent_patch_lost:
  "let none = demo_hako\<lparr>hk_unique := []\<rparr>;
       one = snd (hako_set map_engine (\<lambda>_. hk_inner none) none ''posts'' ''p'' \<lparr>d_id = ''p'', d_data = [(''a'', JBool True)]\<rparr> True);
       two = snd (hako_set map_engine (\<lambda>_. hk_inner none) one ''posts'' ''p'' \<lparr>d_id = ''p'', d_data = [(''b'', JBool True)]\<rparr> True)
   in hako_get map_engine (hk_inner two) ''posts'' ''p'' = Inr (Some \<lparr>d_id = ''p'', d_data = [(''b'', JBool True)]\<rparr>)"
  by code_simp

text \<open>So does an insert: of two with one id, both are answered with success, and the later one stays.\<close>

lemma concurrent_insert_overwrites:
  "let none = demo_hako\<lparr>hk_unique := []\<rparr>;
       (r1, one) = hako_insert map_engine ''f'' (\<lambda>_. hk_inner none) none ''posts'' \<lparr>d_id = ''p'', d_data = [(''a'', JBool True)]\<rparr>;
       (r2, two) = hako_insert map_engine ''f'' (\<lambda>_. hk_inner none) one ''posts'' \<lparr>d_id = ''p'', d_data = [(''b'', JBool True)]\<rparr>
   in r1 \<noteq> Inl AlreadyExists \<and> r2 \<noteq> Inl AlreadyExists
     \<and> hako_get map_engine (hk_inner two) ''posts'' ''p'' = Inr (Some \<lparr>d_id = ''p'', d_data = [(''b'', JBool True)]\<rparr>)"
  by code_simp

end
